(* ===== verification/Prelude.thy ===== *)
theory Prelude
  imports Main "HOL-Library.Multiset" "HOL-Library.List_Lexorder" "HOL-Library.Char_ord"
begin

text \<open>
  The shared vocabulary of the RealChat services: Go errors (sentinels, \<open>fmt.Errorf\<close> wrapping with
  \<open>%w\<close>, gRPC status errors), the string routines of the Go standard library that the sources call,
  and association lists, which stand for Go maps and for SQL tables with a primary key.
  A Go map is an association list with distinct keys: the list order is the iteration order of one
  run, so statements about what a \<open>range\<close> loop produces are made about sets or multisets.
\<close>

named_theorems go_simps \<open>unfolding rules of the monadic combinators\<close>

section \<open>Go errors\<close>

datatype code =
    NotFound | PermissionDenied | InvalidArgument | FailedPrecondition | Internal
  | Unauthenticated | AlreadyExists | Unavailable | DeadlineExceeded | OtherCode nat

text \<open>
  \<open>Domain e\<close> is a sentinel of a service's \<open>domain\<close> package, \<open>Plain t\<close> an opaque error with text
  \<open>t\<close> (\<open>errors.New\<close>, or an error of a driver), \<open>Wrapf p e\<close> is \<open>fmt.Errorf(p + ": %w", e)\<close> and
  \<open>Status c m\<close> is \<open>status.Error(c, m)\<close>.
\<close>

datatype 'e go_error =
    Domain 'e
  | Plain string
  | Wrapf string "'e go_error"
  | Status code string

fun errors_Is :: "'e go_error \<Rightarrow> 'e \<Rightarrow> bool" where
  "errors_Is (Domain d) e = (d = e)"
| "errors_Is (Plain t) e = False"
| "errors_Is (Wrapf p err) e = errors_Is err e"
| "errors_Is (Status c m) e = False"

fun err_text :: "('e \<Rightarrow> string) \<Rightarrow> 'e go_error \<Rightarrow> string" where
  "err_text txt (Domain d) = txt d"
| "err_text txt (Plain t) = t"
| "err_text txt (Wrapf p err) = p @ '': '' @ err_text txt err"
| "err_text txt (Status c m) = ''rpc error: '' @ m"

fun wraps_status :: "'e go_error \<Rightarrow> bool" where
  "wraps_status (Domain d) = False"
| "wraps_status (Plain t) = False"
| "wraps_status (Wrapf p err) = wraps_status err"
| "wraps_status (Status c m) = True"

section \<open>Strings\<close>

fun has_prefix :: "string \<Rightarrow> string \<Rightarrow> bool" where
  "has_prefix s [] = True"
| "has_prefix [] (c # cs) = False"
| "has_prefix (d # ds) (c # cs) = (d = c \<and> has_prefix ds cs)"

fun strings_Contains :: "string \<Rightarrow> string \<Rightarrow> bool" where
  "strings_Contains [] sub = (sub = [])"
| "strings_Contains (c # cs) sub = (has_prefix (c # cs) sub \<or> strings_Contains cs sub)"

lemma has_prefix_iff: "has_prefix s p \<longleftrightarrow> (\<exists>t. s = p @ t)"
  by (induction s p rule: has_prefix.induct) auto

lemma strings_Contains_iff: "strings_Contains s sub \<longleftrightarrow> (\<exists>a b. s = a @ sub @ b)"
proof (induction s)
  case Nil
  then show ?case by auto
next
  case (Cons c cs)
  show ?case
  proof
    assume "strings_Contains (c # cs) sub"
    then consider "\<exists>t. c # cs = sub @ t" | "\<exists>a b. cs = a @ sub @ b"
      using Cons.IH has_prefix_iff by auto
    then show "\<exists>a b. c # cs = a @ sub @ b"
    proof cases
      case 1
      then show ?thesis by (metis append_Nil)
    next
      case 2
      then show ?thesis by (metis append_Cons)
    qed
  next
    assume "\<exists>a b. c # cs = a @ sub @ b"
    then obtain a b where ab: "c # cs = a @ sub @ b" by blast
    show "strings_Contains (c # cs) sub"
    proof (cases a)
      case Nil
      with ab have "has_prefix (c # cs) sub" by (simp add: has_prefix_iff)
      then show ?thesis by simp
    next
      case (Cons x a')
      with ab Cons.IH show ?thesis by auto
    qed
  qed
qed

text \<open>Strings without a separator split uniquely at its first occurrence.\<close>

lemma split_at_first:
  assumes "a @ x # b = c @ x # d" and "x \<notin> set a" and "x \<notin> set c"
  shows "a = c \<and> b = d"
  using assms
proof (induction a arbitrary: c)
  case Nil
  then show ?case by (cases c) auto
next
  case (Cons y a)
  then show ?case by (cases c) auto
qed

section \<open>Association lists\<close>

text \<open>
  \<open>m[k] = v\<close> of a Go map keeps the place of an existing key; \<open>delete(m, k)\<close> drops it.
\<close>

fun map_put :: "'k \<Rightarrow> 'v \<Rightarrow> ('k \<times> 'v) list \<Rightarrow> ('k \<times> 'v) list" where
  "map_put k v [] = [(k, v)]"
| "map_put k v ((k', v') # m) = (if k' = k then (k, v) # m else (k', v') # map_put k v m)"

definition map_del :: "'k \<Rightarrow> ('k \<times> 'v) list \<Rightarrow> ('k \<times> 'v) list" where
  "map_del k m = filter (\<lambda>kv. fst kv \<noteq> k) m"

lemma map_of_map_put [simp]: "map_of (map_put k v m) = (map_of m)(k \<mapsto> v)"
  by (induction m) auto

lemma map_of_map_del [simp]: "map_of (map_del k m) = (map_of m)(k := None)"
  by (induction m) (auto simp: map_del_def)

lemma keys_map_put [simp]: "fst ` set (map_put k v m) = insert k (fst ` set m)"
  by (induction k v m rule: map_put.induct) auto

lemma keys_map_del [simp]: "fst ` set (map_del k m) = fst ` set m - {k}"
  by (auto simp: map_del_def)

lemma distinct_map_put [simp]: "distinct (map fst m) \<Longrightarrow> distinct (map fst (map_put k v m))"
proof (induction k v m rule: map_put.induct)
  case (2 k v k' v' m)
  then have "k' \<notin> fst ` set m" by simp
  then have "k' \<noteq> k \<Longrightarrow> k' \<notin> fst ` set (map_put k v m)" by simp
  with 2 show ?case by auto
qed simp

lemma distinct_map_filter_fst:
  "distinct (map f m) \<Longrightarrow> distinct (map f (filter p m))"
  by (simp add: distinct_map_filter)

lemma distinct_map_del [simp]: "distinct (map fst m) \<Longrightarrow> distinct (map fst (map_del k m))"
  unfolding map_del_def by (rule distinct_map_filter_fst)

lemma map_of_None_iff: "map_of m k = None \<longleftrightarrow> k \<notin> fst ` set m"
  by (rule map_of_eq_None_iff)

text \<open>The first row of a table that satisfies a condition.\<close>

lemma find_SomeD: "find p xs = Some x \<Longrightarrow> x \<in> set xs \<and> p x"
  by (auto simp: find_Some_iff in_set_conv_nth)

lemma find_None_conv: "find p xs = None \<longleftrightarrow> (\<forall>x \<in> set xs. \<not> p x)"
  by (auto simp: find_None_iff)

lemma find_unique:
  assumes "distinct (map f xs)" and "x \<in> set xs" and "f x = k"
  shows "find (\<lambda>y. f y = k) xs = Some x"
  using assms by (induction xs) (auto simp: image_iff)

lemma find_map_update:
  assumes "\<And>y. f (g y) = f y"
  shows "find (\<lambda>y. f y = k) (map g xs) = map_option g (find (\<lambda>y. f y = k) xs)"
  using assms by (induction xs) auto

end
