(* ===== verification/Contracts.thy ===== *)
theory Contracts
  imports Prelude
begin

text \<open>
  The protobuf contracts under \<^verbatim>\<open>contracts/\<close>: the messages and events the services exchange, and the
  wire codec. The generated code and the protobuf runtime are not modelled: \<open>codec\<close> is a parameter
  of every definition that marshals or unmarshals, over an arbitrary type \<open>'b\<close> of byte strings, and
  \<open>codec_ok\<close> states what the code relies on, that unmarshalling a marshalled message gives it back.
\<close>

text \<open>Protobuf enums are open: an unknown number is kept as such.\<close>

datatype pb_conv_type = CONVERSATION_TYPE_UNSPECIFIED | DIRECT | GROUP | CONVERSATION_TYPE_UNKNOWN int

datatype pb_role = PARTICIPANT_ROLE_UNSPECIFIED | MEMBER | ADMIN | PARTICIPANT_ROLE_UNKNOWN int

datatype event_type =
    EVENT_TYPE_UNSPECIFIED | EVENT_TYPE_CONVERSATION_CREATED | EVENT_TYPE_MEMBERSHIP_CHANGED
  | EVENT_TYPE_MESSAGE_SENT | EVENT_TYPE_MESSAGE_DELETED | EVENT_TYPE_READ_RECEIPT_UPDATED
  | EVENT_TYPE_PRESENCE_UPDATED | EVENT_TYPE_UNKNOWN int

datatype presence_status = PRESENCE_STATUS_UNSPECIFIED | PRESENCE_STATUS_ONLINE | PRESENCE_STATUS_OFFLINE

record pb_participant =
  pp_UserId :: string
  pp_Role :: pb_role

record pb_conversation =
  pc_ConversationId :: string
  pc_DisplayName :: string
  pc_AvatarUrl :: string
  pc_CreatedAt :: int
  pc_Type :: pb_conv_type
  pc_ParticipantUserIds :: "string list"
  pc_ParticipantsWithRoles :: "pb_participant list"

record pb_message =
  pm_MessageId :: string
  pm_ConversationId :: string
  pm_SenderUserId :: string
  pm_Sequence :: int
  pm_MessageType :: string
  pm_Content :: string
  pm_MetadataJson :: string
  pm_SentAt :: int
  pm_DeletedAt :: "int option"

record pb_get_conversation_response =
  gr_Conversation :: pb_conversation
  gr_ParticipantUserIds :: "string list"

text \<open>Embedded messages are pointers in Go; a nil one is \<open>None\<close>.\<close>

datatype pb_event =
    MessageSentEvent "pb_message option"
  | MessageDeletedEvent string string
  | ReadReceiptUpdatedEvent string string int
  | MembershipChangedEvent string string bool
  | ConversationCreatedEvent "pb_conversation option" "string list"
  | PresenceUpdateEvent string presence_status int

datatype 'b envelope =
  EventEnvelope (EventType: event_type) (SchemaVersion: int) (OccurredAt: int) (Payload: 'b)

record 'b codec =
  enc_event :: "pb_event \<Rightarrow> string + 'b"
  enc_env :: "'b envelope \<Rightarrow> string + 'b"
  dec_env :: "'b \<Rightarrow> string + 'b envelope"
  dec_sent :: "'b \<Rightarrow> string + pb_message option"
  dec_deleted :: "'b \<Rightarrow> string + (string \<times> string)"
  dec_receipt :: "'b \<Rightarrow> string + (string \<times> string \<times> int)"
  dec_membership :: "'b \<Rightarrow> string + (string \<times> string \<times> bool)"
  dec_created :: "'b \<Rightarrow> string + (pb_conversation option \<times> string list)"
  dec_presence :: "'b \<Rightarrow> string + (string \<times> presence_status \<times> int)"

definition codec_ok :: "'b codec \<Rightarrow> bool" where
  "codec_ok cd \<longleftrightarrow>
     (\<forall>env b. enc_env cd env = Inr b \<longrightarrow> dec_env cd b = Inr env)
     \<and> (\<forall>m b. enc_event cd (MessageSentEvent m) = Inr b \<longrightarrow> dec_sent cd b = Inr m)
     \<and> (\<forall>c i b. enc_event cd (MessageDeletedEvent c i) = Inr b \<longrightarrow> dec_deleted cd b = Inr (c, i))
     \<and> (\<forall>c u n b. enc_event cd (ReadReceiptUpdatedEvent c u n) = Inr b \<longrightarrow>
          dec_receipt cd b = Inr (c, u, n))
     \<and> (\<forall>c u a b. enc_event cd (MembershipChangedEvent c u a) = Inr b \<longrightarrow>
          dec_membership cd b = Inr (c, u, a))
     \<and> (\<forall>c us b. enc_event cd (ConversationCreatedEvent c us) = Inr b \<longrightarrow>
          dec_created cd b = Inr (c, us))
     \<and> (\<forall>u st n b. enc_event cd (PresenceUpdateEvent u st n) = Inr b \<longrightarrow>
          dec_presence cd b = Inr (u, st, n))"

text \<open>A concrete codec for evaluation: the wire carries the message itself.\<close>

datatype wire = WEvent pb_event | WEnv "wire envelope"

fun wire_env :: "wire \<Rightarrow> string + wire envelope" where
  "wire_env (WEnv e) = Inr e"
| "wire_env (WEvent e) = Inl ''proto: cannot parse invalid wire-format data''"

definition wire_case :: "(pb_event \<Rightarrow> 'a option) \<Rightarrow> wire \<Rightarrow> string + 'a" where
  "wire_case f w =
     (case w of
        WEvent e \<Rightarrow> (case f e of Some a \<Rightarrow> Inr a
          | None \<Rightarrow> Inl ''proto: cannot parse invalid wire-format data'')
      | WEnv e \<Rightarrow> Inl ''proto: cannot parse invalid wire-format data'')"

definition wire_codec :: "wire codec" where
  "wire_codec = \<lparr>
     enc_event = (\<lambda>e. Inr (WEvent e)),
     enc_env = (\<lambda>e. Inr (WEnv e)),
     dec_env = wire_env,
     dec_sent = wire_case (\<lambda>e. case e of MessageSentEvent m \<Rightarrow> Some m | _ \<Rightarrow> None),
     dec_deleted = wire_case (\<lambda>e. case e of MessageDeletedEvent c i \<Rightarrow> Some (c, i) | _ \<Rightarrow> None),
     dec_receipt = wire_case (\<lambda>e. case e of ReadReceiptUpdatedEvent c u n \<Rightarrow> Some (c, u, n) | _ \<Rightarrow> None),
     dec_membership = wire_case (\<lambda>e. case e of MembershipChangedEvent c u a \<Rightarrow> Some (c, u, a) | _ \<Rightarrow> None),
     dec_created = wire_case (\<lambda>e. case e of ConversationCreatedEvent c us \<Rightarrow> Some (c, us) | _ \<Rightarrow> None),
     dec_presence = wire_case (\<lambda>e. case e of PresenceUpdateEvent u st n \<Rightarrow> Some (u, st, n) | _ \<Rightarrow> None)\<rparr>"

lemma wire_codec_ok: "codec_ok wire_codec"
  by (simp add: codec_ok_def wire_codec_def wire_case_def)

end
