(* ===== verification/ConvDomain.thy ===== *)
theory ConvDomain
  imports Contracts
begin

text \<open>
  \<^verbatim>\<open>services/conversation/internal/domain\<close>: the conversation aggregate, its sentinel errors and its
  methods, and the membership rules its comment states (\<open>conv_wf\<close>).
\<close>

datatype conv_err =
    ErrInvalidMessage | ErrInvalidSequence | ErrMessageTooLarge | ErrNotParticipant | ErrNotAdmin
  | ErrDirectModification | ErrConversationNotFound | ErrMessageNotFound | ErrInvalidInput | ErrLastAdmin

fun conv_err_text :: "conv_err \<Rightarrow> string" where
  "conv_err_text ErrInvalidMessage = ''invalid message''"
| "conv_err_text ErrInvalidSequence = ''invalid sequence''"
| "conv_err_text ErrMessageTooLarge = ''message too large''"
| "conv_err_text ErrNotParticipant = ''user not participant''"
| "conv_err_text ErrNotAdmin = ''admin privileges required''"
| "conv_err_text ErrDirectModification = ''cannot modify direct conversation''"
| "conv_err_text ErrConversationNotFound = ''conversation not found''"
| "conv_err_text ErrMessageNotFound = ''message not found''"
| "conv_err_text ErrInvalidInput = ''invalid input''"
| "conv_err_text ErrLastAdmin = ''cannot remove last admin''"

text \<open>Go's \<open>ConversationType\<close> and \<open>Role\<close> are strings with named constants.\<close>

datatype ConversationType = ConversationDirect | ConversationGroup | OtherConversationType string

datatype Role = RoleMember | RoleAdmin | OtherRole string

record Participant =
  p_UserID :: string
  p_Role :: Role

record Conversation =
  c_ID :: string
  c_Type :: ConversationType
  c_DisplayName :: string
  c_AvatarURL :: string
  c_CreatedAt :: int
  c_Participants :: "(string \<times> Participant) list"

definition CanSend :: "Conversation \<Rightarrow> string \<Rightarrow> conv_err option" where
  "CanSend c userID =
     (case map_of (c_Participants c) userID of None \<Rightarrow> Some ErrNotParticipant | Some _ \<Rightarrow> None)"

definition is_admin :: "Conversation \<Rightarrow> string \<Rightarrow> bool" where
  "is_admin c u =
     (case map_of (c_Participants c) u of None \<Rightarrow> False | Some p \<Rightarrow> p_Role p = RoleAdmin)"

definition domain_AddParticipant ::
  "Conversation \<Rightarrow> string \<Rightarrow> string \<Rightarrow> conv_err + Conversation" where
  "domain_AddParticipant c requesterID userID =
     (if c_Type c \<noteq> ConversationGroup then Inl ErrDirectModification
      else if \<not> is_admin c requesterID then Inl ErrNotAdmin
      else Inr (c\<lparr>c_Participants :=
             map_put userID \<lparr>p_UserID = userID, p_Role = RoleMember\<rparr> (c_Participants c)\<rparr>))"

definition domain_RemoveParticipant ::
  "Conversation \<Rightarrow> string \<Rightarrow> string \<Rightarrow> conv_err + Conversation" where
  "domain_RemoveParticipant c requesterID targetID =
     (if c_Type c \<noteq> ConversationGroup then Inl ErrDirectModification
      else if \<not> is_admin c requesterID then Inl ErrNotAdmin
      else Inr (c\<lparr>c_Participants := map_del targetID (c_Participants c)\<rparr>))"

text \<open>The loop of \<open>RemoveParticipant\<close> that counts the admins of a conversation.\<close>

fun adminCount :: "(string \<times> Participant) list \<Rightarrow> nat" where
  "adminCount [] = 0"
| "adminCount ((u, p) # ps) = (if p_Role p = RoleAdmin then Suc (adminCount ps) else adminCount ps)"

text \<open>
  The invariants of the comment above \<open>type Conversation\<close>: a direct conversation has exactly two
  participants, a group at least one admin.
\<close>

definition conv_wf :: "Conversation \<Rightarrow> bool" where
  "conv_wf c \<longleftrightarrow>
     distinct (map fst (c_Participants c))
     \<and> (c_Type c = ConversationDirect \<longrightarrow> length (c_Participants c) = 2)
     \<and> (c_Type c = ConversationGroup \<longrightarrow> 1 \<le> adminCount (c_Participants c))"

lemma adminCount_filter: "adminCount ps = length (filter (\<lambda>(u, p). p_Role p = RoleAdmin) ps)"
  by (induction ps rule: adminCount.induct) auto

lemma adminCount_pos: "1 \<le> adminCount ps \<longleftrightarrow> (\<exists>(u, p) \<in> set ps. p_Role p = RoleAdmin)"
  by (induction ps rule: adminCount.induct) auto

text \<open>
  Removing a key lowers the count by one exactly when the key belonged to an admin.
\<close>

lemma adminCount_map_del:
  assumes "distinct (map fst ps)" and "map_of ps u = Some p"
  shows "adminCount (map_del u ps) =
    (if p_Role p = RoleAdmin then adminCount ps - 1 else adminCount ps)"
  using assms
proof (induction ps)
  case (Cons vq ps)
  obtain v q where vq: "vq = (v, q)" by fastforce
  show ?case
  proof (cases "v = u")
    case True
    with Cons.prems vq have "u \<notin> fst ` set ps" by simp
    then have "map_del u ps = ps" by (force simp: map_del_def filter_id_conv)
    with True Cons.prems vq show ?thesis by (simp add: map_del_def)
  next
    case False
    with Cons vq have ih: "adminCount (map_del u ps) =
        (if p_Role p = RoleAdmin then adminCount ps - 1 else adminCount ps)"
      by simp
    have "p_Role p = RoleAdmin \<Longrightarrow> 1 \<le> adminCount ps"
      unfolding adminCount_pos using Cons.prems vq False by (force dest: map_of_SomeD)
    with ih False vq show ?thesis by (auto simp: map_del_def)
  qed
qed simp

end
