(* ===== verification/SqlTx.thy ===== *)
theory SqlTx
  imports Prelude
begin

text \<open>
  Transactions: \<^verbatim>\<open>internal/tx/manager.go\<close> of the conversation and message services.
  A session holds the tables as the running code sees them (\<open>s_db\<close>), the state that no rollback
  undoes (\<open>s_world\<close>: the Redis cache, the other services behind gRPC), whether the transaction block
  has failed (\<open>s_aborted\<close>) and the outcomes the database driver will report (\<open>s_script\<close>): each
  \<open>BeginTx\<close>, statement and \<open>Commit\<close> takes one outcome from the list, and an empty list means that no
  further call fails. Theorems quantify over every script, so over every pattern of failures.
  After an error inside a transaction block PostgreSQL ignores every statement until the end of the
  block, and committing a failed block rolls it back and reports an error.
  \<open>s_now\<close> is the time that \<open>now()\<close> and \<open>time.Now()\<close> read.
\<close>

datatype outcome =
    Proceed
  | Fails string  \<comment> \<open>the call fails with this error text, without effect\<close>
  | Lost          \<comment> \<open>the connection is lost after the request was sent: a commit has taken effect\<close>

record ('d, 'w) sess =
  s_db :: 'd
  s_world :: 'w
  s_aborted :: bool
  s_script :: "outcome list"
  s_now :: int

type_synonym ('d, 'w, 'e, 'a) prog =
  "('d, 'w) sess \<Rightarrow> ('e go_error + 'a) \<times> ('d, 'w) sess"

abbreviation err_bad_conn :: string where
  "err_bad_conn \<equiv> ''driver: bad connection''"

abbreviation err_tx_aborted :: string where
  "err_tx_aborted \<equiv> ''pq: current transaction is aborted, commands ignored until end of transaction block''"

abbreviation err_failed_tx :: string where
  "err_failed_tx \<equiv> ''pq: Could not complete operation in a failed transaction''"

section \<open>Sequencing\<close>

definition ret :: "'a \<Rightarrow> ('d, 'w, 'e, 'a) prog" where
  "ret a s = (Inr a, s)"

definition throw :: "'e go_error \<Rightarrow> ('d, 'w, 'e, 'a) prog" where
  "throw e s = (Inl e, s)"

text \<open>\<open>x, err := m(); k\<close>, where \<open>k\<close> inspects the error itself.\<close>

definition attempt ::
  "('d, 'w, 'e, 'a) prog \<Rightarrow> ('e go_error + 'a \<Rightarrow> ('d, 'w, 'e, 'b) prog) \<Rightarrow> ('d, 'w, 'e, 'b) prog" where
  "attempt m k s = (case m s of (r, s') \<Rightarrow> k r s')"

text \<open>\<open>x, err := m(); if err != nil { return err }; k\<close>\<close>

definition bindE ::
  "('d, 'w, 'e, 'a) prog \<Rightarrow> ('a \<Rightarrow> ('d, 'w, 'e, 'b) prog) \<Rightarrow> ('d, 'w, 'e, 'b) prog" where
  "bindE m k = attempt m (\<lambda>r. case r of Inl e \<Rightarrow> throw e | Inr a \<Rightarrow> k a)"

text \<open>\<open>if err := m(); err != nil { return fmt.Errorf(p + ": %w", err) }\<close>\<close>

definition wrap_err :: "string \<Rightarrow> ('d, 'w, 'e, 'a) prog \<Rightarrow> ('d, 'w, 'e, 'a) prog" where
  "wrap_err p m = attempt m (\<lambda>r. case r of Inl e \<Rightarrow> throw (Wrapf p e) | Inr a \<Rightarrow> ret a)"

text \<open>A library call that fails with an error text or gives a value.\<close>

definition lift_res :: "string + 'a \<Rightarrow> ('d, 'w, 'e, 'a) prog" where
  "lift_res r = (case r of Inl t \<Rightarrow> throw (Plain t) | Inr a \<Rightarrow> ret a)"

lemma ret_eq [simp, go_simps]: "ret a s = (Inr a, s)"
  by (simp add: ret_def)

lemma throw_eq [simp, go_simps]: "throw e s = (Inl e, s)"
  by (simp add: throw_def)

lemma bindE_Inr_iff [go_simps]:
  "bindE m k s = (Inr b, t) \<longleftrightarrow> (\<exists>a s1. m s = (Inr a, s1) \<and> k a s1 = (Inr b, t))"
  by (auto simp: bindE_def attempt_def split: prod.splits sum.splits)

lemma bindE_Inl_iff:
  "bindE m k s = (Inl e, t) \<longleftrightarrow>
     m s = (Inl e, t) \<or> (\<exists>a s1. m s = (Inr a, s1) \<and> k a s1 = (Inl e, t))"
  by (auto simp: bindE_def attempt_def split: prod.splits sum.splits)

lemma bindE_Inr [simp]: "m s = (Inr a, s1) \<Longrightarrow> bindE m k s = k a s1"
  by (simp add: bindE_def attempt_def)

lemma bindE_Inl [simp]: "m s = (Inl e, s1) \<Longrightarrow> bindE m k s = (Inl e, s1)"
  by (simp add: bindE_def attempt_def)

lemma attempt_eq [simp]: "m s = (r, s1) \<Longrightarrow> attempt m k s = k r s1"
  by (simp add: attempt_def)

lemma wrap_err_Inr_iff [go_simps, simp]: "wrap_err p m s = (Inr a, t) \<longleftrightarrow> m s = (Inr a, t)"
  by (auto simp: wrap_err_def attempt_def split: prod.splits sum.splits)

lemma wrap_err_Inl [simp]: "m s = (Inl e, s1) \<Longrightarrow> wrap_err p m s = (Inl (Wrapf p e), s1)"
  by (simp add: wrap_err_def attempt_def)

lemma wrap_err_Inl_iff:
  "wrap_err p m s = (Inl e, t) \<longleftrightarrow> (\<exists>e'. m s = (Inl e', t) \<and> e = Wrapf p e')"
  by (auto simp: wrap_err_def attempt_def split: prod.splits sum.splits)

lemma lift_res_Inr_iff [go_simps, simp]: "lift_res r s = (Inr a, t) \<longleftrightarrow> r = Inr a \<and> t = s"
  by (auto simp: lift_res_def split: sum.splits)

lemma lift_res_simps [simp]:
  "lift_res (Inr a) s = (Inr a, s)"
  "lift_res (Inl t) s = (Inl (Plain t), s)"
  by (simp_all add: lift_res_def)

section \<open>Statements\<close>

definition take_outcome :: "('d, 'w) sess \<Rightarrow> outcome \<times> ('d, 'w) sess" where
  "take_outcome s = (case s_script s of [] \<Rightarrow> (Proceed, s) | oc # rest \<Rightarrow> (oc, s\<lparr>s_script := rest\<rparr>))"

text \<open>
  One statement sent through \<open>getter(tx)\<close>: \<open>tx\<close> says whether it runs in the transaction block.
  \<open>f\<close> is the statement's meaning on the tables, with the violated constraint as its error.
\<close>

definition stmt :: "bool \<Rightarrow> ('d \<Rightarrow> string + 'd \<times> 'a) \<Rightarrow> ('d, 'w, 'e, 'a) prog" where
  "stmt tx f s =
     (if tx \<and> s_aborted s then (Inl (Plain err_tx_aborted), s)
      else case take_outcome s of (oc, s1) \<Rightarrow>
        (case oc of
           Proceed \<Rightarrow>
             (case f (s_db s1) of
                Inl t \<Rightarrow> (Inl (Plain t), s1\<lparr>s_aborted := tx \<or> s_aborted s1\<rparr>)
              | Inr (d, a) \<Rightarrow> (Inr a, s1\<lparr>s_db := d\<rparr>))
         | Fails t \<Rightarrow> (Inl (Plain t), s1\<lparr>s_aborted := tx \<or> s_aborted s1\<rparr>)
         | Lost \<Rightarrow> (Inl (Plain err_bad_conn), s1\<lparr>s_aborted := tx \<or> s_aborted s1\<rparr>)))"

text \<open>A query that returns rows and changes nothing.\<close>

definition query :: "bool \<Rightarrow> ('d \<Rightarrow> 'a) \<Rightarrow> ('d, 'w, 'e, 'a) prog" where
  "query tx f = stmt tx (\<lambda>d. Inr (d, f d))"

text \<open>A call that acts on the world outside the database.\<close>

definition on_world :: "('w \<Rightarrow> ('e go_error + 'a) \<times> 'w) \<Rightarrow> ('d, 'w, 'e, 'a) prog" where
  "on_world f s = (case f (s_world s) of (r, w) \<Rightarrow> (r, s\<lparr>s_world := w\<rparr>))"

definition get_now :: "('d, 'w, 'e, int) prog" where
  "get_now s = (Inr (s_now s), s)"

lemma take_outcome_fields [simp]:
  "s_db (snd (take_outcome s)) = s_db s"
  "s_world (snd (take_outcome s)) = s_world s"
  "s_aborted (snd (take_outcome s)) = s_aborted s"
  "s_now (snd (take_outcome s)) = s_now s"
  by (simp_all add: take_outcome_def split: list.splits)

lemma take_outcome_eqD:
  assumes "take_outcome s = (oc, s1)"
  shows "s_db s1 = s_db s \<and> s_world s1 = s_world s \<and> s_aborted s1 = s_aborted s \<and> s_now s1 = s_now s"
  using assms take_outcome_fields [of s] by simp

text \<open>What a statement that succeeded did.\<close>

lemma stmt_InrD:
  assumes "stmt tx f s = (Inr a, t)"
  shows "f (s_db s) = Inr (s_db t, a) \<and> s_world t = s_world s \<and> s_aborted t = s_aborted s
    \<and> s_now t = s_now s \<and> \<not> (tx \<and> s_aborted s)"
proof -
  obtain oc s1 where oc: "take_outcome s = (oc, s1)" by fastforce
  note eq = take_outcome_eqD [OF oc]
  show ?thesis
    using assms eq by (auto simp: stmt_def oc split: if_splits outcome.splits sum.splits prod.splits)
qed

lemma stmt_InlD:
  assumes "stmt tx f s = (Inl e, t)"
  shows "s_db t = s_db s \<and> s_world t = s_world s \<and> s_now t = s_now s \<and> s_aborted t = (tx \<or> s_aborted s)
    \<and> (\<exists>msg. e = Plain msg)"
proof -
  obtain oc s1 where oc: "take_outcome s = (oc, s1)" by fastforce
  note eq = take_outcome_eqD [OF oc]
  show ?thesis
    using assms eq by (auto simp: stmt_def oc split: if_splits outcome.splits sum.splits prod.splits)
qed

lemma stmt_total_InrD:
  assumes "stmt tx (\<lambda>d. Inr (g d, h d)) s = (Inr a, t)"
  shows "s_db t = g (s_db s) \<and> a = h (s_db s) \<and> s_world t = s_world s \<and> s_aborted t = s_aborted s
    \<and> s_now t = s_now s \<and> \<not> (tx \<and> s_aborted s)"
  using stmt_InrD [OF assms] by auto

lemma query_InrD:
  assumes "query tx f s = (Inr a, t)"
  shows "f (s_db s) = a \<and> s_db t = s_db s \<and> s_world t = s_world s \<and> s_aborted t = s_aborted s
    \<and> s_now t = s_now s \<and> \<not> (tx \<and> s_aborted s)"
  using stmt_InrD [OF assms [unfolded query_def]] by auto

lemma query_InlD:
  assumes "query tx f s = (Inl e, t)"
  shows "s_db t = s_db s \<and> s_world t = s_world s \<and> s_now t = s_now s \<and> s_aborted t = (tx \<or> s_aborted s)
    \<and> (\<exists>msg. e = Plain msg)"
  using stmt_InlD [OF assms [unfolded query_def]] .

lemma on_world_InrD:
  assumes "on_world f s = (Inr a, t)"
  shows "f (s_world s) = (Inr a, s_world t) \<and> s_db t = s_db s \<and> s_aborted t = s_aborted s
    \<and> s_now t = s_now s"
  using assms by (auto simp: on_world_def split: prod.splits)

lemma get_now_eq [simp, go_simps]: "get_now s = (Inr (s_now s), s)"
  by (simp add: get_now_def)

text \<open>Statements of a block that has failed are ignored.\<close>

lemma stmt_aborted [simp]: "s_aborted s \<Longrightarrow> stmt True f s = (Inl (Plain err_tx_aborted), s)"
  by (simp add: stmt_def)

lemma query_aborted [simp]: "s_aborted s \<Longrightarrow> query True f s = (Inl (Plain err_tx_aborted), s)"
  by (simp add: query_def)

text \<open>With no failure pending, a statement outside a failed block does what its SQL says.\<close>

lemma stmt_ok:
  assumes "s_script s = []" and "\<not> (tx \<and> s_aborted s)"
  shows "stmt tx f s = (case f (s_db s) of
      Inl t \<Rightarrow> (Inl (Plain t), s\<lparr>s_aborted := tx \<or> s_aborted s\<rparr>)
    | Inr (d, a) \<Rightarrow> (Inr a, s\<lparr>s_db := d\<rparr>))"
  using assms by (auto simp: stmt_def take_outcome_def)

lemma query_ok:
  assumes "s_script s = []" and "\<not> (tx \<and> s_aborted s)"
  shows "query tx f s = (Inr (f (s_db s)), s)"
  using stmt_ok [OF assms, of "\<lambda>d. Inr (d, f d)"] by (simp add: query_def)

section \<open>The transaction manager\<close>

text \<open>\<open>isSerializationError\<close>: \<open>None\<close> is Go's nil error.\<close>

definition isSerializationError :: "('e \<Rightarrow> string) \<Rightarrow> 'e go_error option \<Rightarrow> bool" where
  "isSerializationError txt err =
     (case err of None \<Rightarrow> False | Some e \<Rightarrow> strings_Contains (err_text txt e) ''could not serialize'')"

definition maxRetries :: nat where
  "maxRetries = 5"

text \<open>\<open>tx.Rollback()\<close> undoes the block's statements; the world is not undone.\<close>

definition rollback :: "('d, 'w) sess \<Rightarrow> ('d, 'w) sess \<Rightarrow> ('d, 'w) sess" where
  "rollback s0 s1 = s1\<lparr>s_db := s_db s0, s_aborted := False\<rparr>"

definition commit :: "('d, 'w) sess \<Rightarrow> ('d, 'w) sess \<Rightarrow> 'e go_error option \<times> ('d, 'w) sess" where
  "commit s0 s1 =
     (if s_aborted s1 then (Some (Plain err_failed_tx), rollback s0 s1)
      else case take_outcome s1 of (oc, s2) \<Rightarrow>
        (case oc of
           Proceed \<Rightarrow> (None, s2)
         | Fails t \<Rightarrow> (Some (Plain t), rollback s0 s2)
         | Lost \<Rightarrow> (Some (Plain err_bad_conn), s2)))"

fun WithTx_loop ::
  "('e \<Rightarrow> string) \<Rightarrow> nat \<Rightarrow> ('d, 'w, 'e, 'a) prog \<Rightarrow> ('d, 'w, 'e, 'a) prog" where
  "WithTx_loop txt 0 fn s = (Inl (Plain ''transaction retry exhausted''), s)"
| "WithTx_loop txt (Suc i) fn s =
     (case take_outcome s of (oc, s0) \<Rightarrow>
       (case oc of
          Fails t \<Rightarrow> (Inl (Plain t), s0)
        | Lost \<Rightarrow> (Inl (Plain err_bad_conn), s0)
        | Proceed \<Rightarrow>
            (case fn (s0\<lparr>s_aborted := False\<rparr>) of
               (Inl err, s1) \<Rightarrow>
                 (if isSerializationError txt (Some err)
                  then WithTx_loop txt i fn (rollback s0 s1)
                  else (Inl err, rollback s0 s1))
             | (Inr a, s1) \<Rightarrow>
                 (case commit s0 s1 of
                    (None, s2) \<Rightarrow> (Inr a, s2)
                  | (Some err, s2) \<Rightarrow>
                      (if isSerializationError txt (Some err)
                       then WithTx_loop txt i fn s2
                       else (Inl err, s2))))))"

definition WithTx :: "('e \<Rightarrow> string) \<Rightarrow> ('d, 'w, 'e, 'a) prog \<Rightarrow> ('d, 'w, 'e, 'a) prog" where
  "WithTx txt fn = WithTx_loop txt maxRetries fn"

declare WithTx_loop.simps(2) [simp del]

section \<open>What callers rely on\<close>

lemma rollback_fields [simp]:
  "s_db (rollback s0 s1) = s_db s0"
  "s_world (rollback s0 s1) = s_world s1"
  "s_aborted (rollback s0 s1) = False"
  by (simp_all add: rollback_def)

lemma bad_conn_not_serialization [simp]:
  "isSerializationError txt (Some (Plain err_bad_conn)) = False"
  by (simp add: isSerializationError_def)

lemma failed_tx_not_serialization [simp]:
  "isSerializationError txt (Some (Plain err_failed_tx)) = False"
  by (simp add: isSerializationError_def)

lemma commit_cases:
  assumes "commit s0 s1 = (err, t)"
  shows "(err = None \<and> \<not> s_aborted s1 \<and> s_db t = s_db s1 \<and> s_world t = s_world s1)
    \<or> (err = Some (Plain err_bad_conn) \<and> \<not> s_aborted s1 \<and> s_db t = s_db s1 \<and> s_world t = s_world s1)
    \<or> ((\<exists>x. err = Some (Plain x)) \<and> s_db t = s_db s0 \<and> s_world t = s_world s1)"
proof -
  obtain oc s2 where oc: "take_outcome s1 = (oc, s2)" by fastforce
  note eq = take_outcome_eqD [OF oc]
  show ?thesis
    using assms eq by (auto simp: commit_def oc split: if_splits outcome.splits)
qed

text \<open>
  A run of the callback whose effect the database keeps: it started from the tables the caller had,
  returned no error and left the block intact.
\<close>

definition committed ::
  "('d, 'w, 'e, 'a) prog \<Rightarrow> ('d, 'w) sess \<Rightarrow> 'a \<Rightarrow> ('d, 'w) sess \<Rightarrow> bool" where
  "committed fn s a t \<longleftrightarrow>
     (\<exists>s1 s2. s_db s1 = s_db s \<and> \<not> s_aborted s1 \<and> fn s1 = (Inr a, s2) \<and> \<not> s_aborted s2
       \<and> s_db t = s_db s2 \<and> s_world t = s_world s2)"

lemma committed_db_cong: "s_db s = s_db s' \<Longrightarrow> committed fn s a t = committed fn s' a t"
  by (simp add: committed_def)

lemma WithTx_loop_result:
  fixes fn :: "('d, 'w, 'e, 'a) prog"
  assumes "WithTx_loop txt n fn s = (r, t)"
  shows "(\<exists>a. r = Inr a \<and> committed fn s a t)
    \<or> (r = Inl (Plain err_bad_conn) \<and> (\<exists>a. committed fn s a t))
    \<or> (\<exists>e. r = Inl e \<and> s_db t = s_db s)"
  using assms
proof (induction n arbitrary: s)
  case 0
  then show ?case by auto
next
  case (Suc n)
  obtain oc s0 where oc: "take_outcome s = (oc, s0)" by fastforce
  note eq = take_outcome_eqD [OF oc]
  show ?case
  proof (cases oc)
    case Proceed
    obtain r1 s1 where body: "fn (s0\<lparr>s_aborted := False\<rparr>) = (r1, s1)" by fastforce
    show ?thesis
    proof (cases r1)
      case (Inl e)
      show ?thesis
      proof (cases "isSerializationError txt (Some e)")
        case True
        with Suc.prems oc Proceed body Inl have "WithTx_loop txt n fn (rollback s0 s1) = (r, t)"
          by (simp add: WithTx_loop.simps)
        from Suc.IH [OF this] show ?thesis
          using committed_db_cong [of "rollback s0 s1" s fn] eq by simp
      next
        case False
        with Suc.prems oc Proceed body Inl eq show ?thesis by (auto simp: WithTx_loop.simps)
      qed
    next
      case (Inr a)
      obtain err s2 where cm: "commit s0 s1 = (err :: 'e go_error option, s2)" by fastforce
      have keep: "\<not> s_aborted s1 \<Longrightarrow> s_db s2 = s_db s1 \<Longrightarrow> s_world s2 = s_world s1 \<Longrightarrow>
          committed fn s a s2"
        unfolding committed_def using body Inr eq
        by (intro exI [of _ "s0\<lparr>s_aborted := False\<rparr>"] exI [of _ s1]) simp
      from commit_cases [OF cm] consider
          (kept) "err = None" "committed fn s a s2"
        | (lost) "err = Some (Plain err_bad_conn)" "committed fn s a s2"
        | (undone) x where "err = Some (Plain x)" "s_db s2 = s_db s"
        using keep eq by auto
      then show ?thesis
      proof cases
        case kept
        with Suc.prems oc Proceed body Inr cm show ?thesis by (auto simp: WithTx_loop.simps)
      next
        case lost
        with Suc.prems oc Proceed body Inr cm show ?thesis by (auto simp: WithTx_loop.simps)
      next
        case undone
        show ?thesis
        proof (cases "isSerializationError txt (Some (Plain x))")
          case True
          with Suc.prems oc Proceed body Inr cm undone have "WithTx_loop txt n fn s2 = (r, t)"
            by (simp add: WithTx_loop.simps)
          from Suc.IH [OF this] show ?thesis
            using committed_db_cong [of s2 s fn] undone by simp
        next
          case False
          with Suc.prems oc Proceed body Inr cm undone show ?thesis
            by (auto simp: WithTx_loop.simps)
        qed
      qed
    qed
  next
    case (Fails x2)
    with Suc.prems oc eq show ?thesis by (auto simp: WithTx_loop.simps)
  next
    case Lost
    with Suc.prems oc eq show ?thesis by (auto simp: WithTx_loop.simps)
  qed
qed

text \<open>
  The interface \<open>Transactor\<close> of \<^verbatim>\<open>internal/tx/transactor.go\<close>: a transactor either keeps the whole
  effect of one successful run of the callback or leaves the tables as they were.
\<close>

locale transactor =
  fixes withtx :: "('d, 'w, 'e, 'a) prog \<Rightarrow> ('d, 'w, 'e, 'a) prog"
  assumes withtx_result:
    "withtx fn s = (r, t) \<Longrightarrow>
       (\<exists>a. r = Inr a \<and> committed fn s a t)
       \<or> (r = Inl (Plain err_bad_conn) \<and> (\<exists>a. committed fn s a t))
       \<or> (\<exists>e. r = Inl e \<and> s_db t = s_db s)"
begin

lemma success:
  assumes "withtx fn s = (Inr a, t)"
  shows "committed fn s a t"
  using withtx_result [OF assms] by auto

lemma all_or_nothing:
  "s_db (snd (withtx fn s)) = s_db s \<or> (\<exists>a. committed fn s a (snd (withtx fn s)))"
  using withtx_result [of fn s "fst (withtx fn s)" "snd (withtx fn s)"] by auto

text \<open>An invariant of the tables holds after the call when every successful run of the callback keeps it.\<close>

lemma preserves:
  assumes body: "\<And>s1 a s2. I (s_db s1) \<Longrightarrow> \<not> s_aborted s1 \<Longrightarrow> fn s1 = (Inr a, s2) \<Longrightarrow>
      \<not> s_aborted s2 \<Longrightarrow> I (s_db s2)"
    and start: "I (s_db s)"
  shows "I (s_db (snd (withtx fn s)))"
proof -
  from all_or_nothing [of fn s] show ?thesis
  proof
    assume "s_db (snd (withtx fn s)) = s_db s"
    with start show ?thesis by simp
  next
    assume "\<exists>a. committed fn s a (snd (withtx fn s))"
    then obtain a s1 s2 where run: "s_db s1 = s_db s" "\<not> s_aborted s1" "fn s1 = (Inr a, s2)"
      "\<not> s_aborted s2" "s_db (snd (withtx fn s)) = s_db s2"
      unfolding committed_def by blast
    with start body [of s1 a s2] show ?thesis by simp
  qed
qed

text \<open>The same for a relation between the tables before and after that holds of equal tables.\<close>

lemma relates:
  assumes body: "\<And>s1 a s2. s_db s1 = s_db s \<Longrightarrow> \<not> s_aborted s1 \<Longrightarrow> fn s1 = (Inr a, s2) \<Longrightarrow>
      \<not> s_aborted s2 \<Longrightarrow> R (s_db s) (s_db s2)"
    and same: "R (s_db s) (s_db s)"
  shows "R (s_db s) (s_db (snd (withtx fn s)))"
proof -
  from all_or_nothing [of fn s] show ?thesis
  proof
    assume "s_db (snd (withtx fn s)) = s_db s"
    with same show ?thesis by simp
  next
    assume "\<exists>a. committed fn s a (snd (withtx fn s))"
    then show ?thesis unfolding committed_def using body by metis
  qed
qed

end

interpretation txm: transactor "WithTx etext" for etext
  unfolding WithTx_def by unfold_locales (rule WithTx_loop_result)

section \<open>Programs that read\<close>

text \<open>Programs that only read the tables, and do not bring a failed block back to life.\<close>

definition only_reads :: "('d, 'w, 'e, 'a) prog \<Rightarrow> bool" where
  "only_reads m \<longleftrightarrow> (\<forall>s r t. m s = (r, t) \<longrightarrow> s_db t = s_db s \<and> (s_aborted s \<longrightarrow> s_aborted t))"

lemma only_readsD:
  assumes "only_reads m" and "m s = (r, t)"
  shows "s_db t = s_db s" and "s_aborted s \<Longrightarrow> s_aborted t"
  using assms unfolding only_reads_def by blast+

lemma only_reads_ret [simp, intro]: "only_reads (ret a)"
  and only_reads_throw [simp, intro]: "only_reads (throw e)"
  by (simp_all add: only_reads_def)

lemma only_reads_query [simp, intro]: "only_reads (query tx f :: ('d, 'w, 'e, 'a) prog)"
  unfolding only_reads_def
proof (intro allI impI)
  fix s :: "('d, 'w) sess" and t and r :: "'e go_error + 'a"
  assume run: "query tx f s = (r, t)"
  show "s_db t = s_db s \<and> (s_aborted s \<longrightarrow> s_aborted t)"
  proof (cases r)
    case (Inl e)
    with run show ?thesis using query_InlD by fastforce
  next
    case (Inr a)
    with run show ?thesis using query_InrD by fastforce
  qed
qed

lemma only_reads_on_world [simp, intro]: "only_reads (on_world f)"
  by (auto simp: only_reads_def on_world_def split: prod.splits)

lemma only_reads_attempt [intro]:
  assumes "only_reads m" and "\<And>r. only_reads (k r)"
  shows "only_reads (attempt m k)"
  unfolding only_reads_def
proof (intro allI impI)
  fix s r t assume run: "attempt m k s = (r, t)"
  obtain r1 s1 where m: "m s = (r1, s1)" by fastforce
  with run have "k r1 s1 = (r, t)" by simp
  with only_readsD [OF assms(1) m] only_readsD [OF assms(2)]
  show "s_db t = s_db s \<and> (s_aborted s \<longrightarrow> s_aborted t)" by metis
qed

lemma only_reads_bindE [intro]:
  assumes "only_reads m" and "\<And>a. only_reads (k a)"
  shows "only_reads (bindE m k)"
  unfolding bindE_def by (rule only_reads_attempt [OF assms(1)]) (auto split: sum.splits intro: assms(2))

lemma only_reads_case_sum:
  "(\<And>a. only_reads (f a)) \<Longrightarrow> (\<And>b. only_reads (g b)) \<Longrightarrow> only_reads (case r of Inl a \<Rightarrow> f a | Inr b \<Rightarrow> g b)"
  by (cases r) auto

lemma only_reads_case_option:
  "only_reads f \<Longrightarrow> (\<And>b. only_reads (g b)) \<Longrightarrow> only_reads (case r of None \<Rightarrow> f | Some b \<Rightarrow> g b)"
  by (cases r) auto

lemma only_reads_if: "only_reads f \<Longrightarrow> only_reads g \<Longrightarrow> only_reads (if c then f else g)"
  by simp

lemmas only_reads_rules = only_reads_ret only_reads_throw only_reads_query only_reads_on_world
  only_reads_case_sum only_reads_case_option only_reads_if only_reads_attempt only_reads_bindE

section \<open>Retries\<close>

text \<open>What callbacks may do to the world outside is repeated at most \<open>maxRetries\<close> times.\<close>

lemma WithTx_loop_world_bound:
  fixes \<mu> :: "'w \<Rightarrow> nat" and fn :: "('d, 'w, 'e, 'a) prog"
  assumes "\<And>s1. \<mu> (s_world (snd (fn s1))) \<le> \<mu> (s_world s1) + k"
  shows "\<mu> (s_world (snd (WithTx_loop txt n fn s))) \<le> \<mu> (s_world s) + n * k"
proof (induction n arbitrary: s)
  case (Suc n)
  obtain oc s0 where oc: "take_outcome s = (oc, s0)" by fastforce
  note eq = take_outcome_eqD [OF oc]
  obtain r1 s1 where body: "fn (s0\<lparr>s_aborted := False\<rparr>) = (r1, s1)" by fastforce
  have one: "\<mu> (s_world s1) \<le> \<mu> (s_world s) + k"
    using assms [of "s0\<lparr>s_aborted := False\<rparr>"] body eq by simp
  obtain err s2 where cm: "commit s0 s1 = (err :: 'e go_error option, s2)" by fastforce
  have w2: "s_world s2 = s_world s1" using commit_cases [OF cm] by auto
  have "\<mu> (s_world (snd (WithTx_loop txt n fn (rollback s0 s1)))) \<le> \<mu> (s_world s) + Suc n * k"
    using Suc.IH [of "rollback s0 s1"] one by simp
  moreover have "\<mu> (s_world (snd (WithTx_loop txt n fn s2))) \<le> \<mu> (s_world s) + Suc n * k"
    using Suc.IH [of s2] one w2 by simp
  ultimately show ?case
    using one w2 eq oc body cm
    by (cases oc; cases r1; cases err) (auto simp: WithTx_loop.simps)
qed simp

text \<open>With no failure pending, a callback that succeeds is run once and kept.\<close>

lemma WithTx_ok:
  assumes "s_script s = []" and "fn (s\<lparr>s_aborted := False\<rparr>) = (Inr a, s1)"
    and "s_script s1 = []" and "\<not> s_aborted s1"
  shows "WithTx txt fn s = (Inr a, s1)"
  using assms
  by (simp add: WithTx_def maxRetries_def numeral_eq_Suc WithTx_loop.simps take_outcome_def commit_def)

lemma WithTx_err:
  assumes "s_script s = []" and "fn (s\<lparr>s_aborted := False\<rparr>) = (Inl e, s1)"
    and "\<not> isSerializationError txt (Some e)"
  shows "WithTx txt fn s = (Inl e, rollback s s1)"
  using assms
  by (simp add: WithTx_def maxRetries_def numeral_eq_Suc WithTx_loop.simps take_outcome_def)

section \<open>Sessions\<close>

text \<open>The session that serves one call, and a call whose answer is put under a constructor.\<close>

definition session :: "'d \<Rightarrow> 'w \<Rightarrow> outcome list \<Rightarrow> int \<Rightarrow> ('d, 'w) sess" where
  "session d w script now = \<lparr>s_db = d, s_world = w, s_aborted = False, s_script = script, s_now = now\<rparr>"

lemma session_fields [simp]:
  "s_db (session d w sc now) = d" "s_world (session d w sc now) = w"
  "s_aborted (session d w sc now) = False" "s_script (session d w sc now) = sc" "s_now (session d w sc now) = now"
  by (simp_all add: session_def)

definition answer :: "('a \<Rightarrow> 'c) \<Rightarrow> ('d, 'w, 'e, 'a) prog \<Rightarrow> ('d, 'w, 'e, 'c) prog" where
  "answer f m = bindE m (\<lambda>a. ret (f a))"

lemma answer_snd [simp]: "snd (answer f m s) = snd (m s)"
  by (cases "m s"; cases "fst (m s)") (auto simp: answer_def bindE_def attempt_def)

lemma answer_Inr_iff: "answer f m s = (Inr b, t) \<longleftrightarrow> (\<exists>a. m s = (Inr a, t) \<and> b = f a)"
  by (auto simp: answer_def bindE_Inr_iff)

end
