(* ===== verification/RedisClient.thy ===== *)
theory RedisClient
  imports Prelude
begin

text \<open>
  The three commands of the Redis client that the caches of the conversation and profile services
  use. The client is a parameter of what uses it: \<open>Get\<close> answers a value, the error of a missing key or
  another error; the others report an error or none.
\<close>

datatype redis_err = RedisNil | RedisErr string

record ('w, 'b) redis =
  rd_Get :: "string \<Rightarrow> 'w \<Rightarrow> (redis_err + 'b) \<times> 'w"
  rd_Set :: "string \<Rightarrow> 'b \<Rightarrow> int \<Rightarrow> 'w \<Rightarrow> string option \<times> 'w"
  rd_Del :: "string \<Rightarrow> 'w \<Rightarrow> string option \<times> 'w"

end
