(* ===== verification/ConvRepo.thy ===== *)
theory ConvRepo
  imports ConvDomain SqlTx RedisClient
begin

text \<open>
  \<^verbatim>\<open>services/conversation/internal/repository/postgres/repo.go\<close> and \<^verbatim>\<open>internal/cache/cache.go\<close>.
  The tables are those of \<^verbatim>\<open>services/conversation/migrations\<close>, rows in insertion order, and each
  repository method is the meaning of its SQL text on them, with the constraints of the migrations
  (primary keys, the unique lookup key, the foreign keys, the enum types, the range of BIGINT).
  The Redis client and the JSON codec are parameters (\<open>conv_deps\<close>).
\<close>

section \<open>Tables\<close>

record conv_row =
  r_id :: string
  r_type :: ConversationType
  r_display_name :: "string option"
  r_avatar_url :: "string option"
  r_lookup_key :: "string option"
  r_created_at :: int
  r_updated_at :: int

record part_row =
  m_conv :: string
  m_user :: string
  m_role :: Role
  m_last_read :: int
  m_joined_at :: int

record 'b outbox_row =
  o_id :: nat
  o_aggregate_type :: string
  o_aggregate_id :: string
  o_event_type :: string
  o_payload :: 'b
  o_created_at :: int
  o_processed_at :: "int option"
  o_error :: "string option"
  o_retry_count :: nat

record 'b dlq_row =
  q_id :: nat
  q_aggregate_type :: string
  q_aggregate_id :: string
  q_event_type :: string
  q_payload :: 'b
  q_created_at :: int
  q_failed_at :: int
  q_error :: string
  q_retry_count :: nat

record 'b conv_db =
  conversations :: "conv_row list"
  conversation_participants :: "part_row list"
  conversation_sequences :: "(string \<times> int) list"
  outbox_events :: "'b outbox_row list"
  outbox_serial :: nat  \<comment> \<open>the last value of the BIGSERIAL column \<open>outbox_events.id\<close>\<close>
  outbox_dlq :: "'b dlq_row list"

definition empty_conv_db :: "'b conv_db" where
  "empty_conv_db = \<lparr>conversations = [], conversation_participants = [], conversation_sequences = [],
     outbox_events = [], outbox_serial = 0, outbox_dlq = []\<rparr>"

section \<open>The cache\<close>

text \<open>What the service is wired with; \<open>dp_cache = None\<close> is a repository whose \<open>Cache\<close> is nil.\<close>

record ('w, 'b) conv_deps =
  dp_cache :: "('w, 'b) redis option"
  dp_json_enc :: "Conversation \<Rightarrow> string + 'b"
  dp_json_dec :: "'b \<Rightarrow> string + Conversation"
  dp_codec :: "'b codec"

type_synonym ('w, 'b, 'a) conv_prog = "('b conv_db, 'w, conv_err, 'a) prog"

definition conv_key :: "string \<Rightarrow> string" where
  "conv_key i = ''conv:'' @ i"

text \<open>\<open>Cache.GetConversation\<close>: a missing key is a miss, not an error.\<close>

definition Cache_GetConversation ::
  "('w, 'b) conv_deps \<Rightarrow> ('w, 'b) redis \<Rightarrow> string \<Rightarrow> 'w
    \<Rightarrow> (conv_err go_error + Conversation option) \<times> 'w" where
  "Cache_GetConversation dp rd i w =
     (case rd_Get rd (conv_key i) w of
        (Inl RedisNil, w') \<Rightarrow> (Inr None, w')
      | (Inl (RedisErr t), w') \<Rightarrow> (Inl (Plain t), w')
      | (Inr val, w') \<Rightarrow>
          (case dp_json_dec dp val of
             Inl t \<Rightarrow> (Inl (Plain t), w')
           | Inr conv \<Rightarrow> (Inr (Some conv), w')))"

text \<open>The lifetime is 10 minutes, in seconds.\<close>

definition Cache_SetConversation ::
  "('w, 'b) conv_deps \<Rightarrow> ('w, 'b) redis \<Rightarrow> Conversation \<Rightarrow> 'w \<Rightarrow> (conv_err go_error + unit) \<times> 'w" where
  "Cache_SetConversation dp rd conv w =
     (case dp_json_enc dp conv of
        Inl t \<Rightarrow> (Inl (Plain t), w)
      | Inr val \<Rightarrow>
          (case rd_Set rd (conv_key (c_ID conv)) val (10 * 60) w of
             (None, w') \<Rightarrow> (Inr (), w')
           | (Some t, w') \<Rightarrow> (Inl (Plain t), w')))"

definition Cache_DeleteConversation ::
  "('w, 'b) redis \<Rightarrow> string \<Rightarrow> 'w \<Rightarrow> (conv_err go_error + unit) \<times> 'w" where
  "Cache_DeleteConversation rd i w =
     (case rd_Del rd (conv_key i) w of
        (None, w') \<Rightarrow> (Inr (), w')
      | (Some t, w') \<Rightarrow> (Inl (Plain t), w'))"

section \<open>Statements\<close>

abbreviation err_dup_key :: string where
  "err_dup_key \<equiv> ''pq: duplicate key value violates unique constraint''"

abbreviation err_fkey :: string where
  "err_fkey \<equiv> ''pq: insert or update on table violates foreign key constraint''"

abbreviation err_enum :: string where
  "err_enum \<equiv> ''pq: invalid input value for enum''"

definition valid_type :: "ConversationType \<Rightarrow> bool" where
  "valid_type t \<longleftrightarrow> t = ConversationDirect \<or> t = ConversationGroup"

definition valid_role :: "Role \<Rightarrow> bool" where
  "valid_role r \<longleftrightarrow> r = RoleMember \<or> r = RoleAdmin"

definition sql_insert_participant ::
  "int \<Rightarrow> string \<Rightarrow> string \<Rightarrow> Role \<Rightarrow> 'b conv_db \<Rightarrow> string + 'b conv_db \<times> unit" where
  "sql_insert_participant now convID userID role d =
     (if \<not> valid_role role then Inl err_enum
      else if \<exists>r \<in> set (conversation_participants d). m_conv r = convID \<and> m_user r = userID
      then Inl err_dup_key
      else if \<not> (\<exists>r \<in> set (conversations d). r_id r = convID) then Inl err_fkey
      else Inr (d\<lparr>conversation_participants := conversation_participants d @
             [\<lparr>m_conv = convID, m_user = userID, m_role = role, m_last_read = 0, m_joined_at = now\<rparr>]\<rparr>, ()))"

definition InsertParticipant ::
  "bool \<Rightarrow> string \<Rightarrow> string \<Rightarrow> Role \<Rightarrow> ('w, 'b, unit) conv_prog" where
  "InsertParticipant tx convID userID role =
     bindE get_now (\<lambda>now. stmt tx (sql_insert_participant now convID userID role))"

definition DeleteParticipant :: "bool \<Rightarrow> string \<Rightarrow> string \<Rightarrow> ('w, 'b, unit) conv_prog" where
  "DeleteParticipant tx convID userID =
     stmt tx (\<lambda>d. Inr (d\<lparr>conversation_participants :=
       filter (\<lambda>r. \<not> (m_conv r = convID \<and> m_user r = userID)) (conversation_participants d)\<rparr>, ()))"

definition UpdateLastReadSequence ::
  "bool \<Rightarrow> string \<Rightarrow> string \<Rightarrow> int \<Rightarrow> ('w, 'b, unit) conv_prog" where
  "UpdateLastReadSequence tx convID userID sequence =
     stmt tx (\<lambda>d. Inr (d\<lparr>conversation_participants :=
       map (\<lambda>r. if m_conv r = convID \<and> m_user r = userID
                then r\<lparr>m_last_read := max (m_last_read r) sequence\<rparr> else r)
         (conversation_participants d)\<rparr>, ()))"

text \<open>\<open>SELECT next_sequence - 1\<close>; no row gives 0. The column is NOT NULL, so the value is valid.\<close>

definition GetCurrentMaxSequence :: "bool \<Rightarrow> string \<Rightarrow> ('w, 'b, int) conv_prog" where
  "GetCurrentMaxSequence tx convID =
     query tx (\<lambda>d. case map_of (conversation_sequences d) convID of
       None \<Rightarrow> 0 | Some next_sequence \<Rightarrow> next_sequence - 1)"

fun opt_str :: "string option \<Rightarrow> string" where
  "opt_str None = []"
| "opt_str (Some t) = t"

text \<open>The rows of \<open>conversation_participants\<close> of a conversation, scanned into the Go map.\<close>

definition scan_participants :: "string \<Rightarrow> 'b conv_db \<Rightarrow> (string \<times> Participant) list" where
  "scan_participants convID d =
     map (\<lambda>r. (m_user r, \<lparr>p_UserID = m_user r, p_Role = m_role r\<rparr>))
       (filter (\<lambda>r. m_conv r = convID) (conversation_participants d))"

definition conv_of_row :: "conv_row \<Rightarrow> Conversation" where
  "conv_of_row r = \<lparr>c_ID = r_id r, c_Type = r_type r, c_DisplayName = opt_str (r_display_name r),
     c_AvatarURL = opt_str (r_avatar_url r), c_CreatedAt = r_created_at r, c_Participants = []\<rparr>"

text \<open>
  \<open>fetchConversation\<close>: the row (\<open>FOR UPDATE\<close> locks it, which a serial run does not show), then its
  participants.
\<close>

definition fetchConversation ::
  "bool \<Rightarrow> string \<Rightarrow> bool \<Rightarrow> ('w, 'b, Conversation) conv_prog" where
  "fetchConversation tx convID forUpdate =
     bindE (query tx (\<lambda>d. find (\<lambda>r. r_id r = convID) (conversations d))) (\<lambda>row.
       case row of
         None \<Rightarrow> throw (Domain ErrConversationNotFound)
       | Some r \<Rightarrow>
           bindE (query tx (scan_participants convID)) (\<lambda>ps.
             ret ((conv_of_row r)\<lparr>c_Participants := ps\<rparr>)))"

definition GetConversationLocked :: "bool \<Rightarrow> string \<Rightarrow> ('w, 'b, Conversation) conv_prog" where
  "GetConversationLocked tx convID = fetchConversation tx convID True"

text \<open>\<open>GetConversation\<close>: the cache first, then the database, whose answer is put into the cache.\<close>

definition repo_GetConversation ::
  "('w, 'b) conv_deps \<Rightarrow> bool \<Rightarrow> string \<Rightarrow> ('w, 'b, Conversation) conv_prog" where
  "repo_GetConversation dp tx convID =
     (let fallback =
        bindE (fetchConversation tx convID False) (\<lambda>conv.
          case dp_cache dp of
            None \<Rightarrow> ret conv
          | Some rd \<Rightarrow> attempt (on_world (Cache_SetConversation dp rd conv)) (\<lambda>_. ret conv))
      in case dp_cache dp of
           None \<Rightarrow> fallback
         | Some rd \<Rightarrow>
             attempt (on_world (Cache_GetConversation dp rd convID)) (\<lambda>r.
               case r of Inr (Some conv) \<Rightarrow> ret conv | _ \<Rightarrow> fallback))"

definition InvalidateConversation ::
  "('w, 'b) conv_deps \<Rightarrow> string \<Rightarrow> ('w, 'b, unit) conv_prog" where
  "InvalidateConversation dp convID =
     (case dp_cache dp of
        Some rd \<Rightarrow> on_world (Cache_DeleteConversation rd convID)
      | None \<Rightarrow> ret ())"

definition GetConversationByLookupKey :: "bool \<Rightarrow> string \<Rightarrow> ('w, 'b, Conversation) conv_prog" where
  "GetConversationByLookupKey tx key =
     bindE (query tx (\<lambda>d. find (\<lambda>r. r_lookup_key r = Some key) (conversations d))) (\<lambda>row.
       case row of
         None \<Rightarrow> throw (Domain ErrConversationNotFound)
       | Some r \<Rightarrow> fetchConversation tx (r_id r) False)"

definition sql_insert_conversation ::
  "int \<Rightarrow> string \<Rightarrow> ConversationType \<Rightarrow> string \<Rightarrow> string \<Rightarrow> string option \<Rightarrow> 'b conv_db
    \<Rightarrow> string + 'b conv_db \<times> unit" where
  "sql_insert_conversation now i convType name avatar lookupKey d =
     (if \<not> valid_type convType then Inl err_enum
      else if \<exists>r \<in> set (conversations d). r_id r = i then Inl err_dup_key
      else if lookupKey \<noteq> None \<and> (\<exists>r \<in> set (conversations d). r_lookup_key r = lookupKey)
      then Inl err_dup_key
      else Inr (d\<lparr>conversations := conversations d @
             [\<lparr>r_id = i, r_type = convType, r_display_name = Some name, r_avatar_url = Some avatar,
               r_lookup_key = lookupKey, r_created_at = now, r_updated_at = now\<rparr>]\<rparr>, ()))"

definition InsertConversation ::
  "bool \<Rightarrow> string \<Rightarrow> ConversationType \<Rightarrow> string \<Rightarrow> string \<Rightarrow> string option \<Rightarrow> ('w, 'b, unit) conv_prog" where
  "InsertConversation tx i convType name avatar lookupKey =
     bindE get_now (\<lambda>now. stmt tx (sql_insert_conversation now i convType name avatar lookupKey))"

definition InitSequence :: "bool \<Rightarrow> string \<Rightarrow> ('w, 'b, unit) conv_prog" where
  "InitSequence tx i =
     stmt tx (\<lambda>d.
       if map_of (conversation_sequences d) i \<noteq> None then Inl err_dup_key
       else if \<not> (\<exists>r \<in> set (conversations d). r_id r = i) then Inl err_fkey
       else Inr (d\<lparr>conversation_sequences := conversation_sequences d @ [(i, 0)]\<rparr>, ()))"

definition max_bigint :: int where
  "max_bigint = 2 ^ 63 - 1"

text \<open>\<open>UPDATE \<dots> RETURNING next_sequence\<close>; no row is \<open>sql.ErrNoRows\<close> of \<open>Scan\<close>, which fails no block.\<close>

definition repo_NextSequence :: "bool \<Rightarrow> string \<Rightarrow> ('w, 'b, int) conv_prog" where
  "repo_NextSequence tx convID =
     bindE (stmt tx (\<lambda>d.
       case map_of (conversation_sequences d) convID of
         None \<Rightarrow> Inr (d, None)
       | Some n \<Rightarrow>
           (if n = max_bigint then Inl ''pq: bigint out of range''
            else Inr (d\<lparr>conversation_sequences := map_put convID (n + 1) (conversation_sequences d)\<rparr>,
                   Some (n + 1)))))
       (\<lambda>r. case r of None \<Rightarrow> throw (Plain ''sql: no rows in result set'') | Some n \<Rightarrow> ret n)"

definition sql_insert_outbox ::
  "int \<Rightarrow> string \<Rightarrow> string \<Rightarrow> string \<Rightarrow> 'b \<Rightarrow> 'b conv_db \<Rightarrow> 'b conv_db" where
  "sql_insert_outbox now aggregateType aggregateID eventType payload d =
     d\<lparr>outbox_events := outbox_events d @
         [\<lparr>o_id = outbox_serial d + 1, o_aggregate_type = aggregateType, o_aggregate_id = aggregateID,
           o_event_type = eventType, o_payload = payload, o_created_at = now, o_processed_at = None,
           o_error = None, o_retry_count = 0\<rparr>],
       outbox_serial := outbox_serial d + 1\<rparr>"

definition InsertOutbox ::
  "bool \<Rightarrow> string \<Rightarrow> string \<Rightarrow> string \<Rightarrow> 'b \<Rightarrow> ('w, 'b, unit) conv_prog" where
  "InsertOutbox tx aggregateType aggregateID eventType payload =
     bindE get_now (\<lambda>now. stmt tx (\<lambda>d.
       Inr (sql_insert_outbox now aggregateType aggregateID eventType payload d, ())))"

section \<open>Listing\<close>

text \<open>\<open>ORDER BY updated_at DESC\<close>.\<close>

definition order_updated_desc :: "conv_row list \<Rightarrow> conv_row list" where
  "order_updated_desc = sort_key (\<lambda>r. - r_updated_at r)"

text \<open>
  \<open>ListConversationsByUser\<close>: the join gives one row per membership; the second query brings the
  participants of all the conversations found, which are put into the map of their conversation.
\<close>

definition user_conv_rows :: "string \<Rightarrow> 'b conv_db \<Rightarrow> conv_row list" where
  "user_conv_rows userID d =
     order_updated_desc (concat (map (\<lambda>c.
       map (\<lambda>_. c) (filter (\<lambda>m. m_conv m = r_id c \<and> m_user m = userID) (conversation_participants d)))
       (conversations d)))"

definition fill_participants :: "part_row list \<Rightarrow> Conversation \<Rightarrow> Conversation" where
  "fill_participants rows c =
     c\<lparr>c_Participants :=
         fold (\<lambda>r m. if m_conv r = c_ID c
                     then map_put (m_user r) \<lparr>p_UserID = m_user r, p_Role = m_role r\<rparr> m else m)
           rows []\<rparr>"

definition ListConversationsByUser :: "string \<Rightarrow> ('w, 'b, Conversation list) conv_prog" where
  "ListConversationsByUser userID =
     bindE (query False (user_conv_rows userID)) (\<lambda>rows.
       let convs = map conv_of_row rows; convIDs = map r_id rows in
       if convIDs = [] then ret convs
       else bindE (query False (\<lambda>d. filter (\<lambda>m. m_conv m \<in> set convIDs) (conversation_participants d)))
              (\<lambda>pRows. ret (map (fill_participants pRows) convs)))"

end
