(* ===== verification/ConvApp.thy ===== *)
theory ConvApp
  imports ConvRepo
begin

text \<open>
  \<^verbatim>\<open>services/conversation/internal/application\<close>: the operations of the conversation service, each a
  callback run by \<open>WithTx\<close>, with the outbox row of its event written in the same transaction.
\<close>

section \<open>Membership\<close>

record AddParticipantCommand =
  ap_ConversationID :: string
  ap_ActorID :: string
  ap_TargetID :: string

text \<open>
  Marshal the event, wrap it into the envelope, marshal that and insert the outbox row: the tail of
  \<open>AddParticipant\<close>, \<open>RemoveParticipant\<close> and \<open>UpdateReadReceipt\<close>.
\<close>

definition emit_event ::
  "'b codec \<Rightarrow> event_type \<Rightarrow> string \<Rightarrow> string \<Rightarrow> pb_event \<Rightarrow> ('w, 'b, unit) conv_prog" where
  "emit_event cd etype convID name event =
     bindE (lift_res (enc_event cd event)) (\<lambda>eventPayload.
     bindE get_now (\<lambda>now.
     bindE (lift_res (enc_env cd (EventEnvelope etype 1 now eventPayload))) (\<lambda>envPayload.
       InsertOutbox True ''message'' convID name envPayload)))"

definition AddParticipant_tx ::
  "('w, 'b) conv_deps \<Rightarrow> AddParticipantCommand \<Rightarrow> ('w, 'b, unit) conv_prog" where
  "AddParticipant_tx dp cmd =
     bindE (GetConversationLocked True (ap_ConversationID cmd)) (\<lambda>conv.
       if c_Type conv \<noteq> ConversationGroup then throw (Domain ErrDirectModification)
       else if \<not> is_admin conv (ap_ActorID cmd) then throw (Domain ErrNotAdmin)
       else if map_of (c_Participants conv) (ap_TargetID cmd) \<noteq> None then ret ()
       else
         bindE (InsertParticipant True (ap_ConversationID cmd) (ap_TargetID cmd) RoleMember) (\<lambda>_.
         bindE (emit_event (dp_codec dp) EVENT_TYPE_MEMBERSHIP_CHANGED (ap_ConversationID cmd)
                  ''MEMBERSHIP_CHANGED''
                  (MembershipChangedEvent (ap_ConversationID cmd) (ap_TargetID cmd) True)) (\<lambda>_.
           InvalidateConversation dp (ap_ConversationID cmd))))"

definition AddParticipant ::
  "('w, 'b) conv_deps \<Rightarrow> AddParticipantCommand \<Rightarrow> ('w, 'b, unit) conv_prog" where
  "AddParticipant dp cmd = WithTx conv_err_text (AddParticipant_tx dp cmd)"

record RemoveParticipantCommand =
  rp_ConversationID :: string
  rp_ActorID :: string
  rp_TargetID :: string

definition RemoveParticipant_tx ::
  "('w, 'b) conv_deps \<Rightarrow> RemoveParticipantCommand \<Rightarrow> ('w, 'b, unit) conv_prog" where
  "RemoveParticipant_tx dp cmd =
     bindE (GetConversationLocked True (rp_ConversationID cmd)) (\<lambda>conv.
       if c_Type conv \<noteq> ConversationGroup then throw (Domain ErrDirectModification)
       else if \<not> is_admin conv (rp_ActorID cmd) then throw (Domain ErrNotAdmin)
       else case map_of (c_Participants conv) (rp_TargetID cmd) of
         None \<Rightarrow> ret ()
       | Some targetRole \<Rightarrow>
           (if p_Role targetRole = RoleAdmin \<and> adminCount (c_Participants conv) \<le> 1
            then throw (Domain ErrLastAdmin)
            else
              bindE (DeleteParticipant True (rp_ConversationID cmd) (rp_TargetID cmd)) (\<lambda>_.
              bindE (emit_event (dp_codec dp) EVENT_TYPE_MEMBERSHIP_CHANGED (rp_ConversationID cmd)
                       ''MEMBERSHIP_CHANGED''
                       (MembershipChangedEvent (rp_ConversationID cmd) (rp_TargetID cmd) False)) (\<lambda>_.
                InvalidateConversation dp (rp_ConversationID cmd)))))"

definition RemoveParticipant ::
  "('w, 'b) conv_deps \<Rightarrow> RemoveParticipantCommand \<Rightarrow> ('w, 'b, unit) conv_prog" where
  "RemoveParticipant dp cmd = WithTx conv_err_text (RemoveParticipant_tx dp cmd)"

section \<open>Sequences and receipts\<close>

definition NextSequence :: "string \<Rightarrow> ('w, 'b, int) conv_prog" where
  "NextSequence conversationID =
     WithTx conv_err_text
       (wrap_err (''failed to increment sequence for conversation '' @ conversationID)
         (repo_NextSequence True conversationID))"

definition UpdateReadReceipt_tx ::
  "('w, 'b) conv_deps \<Rightarrow> string \<Rightarrow> string \<Rightarrow> int \<Rightarrow> ('w, 'b, unit) conv_prog" where
  "UpdateReadReceipt_tx dp convID userID readSequence =
     bindE (GetCurrentMaxSequence True convID) (\<lambda>maxSeq.
       let readSequence = (if readSequence > maxSeq then maxSeq else readSequence) in
       bindE (UpdateLastReadSequence True convID userID readSequence) (\<lambda>_.
         emit_event (dp_codec dp) EVENT_TYPE_READ_RECEIPT_UPDATED convID ''READ_RECEIPT_UPDATED''
           (ReadReceiptUpdatedEvent convID userID readSequence)))"

definition UpdateReadReceipt ::
  "('w, 'b) conv_deps \<Rightarrow> string \<Rightarrow> string \<Rightarrow> int \<Rightarrow> ('w, 'b, unit) conv_prog" where
  "UpdateReadReceipt dp convID userID readSequence =
     WithTx conv_err_text (UpdateReadReceipt_tx dp convID userID readSequence)"

section \<open>Reading\<close>

definition GetConversation ::
  "('w, 'b) conv_deps \<Rightarrow> string \<Rightarrow> ('w, 'b, Conversation) conv_prog" where
  "GetConversation dp conversationID = repo_GetConversation dp False conversationID"

definition ListConversations :: "string \<Rightarrow> ('w, 'b, Conversation list) conv_prog" where
  "ListConversations userID = ListConversationsByUser userID"

section \<open>Creation\<close>

record CreateConversationCommand =
  cc_ID :: string
  cc_Type :: ConversationType
  cc_Name :: string
  cc_AvatarURL :: string
  cc_Participants :: "string list"

definition getLookupKey :: "CreateConversationCommand \<Rightarrow> string option" where
  "getLookupKey cmd =
     (if cc_Type cmd \<noteq> ConversationDirect then None
      else case cc_Participants cmd of
        [p1, p2] \<Rightarrow>
          (let (p1, p2) = (if p1 > p2 then (p2, p1) else (p1, p2))
           in Some (''direct:'' @ p1 @ '':'' @ p2))
      | _ \<Rightarrow> None)"

text \<open>The loop of \<open>insertParticipants\<close>; \<open>i\<close> is the index of the next participant.\<close>

fun insertParticipants_from ::
  "CreateConversationCommand \<Rightarrow> nat \<Rightarrow> string list \<Rightarrow> ('w, 'b, unit) conv_prog" where
  "insertParticipants_from cmd i [] = ret ()"
| "insertParticipants_from cmd i (userID # us) =
     (let role = (if cc_Type cmd = ConversationGroup \<and> i = 0 then RoleAdmin else RoleMember) in
      bindE (wrap_err (''failed to add participant '' @ userID)
               (InsertParticipant True (cc_ID cmd) userID role))
        (\<lambda>_. insertParticipants_from cmd (Suc i) us))"

definition insertParticipants :: "CreateConversationCommand \<Rightarrow> ('w, 'b, unit) conv_prog" where
  "insertParticipants cmd = insertParticipants_from cmd 0 (cc_Participants cmd)"

definition created_event :: "Conversation \<Rightarrow> pb_event" where
  "created_event conv =
     ConversationCreatedEvent
       (Some \<lparr>pc_ConversationId = c_ID conv, pc_DisplayName = c_DisplayName conv,
          pc_AvatarUrl = c_AvatarURL conv, pc_CreatedAt = c_CreatedAt conv,
          pc_Type = (if c_Type conv = ConversationGroup then GROUP else DIRECT),
          pc_ParticipantUserIds = [], pc_ParticipantsWithRoles = []\<rparr>)
       (map fst (c_Participants conv))"

definition emitConversationCreated ::
  "('w, 'b) conv_deps \<Rightarrow> string \<Rightarrow> ('w, 'b, Conversation) conv_prog" where
  "emitConversationCreated dp convID =
     bindE (wrap_err ''failed to lock conversation after creation'' (GetConversationLocked True convID))
       (\<lambda>conv.
     bindE (wrap_err ''failed to marshal event payload''
              (lift_res (enc_event (dp_codec dp) (created_event conv)))) (\<lambda>eventPayload.
     bindE (wrap_err ''failed to marshal event envelope''
              (lift_res (enc_env (dp_codec dp)
                 (EventEnvelope EVENT_TYPE_CONVERSATION_CREATED 1 (c_CreatedAt conv) eventPayload))))
       (\<lambda>envPayload.
     bindE (wrap_err ''failed to save outbox event''
              (InsertOutbox True ''message'' (c_ID conv) ''CONVERSATION_CREATED'' envPayload)) (\<lambda>_.
       ret conv))))"

definition doCreateConversation ::
  "('w, 'b) conv_deps \<Rightarrow> CreateConversationCommand \<Rightarrow> string option \<Rightarrow> ('w, 'b, Conversation) conv_prog" where
  "doCreateConversation dp cmd lookupKey =
     bindE (wrap_err ''failed to create conversation''
              (InsertConversation True (cc_ID cmd) (cc_Type cmd) (cc_Name cmd) (cc_AvatarURL cmd) lookupKey))
       (\<lambda>_.
     bindE (wrap_err ''failed to initialize sequence'' (InitSequence True (cc_ID cmd))) (\<lambda>_.
     bindE (insertParticipants cmd) (\<lambda>_.
       emitConversationCreated dp (cc_ID cmd))))"

text \<open>
  The two lookups before the transaction run in parallel and the first answer wins; \<open>idFirst\<close> says
  which one answers first.
\<close>

definition lookup_quiet :: "('w, 'b, Conversation) conv_prog \<Rightarrow> ('w, 'b, Conversation option) conv_prog" where
  "lookup_quiet m = attempt m (\<lambda>r. case r of Inr c \<Rightarrow> ret (Some c) | Inl _ \<Rightarrow> ret None)"

definition parallelLookup ::
  "('w, 'b) conv_deps \<Rightarrow> bool \<Rightarrow> string \<Rightarrow> string option \<Rightarrow> ('w, 'b, Conversation option) conv_prog" where
  "parallelLookup dp idFirst i lookupKey =
     (let byID = (if i \<noteq> [] then lookup_quiet (repo_GetConversation dp False i) else ret None);
          byKey = (case lookupKey of None \<Rightarrow> ret None
                   | Some key \<Rightarrow> lookup_quiet (GetConversationByLookupKey False key));
          first_of = (\<lambda>m1 m2. bindE m1 (\<lambda>a. bindE m2 (\<lambda>b. ret (case a of Some c \<Rightarrow> Some c | None \<Rightarrow> b))))
      in if idFirst then first_of byID byKey else first_of byKey byID)"

text \<open>\<open>if existing, err := m(); err == nil { result = existing; return nil }\<close>, else \<open>k\<close>.\<close>

definition found_or ::
  "('w, 'b, Conversation) conv_prog \<Rightarrow> ('w, 'b, Conversation) conv_prog \<Rightarrow> ('w, 'b, Conversation) conv_prog" where
  "found_or m k = attempt m (\<lambda>r. case r of Inr existing \<Rightarrow> ret existing | Inl _ \<Rightarrow> k)"

definition lookup_in_tx ::
  "('w, 'b) conv_deps \<Rightarrow> CreateConversationCommand \<Rightarrow> string option \<Rightarrow> ('w, 'b, Conversation) conv_prog
    \<Rightarrow> ('w, 'b, Conversation) conv_prog" where
  "lookup_in_tx dp cmd lookupKey k =
     (let byKey = (case lookupKey of None \<Rightarrow> k
                   | Some key \<Rightarrow> found_or (GetConversationByLookupKey True key) k)
      in if cc_ID cmd \<noteq> [] then found_or (repo_GetConversation dp True (cc_ID cmd)) byKey else byKey)"

definition CreateConversation_tx ::
  "('w, 'b) conv_deps \<Rightarrow> CreateConversationCommand \<Rightarrow> string option \<Rightarrow> ('w, 'b, Conversation) conv_prog" where
  "CreateConversation_tx dp cmd lookupKey =
     lookup_in_tx dp cmd lookupKey
       (attempt (doCreateConversation dp cmd lookupKey) (\<lambda>r.
          case r of
            Inr conv \<Rightarrow> ret conv
          | Inl err \<Rightarrow> lookup_in_tx dp cmd lookupKey (throw err)))"

definition CreateConversation ::
  "('w, 'b) conv_deps \<Rightarrow> bool \<Rightarrow> CreateConversationCommand \<Rightarrow> ('w, 'b, Conversation) conv_prog" where
  "CreateConversation dp idFirst cmd =
     (if cc_ID cmd = [] then throw (Domain ErrInvalidInput)
      else if cc_Type cmd = ConversationDirect \<and> length (cc_Participants cmd) \<noteq> 2
      then throw (Domain ErrInvalidInput)
      else if cc_Type cmd = ConversationGroup \<and> length (cc_Participants cmd) = 0
      then throw (Domain ErrInvalidInput)
      else
        let lookupKey = getLookupKey cmd in
        if cc_Type cmd = ConversationDirect \<and> lookupKey = None then throw (Domain ErrInvalidInput)
        else
          bindE (parallelLookup dp idFirst (cc_ID cmd) lookupKey) (\<lambda>existing.
            case existing of
              Some c \<Rightarrow> ret c
            | None \<Rightarrow> WithTx conv_err_text (CreateConversation_tx dp cmd lookupKey)))"

end
