(* ===== verification/ConvInv.thy ===== *)
theory ConvInv
  imports ConvApp
begin

text \<open>
  The conversation database: the abstract view of a conversation (\<open>conv_view\<close>, \<open>abs_conv\<close>), the
  invariant \<open>conv_inv\<close> of its tables, what each repository call does when it succeeds, and that
  every statement the service issues keeps the invariant.
\<close>

section \<open>View and invariant\<close>

definition conv_view :: "'b conv_db \<Rightarrow> conv_row \<Rightarrow> Conversation" where
  "conv_view d r = (conv_of_row r)\<lparr>c_Participants := scan_participants (r_id r) d\<rparr>"

definition abs_conv :: "'b conv_db \<Rightarrow> string \<rightharpoonup> Conversation" where
  "abs_conv d i =
     (case find (\<lambda>r. r_id r = i) (conversations d) of
        None \<Rightarrow> None
      | Some r \<Rightarrow> Some ((conv_of_row r)\<lparr>c_Participants := scan_participants i d\<rparr>))"

definition keys_ok :: "'b conv_db \<Rightarrow> bool" where
  "keys_ok d \<longleftrightarrow>
     distinct (map r_id (conversations d))
     \<and> distinct (map (\<lambda>p. (m_conv p, m_user p)) (conversation_participants d))
     \<and> (\<forall>p \<in> set (conversation_participants d). m_conv p \<in> r_id ` set (conversations d))"

definition seqs_ok :: "'b conv_db \<Rightarrow> bool" where
  "seqs_ok d \<longleftrightarrow>
     distinct (map fst (conversation_sequences d))
     \<and> fst ` set (conversation_sequences d) = r_id ` set (conversations d)
     \<and> (\<forall>(i, n) \<in> set (conversation_sequences d). 0 \<le> n \<and> n \<le> max_bigint)"

definition convs_ok :: "'b conv_db \<Rightarrow> bool" where
  "convs_ok d \<longleftrightarrow> (\<forall>r \<in> set (conversations d). valid_type (r_type r) \<and> conv_wf (conv_view d r))"

text \<open>The lookup key of a direct conversation is made of its two participants.\<close>

definition direct_key :: "string \<Rightarrow> string \<Rightarrow> string" where
  "direct_key p q = ''direct:'' @ min p q @ '':'' @ max p q"

definition lookup_keys :: "conv_row list \<Rightarrow> string list" where
  "lookup_keys rows = concat (map (\<lambda>r. case r_lookup_key r of None \<Rightarrow> [] | Some k \<Rightarrow> [k]) rows)"

definition lookup_ok :: "'b conv_db \<Rightarrow> bool" where
  "lookup_ok d \<longleftrightarrow>
     distinct (lookup_keys (conversations d))
     \<and> (\<forall>r \<in> set (conversations d). r_type r = ConversationDirect \<longrightarrow>
          (\<exists>p q. r_lookup_key r = Some (direct_key p q)
             \<and> fst ` set (scan_participants (r_id r) d) = {p, q}))"

text \<open>
  A receipt lies below the last sequence number that was handed out, except in a conversation that
  has none (it starts at 0).
\<close>

definition receipts_ok :: "'b conv_db \<Rightarrow> bool" where
  "receipts_ok d \<longleftrightarrow>
     (\<forall>p \<in> set (conversation_participants d). 0 \<le> m_last_read p
        \<and> (\<forall>n. map_of (conversation_sequences d) (m_conv p) = Some n \<longrightarrow> m_last_read p \<le> max 0 (n - 1)))"

definition outbox_ok :: "'b conv_db \<Rightarrow> bool" where
  "outbox_ok d \<longleftrightarrow>
     distinct (map o_id (outbox_events d) @ map q_id (outbox_dlq d))
     \<and> (\<forall>i \<in> o_id ` set (outbox_events d) \<union> q_id ` set (outbox_dlq d). i \<le> outbox_serial d)"

definition conv_inv :: "'b conv_db \<Rightarrow> bool" where
  "conv_inv d \<longleftrightarrow> keys_ok d \<and> seqs_ok d \<and> convs_ok d \<and> lookup_ok d \<and> receipts_ok d \<and> outbox_ok d"

lemmas conv_inv_defs = conv_inv_def keys_ok_def seqs_ok_def convs_ok_def lookup_ok_def
  receipts_ok_def outbox_ok_def

lemma conv_inv_empty: "conv_inv empty_conv_db"
  by (simp add: conv_inv_defs empty_conv_db_def lookup_keys_def)

lemma conv_view_simps [simp]:
  "c_ID (conv_view d r) = r_id r"
  "c_Type (conv_view d r) = r_type r"
  "c_Participants (conv_view d r) = scan_participants (r_id r) d"
  by (simp_all add: conv_view_def conv_of_row_def)

text \<open>The view depends on the participants of the conversation only.\<close>

lemma conv_view_cong:
  "scan_participants (r_id r) d = scan_participants (r_id r) d' \<Longrightarrow> conv_view d r = conv_view d' r"
  by (simp add: conv_view_def)

lemma scan_participants_cong:
  "conversation_participants d = conversation_participants d' \<Longrightarrow>
     scan_participants i d = scan_participants i d'"
  by (simp add: scan_participants_def)

lemma keys_scan_participants:
  "fst ` set (scan_participants i d) =
     m_user ` {p \<in> set (conversation_participants d). m_conv p = i}"
  by (auto simp: scan_participants_def image_iff)

lemma scan_participants_SomeD:
  "map_of (scan_participants i d) u = Some p \<Longrightarrow>
     \<exists>r \<in> set (conversation_participants d). m_conv r = i \<and> m_user r = u \<and> p_Role p = m_role r"
  by (force simp: scan_participants_def dest: map_of_SomeD)

lemma distinct_scan_participants:
  assumes "distinct (map (\<lambda>p. (m_conv p, m_user p)) (conversation_participants d))"
  shows "distinct (map fst (scan_participants i d))"
proof -
  have "distinct (map (\<lambda>p. (m_conv p, m_user p)) ps) \<Longrightarrow>
      distinct (map m_user (filter (\<lambda>p. m_conv p = i) ps))" for ps
    by (induction ps) (auto simp: image_iff)
  from this [OF assms] show ?thesis
    by (simp add: scan_participants_def comp_def)
qed

section \<open>Successful repository calls\<close>

lemma abs_conv_SomeD:
  assumes "abs_conv d i = Some c"
  shows "\<exists>r \<in> set (conversations d). r_id r = i \<and> c = conv_view d r"
proof -
  from assms obtain r where f: "find (\<lambda>r. r_id r = i) (conversations d) = Some r"
    and c: "c = (conv_of_row r)\<lparr>c_Participants := scan_participants i d\<rparr>"
    by (auto simp: abs_conv_def split: option.splits)
  from find_SomeD [OF f] c show ?thesis by (auto simp: conv_view_def)
qed

lemma abs_conv_row:
  assumes "distinct (map r_id (conversations d))" and "r \<in> set (conversations d)"
  shows "abs_conv d (r_id r) = Some (conv_view d r)"
  using find_unique [OF assms refl] by (simp add: abs_conv_def conv_view_def)

lemma fetchConversation_InrD:
  assumes "fetchConversation tx i fu s = (Inr c, t)"
  shows "abs_conv (s_db s) i = Some c \<and> s_db t = s_db s \<and> s_aborted t = s_aborted s
    \<and> s_world t = s_world s \<and> s_now t = s_now s"
  using assms
  by (auto simp: fetchConversation_def bindE_Inr_iff abs_conv_def split: option.splits
      dest!: query_InrD)

lemma emit_event_InrD:
  assumes "emit_event cd et i name ev s = (Inr u, t)"
  shows "\<exists>b b'. enc_event cd ev = Inr b \<and> enc_env cd (EventEnvelope et 1 (s_now s) b) = Inr b'
    \<and> s_db t = sql_insert_outbox (s_now s) ''message'' i name b' (s_db s)
    \<and> s_aborted t = s_aborted s \<and> s_world t = s_world s"
  using assms by (auto simp: emit_event_def InsertOutbox_def bindE_Inr_iff dest!: stmt_InrD)

lemma InvalidateConversation_InrD:
  assumes "InvalidateConversation dp i s = (Inr u, t)"
  shows "s_db t = s_db s \<and> s_aborted t = s_aborted s"
  using assms by (auto simp: InvalidateConversation_def split: option.splits dest!: on_world_InrD)

lemma InsertParticipant_InrD:
  assumes "InsertParticipant tx i v role s = (Inr u, t)"
  shows "sql_insert_participant (s_now s) i v role (s_db s) = Inr (s_db t, ())
    \<and> s_aborted t = s_aborted s \<and> s_now t = s_now s"
  using assms by (auto simp: InsertParticipant_def bindE_Inr_iff dest!: stmt_InrD)

lemma DeleteParticipant_InrD:
  assumes "DeleteParticipant tx i v s = (Inr u, t)"
  shows "s_db t = (s_db s)\<lparr>conversation_participants :=
      filter (\<lambda>r. \<not> (m_conv r = i \<and> m_user r = v)) (conversation_participants (s_db s))\<rparr>
    \<and> s_aborted t = s_aborted s \<and> s_now t = s_now s"
  using assms by (auto simp: DeleteParticipant_def dest!: stmt_InrD)

section \<open>Statements keep the invariant\<close>

lemma sql_insert_outbox_simps [simp]:
  "conversations (sql_insert_outbox n a i e b d) = conversations d"
  "conversation_participants (sql_insert_outbox n a i e b d) = conversation_participants d"
  "conversation_sequences (sql_insert_outbox n a i e b d) = conversation_sequences d"
  "outbox_serial (sql_insert_outbox n a i e b d) = outbox_serial d + 1"
  "outbox_dlq (sql_insert_outbox n a i e b d) = outbox_dlq d"
  by (simp_all add: sql_insert_outbox_def)

lemma sql_insert_outbox_events:
  "outbox_events (sql_insert_outbox n a i e b d) = outbox_events d @
     [\<lparr>o_id = outbox_serial d + 1, o_aggregate_type = a, o_aggregate_id = i, o_event_type = e,
       o_payload = b, o_created_at = n, o_processed_at = None, o_error = None, o_retry_count = 0\<rparr>]"
  by (simp add: sql_insert_outbox_def)

lemma scan_sql_insert_outbox [simp]:
  "scan_participants j (sql_insert_outbox n a i e b d) = scan_participants j d"
  by (simp add: scan_participants_def)

lemma conv_view_sql_insert_outbox [simp]: "conv_view (sql_insert_outbox n a i e b d) = conv_view d"
  by (simp add: conv_view_def fun_eq_iff)

lemma abs_conv_sql_insert_outbox [simp]: "abs_conv (sql_insert_outbox n a i e b d) = abs_conv d"
  by (simp add: abs_conv_def fun_eq_iff split: option.splits)

lemma conv_inv_insert_outbox:
  assumes "conv_inv d"
  shows "conv_inv (sql_insert_outbox n a i e b d)"
proof -
  have "outbox_ok (sql_insert_outbox n a i e b d)"
    using assms by (auto simp: conv_inv_def outbox_ok_def sql_insert_outbox_events le_Suc_eq)
      (metis Suc_n_not_le_n UnI1 UnI2 image_eqI)+
  with assms show ?thesis
    by (simp add: conv_inv_def keys_ok_def seqs_ok_def convs_ok_def lookup_ok_def receipts_ok_def)
qed

text \<open>Adding a member row to a group.\<close>

lemma scan_add_row:
  "scan_participants j (d\<lparr>conversation_participants := conversation_participants d @ [p]\<rparr>) =
     scan_participants j d @
       (if m_conv p = j then [(m_user p, \<lparr>p_UserID = m_user p, p_Role = m_role p\<rparr>)] else [])"
  by (simp add: scan_participants_def)

lemma conv_inv_add_member:
  assumes inv: "conv_inv d"
    and group: "abs_conv d i = Some c" "c_Type c = ConversationGroup"
    and ins: "sql_insert_participant now i u RoleMember d = Inr (d', ())"
  shows "conv_inv d'"
proof -
  define p where "p = \<lparr>m_conv = i, m_user = u, m_role = RoleMember, m_last_read = 0, m_joined_at = now\<rparr>"
  from ins have d': "d' = d\<lparr>conversation_participants := conversation_participants d @ [p]\<rparr>"
    and fresh: "\<not> (\<exists>r \<in> set (conversation_participants d). m_conv r = i \<and> m_user r = u)"
    and known: "\<exists>r \<in> set (conversations d). r_id r = i"
    by (auto simp: sql_insert_participant_def p_def split: if_splits)
  from group obtain g where g: "g \<in> set (conversations d)" "r_id g = i" "r_type g = ConversationGroup"
    by (auto dest!: abs_conv_SomeD)
  have uniq: "r \<in> set (conversations d) \<Longrightarrow> r_id r = i \<Longrightarrow> r = g" for r
    using inv g by (auto simp: conv_inv_def keys_ok_def distinct_map inj_on_def)
  have other: "r \<in> set (conversations d) \<Longrightarrow> r_type r = ConversationDirect \<Longrightarrow> r_id r \<noteq> i" for r
    using uniq [of r] g by auto
  have scan: "scan_participants j d' = scan_participants j d @
      (if i = j then [(u, \<lparr>p_UserID = u, p_Role = RoleMember\<rparr>)] else [])" for j
    unfolding d' scan_add_row by (simp add: p_def)
  have "keys_ok d'" using inv fresh known by (auto simp: conv_inv_def keys_ok_def d' p_def)
  moreover have "convs_ok d'"
  proof -
    have "conv_wf (conv_view d' r)" if r: "r \<in> set (conversations d)" for r
    proof (cases "r_id r = i")
      case False
      then have "conv_view d' r = conv_view d r" by (intro conv_view_cong) (simp add: scan)
      with inv r show ?thesis by (simp add: conv_inv_def convs_ok_def)
    next
      case True
      have "distinct (map fst (scan_participants i d'))"
        using \<open>keys_ok d'\<close> by (intro distinct_scan_participants) (simp add: keys_ok_def)
      moreover have "1 \<le> adminCount (scan_participants i d)"
        using inv r uniq [OF r True] g True by (auto simp: conv_inv_def convs_ok_def conv_wf_def)
      ultimately show ?thesis
        using True uniq [OF r True] g by (auto simp: conv_wf_def adminCount_filter scan)
    qed
    with inv show ?thesis by (simp add: conv_inv_def convs_ok_def d')
  qed
  moreover have "lookup_ok d'"
  proof -
    have "scan_participants (r_id r) d' = scan_participants (r_id r) d"
      if "r \<in> set (conversations d)" "r_type r = ConversationDirect" for r
      using other [OF that] by (simp add: scan)
    with inv show ?thesis by (simp add: conv_inv_def lookup_ok_def d')
  qed
  moreover have "seqs_ok d'" using inv by (simp add: conv_inv_def seqs_ok_def d')
  moreover have "receipts_ok d'"
    using inv by (auto simp: conv_inv_def receipts_ok_def seqs_ok_def d' p_def dest: map_of_SomeD)
  moreover have "outbox_ok d'" using inv by (simp add: conv_inv_def outbox_ok_def d')
  ultimately show ?thesis by (simp add: conv_inv_def)
qed

text \<open>Deleting a member row of a group, under the guard of \<open>RemoveParticipant\<close>.\<close>

lemma scan_del_row:
  "scan_participants j (d\<lparr>conversation_participants :=
       filter (\<lambda>r. \<not> (m_conv r = i \<and> m_user r = u)) (conversation_participants d)\<rparr>) =
     (if i = j then map_del u (scan_participants j d) else scan_participants j d)"
proof -
  have "map (\<lambda>r. (m_user r, \<lparr>p_UserID = m_user r, p_Role = m_role r\<rparr>))
      (filter (\<lambda>r. m_conv r = j) (filter (\<lambda>r. \<not> (m_conv r = i \<and> m_user r = u)) ps)) =
    (if i = j then map_del u (map (\<lambda>r. (m_user r, \<lparr>p_UserID = m_user r, p_Role = m_role r\<rparr>))
       (filter (\<lambda>r. m_conv r = j) ps))
     else map (\<lambda>r. (m_user r, \<lparr>p_UserID = m_user r, p_Role = m_role r\<rparr>)) (filter (\<lambda>r. m_conv r = j) ps))"
    for ps by (induction ps) (auto simp: map_del_def)
  from this [of "conversation_participants d"] show ?thesis
    unfolding scan_participants_def by simp
qed

lemma conv_inv_del_member:
  assumes inv: "conv_inv d"
    and group: "abs_conv d i = Some c" "c_Type c = ConversationGroup"
    and target: "map_of (c_Participants c) u = Some q"
    and guard: "\<not> (p_Role q = RoleAdmin \<and> adminCount (c_Participants c) \<le> 1)"
    and d': "d' = d\<lparr>conversation_participants :=
      filter (\<lambda>r. \<not> (m_conv r = i \<and> m_user r = u)) (conversation_participants d)\<rparr>"
  shows "conv_inv d'"
proof -
  from group obtain g where g: "g \<in> set (conversations d)" "r_id g = i" "r_type g = ConversationGroup"
    and c: "c_Participants c = scan_participants i d"
    by (auto dest!: abs_conv_SomeD)
  have uniq: "r \<in> set (conversations d) \<Longrightarrow> r_id r = i \<Longrightarrow> r = g" for r
    using inv g by (auto simp: conv_inv_def keys_ok_def distinct_map inj_on_def)
  have other: "r \<in> set (conversations d) \<Longrightarrow> r_type r = ConversationDirect \<Longrightarrow> r_id r \<noteq> i" for r
    using uniq [of r] g by auto
  have scan: "scan_participants j d' =
      (if i = j then map_del u (scan_participants j d) else scan_participants j d)" for j
    unfolding d' by (rule scan_del_row)
  have "keys_ok d" using inv by (simp add: conv_inv_def)
  then have "keys_ok d'"
    unfolding keys_ok_def d' by (simp add: distinct_map_filter_fst)
  moreover have "convs_ok d'"
  proof -
    have "conv_wf (conv_view d' r)" if r: "r \<in> set (conversations d)" for r
    proof (cases "r_id r = i")
      case False
      then have "conv_view d' r = conv_view d r" by (intro conv_view_cong) (simp add: scan)
      with inv r show ?thesis by (simp add: conv_inv_def convs_ok_def)
    next
      case True
      have dist: "distinct (map fst (scan_participants i d))"
        using inv by (intro distinct_scan_participants) (simp add: conv_inv_def keys_ok_def)
      have "1 \<le> adminCount (scan_participants i d)"
        using inv r uniq [OF r True] g True by (auto simp: conv_inv_def convs_ok_def conv_wf_def)
      then have "1 \<le> adminCount (map_del u (scan_participants i d))"
        using adminCount_map_del [OF dist] target guard c by auto
      with dist show ?thesis
        using True uniq [OF r True] g by (auto simp: conv_wf_def scan)
    qed
    with inv show ?thesis by (simp add: conv_inv_def convs_ok_def d')
  qed
  moreover have "lookup_ok d'"
  proof -
    have "scan_participants (r_id r) d' = scan_participants (r_id r) d"
      if "r \<in> set (conversations d)" "r_type r = ConversationDirect" for r
      using other [OF that] by (simp add: scan)
    with inv show ?thesis by (simp add: conv_inv_def lookup_ok_def d')
  qed
  moreover have "seqs_ok d'" using inv by (simp add: conv_inv_def seqs_ok_def d')
  moreover have "receipts_ok d'" using inv by (simp add: conv_inv_def receipts_ok_def d')
  moreover have "outbox_ok d'" using inv by (simp add: conv_inv_def outbox_ok_def d')
  ultimately show ?thesis by (simp add: conv_inv_def)
qed

text \<open>Raising a receipt and a sequence.\<close>

lemma map_conv_rows_scan:
  assumes "\<And>r. m_conv (f r) = m_conv r \<and> m_user (f r) = m_user r \<and> m_role (f r) = m_role r"
  shows "scan_participants j (d\<lparr>conversation_participants := map f (conversation_participants d)\<rparr>) =
    scan_participants j d"
proof -
  have "map (\<lambda>r. (m_user r, \<lparr>p_UserID = m_user r, p_Role = m_role r\<rparr>)) (filter (\<lambda>r. m_conv r = j) (map f ps)) =
      map (\<lambda>r. (m_user r, \<lparr>p_UserID = m_user r, p_Role = m_role r\<rparr>)) (filter (\<lambda>r. m_conv r = j) ps)" for ps
    using assms by (induction ps) auto
  from this [of "conversation_participants d"] show ?thesis by (simp add: scan_participants_def)
qed

definition raise_receipt :: "string \<Rightarrow> string \<Rightarrow> int \<Rightarrow> part_row \<Rightarrow> part_row" where
  "raise_receipt i u n r =
     (if m_conv r = i \<and> m_user r = u then r\<lparr>m_last_read := max (m_last_read r) n\<rparr> else r)"

lemma raise_receipt_simps [simp]:
  "m_conv (raise_receipt i u n r) = m_conv r"
  "m_user (raise_receipt i u n r) = m_user r"
  "m_role (raise_receipt i u n r) = m_role r"
  "m_joined_at (raise_receipt i u n r) = m_joined_at r"
  by (simp_all add: raise_receipt_def)

lemma UpdateLastReadSequence_InrD:
  assumes "UpdateLastReadSequence tx i u n s = (Inr x, t)"
  shows "s_db t = (s_db s)\<lparr>conversation_participants :=
      map (raise_receipt i u n) (conversation_participants (s_db s))\<rparr>
    \<and> s_aborted t = s_aborted s \<and> s_now t = s_now s"
proof -
  have eq: "raise_receipt i u n =
      (\<lambda>r. if m_conv r = i \<and> m_user r = u then r\<lparr>m_last_read := max (m_last_read r) n\<rparr> else r)"
    by (rule ext) (simp add: raise_receipt_def)
  show ?thesis
    using assms unfolding UpdateLastReadSequence_def eq by (auto dest!: stmt_InrD)
qed

lemma conv_inv_receipt:
  assumes inv: "conv_inv d"
    and bound: "\<And>k. map_of (conversation_sequences d) i = Some k \<Longrightarrow> n \<le> max 0 (k - 1)"
    and d': "d' = d\<lparr>conversation_participants := map (raise_receipt i u n) (conversation_participants d)\<rparr>"
  shows "conv_inv d'"
proof -
  have scan: "scan_participants j d' = scan_participants j d" for j
    unfolding d' by (rule map_conv_rows_scan) simp
  then have view: "conv_view d' = conv_view d" by (simp add: conv_view_def fun_eq_iff)
  have "keys_ok d" using inv by (simp add: conv_inv_def)
  then have "keys_ok d'" by (simp add: keys_ok_def d' comp_def)
  moreover have "receipts_ok d'"
  proof -
    have "0 \<le> m_last_read (raise_receipt i u n p)
        \<and> (\<forall>k. map_of (conversation_sequences d) (m_conv p) = Some k \<longrightarrow>
             m_last_read (raise_receipt i u n p) \<le> max 0 (k - 1))"
      if "p \<in> set (conversation_participants d)" for p
      using inv that bound by (auto simp: conv_inv_def receipts_ok_def raise_receipt_def)
    then show ?thesis by (simp add: receipts_ok_def d')
  qed
  moreover have "lookup_ok d" and "convs_ok d" using inv by (simp_all add: conv_inv_def)
  then have "lookup_ok d'" and "convs_ok d'"
    by (simp_all add: lookup_ok_def convs_ok_def scan view) (simp_all add: d')
  ultimately show ?thesis using inv by (simp add: conv_inv_def seqs_ok_def outbox_ok_def d')
qed

lemma conv_inv_next:
  assumes inv: "conv_inv d" and n: "map_of (conversation_sequences d) i = Some n" "n \<noteq> max_bigint"
    and d': "d' = d\<lparr>conversation_sequences := map_put i (n + 1) (conversation_sequences d)\<rparr>"
  shows "conv_inv d'"
proof -
  have scan: "scan_participants j d' = scan_participants j d" for j
    unfolding d' by (simp add: scan_participants_def)
  then have view: "conv_view d' = conv_view d" by (simp add: conv_view_def fun_eq_iff)
  have s: "seqs_ok d" using inv by (simp add: conv_inv_def)
  have i: "i \<in> r_id ` set (conversations d)"
  proof -
    have "i \<in> fst ` set (conversation_sequences d)"
      using map_of_SomeD [OF n(1)] by force
    with s show ?thesis by (simp add: seqs_ok_def)
  qed
  have range: "0 \<le> n \<and> n \<le> max_bigint" using s n by (auto simp: seqs_ok_def dest!: map_of_SomeD)
  have "distinct (map fst (map_put i (n + 1) (conversation_sequences d)))"
    using s by (simp add: seqs_ok_def)
  moreover have "0 \<le> m \<and> m \<le> max_bigint" if "(j, m) \<in> set (map_put i (n + 1) (conversation_sequences d))"
    for j m
  proof -
    have "map_of (map_put i (n + 1) (conversation_sequences d)) j = Some m"
      by (rule map_of_is_SomeI)
        (use that \<open>distinct (map fst (map_put i (n + 1) (conversation_sequences d)))\<close> in simp_all)
    then have "m = n + 1 \<or> (j, m) \<in> set (conversation_sequences d)"
      by (auto split: if_splits dest: map_of_SomeD)
    with s n range show ?thesis by (auto simp: seqs_ok_def)
  qed
  ultimately have "seqs_ok d'"
    using s i by (auto simp: seqs_ok_def d' insert_absorb)
  moreover have "receipts_ok d'"
  proof -
    have r: "receipts_ok d" using inv by (simp add: conv_inv_def)
    have "m_last_read p \<le> max 0 (k - 1)" if "p \<in> set (conversation_participants d)"
      "((map_of (conversation_sequences d))(i \<mapsto> n + 1)) (m_conv p) = Some k" for p k
    proof -
      from r that(1) have le: "\<forall>k. map_of (conversation_sequences d) (m_conv p) = Some k \<longrightarrow> m_last_read p \<le> max 0 (k - 1)"
        by (simp add: receipts_ok_def)
      show ?thesis
      proof (cases "m_conv p = i")
        case True
        with le n that(2) show ?thesis by fastforce
      next
        case False
        with le that(2) show ?thesis by simp
      qed
    qed
    moreover from r have "0 \<le> m_last_read p" if "p \<in> set (conversation_participants d)" for p
      using that by (simp add: receipts_ok_def)
    ultimately show ?thesis unfolding receipts_ok_def d' by simp
  qed
  moreover have "lookup_ok d" and "convs_ok d" using inv by (simp_all add: conv_inv_def)
  then have "lookup_ok d'" and "convs_ok d'"
    by (simp_all add: lookup_ok_def convs_ok_def scan view) (simp_all add: d')
  ultimately show ?thesis using inv by (simp add: conv_inv_def keys_ok_def outbox_ok_def d')
qed

text \<open>Creating a conversation: its row, its sequence and the rows of its participants.\<close>

fun new_rows :: "int \<Rightarrow> CreateConversationCommand \<Rightarrow> nat \<Rightarrow> string list \<Rightarrow> part_row list" where
  "new_rows now cmd i [] = []"
| "new_rows now cmd i (u # us) =
     \<lparr>m_conv = cc_ID cmd, m_user = u,
       m_role = (if cc_Type cmd = ConversationGroup \<and> i = 0 then RoleAdmin else RoleMember),
       m_last_read = 0, m_joined_at = now\<rparr> # new_rows now cmd (Suc i) us"

lemma new_rows_fields:
  "r \<in> set (new_rows now cmd i us) \<Longrightarrow> m_conv r = cc_ID cmd \<and> m_last_read r = 0"
  by (induction us arbitrary: i) auto

lemma new_rows_users [simp]: "map m_user (new_rows now cmd i us) = us"
  by (induction us arbitrary: i) auto

lemma new_rows_length [simp]: "length (new_rows now cmd i us) = length us"
  by (induction us arbitrary: i) auto

lemma sql_insert_participant_InrD:
  assumes "sql_insert_participant now i u role d = Inr (d', x)"
  shows "d' = d\<lparr>conversation_participants := conversation_participants d @
      [\<lparr>m_conv = i, m_user = u, m_role = role, m_last_read = 0, m_joined_at = now\<rparr>]\<rparr>
    \<and> \<not> (\<exists>r \<in> set (conversation_participants d). m_conv r = i \<and> m_user r = u)
    \<and> (\<exists>r \<in> set (conversations d). r_id r = i)"
  using assms by (simp add: sql_insert_participant_def split: if_splits)

lemma insertParticipants_from_InrD:
  assumes "insertParticipants_from cmd i us s = (Inr x, t)"
    and "distinct (map (\<lambda>p. (m_conv p, m_user p)) (conversation_participants (s_db s)))"
  shows "s_db t = (s_db s)\<lparr>conversation_participants :=
      conversation_participants (s_db s) @ new_rows (s_now s) cmd i us\<rparr>
    \<and> distinct (map (\<lambda>p. (m_conv p, m_user p)) (conversation_participants (s_db t)))
    \<and> s_aborted t = s_aborted s \<and> s_now t = s_now s"
  using assms
proof (induction us arbitrary: i s)
  case Nil
  then show ?case by simp
next
  case (Cons u us)
  let ?role = "if cc_Type cmd = ConversationGroup \<and> i = 0 then RoleAdmin else RoleMember"
  let ?row = "\<lparr>m_conv = cc_ID cmd, m_user = u, m_role = ?role, m_last_read = 0, m_joined_at = s_now s\<rparr>"
  from Cons.prems(1) obtain y s1 where
      ins: "InsertParticipant True (cc_ID cmd) u ?role s = (Inr y, s1)"
    and rest: "insertParticipants_from cmd (Suc i) us s1 = (Inr x, t)"
    by (auto simp: bindE_Inr_iff Let_def)
  note step = InsertParticipant_InrD [OF ins]
  from step sql_insert_participant_InrD [OF conjunct1 [OF step]] have
      d1: "s_db s1 = (s_db s)\<lparr>conversation_participants := conversation_participants (s_db s) @ [?row]\<rparr>"
    and fresh: "\<not> (\<exists>r \<in> set (conversation_participants (s_db s)). m_conv r = cc_ID cmd \<and> m_user r = u)"
    and same: "s_aborted s1 = s_aborted s" "s_now s1 = s_now s"
    by blast+
  have "distinct (map (\<lambda>p. (m_conv p, m_user p)) (conversation_participants (s_db s1)))"
    using Cons.prems(2) fresh by (auto simp: d1)
  note ih = Cons.IH [OF rest this]
  from conjunct1 [OF ih] conjunct1 [OF conjunct2 [OF ih]] conjunct2 [OF conjunct2 [OF ih]]
  show ?case using d1 same by (intro conjI) simp_all
qed

lemma adminCount_scan_new_rows:
  "cc_Type cmd = ConversationGroup \<Longrightarrow> us \<noteq> [] \<Longrightarrow>
     1 \<le> adminCount (map (\<lambda>r. (m_user r, \<lparr>p_UserID = m_user r, p_Role = m_role r\<rparr>)) (new_rows now cmd 0 us))"
  by (cases us) auto

lemma getLookupKey_direct:
  assumes "cc_Type cmd = ConversationDirect" and "cc_Participants cmd = [p, q]"
  shows "getLookupKey cmd = Some (direct_key p q)"
proof (cases "p > q")
  case True
  then have "min p q = q" "max p q = p" by (simp_all add: min_def max_def less_le_not_le)
  with assms True show ?thesis by (simp add: getLookupKey_def direct_key_def)
next
  case False
  then have "p \<le> q" by simp
  then have "min p q = p" "max p q = q" by (simp_all add: min_def max_def)
  with assms False show ?thesis by (simp add: getLookupKey_def direct_key_def)
qed

lemma lookup_keys_append [simp]: "lookup_keys (rs @ rs') = lookup_keys rs @ lookup_keys rs'"
  by (simp add: lookup_keys_def)

lemma in_lookup_keys: "k \<in> set (lookup_keys rs) \<longleftrightarrow> (\<exists>r \<in> set rs. r_lookup_key r = Some k)"
  by (force simp: lookup_keys_def split: option.splits)

lemma conv_inv_create:
  assumes inv: "conv_inv d"
    and ins: "sql_insert_conversation now (cc_ID cmd) (cc_Type cmd) nm av (getLookupKey cmd) d = Inr (d1, ())"
    and d2: "d2 = d1\<lparr>conversation_sequences := conversation_sequences d1 @ [(cc_ID cmd, 0)]\<rparr>"
    and d3: "d3 = d2\<lparr>conversation_participants :=
      conversation_participants d2 @ new_rows now' cmd 0 (cc_Participants cmd)\<rparr>"
    and dist: "distinct (map (\<lambda>p. (m_conv p, m_user p)) (conversation_participants d3))"
    and direct: "cc_Type cmd = ConversationDirect \<Longrightarrow> length (cc_Participants cmd) = 2"
    and group: "cc_Type cmd = ConversationGroup \<Longrightarrow> cc_Participants cmd \<noteq> []"
  shows "conv_inv d3"
proof -
  let ?i = "cc_ID cmd" and ?new = "new_rows now' cmd 0 (cc_Participants cmd)"
  define row where "row = \<lparr>r_id = ?i, r_type = cc_Type cmd, r_display_name = Some nm, r_avatar_url = Some av,
    r_lookup_key = getLookupKey cmd, r_created_at = now, r_updated_at = now\<rparr>"
  from ins have d1: "d1 = d\<lparr>conversations := conversations d @ [row]\<rparr>"
    and ty: "valid_type (cc_Type cmd)" and fresh: "?i \<notin> r_id ` set (conversations d)"
    and key: "\<And>k. getLookupKey cmd = Some k \<Longrightarrow> k \<notin> set (lookup_keys (conversations d))"
    by (auto simp: sql_insert_conversation_def row_def in_lookup_keys split: if_splits)
  have keys: "keys_ok d" and seqs: "seqs_ok d" and lk: "lookup_ok d" and co: "convs_ok d"
    and rc: "receipts_ok d"
    using inv by (simp_all add: conv_inv_def)
  have none: "filter (\<lambda>r. m_conv r = ?i) (conversation_participants d) = []"
    using keys fresh unfolding keys_ok_def filter_empty_conv by metis
  have scan_old: "scan_participants j d3 = scan_participants j d" if "j \<noteq> ?i" for j
    using that by (auto simp: scan_participants_def d1 d2 d3 filter_empty_conv dest!: new_rows_fields)
  have all_new: "filter (\<lambda>r. m_conv r = ?i) ?new = ?new"
    by (auto simp: filter_id_conv dest: new_rows_fields)
  have scan_new: "scan_participants ?i d3 =
      map (\<lambda>r. (m_user r, \<lparr>p_UserID = m_user r, p_Role = m_role r\<rparr>)) ?new"
    by (simp add: scan_participants_def d1 d2 d3 none all_new)
  have "keys_ok d3"
    using keys dist fresh unfolding keys_ok_def by (auto simp: d1 d2 d3 row_def dest!: new_rows_fields)
  moreover have "seqs_ok d3"
    using seqs fresh unfolding seqs_ok_def by (auto simp: d1 d2 d3 row_def max_bigint_def)
  moreover have "convs_ok d3"
  proof -
    have "conv_wf (conv_view d3 r)" if "r \<in> set (conversations d)" for r
    proof -
      have "r_id r \<noteq> ?i" using that fresh by (metis imageI)
      then have "conv_view d3 r = conv_view d r" by (intro conv_view_cong scan_old)
      with co that show ?thesis by (simp add: convs_ok_def)
    qed
    moreover have "conv_wf (conv_view d3 row)"
    proof -
      have "distinct (map fst (scan_participants ?i d3))" by (rule distinct_scan_participants [OF dist])
      moreover have "cc_Type cmd = ConversationGroup \<Longrightarrow> 1 \<le> adminCount (scan_participants ?i d3)"
        unfolding scan_new using group adminCount_scan_new_rows by blast
      ultimately show ?thesis using direct by (auto simp: conv_wf_def row_def scan_new)
    qed
    ultimately show ?thesis using co ty by (auto simp: convs_ok_def d1 d2 d3 row_def)
  qed
  moreover have "lookup_ok d3"
  proof -
    have "distinct (lookup_keys (conversations d @ [row]))"
      using lk key by (cases "getLookupKey cmd") (auto simp: lookup_ok_def row_def lookup_keys_def)
    moreover have "\<exists>p q. r_lookup_key r = Some (direct_key p q)
        \<and> fst ` set (scan_participants (r_id r) d3) = {p, q}"
      if r: "r \<in> set (conversations d)" "r_type r = ConversationDirect" for r
    proof -
      have "r_id r \<noteq> ?i" using r(1) fresh by (metis imageI)
      with lk r show ?thesis by (simp add: lookup_ok_def scan_old)
    qed
    moreover have "\<exists>p q. getLookupKey cmd = Some (direct_key p q)
        \<and> fst ` set (scan_participants ?i d3) = {p, q}" if dir: "cc_Type cmd = ConversationDirect"
    proof -
      obtain p q where pq: "cc_Participants cmd = [p, q]"
        using direct [OF dir] by (auto simp: numeral_2_eq_2 length_Suc_conv)
      have "fst ` set (scan_participants ?i d3) = set (map m_user ?new)"
        unfolding scan_new by (simp add: image_image del: new_rows_users)
      then have "fst ` set (scan_participants ?i d3) = {p, q}" by (simp add: pq)
      with getLookupKey_direct [OF dir pq] show ?thesis by blast
    qed
    ultimately show ?thesis by (auto simp: lookup_ok_def d1 d2 d3 row_def)
  qed
  moreover have "receipts_ok d3"
  proof -
    have sq: "map_of (conversation_sequences d3) (m_conv p) = map_of (conversation_sequences d) (m_conv p)"
      if "p \<in> set (conversation_participants d)" for p
    proof -
      have "m_conv p \<noteq> ?i" using that none by (auto simp: filter_empty_conv)
      then show ?thesis by (simp add: d1 d2 d3 map_add_def split: option.splits)
    qed
    have "0 \<le> k" if "map_of (conversation_sequences d3) ?i = Some k" for k
      using \<open>seqs_ok d3\<close> map_of_SomeD [OF that] by (auto simp: seqs_ok_def)
    moreover have "conversation_participants d3 = conversation_participants d @ ?new"
      by (simp add: d1 d2 d3)
    ultimately show ?thesis
      using rc unfolding receipts_ok_def by (auto simp: sq dest!: new_rows_fields)
  qed
  moreover have "outbox_ok d3" using inv by (simp add: conv_inv_def outbox_ok_def d1 d2 d3)
  ultimately show ?thesis by (simp add: conv_inv_def)
qed

end
