(* ===== verification/ConvOps.thy ===== *)
theory ConvOps
  imports ConvInv
begin

text \<open>
  What the callbacks of the conversation service do to the tables when they return, and that each
  service operation keeps the invariant of the tables, whatever failures the database reports.
\<close>

section \<open>Membership operations\<close>

lemma AddParticipant_tx_InrD:
  assumes "AddParticipant_tx dp cmd s = (Inr u, t)"
  shows "\<exists>c. abs_conv (s_db s) (ap_ConversationID cmd) = Some c \<and> c_Type c = ConversationGroup
    \<and> is_admin c (ap_ActorID cmd)
    \<and> (if map_of (c_Participants c) (ap_TargetID cmd) \<noteq> None then s_db t = s_db s
       else \<exists>d1 b b'.
         sql_insert_participant (s_now s) (ap_ConversationID cmd) (ap_TargetID cmd) RoleMember (s_db s)
           = Inr (d1, ())
         \<and> enc_event (dp_codec dp)
             (MembershipChangedEvent (ap_ConversationID cmd) (ap_TargetID cmd) True) = Inr b
         \<and> enc_env (dp_codec dp) (EventEnvelope EVENT_TYPE_MEMBERSHIP_CHANGED 1 (s_now s) b) = Inr b'
         \<and> s_db t = sql_insert_outbox (s_now s) ''message'' (ap_ConversationID cmd)
             ''MEMBERSHIP_CHANGED'' b' d1)"
proof -
  let ?i = "ap_ConversationID cmd" and ?v = "ap_TargetID cmd"
  from assms obtain c s1 where f: "fetchConversation True ?i True s = (Inr c, s1)"
    and g: "c_Type c = ConversationGroup" "is_admin c (ap_ActorID cmd)"
    and k: "(if map_of (c_Participants c) ?v \<noteq> None then ret ()
       else bindE (InsertParticipant True ?i ?v RoleMember) (\<lambda>_.
         bindE (emit_event (dp_codec dp) EVENT_TYPE_MEMBERSHIP_CHANGED ?i ''MEMBERSHIP_CHANGED''
                  (MembershipChangedEvent ?i ?v True)) (\<lambda>_. InvalidateConversation dp ?i))) s1 = (Inr (), t)"
    by (auto simp: AddParticipant_tx_def GetConversationLocked_def bindE_Inr_iff split: if_splits)
  note c = fetchConversation_InrD [OF f]
  show ?thesis
  proof (cases "map_of (c_Participants c) ?v")
    case None
    from k None obtain x s2 y s3 where ins: "InsertParticipant True ?i ?v RoleMember s1 = (Inr x, s2)"
      and em: "emit_event (dp_codec dp) EVENT_TYPE_MEMBERSHIP_CHANGED ?i ''MEMBERSHIP_CHANGED''
        (MembershipChangedEvent ?i ?v True) s2 = (Inr y, s3)"
      and iv: "InvalidateConversation dp ?i s3 = (Inr (), t)"
      by (auto simp: bindE_Inr_iff)
    from emit_event_InrD [OF em] InsertParticipant_InrD [OF ins] InvalidateConversation_InrD [OF iv] c
    show ?thesis using g None by (intro exI [of _ c]) auto
  next
    case (Some p)
    with k c g show ?thesis by (intro exI [of _ c]) auto
  qed
qed

lemma RemoveParticipant_tx_InrD:
  assumes "RemoveParticipant_tx dp cmd s = (Inr u, t)"
  shows "\<exists>c. abs_conv (s_db s) (rp_ConversationID cmd) = Some c \<and> c_Type c = ConversationGroup
    \<and> is_admin c (rp_ActorID cmd)
    \<and> (case map_of (c_Participants c) (rp_TargetID cmd) of
         None \<Rightarrow> s_db t = s_db s
       | Some q \<Rightarrow> \<not> (p_Role q = RoleAdmin \<and> adminCount (c_Participants c) \<le> 1)
         \<and> (\<exists>b b'. enc_event (dp_codec dp)
               (MembershipChangedEvent (rp_ConversationID cmd) (rp_TargetID cmd) False) = Inr b
             \<and> enc_env (dp_codec dp) (EventEnvelope EVENT_TYPE_MEMBERSHIP_CHANGED 1 (s_now s) b) = Inr b'
             \<and> s_db t = sql_insert_outbox (s_now s) ''message'' (rp_ConversationID cmd) ''MEMBERSHIP_CHANGED'' b'
                 ((s_db s)\<lparr>conversation_participants :=
                    filter (\<lambda>r. \<not> (m_conv r = rp_ConversationID cmd \<and> m_user r = rp_TargetID cmd))
                      (conversation_participants (s_db s))\<rparr>)))"
proof -
  let ?i = "rp_ConversationID cmd" and ?v = "rp_TargetID cmd"
  from assms obtain c s1 where f: "fetchConversation True ?i True s = (Inr c, s1)"
    and g: "c_Type c = ConversationGroup" "is_admin c (rp_ActorID cmd)"
    and k: "(case map_of (c_Participants c) ?v of None \<Rightarrow> ret ()
       | Some q \<Rightarrow> if p_Role q = RoleAdmin \<and> adminCount (c_Participants c) \<le> 1
           then throw (Domain ErrLastAdmin)
           else bindE (DeleteParticipant True ?i ?v) (\<lambda>_.
             bindE (emit_event (dp_codec dp) EVENT_TYPE_MEMBERSHIP_CHANGED ?i ''MEMBERSHIP_CHANGED''
                      (MembershipChangedEvent ?i ?v False)) (\<lambda>_. InvalidateConversation dp ?i))) s1
      = (Inr (), t)"
    by (auto simp: RemoveParticipant_tx_def GetConversationLocked_def bindE_Inr_iff split: if_splits)
  note c = fetchConversation_InrD [OF f]
  show ?thesis
  proof (cases "map_of (c_Participants c) ?v")
    case None
    with k c g show ?thesis by (intro exI [of _ c]) auto
  next
    case (Some q)
    from k Some obtain x s2 y s3 where del: "DeleteParticipant True ?i ?v s1 = (Inr x, s2)"
      and guard: "\<not> (p_Role q = RoleAdmin \<and> adminCount (c_Participants c) \<le> 1)"
      and em: "emit_event (dp_codec dp) EVENT_TYPE_MEMBERSHIP_CHANGED ?i ''MEMBERSHIP_CHANGED''
        (MembershipChangedEvent ?i ?v False) s2 = (Inr y, s3)"
      and iv: "InvalidateConversation dp ?i s3 = (Inr (), t)"
      by (auto simp: bindE_Inr_iff split: if_splits)
    from emit_event_InrD [OF em] DeleteParticipant_InrD [OF del] InvalidateConversation_InrD [OF iv] c
    show ?thesis using g Some guard by (intro exI [of _ c]) auto
  qed
qed

lemma AddParticipant_tx_inv:
  assumes "conv_inv (s_db s)" and "AddParticipant_tx dp cmd s = (Inr u, t)"
  shows "conv_inv (s_db t)"
proof -
  from AddParticipant_tx_InrD [OF assms(2)] obtain c where
      c: "abs_conv (s_db s) (ap_ConversationID cmd) = Some c" "c_Type c = ConversationGroup"
    and k: "s_db t = s_db s \<or> (\<exists>d1 b'.
      sql_insert_participant (s_now s) (ap_ConversationID cmd) (ap_TargetID cmd) RoleMember (s_db s) = Inr (d1, ())
      \<and> s_db t = sql_insert_outbox (s_now s) ''message'' (ap_ConversationID cmd) ''MEMBERSHIP_CHANGED'' b' d1)"
    by (auto split: if_splits)
  from k show ?thesis
  proof
    assume "s_db t = s_db s"
    with assms(1) show ?thesis by simp
  next
    assume "\<exists>d1 b'.
      sql_insert_participant (s_now s) (ap_ConversationID cmd) (ap_TargetID cmd) RoleMember (s_db s) = Inr (d1, ())
      \<and> s_db t = sql_insert_outbox (s_now s) ''message'' (ap_ConversationID cmd) ''MEMBERSHIP_CHANGED'' b' d1"
    then obtain d1 b' where
        "sql_insert_participant (s_now s) (ap_ConversationID cmd) (ap_TargetID cmd) RoleMember (s_db s) = Inr (d1, ())"
      and t: "s_db t = sql_insert_outbox (s_now s) ''message'' (ap_ConversationID cmd) ''MEMBERSHIP_CHANGED'' b' d1"
      by blast
    from conv_inv_add_member [OF assms(1) c this(1)] show ?thesis
      unfolding t by (rule conv_inv_insert_outbox)
  qed
qed

lemma RemoveParticipant_tx_inv:
  assumes "conv_inv (s_db s)" and "RemoveParticipant_tx dp cmd s = (Inr u, t)"
  shows "conv_inv (s_db t)"
proof -
  from RemoveParticipant_tx_InrD [OF assms(2)] obtain c where
      c: "abs_conv (s_db s) (rp_ConversationID cmd) = Some c" "c_Type c = ConversationGroup"
    and k: "case map_of (c_Participants c) (rp_TargetID cmd) of
         None \<Rightarrow> s_db t = s_db s
       | Some q \<Rightarrow> \<not> (p_Role q = RoleAdmin \<and> adminCount (c_Participants c) \<le> 1)
         \<and> (\<exists>b'. s_db t = sql_insert_outbox (s_now s) ''message'' (rp_ConversationID cmd) ''MEMBERSHIP_CHANGED'' b'
                 ((s_db s)\<lparr>conversation_participants :=
                    filter (\<lambda>r. \<not> (m_conv r = rp_ConversationID cmd \<and> m_user r = rp_TargetID cmd))
                      (conversation_participants (s_db s))\<rparr>))"
    by (fastforce split: option.splits)
  show ?thesis
  proof (cases "map_of (c_Participants c) (rp_TargetID cmd)")
    case None
    with k assms(1) show ?thesis by simp
  next
    case (Some q)
    with k obtain b' where guard: "\<not> (p_Role q = RoleAdmin \<and> adminCount (c_Participants c) \<le> 1)"
      and t: "s_db t = sql_insert_outbox (s_now s) ''message'' (rp_ConversationID cmd) ''MEMBERSHIP_CHANGED'' b'
                 ((s_db s)\<lparr>conversation_participants :=
                    filter (\<lambda>r. \<not> (m_conv r = rp_ConversationID cmd \<and> m_user r = rp_TargetID cmd))
                      (conversation_participants (s_db s))\<rparr>)"
      by (simp only: option.case) blast
    show ?thesis unfolding t
      by (rule conv_inv_insert_outbox, rule conv_inv_del_member [OF assms(1) c Some guard refl])
  qed
qed

section \<open>Sequences and receipts\<close>

lemma repo_NextSequence_InrD:
  assumes "repo_NextSequence tx i s = (Inr n, t)"
  shows "\<exists>m. map_of (conversation_sequences (s_db s)) i = Some m \<and> m \<noteq> max_bigint \<and> n = m + 1
    \<and> s_db t = (s_db s)\<lparr>conversation_sequences := map_put i n (conversation_sequences (s_db s))\<rparr>
    \<and> s_world t = s_world s \<and> s_aborted t = s_aborted s"
  using assms
  by (auto simp: repo_NextSequence_def bindE_Inr_iff split: option.splits if_splits dest!: stmt_InrD)

lemma repo_NextSequence_inv:
  assumes "conv_inv (s_db s)" and "repo_NextSequence tx i s = (Inr n, t)"
  shows "conv_inv (s_db t)"
  using repo_NextSequence_InrD [OF assms(2)] conv_inv_next [OF assms(1)] by auto

definition clamp_receipt :: "'b conv_db \<Rightarrow> string \<Rightarrow> int \<Rightarrow> int" where
  "clamp_receipt d i n =
     min n (case map_of (conversation_sequences d) i of None \<Rightarrow> 0 | Some k \<Rightarrow> k - 1)"

lemma UpdateReadReceipt_tx_InrD:
  assumes "UpdateReadReceipt_tx dp i u n s = (Inr x, t)"
  shows "\<exists>b b'. enc_event (dp_codec dp) (ReadReceiptUpdatedEvent i u (clamp_receipt (s_db s) i n)) = Inr b
    \<and> enc_env (dp_codec dp) (EventEnvelope EVENT_TYPE_READ_RECEIPT_UPDATED 1 (s_now s) b) = Inr b'
    \<and> s_db t = sql_insert_outbox (s_now s) ''message'' i ''READ_RECEIPT_UPDATED'' b'
        ((s_db s)\<lparr>conversation_participants :=
           map (raise_receipt i u (clamp_receipt (s_db s) i n)) (conversation_participants (s_db s))\<rparr>)"
proof -
  from assms obtain m s1 y s2 where
      q: "GetCurrentMaxSequence True i s = (Inr m, s1)"
    and up: "UpdateLastReadSequence True i u (if n > m then m else n) s1 = (Inr y, s2)"
    and em: "emit_event (dp_codec dp) EVENT_TYPE_READ_RECEIPT_UPDATED i ''READ_RECEIPT_UPDATED''
       (ReadReceiptUpdatedEvent i u (if n > m then m else n)) s2 = (Inr x, t)"
    by (auto simp: UpdateReadReceipt_tx_def bindE_Inr_iff Let_def)
  from query_InrD [OF q [unfolded GetCurrentMaxSequence_def]]
  have m: "(if n > m then m else n) = clamp_receipt (s_db s) i n" and same: "s_db s1 = s_db s" "s_now s1 = s_now s"
    by (auto simp: clamp_receipt_def min_def)
  from emit_event_InrD [OF em] UpdateLastReadSequence_InrD [OF up] show ?thesis
    unfolding m using same by auto
qed

lemma UpdateReadReceipt_tx_inv:
  assumes inv: "conv_inv (s_db s)" and run: "UpdateReadReceipt_tx dp i u n s = (Inr x, t)"
  shows "conv_inv (s_db t)"
proof -
  have le: "clamp_receipt (s_db s) i n \<le> max 0 (k - 1)" if "map_of (conversation_sequences (s_db s)) i = Some k" for k
    using that by (auto simp: clamp_receipt_def)
  from UpdateReadReceipt_tx_InrD [OF run] obtain b' where
    t: "s_db t = sql_insert_outbox (s_now s) ''message'' i ''READ_RECEIPT_UPDATED'' b'
        ((s_db s)\<lparr>conversation_participants :=
           map (raise_receipt i u (clamp_receipt (s_db s) i n)) (conversation_participants (s_db s))\<rparr>)"
    by blast
  show ?thesis unfolding t
    by (rule conv_inv_insert_outbox, rule conv_inv_receipt [OF inv le refl])
qed

section \<open>Creation\<close>

text \<open>The tables after the rows of a new conversation are in place.\<close>

definition created_tables ::
  "int \<Rightarrow> CreateConversationCommand \<Rightarrow> 'b conv_db \<Rightarrow> 'b conv_db \<Rightarrow> bool" where
  "created_tables now cmd d d3 \<longleftrightarrow>
     (\<exists>d1 d2. sql_insert_conversation now (cc_ID cmd) (cc_Type cmd) (cc_Name cmd) (cc_AvatarURL cmd)
                (getLookupKey cmd) d = Inr (d1, ())
        \<and> d2 = d1\<lparr>conversation_sequences := conversation_sequences d1 @ [(cc_ID cmd, 0)]\<rparr>
        \<and> d3 = d2\<lparr>conversation_participants :=
             conversation_participants d2 @ new_rows now cmd 0 (cc_Participants cmd)\<rparr>
        \<and> distinct (map (\<lambda>p. (m_conv p, m_user p)) (conversation_participants d3)))"

definition valid_create :: "CreateConversationCommand \<Rightarrow> bool" where
  "valid_create cmd \<longleftrightarrow>
     cc_ID cmd \<noteq> []
     \<and> (cc_Type cmd = ConversationDirect \<longrightarrow> length (cc_Participants cmd) = 2)
     \<and> (cc_Type cmd = ConversationGroup \<longrightarrow> cc_Participants cmd \<noteq> [])"

lemma conv_inv_created:
  assumes "conv_inv d" and "valid_create cmd" and "created_tables now cmd d d3"
  shows "conv_inv d3"
proof -
  from assms(3) obtain d1 d2 where
      a: "sql_insert_conversation now (cc_ID cmd) (cc_Type cmd) (cc_Name cmd) (cc_AvatarURL cmd)
            (getLookupKey cmd) d = Inr (d1, ())"
    and b: "d2 = d1\<lparr>conversation_sequences := conversation_sequences d1 @ [(cc_ID cmd, 0)]\<rparr>"
    and c: "d3 = d2\<lparr>conversation_participants :=
      conversation_participants d2 @ new_rows now cmd 0 (cc_Participants cmd)\<rparr>"
    and e: "distinct (map (\<lambda>p. (m_conv p, m_user p)) (conversation_participants d3))"
    unfolding created_tables_def by blast
  show ?thesis
    by (rule conv_inv_create [OF assms(1) a b c e]) (use assms(2) in \<open>simp_all add: valid_create_def\<close>)
qed

lemma InsertParticipant_InlD:
  "InsertParticipant True i v role s = (Inl e, t) \<Longrightarrow> s_aborted t"
  by (auto simp: InsertParticipant_def bindE_Inl_iff dest!: stmt_InlD)

lemma insertParticipants_from_InlD:
  "insertParticipants_from cmd i us s = (Inl e, t) \<Longrightarrow> s_aborted t"
  by (induction us arbitrary: i s)
    (auto simp: bindE_Inl_iff Let_def wrap_err_Inl_iff dest!: InsertParticipant_InlD)

lemma fetchConversation_InlD:
  assumes "fetchConversation tx i fu s = (Inl e, t)"
  shows "s_db t = s_db s \<and> s_world t = s_world s"
  using assms
  by (auto simp: fetchConversation_def bindE_Inl_iff split: option.splits dest!: query_InrD query_InlD)

text \<open>
  Whatever it returns, a run of \<open>emitConversationCreated\<close> that leaves the block intact changes at
  most the outbox.
\<close>

lemma emitConversationCreated_db:
  fixes s :: "('b conv_db, 'w) sess"
  assumes "emitConversationCreated dp i s = (r, t)"
  shows "s_db t = s_db s \<or> (\<exists>b' n. s_db t =
    sql_insert_outbox n ''message'' i ''CONVERSATION_CREATED'' b' (s_db s))"
proof (cases r)
  case (Inl e)
  have emb: "s_db t = s_db s'" if "InsertOutbox True a k nm b' s' = (Inl e', t)" for a k nm b' s' e'
    using that by (auto simp: InsertOutbox_def bindE_Inl_iff dest!: stmt_InlD)
  have lr: "s_db t = s_db s'" if "lift_res x s' = (Inl e', t)" for x e' and s' :: "('b conv_db, 'w) sess"
    using that by (cases x) auto
  from assms Inl show ?thesis
    unfolding emitConversationCreated_def GetConversationLocked_def
    by (auto simp: bindE_Inl_iff wrap_err_Inl_iff dest!: fetchConversation_InlD fetchConversation_InrD emb lr)
next
  case (Inr c)
  with assms obtain c' s1 b' x s2 where f: "fetchConversation True i True s = (Inr c', s1)"
    and o: "InsertOutbox True ''message'' (c_ID c') ''CONVERSATION_CREATED'' b' s1 = (Inr x, s2)" and t: "t = s2"
    by (auto simp: emitConversationCreated_def GetConversationLocked_def bindE_Inr_iff)
  from abs_conv_SomeD [OF conjunct1 [OF fetchConversation_InrD [OF f]]] have "c_ID c' = i" by auto
  moreover from o have "s_db s2 = sql_insert_outbox (s_now s1) ''message'' (c_ID c') ''CONVERSATION_CREATED'' b' (s_db s1)"
    by (auto simp: InsertOutbox_def bindE_Inr_iff dest!: stmt_InrD)
  ultimately show ?thesis using t fetchConversation_InrD [OF f] by auto
qed

lemma sql_insert_conversation_parts:
  "sql_insert_conversation now i ty nm av k d = Inr (d', u) \<Longrightarrow>
     conversation_participants d' = conversation_participants d"
  by (auto simp: sql_insert_conversation_def split: if_splits)

lemma doCreateConversation_db:
  assumes run: "doCreateConversation dp cmd (getLookupKey cmd) s = (r, t)"
    and ok: "\<not> s_aborted t"
    and dist: "distinct (map (\<lambda>p. (m_conv p, m_user p)) (conversation_participants (s_db s)))"
  shows "\<exists>d3. created_tables (s_now s) cmd (s_db s) d3 \<and>
    (s_db t = d3 \<or> (\<exists>b' n. s_db t = sql_insert_outbox n ''message'' (cc_ID cmd) ''CONVERSATION_CREATED'' b' d3))"
proof -
  let ?ins = "InsertConversation True (cc_ID cmd) (cc_Type cmd) (cc_Name cmd) (cc_AvatarURL cmd) (getLookupKey cmd)"
  obtain r1 s1 where i1: "?ins s = (r1, s1)" by fastforce
  obtain r2 s2 where i2: "InitSequence True (cc_ID cmd) s1 = (r2, s2)" by fastforce
  obtain r3 s3 where i3: "insertParticipants cmd s2 = (r3, s3)" by fastforce
  have a1: "r1 = Inl e \<Longrightarrow> s_aborted s1" for e
    using i1 by (auto simp: InsertConversation_def bindE_Inl_iff dest!: stmt_InlD)
  have a2: "r2 = Inl e \<Longrightarrow> s_aborted s2" for e
    using i2 by (auto simp: InitSequence_def dest!: stmt_InlD)
  have a3: "r3 = Inl e \<Longrightarrow> s_aborted s3" for e
    using i3 insertParticipants_from_InlD by (auto simp: insertParticipants_def)
  have "\<exists>x. r1 = Inr x"
    using run ok a1 i1 by (cases r1) (auto simp: doCreateConversation_def)
  then have r1: "r1 = Inr ()" by simp
  have "\<exists>x. r2 = Inr x"
    using run ok a2 i1 i2 r1 by (cases r2) (auto simp: doCreateConversation_def)
  then have r2: "r2 = Inr ()" by simp
  have "\<exists>x. r3 = Inr x"
    using run ok a3 i1 i2 i3 r1 r2 by (cases r3) (auto simp: doCreateConversation_def)
  then have r3: "r3 = Inr ()" by simp
  have em: "emitConversationCreated dp (cc_ID cmd) s3 = (r, t)"
    using run i1 i2 i3 r1 r2 r3 by (auto simp: doCreateConversation_def)
  have d1: "sql_insert_conversation (s_now s) (cc_ID cmd) (cc_Type cmd) (cc_Name cmd) (cc_AvatarURL cmd)
      (getLookupKey cmd) (s_db s) = Inr (s_db s1, ()) \<and> s_now s1 = s_now s"
    using i1 r1 by (auto simp: InsertConversation_def bindE_Inr_iff dest!: stmt_InrD)
  have d2: "s_db s2 = (s_db s1)\<lparr>conversation_sequences := conversation_sequences (s_db s1) @ [(cc_ID cmd, 0)]\<rparr>
      \<and> s_now s2 = s_now s1"
    using i2 r2 by (auto simp: InitSequence_def split: if_splits dest!: stmt_InrD)
  have "conversation_participants (s_db s2) = conversation_participants (s_db s)"
    using d2 sql_insert_conversation_parts [OF conjunct1 [OF d1]] by simp
  then have "distinct (map (\<lambda>p. (m_conv p, m_user p)) (conversation_participants (s_db s2)))"
    using dist by simp
  from insertParticipants_from_InrD [OF i3 [unfolded r3 insertParticipants_def] this]
  have d3: "s_db s3 = (s_db s2)\<lparr>conversation_participants :=
      conversation_participants (s_db s2) @ new_rows (s_now s) cmd 0 (cc_Participants cmd)\<rparr>"
    and dist3: "distinct (map (\<lambda>p. (m_conv p, m_user p)) (conversation_participants (s_db s3)))"
    using d1 d2 by metis+
  have "created_tables (s_now s) cmd (s_db s) (s_db s3)"
    unfolding created_tables_def using d1 d2 d3 dist3 by blast
  with emitConversationCreated_db [OF em] show ?thesis by blast
qed

lemma only_reads_fetchConversation [simp, intro]: "only_reads (fetchConversation tx i fu)"
  unfolding fetchConversation_def by (intro only_reads_rules)

lemma only_reads_repo_GetConversation [simp, intro]: "only_reads (repo_GetConversation dp tx i)"
  unfolding repo_GetConversation_def Let_def by (intro only_reads_rules only_reads_fetchConversation)

lemma only_reads_GetConversationByLookupKey [simp, intro]: "only_reads (GetConversationByLookupKey tx k)"
  unfolding GetConversationByLookupKey_def by (intro only_reads_rules only_reads_fetchConversation)

lemma only_reads_parallelLookup [simp, intro]: "only_reads (parallelLookup dp idFirst i k)"
  unfolding parallelLookup_def Let_def lookup_quiet_def
  by (intro only_reads_rules only_reads_repo_GetConversation only_reads_GetConversationByLookupKey)

lemma only_reads_ListConversations: "only_reads (ListConversations u)"
  unfolding ListConversations_def ListConversationsByUser_def Let_def by (intro only_reads_rules)

text \<open>A lookup inside the transaction finds a conversation or goes on with \<open>k\<close> on the same tables.\<close>

lemma found_or_cases:
  assumes "only_reads m" and "found_or m k s = (r, t)"
  shows "(\<exists>c. m s = (Inr c, t) \<and> r = Inr c)
    \<or> (\<exists>e s1. m s = (Inl e, s1) \<and> s_db s1 = s_db s \<and> (s_aborted s \<longrightarrow> s_aborted s1) \<and> k s1 = (r, t))"
proof -
  obtain r1 s1 where m: "m s = (r1, s1)" by fastforce
  with assms(2) only_readsD [OF assms(1) m] show ?thesis
    by (cases r1) (auto simp: found_or_def)
qed

lemma lookup_in_tx_cases:
  assumes "lookup_in_tx dp cmd key k s = (r, t)"
  shows "((\<exists>c. r = Inr c) \<and> s_db t = s_db s \<and> (s_aborted s \<longrightarrow> s_aborted t))
    \<or> (\<exists>s1. s_db s1 = s_db s \<and> (s_aborted s \<longrightarrow> s_aborted s1) \<and> k s1 = (r, t))"
proof -
  define byKey where "byKey = (case key of None \<Rightarrow> k
    | Some ky \<Rightarrow> found_or (GetConversationByLookupKey True ky) k)"
  have key: "((\<exists>c. r = Inr c) \<and> s_db t = s_db s' \<and> (s_aborted s' \<longrightarrow> s_aborted t))
      \<or> (\<exists>s1. s_db s1 = s_db s' \<and> (s_aborted s' \<longrightarrow> s_aborted s1) \<and> k s1 = (r, t))"
    if "byKey s' = (r, t)" for s'
    using that found_or_cases [OF only_reads_GetConversationByLookupKey, of True _ k s' r t]
      only_readsD [OF only_reads_GetConversationByLookupKey]
    unfolding byKey_def by (cases key) fastforce+
  from assms have run: "(if cc_ID cmd \<noteq> [] then found_or (repo_GetConversation dp True (cc_ID cmd)) byKey
      else byKey) s = (r, t)"
    by (simp only: lookup_in_tx_def Let_def byKey_def)
  show ?thesis
  proof (cases "cc_ID cmd = []")
    case True
    with run key [of s] show ?thesis by simp
  next
    case False
    with run have "found_or (repo_GetConversation dp True (cc_ID cmd)) byKey s = (r, t)" by simp
    from found_or_cases [OF only_reads_repo_GetConversation this] show ?thesis
    proof
      assume "\<exists>c. repo_GetConversation dp True (cc_ID cmd) s = (Inr c, t) \<and> r = Inr c"
      then show ?thesis using only_readsD [OF only_reads_repo_GetConversation] by metis
    next
      assume "\<exists>e s1. repo_GetConversation dp True (cc_ID cmd) s = (Inl e, s1) \<and> s_db s1 = s_db s
        \<and> (s_aborted s \<longrightarrow> s_aborted s1) \<and> byKey s1 = (r, t)"
      then show ?thesis using key by metis
    qed
  qed
qed

lemma CreateConversation_tx_InrD:
  assumes run: "CreateConversation_tx dp cmd (getLookupKey cmd) s = (Inr c, t)" and ok: "\<not> s_aborted t"
    and dist: "distinct (map (\<lambda>p. (m_conv p, m_user p)) (conversation_participants (s_db s)))"
  shows "s_db t = s_db s \<or> (\<exists>now d3. created_tables now cmd (s_db s) d3 \<and>
    (s_db t = d3 \<or> (\<exists>b' n. s_db t = sql_insert_outbox n ''message'' (cc_ID cmd) ''CONVERSATION_CREATED'' b' d3)))"
proof -
  define k where "k = attempt (doCreateConversation dp cmd (getLookupKey cmd)) (\<lambda>r.
          case r of Inr conv \<Rightarrow> ret conv | Inl err \<Rightarrow> lookup_in_tx dp cmd (getLookupKey cmd) (throw err))"
  from run have "lookup_in_tx dp cmd (getLookupKey cmd) k s = (Inr c, t)"
    by (simp add: CreateConversation_tx_def k_def)
  from lookup_in_tx_cases [OF this] show ?thesis
  proof
    assume "\<exists>s1. s_db s1 = s_db s \<and> (s_aborted s \<longrightarrow> s_aborted s1) \<and> k s1 = (Inr c, t)"
    then obtain s1 where s1: "s_db s1 = s_db s" and k: "k s1 = (Inr c, t)" by blast
    obtain r2 s2 where dc: "doCreateConversation dp cmd (getLookupKey cmd) s1 = (r2, s2)" by fastforce
    have "s_db t = s_db s2 \<and> \<not> s_aborted s2"
    proof (cases r2)
      case (Inl e)
      with k dc have "lookup_in_tx dp cmd (getLookupKey cmd) (throw e) s2 = (Inr c, t)"
        by (simp add: k_def)
      from lookup_in_tx_cases [OF this] ok show ?thesis by auto
    next
      case (Inr c')
      with k dc ok show ?thesis by (simp add: k_def)
    qed
    then show ?thesis
      using doCreateConversation_db [OF dc _ dist [folded s1]] unfolding s1 by auto
  qed simp
qed

lemma CreateConversation_tx_inv:
  assumes inv: "conv_inv (s_db s)" and valid: "valid_create cmd"
    and run: "CreateConversation_tx dp cmd (getLookupKey cmd) s = (Inr c, t)" and ok: "\<not> s_aborted t"
  shows "conv_inv (s_db t)"
proof -
  have "distinct (map (\<lambda>p. (m_conv p, m_user p)) (conversation_participants (s_db s)))"
    using inv by (simp add: conv_inv_def keys_ok_def)
  from CreateConversation_tx_InrD [OF run ok this] show ?thesis
  proof (elim disjE exE conjE)
    fix now d3 assume "created_tables now cmd (s_db s) d3" and "s_db t = d3"
    with conv_inv_created [OF inv valid] show ?thesis by simp
  next
    fix now d3 b' n assume "created_tables now cmd (s_db s) d3"
      and t: "s_db t = sql_insert_outbox n ''message'' (cc_ID cmd) ''CONVERSATION_CREATED'' b' d3"
    from conv_inv_created [OF inv valid this(1)] show ?thesis
      unfolding t by (rule conv_inv_insert_outbox)
  qed (use inv in simp)
qed

section \<open>Every operation keeps the invariant\<close>

lemma AddParticipant_inv: "conv_inv (s_db s) \<Longrightarrow> conv_inv (s_db (snd (AddParticipant dp cmd s)))"
  unfolding AddParticipant_def by (rule txm.preserves) (rule AddParticipant_tx_inv)

lemma RemoveParticipant_inv: "conv_inv (s_db s) \<Longrightarrow> conv_inv (s_db (snd (RemoveParticipant dp cmd s)))"
  unfolding RemoveParticipant_def by (rule txm.preserves) (rule RemoveParticipant_tx_inv)

lemma NextSequence_inv: "conv_inv (s_db s) \<Longrightarrow> conv_inv (s_db (snd (NextSequence i s)))"
  unfolding NextSequence_def by (rule txm.preserves) (auto intro: repo_NextSequence_inv)

lemma UpdateReadReceipt_inv:
  "conv_inv (s_db s) \<Longrightarrow> conv_inv (s_db (snd (UpdateReadReceipt dp i u n s)))"
  unfolding UpdateReadReceipt_def by (rule txm.preserves) (rule UpdateReadReceipt_tx_inv)

lemma CreateConversation_inv:
  assumes "conv_inv (s_db s)"
  shows "conv_inv (s_db (snd (CreateConversation dp idFirst cmd s)))"
proof (cases "valid_create cmd \<and> \<not> (cc_Type cmd = ConversationDirect \<and> getLookupKey cmd = None)")
  case False
  then have "s_db (snd (CreateConversation dp idFirst cmd s)) = s_db s"
    by (auto simp: CreateConversation_def valid_create_def Let_def)
  with assms show ?thesis by simp
next
  case True
  obtain r s1 where pl: "parallelLookup dp idFirst (cc_ID cmd) (getLookupKey cmd) s = (r, s1)" by fastforce
  note same = only_readsD [OF only_reads_parallelLookup pl]
  have "s_db (snd (CreateConversation dp idFirst cmd s)) = s_db s1 \<or>
      CreateConversation dp idFirst cmd s =
        WithTx conv_err_text (CreateConversation_tx dp cmd (getLookupKey cmd)) s1"
    using True pl by (cases r) (auto simp: CreateConversation_def valid_create_def Let_def split: option.splits)
  moreover have "conv_inv (s_db (snd (WithTx conv_err_text
      (CreateConversation_tx dp cmd (getLookupKey cmd)) s1)))"
  proof (rule txm.preserves)
    show "conv_inv (s_db s1)" using assms same by simp
    show "conv_inv (s_db s3)"
      if "conv_inv (s_db s2)" "CreateConversation_tx dp cmd (getLookupKey cmd) s2 = (Inr a, s3)"
        "\<not> s_aborted s3" for s2 a s3
      using CreateConversation_tx_inv [OF that(1) _ that(2,3)] True by blast
  qed
  ultimately show ?thesis using assms same by metis
qed

lemma GetConversation_db: "s_db (snd (GetConversation dp i s)) = s_db s"
  unfolding GetConversation_def
  using only_readsD(1) [OF only_reads_repo_GetConversation] by (metis prod.collapse)

lemma ListConversations_db: "s_db (snd (ListConversations u s)) = s_db s"
  using only_readsD(1) [OF only_reads_ListConversations] by (metis prod.collapse)

end
