(* ===== verification/Kafka.thy ===== *)
theory Kafka
  imports SqlTx "HOL-Library.Sublist"
begin

text \<open>
  \<^verbatim>\<open>internal/kafka/producer.go\<close> of the conversation and message services. The broker behind the
  client library is a parameter: \<open>produce\<close> either refuses the message at once or hands back its
  delivery report, which says whether the broker acknowledged it. \<open>broker_ok\<close> is what the
  acknowledgement of a producer with \<open>acks = all\<close> promises.
\<close>

record 'b kafka_msg =
  k_topic :: string
  k_key :: string
  k_value :: 'b
  k_headers :: "(string \<times> string) list"

datatype produce_result =
    Refused string                     \<comment> \<open>\<open>Produce\<close> returned an error\<close>
  | Delivery "string option"           \<comment> \<open>the report's \<open>TopicPartition.Error\<close>\<close>

record ('w, 'b) producer =
  kp_topic :: string
  kp_inject :: "(string \<times> string) list"  \<comment> \<open>what the propagator \<open>Set\<close>s on the carrier, in order\<close>
  kp_produce :: "'b kafka_msg \<Rightarrow> 'w \<Rightarrow> produce_result \<times> 'w"

text \<open>The header carrier of the trace propagator.\<close>

fun carrier_Get :: "(string \<times> string) list \<Rightarrow> string \<Rightarrow> string" where
  "carrier_Get [] key = []"
| "carrier_Get (h # hs) key = (if fst h = key then snd h else carrier_Get hs key)"

definition carrier_Set :: "string \<Rightarrow> string \<Rightarrow> (string \<times> string) list \<Rightarrow> (string \<times> string) list" where
  "carrier_Set key v hs = hs @ [(key, v)]"

definition carrier_Keys :: "(string \<times> string) list \<Rightarrow> string list" where
  "carrier_Keys hs = map fst hs"

definition Publish_msg :: "('w, 'b) producer \<Rightarrow> string \<Rightarrow> 'b \<Rightarrow> 'b kafka_msg" where
  "Publish_msg p key v =
     \<lparr>k_topic = kp_topic p, k_key = key, k_value = v,
      k_headers = fold (\<lambda>(a, b). carrier_Set a b) (kp_inject p) []\<rparr>"

definition Publish :: "('w, 'b) producer \<Rightarrow> string \<Rightarrow> 'b \<Rightarrow> 'w \<Rightarrow> ('e go_error + unit) \<times> 'w" where
  "Publish p key v w =
     (case kp_produce p (Publish_msg p key v) w of
        (Refused err, w') \<Rightarrow> (Inl (Plain err), w')
      | (Delivery (Some err), w') \<Rightarrow> (Inl (Plain err), w')
      | (Delivery None, w') \<Rightarrow> (Inr (), w'))"

text \<open>
  The log of the partition only grows, and an acknowledged message is among what was appended. A call
  that reports an error may have appended the message too, and other producers may append theirs.
\<close>

definition broker_ok :: "('w \<Rightarrow> 'b kafka_msg list) \<Rightarrow> ('w, 'b) producer \<Rightarrow> bool" where
  "broker_ok klog p \<longleftrightarrow>
     (\<forall>m w r w'. kp_produce p m w = (r, w') \<longrightarrow>
        (\<exists>ext. klog w' = klog w @ ext \<and> (r = Delivery None \<longrightarrow> m \<in> set ext)))"

lemma carrier_Set_headers: "fold (\<lambda>(a, b). carrier_Set a b) xs hs = hs @ xs"
  by (induction xs arbitrary: hs) (auto simp: carrier_Set_def)

lemma carrier_Get_Set:
  "carrier_Get (carrier_Set key v hs) k =
     (if k \<in> set (carrier_Keys hs) then carrier_Get hs k else if k = key then v else [])"
  by (induction hs) (auto simp: carrier_Set_def carrier_Keys_def rev_image_eqI)

lemma Publish_log:
  assumes "broker_ok klog p" and "Publish p key v w = (r, w')"
  shows "\<exists>ext. klog w' = klog w @ ext \<and> ((\<exists>u. r = Inr u) \<longrightarrow> Publish_msg p key v \<in> set ext)"
proof -
  obtain q where q: "kp_produce p (Publish_msg p key v) w = (q, w')"
    and r: "(\<exists>u. r = Inr u) \<longrightarrow> q = Delivery None"
    using assms(2)
    by (auto simp: Publish_def split: prod.splits produce_result.splits option.splits)
  from assms(1) q have "\<exists>ext. klog w' = klog w @ ext \<and> (q = Delivery None \<longrightarrow> Publish_msg p key v \<in> set ext)"
    unfolding broker_ok_def by blast
  with r show ?thesis by auto
qed

end
