(* ===== verification/ConvWorker.thy ===== *)
theory ConvWorker
  imports ConvOps Kafka
begin

text \<open>
  \<^verbatim>\<open>services/conversation/internal/outbox/worker.go\<close>: one poll of the outbox. The pending rows are
  read in id order, published one by one and marked; the first failure is counted on its row, or
  moves the row to \<open>outbox_dlq\<close> once its retries are used up, and ends the batch, whose marks are
  still committed. \<open>FOR UPDATE SKIP LOCKED\<close> lets several workers share the table; one worker alone
  sees every pending row. The tables here are those of the conversation service, the world is the
  broker.
\<close>

record conv_worker =
  cw_BatchSize :: nat
  cw_MaxRetries :: nat

definition pending_batch :: "nat \<Rightarrow> 'b conv_db \<Rightarrow> 'b outbox_row list" where
  "pending_batch n d =
     take n (sort_key o_id (filter (\<lambda>e. o_processed_at e = None) (outbox_events d)))"

definition upd_outbox ::
  "nat \<Rightarrow> ('b outbox_row \<Rightarrow> 'b outbox_row) \<Rightarrow> 'b conv_db \<Rightarrow> 'b conv_db" where
  "upd_outbox i f d =
     d\<lparr>outbox_events := map (\<lambda>e. if o_id e = i then f e else e) (outbox_events d)\<rparr>"

definition sql_insert_dlq ::
  "int \<Rightarrow> 'b outbox_row \<Rightarrow> string \<Rightarrow> 'b conv_db \<Rightarrow> string + 'b conv_db \<times> unit" where
  "sql_insert_dlq now e err d =
     (if \<exists>q \<in> set (outbox_dlq d). q_id q = o_id e then Inl err_dup_key
      else Inr (d\<lparr>outbox_dlq := outbox_dlq d @
             [\<lparr>q_id = o_id e, q_aggregate_type = o_aggregate_type e, q_aggregate_id = o_aggregate_id e,
               q_event_type = o_event_type e, q_payload = o_payload e, q_created_at = o_created_at e,
               q_failed_at = now, q_error = err, q_retry_count = o_retry_count e + 1\<rparr>]\<rparr>, ()))"

text \<open>What the worker does with a row whose publication failed with \<open>err\<close>.\<close>

definition publish_failed ::
  "nat \<Rightarrow> 'b outbox_row \<Rightarrow> conv_err go_error \<Rightarrow> ('w, 'b, unit) conv_prog" where
  "publish_failed maxr e err =
     (if o_retry_count e \<ge> maxr
      then bindE get_now (\<lambda>now.
        bindE (stmt True (sql_insert_dlq now e (err_text conv_err_text err))) (\<lambda>_.
          stmt True (\<lambda>d. Inr (d\<lparr>outbox_events := filter (\<lambda>r. o_id r \<noteq> o_id e) (outbox_events d)\<rparr>, ()))))
      else stmt True (\<lambda>d. Inr (upd_outbox (o_id e)
        (\<lambda>r. r\<lparr>o_retry_count := o_retry_count r + 1, o_error := Some (err_text conv_err_text err)\<rparr>) d, ())))"

text \<open>The loop over the batch; its value is \<open>batchErr\<close>.\<close>

fun publish_events ::
  "('w, 'b) producer \<Rightarrow> nat \<Rightarrow> 'b outbox_row list \<Rightarrow> ('w, 'b, conv_err go_error option) conv_prog" where
  "publish_events p maxr [] = ret None"
| "publish_events p maxr (e # es) =
     attempt (on_world (Publish p (o_aggregate_id e) (o_payload e))) (\<lambda>r.
       case r of
         Inl err \<Rightarrow> bindE (publish_failed maxr e err) (\<lambda>_. ret (Some err))
       | Inr _ \<Rightarrow>
           bindE get_now (\<lambda>now.
           bindE (stmt True (\<lambda>d. Inr (upd_outbox (o_id e) (\<lambda>r. r\<lparr>o_processed_at := Some now\<rparr>) d, ())))
             (\<lambda>_. publish_events p maxr es)))"

text \<open>
  The statements of the transaction. \<open>None\<close> is the early return of an empty batch, which rolls back.
\<close>

definition batch_body ::
  "conv_worker \<Rightarrow> ('w, 'b) producer \<Rightarrow> ('w, 'b, conv_err go_error option option) conv_prog" where
  "batch_body wk p =
     bindE (query True (pending_batch (cw_BatchSize wk))) (\<lambda>events.
       if events = [] then ret None
       else
         let maxr = (if cw_MaxRetries wk = 0 then 3 else cw_MaxRetries wk) in
         bindE (publish_events p maxr events) (\<lambda>batchErr. ret (Some batchErr)))"

definition processBatch :: "conv_worker \<Rightarrow> ('w, 'b) producer \<Rightarrow> ('w, 'b, unit) conv_prog" where
  "processBatch wk p s =
     (case take_outcome s of (oc, s0) \<Rightarrow>
       (case oc of
          Fails t \<Rightarrow> (Inl (Plain t), s0)
        | Lost \<Rightarrow> (Inl (Plain err_bad_conn), s0)
        | Proceed \<Rightarrow>
            (case batch_body wk p (s0\<lparr>s_aborted := False\<rparr>) of
               (Inl err, s1) \<Rightarrow> (Inl err, rollback s0 s1)
             | (Inr None, s1) \<Rightarrow> (Inr (), rollback s0 s1)
             | (Inr (Some batchErr), s1) \<Rightarrow>
                 (case commit s0 s1 of
                    (Some err, s2) \<Rightarrow> (Inl err, s2)
                  | (None, s2) \<Rightarrow>
                      (case batchErr of None \<Rightarrow> (Inr (), s2) | Some err \<Rightarrow> (Inl err, s2))))))"

section \<open>A batch in closed form\<close>

definition msg_of :: "('w, 'b) producer \<Rightarrow> 'b outbox_row \<Rightarrow> 'b kafka_msg" where
  "msg_of p e = Publish_msg p (o_aggregate_id e) (o_payload e)"

definition mark_row :: "int \<Rightarrow> 'b outbox_row \<Rightarrow> 'b conv_db \<Rightarrow> 'b conv_db" where
  "mark_row now e = upd_outbox (o_id e) (\<lambda>r. r\<lparr>o_processed_at := Some now\<rparr>)"

definition mark_all :: "int \<Rightarrow> 'b outbox_row list \<Rightarrow> 'b conv_db \<Rightarrow> 'b conv_db" where
  "mark_all now es d = fold (mark_row now) es d"

definition fail_row :: "nat \<Rightarrow> int \<Rightarrow> 'b outbox_row \<Rightarrow> string \<Rightarrow> 'b conv_db \<Rightarrow> 'b conv_db" where
  "fail_row maxr now e err d =
     (if o_retry_count e \<ge> maxr
      then d\<lparr>outbox_dlq := outbox_dlq d @
             [\<lparr>q_id = o_id e, q_aggregate_type = o_aggregate_type e, q_aggregate_id = o_aggregate_id e,
               q_event_type = o_event_type e, q_payload = o_payload e, q_created_at = o_created_at e,
               q_failed_at = now, q_error = err, q_retry_count = o_retry_count e + 1\<rparr>],
             outbox_events := filter (\<lambda>r. o_id r \<noteq> o_id e) (outbox_events d)\<rparr>
      else upd_outbox (o_id e) (\<lambda>r. r\<lparr>o_retry_count := o_retry_count r + 1, o_error := Some err\<rparr>) d)"

lemma publish_failed_InrD:
  assumes "publish_failed maxr e err s = (Inr u, t)"
  shows "s_db t = fail_row maxr (s_now s) e (err_text conv_err_text err) (s_db s)
    \<and> s_world t = s_world s \<and> s_now t = s_now s \<and> s_aborted t = s_aborted s"
proof (cases "o_retry_count e \<ge> maxr")
  case False
  with assms show ?thesis by (auto simp: publish_failed_def fail_row_def dest!: stmt_total_InrD)
next
  case True
  with assms obtain s1 where
      ins: "stmt True (sql_insert_dlq (s_now s) e (err_text conv_err_text err)) s
        = (Inr () :: conv_err go_error + unit, s1)"
    and del: "stmt True (\<lambda>d. Inr (d\<lparr>outbox_events := filter (\<lambda>r. o_id r \<noteq> o_id e) (outbox_events d)\<rparr>, ())) s1
        = (Inr () :: conv_err go_error + unit, t)"
    by (auto simp: publish_failed_def bindE_Inr_iff)
  from stmt_InrD [OF ins] have "sql_insert_dlq (s_now s) e (err_text conv_err_text err) (s_db s) = Inr (s_db s1, ())"
    by blast
  then have "fail_row maxr (s_now s) e (err_text conv_err_text err) (s_db s) =
      (s_db s1)\<lparr>outbox_events := filter (\<lambda>r. o_id r \<noteq> o_id e) (outbox_events (s_db s1))\<rparr>"
    using True by (auto simp: sql_insert_dlq_def fail_row_def split: if_splits dest!: sym [of _ "s_db s1"])
  with stmt_total_InrD [OF del] stmt_InrD [OF ins] show ?thesis by simp
qed

lemma on_world_eqD:
  assumes "on_world f s = (r, t)"
  shows "f (s_world s) = (r, s_world t) \<and> s_db t = s_db s \<and> s_aborted t = s_aborted s \<and> s_now t = s_now s"
  using assms by (auto simp: on_world_def split: prod.splits)

text \<open>
  A successful run of the loop publishes a prefix of the batch in order, marks exactly its rows and,
  if it stopped early, counts the failure of the next row.
\<close>

lemma publish_events_InrD:
  assumes "publish_events p maxr es s = (Inr batchErr, t)"
  shows "\<exists>k. k \<le> length es
    \<and> (broker_ok klog p \<longrightarrow> (\<exists>ext. klog (s_world t) = klog (s_world s) @ ext
         \<and> subseq (map (msg_of p) (take k es)) ext))
    \<and> (case batchErr of
         None \<Rightarrow> k = length es \<and> s_db t = mark_all (s_now s) es (s_db s)
       | Some err \<Rightarrow> k < length es \<and> s_db t =
           fail_row maxr (s_now s) (es ! k) (err_text conv_err_text err) (mark_all (s_now s) (take k es) (s_db s)))"
  (is "\<exists>k. ?P es s k")
  using assms
proof (induction es arbitrary: s)
  case Nil
  then show ?case by (auto simp: mark_all_def)
next
  case (Cons e es)
  obtain r :: "conv_err go_error + unit" and s1 where
    pub: "on_world (Publish p (o_aggregate_id e) (o_payload e)) s = (r, s1)" by fastforce
  note w = on_world_eqD [OF pub]
  have log: "\<exists>ext. klog (s_world s1) = klog (s_world s) @ ext \<and> ((\<exists>u. r = Inr u) \<longrightarrow> msg_of p e \<in> set ext)"
    if "broker_ok klog p" using Publish_log [OF that conjunct1 [OF w]] by (simp add: msg_of_def)
  show ?case
  proof (cases r)
    case (Inl err)
    with Cons.prems pub have be: "batchErr = Some err" "publish_failed maxr e err s1 = (Inr (), t)"
      by (auto simp: bindE_Inr_iff)
    from publish_failed_InrD [OF this(2)] w log be show ?thesis
      by (intro exI [of _ 0]) (auto simp: mark_all_def)
  next
    case (Inr u)
    with Cons.prems pub obtain s2 where
        mk: "stmt True (\<lambda>d. Inr (upd_outbox (o_id e) (\<lambda>r. r\<lparr>o_processed_at := Some (s_now s1)\<rparr>) d, ())) s1
          = (Inr () :: conv_err go_error + unit, s2)"
      and rest: "publish_events p maxr es s2 = (Inr batchErr, t)"
      by (auto simp: bindE_Inr_iff)
    have s2: "s_db s2 = mark_row (s_now s) e (s_db s)" "s_world s2 = s_world s1" "s_now s2 = s_now s"
      using stmt_InrD [OF mk] w by (auto simp: mark_row_def)
    from Cons.IH [OF rest] obtain k where P: "?P es s2 k" ..
    note k = conjunct1 [OF P] and sub = conjunct1 [OF conjunct2 [OF P]] and be = conjunct2 [OF conjunct2 [OF P]]
    have sub': "\<exists>ext. klog (s_world t) = klog (s_world s) @ ext
        \<and> subseq (map (msg_of p) (take (Suc k) (e # es))) ext" if br: "broker_ok klog p"
    proof -
      from log [OF br] Inr obtain ext where ext: "klog (s_world s1) = klog (s_world s) @ ext" "msg_of p e \<in> set ext"
        by auto
      from sub br obtain ext' where ext': "klog (s_world t) = klog (s_world s2) @ ext'"
        "subseq (map (msg_of p) (take k es)) ext'" by blast
      from ext have "subseq [msg_of p e] ext" by (simp add: subseq_singleton_left)
      with ext' have "subseq ([msg_of p e] @ map (msg_of p) (take k es)) (ext @ ext')"
        by (intro list_emb_append_mono)
      with ext ext' s2 show ?thesis by (intro exI [of _ "ext @ ext'"]) simp
    qed
    have "mark_all (s_now s) (e # es') (s_db s) = mark_all (s_now s2) es' (s_db s2)" for es'
      by (simp add: mark_all_def s2)
    with be k sub' s2(3) show ?thesis
      by (intro exI [of _ "Suc k"]) (auto split: option.splits)
  qed
qed

lemma publish_events_log:
  assumes "broker_ok klog p" and "publish_events p maxr es s = (r, t)"
  shows "\<exists>ext. klog (s_world t) = klog (s_world s) @ ext"
  using assms(2)
proof (induction es arbitrary: s)
  case Nil
  then show ?case by auto
next
  case (Cons e es)
  obtain q :: "conv_err go_error + unit" and s1 where
    pub: "on_world (Publish p (o_aggregate_id e) (o_payload e)) s = (q, s1)" by fastforce
  from Publish_log [OF assms(1) conjunct1 [OF on_world_eqD [OF pub]]] obtain ext where
    ext: "klog (s_world s1) = klog (s_world s) @ ext" by auto
  have "s_world t = s_world s1 \<or> (\<exists>s2. s_world s2 = s_world s1 \<and> publish_events p maxr es s2 = (r, t))"
  proof (cases q)
    case (Inl err)
    obtain r2 s2 where f: "publish_failed maxr e err s1 = (r2, s2)" by fastforce
    have "s_world s2 = s_world s1"
      using f by (cases r2) (auto simp: publish_failed_def bindE_Inl_iff bindE_Inr_iff
          split: if_splits dest!: stmt_InlD stmt_InrD)
    with Cons.prems pub Inl f show ?thesis by (cases r2) (auto simp: bindE_def)
  next
    case (Inr u)
    let ?m = "stmt True (\<lambda>d. Inr (upd_outbox (o_id e) (\<lambda>r. r\<lparr>o_processed_at := Some (s_now s1)\<rparr>) d, ()))
      :: ('a, 'b, unit) conv_prog"
    obtain r2 s2 where f: "?m s1 = (r2, s2)" by fastforce
    have "s_world s2 = s_world s1" using f by (cases r2) (auto dest!: stmt_InlD stmt_InrD)
    with Cons.prems pub Inr f show ?thesis by (cases r2) (auto simp: bindE_def)
  qed
  with ext Cons.IH show ?case by fastforce
qed

definition max_retries :: "conv_worker \<Rightarrow> nat" where
  "max_retries wk = (if cw_MaxRetries wk = 0 then 3 else cw_MaxRetries wk)"

text \<open>The tables after a batch that published \<open>k\<close> rows and was committed.\<close>

definition batch_result :: "nat \<Rightarrow> int \<Rightarrow> 'b outbox_row list \<Rightarrow> nat \<Rightarrow> 'b conv_db \<Rightarrow> 'b conv_db \<Rightarrow> bool" where
  "batch_result maxr now batch k d d' \<longleftrightarrow>
     (k = length batch \<and> d' = mark_all now batch d)
     \<or> (k < length batch \<and> (\<exists>err. d' = fail_row maxr now (batch ! k) err (mark_all now (take k batch) d)))"

lemma batch_body_log:
  assumes "broker_ok klog p" and "batch_body wk p s = (r, t)"
  shows "\<exists>ext. klog (s_world t) = klog (s_world s) @ ext"
proof -
  obtain q :: "conv_err go_error + 'b outbox_row list" and s1 where
    qu: "query True (pending_batch (cw_BatchSize wk)) s = (q, s1)" by fastforce
  have w: "s_world s1 = s_world s" using qu by (cases q) (auto dest!: query_InlD query_InrD)
  show ?thesis
  proof (cases q)
    case (Inl e)
    with assms(2) qu w show ?thesis by (auto simp: batch_body_def)
  next
    case (Inr events)
    obtain q2 s2 where pe: "publish_events p (max_retries wk) events s1 = (q2, s2)" by fastforce
    from publish_events_log [OF assms(1) pe] assms(2) qu w Inr pe show ?thesis
      by (cases q2) (auto simp: batch_body_def max_retries_def Let_def bindE_def attempt_def split: if_splits)
  qed
qed

lemma batch_body_SomeD:
  assumes "batch_body wk p s = (Inr (Some batchErr), t)"
  shows "\<exists>k. (broker_ok klog p \<longrightarrow> (\<exists>ext. klog (s_world t) = klog (s_world s) @ ext
      \<and> subseq (map (msg_of p) (take k (pending_batch (cw_BatchSize wk) (s_db s)))) ext))
    \<and> batch_result (max_retries wk) (s_now s) (pending_batch (cw_BatchSize wk) (s_db s)) k (s_db s) (s_db t)"
proof -
  from assms obtain events s1 where
      q: "query True (pending_batch (cw_BatchSize wk)) s = (Inr events :: conv_err go_error + _, s1)"
    and pe: "publish_events p (max_retries wk) events s1 = (Inr batchErr, t)"
    by (auto simp: batch_body_def bindE_Inr_iff max_retries_def Let_def split: if_splits)
  note eq = query_InrD [OF q]
  from publish_events_InrD [OF pe, of klog] obtain k where
      "broker_ok klog p \<longrightarrow> (\<exists>ext. klog (s_world t) = klog (s_world s1) @ ext
         \<and> subseq (map (msg_of p) (take k events)) ext)"
    and be: "case batchErr of
         None \<Rightarrow> k = length events \<and> s_db t = mark_all (s_now s1) events (s_db s1)
       | Some err \<Rightarrow> k < length events \<and> s_db t = fail_row (max_retries wk) (s_now s1) (events ! k)
           (err_text conv_err_text err) (mark_all (s_now s1) (take k events) (s_db s1))"
    by blast
  moreover have "batch_result (max_retries wk) (s_now s) events k (s_db s) (s_db t)"
    using be eq unfolding batch_result_def by (cases batchErr) auto
  ultimately show ?thesis using eq by auto
qed

lemma processBatch_cases:
  assumes "processBatch wk p s = (r, t)"
  shows "(s_db t = s_db s \<and> (broker_ok klog p \<longrightarrow> (\<exists>ext. klog (s_world t) = klog (s_world s) @ ext)))
    \<or> (\<exists>k now. batch_result (max_retries wk) now (pending_batch (cw_BatchSize wk) (s_db s)) k (s_db s) (s_db t)
         \<and> (broker_ok klog p \<longrightarrow> (\<exists>ext. klog (s_world t) = klog (s_world s) @ ext
              \<and> subseq (map (msg_of p) (take k (pending_batch (cw_BatchSize wk) (s_db s)))) ext)))"
proof -
  obtain oc s0 where oc: "take_outcome s = (oc, s0)" by fastforce
  note eq = take_outcome_eqD [OF oc]
  show ?thesis
  proof (cases oc)
    case Proceed
    obtain q s1 where body: "batch_body wk p (s0\<lparr>s_aborted := False\<rparr>) = (q, s1)" by fastforce
    have log: "\<exists>ext. klog (s_world s1) = klog (s_world s) @ ext" if "broker_ok klog p"
      using batch_body_log [OF that body] eq by auto
    consider (none) "(\<exists>e. q = Inl e) \<or> q = Inr None" | (some) be where "q = Inr (Some be)"
      by (cases q) auto
    then show ?thesis
    proof cases
      case none
      with assms oc Proceed body have "t = rollback s0 s1" by (auto simp: processBatch_def)
      with log eq show ?thesis by simp
    next
      case some
      obtain err :: "conv_err go_error option" and s2 where cm: "commit s0 s1 = (err, s2)" by fastforce
      from assms oc Proceed body some cm have "t = s2"
        by (cases err; cases be) (auto simp: processBatch_def)
      then have w: "s_world t = s_world s1" and db: "s_db t = s_db s \<or> s_db t = s_db s1"
        using commit_cases [OF cm] eq by auto
      from batch_body_SomeD [OF body [unfolded some], of klog] eq obtain k where
          "broker_ok klog p \<longrightarrow> (\<exists>ext. klog (s_world s1) = klog (s_world s) @ ext
            \<and> subseq (map (msg_of p) (take k (pending_batch (cw_BatchSize wk) (s_db s)))) ext)"
        and "batch_result (max_retries wk) (s_now s) (pending_batch (cw_BatchSize wk) (s_db s)) k (s_db s) (s_db s1)"
        by auto
      with w db log show ?thesis by metis
    qed
  qed (use assms oc eq in \<open>auto simp: processBatch_def\<close>)
qed

section \<open>What a batch keeps\<close>

lemma upd_outbox_fields [simp]:
  "conversations (upd_outbox i f d) = conversations d"
  "conversation_participants (upd_outbox i f d) = conversation_participants d"
  "conversation_sequences (upd_outbox i f d) = conversation_sequences d"
  "outbox_serial (upd_outbox i f d) = outbox_serial d"
  "outbox_dlq (upd_outbox i f d) = outbox_dlq d"
  "outbox_events (upd_outbox i f d) = map (\<lambda>e. if o_id e = i then f e else e) (outbox_events d)"
  by (simp_all add: upd_outbox_def)

lemma mark_all_eq:
  "mark_all now es d = d\<lparr>outbox_events :=
     map (\<lambda>r. if o_id r \<in> o_id ` set es then r\<lparr>o_processed_at := Some now\<rparr> else r) (outbox_events d)\<rparr>"
proof (induction es arbitrary: d)
  case (Cons e es)
  have "mark_all now (e # es) d = mark_all now es (mark_row now e d)" by (simp add: mark_all_def)
  then show ?case unfolding Cons.IH by (auto simp: mark_row_def upd_outbox_def)
qed (simp add: mark_all_def)

definition outbox_ids :: "'b conv_db \<Rightarrow> nat set" where
  "outbox_ids d = o_id ` set (outbox_events d) \<union> q_id ` set (outbox_dlq d)"

text \<open>The part of the tables that the worker never touches.\<close>

definition same_data :: "'b conv_db \<Rightarrow> 'b conv_db \<Rightarrow> bool" where
  "same_data d d' \<longleftrightarrow>
     conversations d' = conversations d \<and> conversation_participants d' = conversation_participants d
     \<and> conversation_sequences d' = conversation_sequences d \<and> outbox_serial d' = outbox_serial d"

lemma same_data_inv:
  assumes "same_data d d'" and "conv_inv d" and "outbox_ok d'"
  shows "conv_inv d'"
proof -
  have "scan_participants i d' = scan_participants i d" for i
    using assms(1) by (intro scan_participants_cong) (simp add: same_data_def)
  moreover from this have "conv_view d' = conv_view d" by (simp add: conv_view_def fun_eq_iff)
  ultimately show ?thesis
    using assms by (simp add: conv_inv_def same_data_def keys_ok_def seqs_ok_def convs_ok_def lookup_ok_def
        receipts_ok_def)
qed

lemma mark_all_ids: "map o_id (outbox_events (mark_all now es d)) = map o_id (outbox_events d)"
  by (simp add: mark_all_eq)

lemma mark_all_props:
  "same_data d (mark_all now es d)" "outbox_ids (mark_all now es d) = outbox_ids d"
  "outbox_ok d \<Longrightarrow> outbox_ok (mark_all now es d)"
proof -
  have ids: "map o_id (outbox_events (mark_all now es d)) = map o_id (outbox_events d)"
    by (simp add: mark_all_eq)
  then have set: "o_id ` set (outbox_events (mark_all now es d)) = o_id ` set (outbox_events d)"
    by (metis set_map)
  show "same_data d (mark_all now es d)" by (simp add: mark_all_eq same_data_def)
  show "outbox_ids (mark_all now es d) = outbox_ids d"
    unfolding outbox_ids_def set by (simp add: mark_all_eq)
  show "outbox_ok d \<Longrightarrow> outbox_ok (mark_all now es d)"
    unfolding outbox_ok_def ids set by (simp add: mark_all_eq)
qed

lemma fail_row_props:
  assumes "o_id e \<in> o_id ` set (outbox_events d)"
  shows "same_data d (fail_row maxr now e err d)" "outbox_ids (fail_row maxr now e err d) = outbox_ids d"
    "outbox_ok d \<Longrightarrow> outbox_ok (fail_row maxr now e err d)"
proof -
  show "same_data d (fail_row maxr now e err d)" by (simp add: fail_row_def same_data_def)
  have ids: "map o_id (outbox_events (fail_row maxr now e err d)) = map o_id (outbox_events d)"
    if "\<not> maxr \<le> o_retry_count e" using that by (simp add: fail_row_def)
  then have set: "o_id ` set (outbox_events (fail_row maxr now e err d)) = o_id ` set (outbox_events d)"
    if "\<not> maxr \<le> o_retry_count e" using that by (metis set_map)
  show "outbox_ids (fail_row maxr now e err d) = outbox_ids d"
  proof (cases "maxr \<le> o_retry_count e")
    case True
    with assms show ?thesis by (auto simp: fail_row_def outbox_ids_def image_iff)
  next
    case False
    with set show ?thesis by (simp add: outbox_ids_def) (simp add: fail_row_def)
  qed
  assume ok: "outbox_ok d"
  show "outbox_ok (fail_row maxr now e err d)"
  proof (cases "maxr \<le> o_retry_count e")
    case True
    with ok assms show ?thesis
      by (auto simp: fail_row_def outbox_ok_def distinct_map_filter)
  next
    case False
    with ok show ?thesis unfolding outbox_ok_def ids [OF False] set [OF False] by (simp add: fail_row_def)
  qed
qed

lemma pending_batch_set:
  "set (pending_batch n d) \<subseteq> {e \<in> set (outbox_events d). o_processed_at e = None}"
  unfolding pending_batch_def using set_take_subset by fastforce

lemma batch_result_props:
  assumes "batch_result maxr now (pending_batch n d) k d d'"
  shows "same_data d d'" "outbox_ids d' = outbox_ids d" "outbox_ok d \<Longrightarrow> outbox_ok d'"
proof -
  have mem: "o_id (pending_batch n d ! k) \<in> o_id ` set (outbox_events (mark_all now (take k (pending_batch n d)) d))"
    if "k < length (pending_batch n d)"
  proof -
    have "o_id ` set (outbox_events (mark_all now (take k (pending_batch n d)) d)) = o_id ` set (outbox_events d)"
      using mark_all_ids by (metis set_map)
    with pending_batch_set [of n d] nth_mem [OF that] show ?thesis by blast
  qed
  have trans: "same_data a c" if "same_data a b" "same_data b c" for a b c :: "'a conv_db"
    using that by (simp add: same_data_def)
  from assms show "same_data d d'" "outbox_ids d' = outbox_ids d" "outbox_ok d \<Longrightarrow> outbox_ok d'"
    unfolding batch_result_def
    using mark_all_props [where d = d and now = now] fail_row_props [OF mem] trans by metis+
qed

lemma processBatch_db:
  obtains "s_db (snd (processBatch wk p s)) = s_db s"
  | k now where "batch_result (max_retries wk) now (pending_batch (cw_BatchSize wk) (s_db s)) k (s_db s)
      (s_db (snd (processBatch wk p s)))"
  using processBatch_cases [of wk p s "fst (processBatch wk p s)" "snd (processBatch wk p s)" "\<lambda>_. []"] by auto

lemma processBatch_inv:
  assumes "conv_inv (s_db s)"
  shows "conv_inv (s_db (snd (processBatch wk p s)))"
proof (rule processBatch_db [of wk p s])
  fix k now
  assume "batch_result (max_retries wk) now (pending_batch (cw_BatchSize wk) (s_db s)) k (s_db s)
    (s_db (snd (processBatch wk p s)))"
  from batch_result_props [OF this] same_data_inv assms show ?thesis unfolding conv_inv_def by blast
qed (use assms in simp)

lemma processBatch_same_data: "same_data (s_db s) (s_db (snd (processBatch wk p s)))"
  by (rule processBatch_db [of wk p s]) (simp add: same_data_def, rule batch_result_props)

end
