(* ===== verification/Monotone.thy ===== *)
theory Monotone
  imports SqlTx
begin

text \<open>
  Properties of programs that hold of every run, whatever it returns: a preorder on the tables that
  each statement of a program respects is respected by the program, and by the transaction that runs
  it (\<open>db_order\<close>); the same for a preorder on the world outside (\<open>world_order\<close>).
\<close>

definition db_rel :: "('d \<Rightarrow> 'd \<Rightarrow> bool) \<Rightarrow> ('d, 'w, 'e, 'a) prog \<Rightarrow> bool" where
  "db_rel R m \<longleftrightarrow> (\<forall>s. R (s_db s) (s_db (snd (m s))))"

definition world_rel :: "('w \<Rightarrow> 'w \<Rightarrow> bool) \<Rightarrow> ('d, 'w, 'e, 'a) prog \<Rightarrow> bool" where
  "world_rel R m \<longleftrightarrow> (\<forall>s. R (s_world s) (s_world (snd (m s))))"

lemma db_relD: "db_rel R m \<Longrightarrow> m s = (r, t) \<Longrightarrow> R (s_db s) (s_db t)"
  unfolding db_rel_def by (metis snd_conv)

lemma world_relD: "world_rel R m \<Longrightarrow> m s = (r, t) \<Longrightarrow> R (s_world s) (s_world t)"
  unfolding world_rel_def by (metis snd_conv)

lemma db_rel_case_sum:
  "(\<And>a. db_rel R (f a)) \<Longrightarrow> (\<And>b. db_rel R (g b)) \<Longrightarrow> db_rel R (case r of Inl a \<Rightarrow> f a | Inr b \<Rightarrow> g b)"
  by (cases r) auto

lemma db_rel_case_option:
  "db_rel R f \<Longrightarrow> (\<And>b. db_rel R (g b)) \<Longrightarrow> db_rel R (case r of None \<Rightarrow> f | Some b \<Rightarrow> g b)"
  by (cases r) auto

lemma db_rel_if: "db_rel R f \<Longrightarrow> db_rel R g \<Longrightarrow> db_rel R (if c then f else g)"
  by simp

lemma world_rel_case_sum:
  "(\<And>a. world_rel R (f a)) \<Longrightarrow> (\<And>b. world_rel R (g b)) \<Longrightarrow>
     world_rel R (case r of Inl a \<Rightarrow> f a | Inr b \<Rightarrow> g b)"
  by (cases r) auto

lemma world_rel_case_option:
  "world_rel R f \<Longrightarrow> (\<And>b. world_rel R (g b)) \<Longrightarrow> world_rel R (case r of None \<Rightarrow> f | Some b \<Rightarrow> g b)"
  by (cases r) auto

lemma world_rel_if: "world_rel R f \<Longrightarrow> world_rel R g \<Longrightarrow> world_rel R (if c then f else g)"
  by simp

lemma stmt_world_eq: "stmt tx f s = (r, t) \<Longrightarrow> s_world t = s_world s"
  by (cases r) (auto dest!: stmt_InlD stmt_InrD)

lemma stmt_world: "s_world (snd (stmt tx f s)) = s_world s"
  using stmt_world_eq by (metis prod.collapse)

section \<open>Preorders on the tables\<close>

locale db_order =
  fixes R :: "'d \<Rightarrow> 'd \<Rightarrow> bool"
  assumes rel_refl: "R d d"
    and rel_trans: "R d1 d2 \<Longrightarrow> R d2 d3 \<Longrightarrow> R d1 d3"
begin

lemma ret_rel: "db_rel R (ret a)"
  and throw_rel: "db_rel R (throw e)"
  and get_now_rel: "db_rel R get_now"
  by (simp_all add: db_rel_def rel_refl)

lemma lift_res_rel: "db_rel R (lift_res x)"
  by (cases x) (simp_all add: db_rel_def rel_refl)

lemma on_world_rel: "db_rel R (on_world f)"
  by (auto simp: db_rel_def on_world_def rel_refl split: prod.splits)

lemma stmt_rel:
  assumes "\<And>d d' a. f d = Inr (d', a) \<Longrightarrow> R d d'"
  shows "db_rel R (stmt tx f)"
proof -
  have "R (s_db s) (s_db t)" if "stmt tx f s = (r, t)" for s r t
    using that assms rel_refl by (cases r) (auto dest!: stmt_InlD stmt_InrD)
  then show ?thesis unfolding db_rel_def by (metis prod.collapse)
qed

lemma query_rel: "db_rel R (query tx f)"
  unfolding query_def by (rule stmt_rel) (simp add: rel_refl)

lemma attempt_rel:
  assumes "db_rel R m" and "\<And>r. db_rel R (k r)"
  shows "db_rel R (attempt m k)"
  unfolding db_rel_def
proof
  fix s
  obtain r s1 where m: "m s = (r, s1)" by fastforce
  from db_relD [OF assms(1) m] have "R (s_db s) (s_db s1)" .
  moreover have "R (s_db s1) (s_db (snd (k r s1)))" using assms(2) unfolding db_rel_def by blast
  ultimately show "R (s_db s) (s_db (snd (attempt m k s)))" using rel_trans m by simp
qed

lemma bindE_rel: "db_rel R m \<Longrightarrow> (\<And>a. db_rel R (k a)) \<Longrightarrow> db_rel R (bindE m k)"
  unfolding bindE_def by (intro attempt_rel db_rel_case_sum throw_rel)

lemma wrap_err_rel: "db_rel R m \<Longrightarrow> db_rel R (wrap_err p m)"
  unfolding wrap_err_def by (intro attempt_rel db_rel_case_sum throw_rel ret_rel)

lemma WithTx_rel:
  assumes "db_rel R m"
  shows "db_rel R (WithTx etxt m)"
  unfolding db_rel_def
proof
  fix s
  show "R (s_db s) (s_db (snd (WithTx etxt m s)))"
    by (rule txm.relates) (use db_relD [OF assms] rel_refl in force)+
qed

lemmas db_rules = ret_rel throw_rel get_now_rel lift_res_rel on_world_rel query_rel attempt_rel bindE_rel
  wrap_err_rel WithTx_rel db_rel_case_sum [of R] db_rel_case_option [of R] db_rel_if [of R]

end

section \<open>Preorders on the world\<close>

locale world_order =
  fixes R :: "'w \<Rightarrow> 'w \<Rightarrow> bool"
  assumes rel_refl: "R w w"
    and rel_trans: "R w1 w2 \<Longrightarrow> R w2 w3 \<Longrightarrow> R w1 w3"
begin

lemma ret_rel: "world_rel R (ret a)"
  and throw_rel: "world_rel R (throw e)"
  and get_now_rel: "world_rel R get_now"
  by (simp_all add: world_rel_def rel_refl)

lemma lift_res_rel: "world_rel R (lift_res x)"
  by (cases x) (simp_all add: world_rel_def rel_refl)

lemma stmt_rel: "world_rel R (stmt tx f)"
  by (simp add: world_rel_def stmt_world rel_refl)

lemma query_rel: "world_rel R (query tx f)"
  unfolding query_def by (rule stmt_rel)

lemma on_world_rel: "(\<And>w r w'. f w = (r, w') \<Longrightarrow> R w w') \<Longrightarrow> world_rel R (on_world f)"
  by (auto simp: world_rel_def on_world_def split: prod.splits)

lemma attempt_rel:
  assumes "world_rel R m" and "\<And>r. world_rel R (k r)"
  shows "world_rel R (attempt m k)"
  unfolding world_rel_def
proof
  fix s
  obtain r s1 where m: "m s = (r, s1)" by fastforce
  from world_relD [OF assms(1) m] have "R (s_world s) (s_world s1)" .
  moreover have "R (s_world s1) (s_world (snd (k r s1)))" using assms(2) unfolding world_rel_def by blast
  ultimately show "R (s_world s) (s_world (snd (attempt m k s)))" using rel_trans m by simp
qed

lemma bindE_rel: "world_rel R m \<Longrightarrow> (\<And>a. world_rel R (k a)) \<Longrightarrow> world_rel R (bindE m k)"
  unfolding bindE_def by (intro attempt_rel world_rel_case_sum throw_rel)

lemma wrap_err_rel: "world_rel R m \<Longrightarrow> world_rel R (wrap_err p m)"
  unfolding wrap_err_def by (intro attempt_rel world_rel_case_sum throw_rel ret_rel)

lemma WithTx_rel:
  fixes m :: "('d, 'w, 'e, 'a) prog"
  assumes "world_rel R m"
  shows "world_rel R (WithTx etxt m)"
proof -
  have "R (s_world s) (s_world (snd (WithTx_loop etxt n m s)))" for n s
  proof (induction n arbitrary: s)
    case 0
    then show ?case by (simp add: rel_refl)
  next
    case (Suc n)
    obtain oc s0 where oc: "take_outcome s = (oc, s0)" by fastforce
    note eq = take_outcome_eqD [OF oc]
    obtain r1 s1 where body: "m (s0\<lparr>s_aborted := False\<rparr>) = (r1, s1)" by fastforce
    have one: "R (s_world s) (s_world s1)"
      using world_relD [OF assms body] eq by simp
    obtain err :: "'e go_error option" and s2 where cm: "commit s0 s1 = (err, s2)" by fastforce
    have w2: "s_world s2 = s_world s1" using commit_cases [OF cm] by auto
    have "R (s_world s) (s_world (snd (WithTx_loop etxt n m (rollback s0 s1))))"
      by (rule rel_trans [OF one]) (use Suc.IH [of "rollback s0 s1"] in simp)
    moreover have "R (s_world s) (s_world (snd (WithTx_loop etxt n m s2)))"
      by (rule rel_trans [OF one]) (use Suc.IH [of s2] w2 in simp)
    ultimately show ?case
      using one w2 eq oc body cm rel_refl
      by (cases oc; cases r1; cases err) (auto simp: WithTx_loop.simps)
  qed
  then show ?thesis by (simp add: world_rel_def WithTx_def)
qed

lemmas world_rules = ret_rel throw_rel get_now_rel lift_res_rel stmt_rel query_rel attempt_rel bindE_rel
  wrap_err_rel WithTx_rel world_rel_case_sum [of R] world_rel_case_option [of R] world_rel_if [of R]

end

end
