(* ===== verification/ConvExec.thy ===== *)
theory ConvExec
  imports ConvWorker Monotone
begin

text \<open>
  The conversation service as a state machine. Its state is the committed tables and the world; a
  step runs one call of the service, or one poll of the outbox worker, in a session with any script
  of failures and any clock reading, and records what the call answered. \<open>conv_run\<close> is a run of
  such steps with its history.
\<close>

datatype conv_call =
    CallCreate bool CreateConversationCommand
  | CallAdd AddParticipantCommand
  | CallRemove RemoveParticipantCommand
  | CallNext string
  | CallReceipt string string int
  | CallGet string
  | CallList string
  | CallPoll

datatype conv_answer = AnsConv Conversation | AnsConvs "Conversation list" | AnsSeq int | AnsUnit

fun conv_exec ::
  "('w, 'b) conv_deps \<Rightarrow> conv_worker \<Rightarrow> ('w, 'b) producer \<Rightarrow> conv_call \<Rightarrow> ('w, 'b, conv_answer) conv_prog" where
  "conv_exec dp wk p (CallCreate idFirst cmd) = answer AnsConv (CreateConversation dp idFirst cmd)"
| "conv_exec dp wk p (CallAdd cmd) = answer (\<lambda>_. AnsUnit) (AddParticipant dp cmd)"
| "conv_exec dp wk p (CallRemove cmd) = answer (\<lambda>_. AnsUnit) (RemoveParticipant dp cmd)"
| "conv_exec dp wk p (CallNext i) = answer AnsSeq (NextSequence i)"
| "conv_exec dp wk p (CallReceipt i u n) = answer (\<lambda>_. AnsUnit) (UpdateReadReceipt dp i u n)"
| "conv_exec dp wk p (CallGet i) = answer AnsConv (GetConversation dp i)"
| "conv_exec dp wk p (CallList u) = answer AnsConvs (ListConversations u)"
| "conv_exec dp wk p CallPoll = answer (\<lambda>_. AnsUnit) (processBatch wk p)"

type_synonym conv_result = "conv_err go_error + conv_answer"

inductive conv_run ::
  "('w, 'b) conv_deps \<Rightarrow> conv_worker \<Rightarrow> ('w, 'b) producer \<Rightarrow> 'b conv_db \<times> 'w
    \<Rightarrow> (conv_call \<times> conv_result) list \<Rightarrow> 'b conv_db \<times> 'w \<Rightarrow> bool"
  for dp wk p where
  run_nil: "conv_run dp wk p st [] st"
| run_cons: "conv_exec dp wk p call (session d w script now) = (r, t) \<Longrightarrow>
    conv_run dp wk p (s_db t, s_world t) tr st' \<Longrightarrow>
    conv_run dp wk p (d, w) ((call, r) # tr) st'"

inductive_cases conv_run_nilE [elim!]: "conv_run dp wk p st [] st'"
inductive_cases conv_run_consE: "conv_run dp wk p st (e # tr) st'"

text \<open>The same as a function of the calls, their scripts and the clock.\<close>

fun run_calls ::
  "('w, 'b) conv_deps \<Rightarrow> conv_worker \<Rightarrow> ('w, 'b) producer \<Rightarrow> (conv_call \<times> outcome list \<times> int) list
    \<Rightarrow> 'b conv_db \<times> 'w \<Rightarrow> (conv_call \<times> conv_result) list \<times> ('b conv_db \<times> 'w)" where
  "run_calls dp wk p [] st = ([], st)"
| "run_calls dp wk p ((call, script, now) # cs) st =
     (case conv_exec dp wk p call (session (fst st) (snd st) script now) of (r, t) \<Rightarrow>
       (case run_calls dp wk p cs (s_db t, s_world t) of (tr, st') \<Rightarrow> ((call, r) # tr, st')))"

lemma run_calls_run:
  "run_calls dp wk p cs st = (tr, st') \<Longrightarrow> conv_run dp wk p st tr st'"
proof (induction cs arbitrary: st tr)
  case Nil
  then show ?case by (auto intro: run_nil)
next
  case (Cons c cs)
  obtain d w where st: "st = (d, w)" by fastforce
  obtain call script now where c: "c = (call, script, now)" by (cases c) auto
  obtain r t where ex: "conv_exec dp wk p call (session d w script now) = (r, t)" by fastforce
  obtain tr1 where run: "run_calls dp wk p cs (s_db t, s_world t) = (tr1, st')" and tr: "tr = (call, r) # tr1"
    using Cons.prems by (auto simp: c st ex split: prod.splits)
  from run_cons [OF ex Cons.IH [OF run]] show ?case by (simp add: st tr)
qed

lemma conv_run_calls:
  "conv_run dp wk p st tr st' \<Longrightarrow> \<exists>cs. run_calls dp wk p cs st = (tr, st')"
proof (induction rule: conv_run.induct)
  case (run_nil st)
  show ?case by (intro exI [of _ "[]"]) simp
next
  case (run_cons call d w script now r t tr st')
  then obtain cs where "run_calls dp wk p cs (s_db t, s_world t) = (tr, st')" by blast
  with run_cons.hyps(1) show ?case by (intro exI [of _ "(call, script, now) # cs"]) simp
qed

text \<open>A property of the tables that every call keeps holds at the end of every run.\<close>

lemma conv_run_preserves:
  assumes "conv_run dp wk p st tr st'" and "I (fst st)"
    and "\<And>call s. I (s_db s) \<Longrightarrow> I (s_db (snd (conv_exec dp wk p call s)))"
  shows "I (fst st')"
  using assms(1,2)
proof (induction rule: conv_run.induct)
  case (run_cons call d w script now r t tr st')
  from assms(3) [of "session d w script now" call] run_cons show ?case by simp
qed

lemma conv_exec_inv:
  assumes "conv_inv (s_db s)"
  shows "conv_inv (s_db (snd (conv_exec dp wk p call s)))"
  using assms
  by (cases call) (simp_all add: CreateConversation_inv AddParticipant_inv RemoveParticipant_inv
      NextSequence_inv UpdateReadReceipt_inv GetConversation_db ListConversations_db processBatch_inv)

lemma conv_run_inv:
  assumes "conv_run dp wk p st tr st'" and "conv_inv (fst st)"
  shows "conv_inv (fst st')"
  using assms by (rule conv_run_preserves) (rule conv_exec_inv)

lemma conv_reach_inv:
  fixes d :: "'b conv_db"
  assumes "conv_run dp wk p (empty_conv_db, w0) tr (d, w)"
  shows "conv_inv d"
  using conv_run_inv [OF assms] conv_inv_empty by (metis fst_conv)

section \<open>Orders that the statements respect\<close>

text \<open>
  The writing statements of the repository are of five kinds. A preorder on the tables that each kind
  respects is respected by every operation of the service, committed or not.
\<close>

locale conv_order = db_order R for R :: "'b conv_db \<Rightarrow> 'b conv_db \<Rightarrow> bool" +
  assumes rel_participants: "R d (d\<lparr>conversation_participants := ps\<rparr>)"
    and rel_sequence_init: "map_of (conversation_sequences d) i = None \<Longrightarrow>
      R d (d\<lparr>conversation_sequences := conversation_sequences d @ [(i, n)]\<rparr>)"
    and rel_sequence_next: "map_of (conversation_sequences d) i = Some n \<Longrightarrow>
      R d (d\<lparr>conversation_sequences := map_put i (n + 1) (conversation_sequences d)\<rparr>)"
    and rel_conversation: "R d (d\<lparr>conversations := conversations d @ rows\<rparr>)"
    and rel_outbox: "R d (sql_insert_outbox t a j e b d)"
begin

lemma only_reads_rel: "only_reads m \<Longrightarrow> db_rel R m"
  unfolding only_reads_def db_rel_def by (metis rel_refl prod.collapse)

lemmas reads_rel = only_reads_rel [OF only_reads_fetchConversation]
  only_reads_rel [OF only_reads_repo_GetConversation] only_reads_rel [OF only_reads_GetConversationByLookupKey]
  only_reads_rel [OF only_reads_parallelLookup] only_reads_rel [OF only_reads_ListConversations]

lemma repo_rel:
  "db_rel R (InsertParticipant tx i u r)"
  "db_rel R (DeleteParticipant tx i u)"
  "db_rel R (UpdateLastReadSequence tx i u n)"
  "db_rel R (GetCurrentMaxSequence tx i)"
  "db_rel R (InsertConversation tx i ty nm av k)"
  "db_rel R (InitSequence tx i)"
  "db_rel R (repo_NextSequence tx i)"
  "db_rel R (InsertOutbox tx a i e b)"
proof -
  show "db_rel R (InsertParticipant tx i u r)"
    unfolding InsertParticipant_def
    by (intro db_rules stmt_rel)
      (auto simp: sql_insert_participant_def intro: rel_participants split: if_splits)
  show "db_rel R (DeleteParticipant tx i u)"
    unfolding DeleteParticipant_def by (intro stmt_rel) (auto intro: rel_participants)
  show "db_rel R (UpdateLastReadSequence tx i u n)"
    unfolding UpdateLastReadSequence_def by (intro stmt_rel) (auto intro: rel_participants)
  show "db_rel R (GetCurrentMaxSequence tx i)"
    unfolding GetCurrentMaxSequence_def by (rule query_rel)
  show "db_rel R (InsertConversation tx i ty nm av k)"
    unfolding InsertConversation_def
    by (intro db_rules stmt_rel)
      (auto simp: sql_insert_conversation_def intro: rel_conversation split: if_splits)
  show "db_rel R (InitSequence tx i)"
    unfolding InitSequence_def
    by (intro stmt_rel) (auto intro: rel_sequence_init split: if_splits)
  show "db_rel R (repo_NextSequence tx i)"
    unfolding repo_NextSequence_def
    by (intro db_rules stmt_rel)
      (auto intro: rel_sequence_next rel_refl split: option.splits if_splits)
  show "db_rel R (InsertOutbox tx a i e b)"
    unfolding InsertOutbox_def by (intro db_rules stmt_rel) (auto intro: rel_outbox)
qed

lemma InvalidateConversation_rel: "db_rel R (InvalidateConversation dp i)"
  unfolding InvalidateConversation_def by (intro db_rules)

lemma emit_event_rel: "db_rel R (emit_event cd et i nm ev)"
  unfolding emit_event_def by (intro db_rules repo_rel)

lemma doCreateConversation_rel: "db_rel R (doCreateConversation dp cmd k)"
proof -
  have "db_rel R (insertParticipants_from cmd n us)" for n us
    by (induction us arbitrary: n) (auto simp: Let_def intro!: db_rules repo_rel)
  then show ?thesis
    unfolding doCreateConversation_def insertParticipants_def emitConversationCreated_def GetConversationLocked_def
    by (intro db_rules repo_rel reads_rel)
qed

lemma lookup_in_tx_rel: "db_rel R k \<Longrightarrow> db_rel R (lookup_in_tx dp cmd key k)"
  unfolding lookup_in_tx_def found_or_def Let_def
  by (intro db_rules reads_rel)

lemma ops_rel:
  "db_rel R (AddParticipant dp ac)"
  "db_rel R (RemoveParticipant dp rc)"
  "db_rel R (NextSequence i)"
  "db_rel R (UpdateReadReceipt dp i u n)"
  "db_rel R (CreateConversation dp idFirst cc)"
  unfolding AddParticipant_def AddParticipant_tx_def RemoveParticipant_def RemoveParticipant_tx_def
    NextSequence_def UpdateReadReceipt_def UpdateReadReceipt_tx_def CreateConversation_def
    CreateConversation_tx_def GetConversationLocked_def Let_def
  by (intro db_rules repo_rel emit_event_rel InvalidateConversation_rel reads_rel
      lookup_in_tx_rel doCreateConversation_rel)+

text \<open>Every call but the poll of the worker.\<close>

lemma exec_rel:
  assumes "call \<noteq> CallPoll"
  shows "R (s_db s) (s_db (snd (conv_exec dp wk p call s)))"
  using assms
  by (cases call) (simp_all add: ops_rel [unfolded db_rel_def, rule_format] rel_refl GetConversation_db
      ListConversations_db)

end

section \<open>What only grows\<close>

definition o_event :: "'b outbox_row \<Rightarrow> nat \<times> string \<times> string \<times> 'b" where
  "o_event e = (o_id e, o_aggregate_id e, o_event_type e, o_payload e)"

definition events_of :: "'b conv_db \<Rightarrow> (nat \<times> string \<times> string \<times> 'b) set" where
  "events_of d =
     o_event ` set (outbox_events d)
     \<union> (\<lambda>q. (q_id q, q_aggregate_id q, q_event_type q, q_payload q)) ` set (outbox_dlq d)"

text \<open>
  Conversation rows are never changed or dropped, sequences never go down, and no event that was
  recorded disappears.
\<close>

definition grows :: "'b conv_db \<Rightarrow> 'b conv_db \<Rightarrow> bool" where
  "grows d d' \<longleftrightarrow>
     prefix (conversations d) (conversations d')
     \<and> (\<forall>i n. map_of (conversation_sequences d) i = Some n \<longrightarrow>
          (\<exists>n'. map_of (conversation_sequences d') i = Some n' \<and> n \<le> n'))
     \<and> events_of d \<subseteq> events_of d'"

lemma grows_refl: "grows d d"
  by (simp add: grows_def)

lemma grows_trans: "grows d1 d2 \<Longrightarrow> grows d2 d3 \<Longrightarrow> grows d1 d3"
  unfolding grows_def by (meson order_trans prefix_order.trans subset_trans)

lemma grows_sequence_init:
  "map_of (conversation_sequences d) i = None \<Longrightarrow>
     grows d (d\<lparr>conversation_sequences := conversation_sequences d @ [(i, n)]\<rparr>)"
  by (auto simp: grows_def events_of_def map_add_def split: option.splits)

lemma grows_outbox: "grows d (sql_insert_outbox n a i e b d)"
  by (auto simp: grows_def events_of_def sql_insert_outbox_events)

interpretation gr: conv_order grows
proof unfold_locales
  show "grows d d" for d :: "'a conv_db" by (rule grows_refl)
  show "grows d1 d2 \<Longrightarrow> grows d2 d3 \<Longrightarrow> grows d1 d3" for d1 d2 d3 :: "'a conv_db" by (rule grows_trans)
  show "grows d (d\<lparr>conversation_participants := ps\<rparr>)" for d :: "'a conv_db" and ps
    by (simp add: grows_def events_of_def)
  show "grows d (d\<lparr>conversation_sequences := map_put i (n + 1) (conversation_sequences d)\<rparr>)"
    if "map_of (conversation_sequences d) i = Some n" for d :: "'a conv_db" and i n
    using that by (auto simp: grows_def events_of_def)
  show "grows d (d\<lparr>conversations := conversations d @ rows\<rparr>)" for d :: "'a conv_db" and rows
    by (simp add: grows_def events_of_def)
qed (auto intro: grows_sequence_init grows_outbox)

section \<open>The outbox is only appended to by the calls\<close>

definition appends :: "'b conv_db \<Rightarrow> 'b conv_db \<Rightarrow> bool" where
  "appends d d' \<longleftrightarrow> outbox_dlq d' = outbox_dlq d
     \<and> (\<exists>es. outbox_events d' = outbox_events d @ es \<and> (\<forall>e \<in> set es. o_processed_at e = None \<and> o_retry_count e = 0))"

lemma appends_trans:
  assumes "appends d1 d2" and "appends d2 d3"
  shows "appends d1 d3"
proof -
  from assms obtain es es' where
    "outbox_events d2 = outbox_events d1 @ es" "\<forall>e \<in> set es. o_processed_at e = None \<and> o_retry_count e = 0"
    "outbox_events d3 = outbox_events d2 @ es'" "\<forall>e \<in> set es'. o_processed_at e = None \<and> o_retry_count e = 0"
    unfolding appends_def by blast
  with assms show ?thesis unfolding appends_def by (intro conjI exI [of _ "es @ es'"]) auto
qed

interpretation ap: conv_order appends
  by unfold_locales (auto simp: appends_def sql_insert_outbox_events intro: appends_trans [unfolded appends_def])

text \<open>A row keeps its event through a batch.\<close>

lemma events_of_map:
  assumes "\<And>e. o_event (f e) = o_event e"
  shows "events_of (d\<lparr>outbox_events := map f (outbox_events d)\<rparr>) = events_of d"
  using assms by (auto simp: events_of_def image_image)

lemma events_of_mark_all: "events_of (mark_all now es d) = events_of d"
  unfolding mark_all_eq by (rule events_of_map) (simp add: o_event_def)

lemma events_of_fail_row:
  assumes dist: "distinct (map o_id (outbox_events d))"
    and e: "r \<in> set (outbox_events d)" "o_event r = o_event e"
  shows "events_of (fail_row maxr now e err d) = events_of d"
proof (cases "maxr \<le> o_retry_count e")
  case False
  then have "fail_row maxr now e err d = d\<lparr>outbox_events := map (\<lambda>r. if o_id r = o_id e
      then r\<lparr>o_retry_count := o_retry_count r + 1, o_error := Some err\<rparr> else r) (outbox_events d)\<rparr>"
    by (simp add: fail_row_def upd_outbox_def)
  then show ?thesis by (simp only:) (rule events_of_map, simp add: o_event_def)
next
  case True
  have uniq: "x = r" if "x \<in> set (outbox_events d)" "o_id x = o_id r" for x
    using dist that e(1) by (auto simp: distinct_map inj_on_def)
  have re: "o_id r = o_id e" using e(2) by (simp add: o_event_def)
  have "set (outbox_events d) = insert r (set (filter (\<lambda>x. o_id x \<noteq> o_id e) (outbox_events d)))"
    unfolding set_filter using uniq [unfolded re] e(1) by blast
  then have "o_event ` set (outbox_events d) =
      insert (o_event e) (o_event ` set (filter (\<lambda>x. o_id x \<noteq> o_id e) (outbox_events d)))"
    unfolding e(2) [symmetric] by (metis image_insert)
  then show ?thesis using True by (simp add: fail_row_def events_of_def o_event_def)
qed

lemma batch_result_events:
  assumes b: "batch_result maxr now (pending_batch n d) k d d'" and ok: "outbox_ok d"
  shows "events_of d' = events_of d"
proof -
  let ?m = "mark_all now (take k (pending_batch n d)) d"
  have dist: "distinct (map o_id (outbox_events ?m))"
    using ok unfolding mark_all_ids by (simp add: outbox_ok_def)
  have fail: "events_of (fail_row maxr now (pending_batch n d ! k) err ?m) = events_of d"
    if k: "k < length (pending_batch n d)" for err
  proof -
    have "pending_batch n d ! k \<in> set (outbox_events d)"
      using pending_batch_set nth_mem [OF k] by blast
    moreover have "map o_event (outbox_events ?m) = map o_event (outbox_events d)"
      by (simp add: mark_all_eq o_event_def)
    then have "o_event ` set (outbox_events ?m) = o_event ` set (outbox_events d)" by (metis set_map)
    ultimately have "o_event (pending_batch n d ! k) \<in> o_event ` set (outbox_events ?m)" by simp
    then obtain r where r: "o_event (pending_batch n d ! k) = o_event r" "r \<in> set (outbox_events ?m)" by (rule imageE)
    from events_of_fail_row [OF dist r(2) r(1) [symmetric]] show ?thesis
      by (simp only: events_of_mark_all)
  qed
  from b show ?thesis
    unfolding batch_result_def
  proof (elim disjE conjE exE)
    assume "d' = mark_all now (pending_batch n d) d"
    then show ?thesis by (simp only: events_of_mark_all)
  next
    fix err assume "k < length (pending_batch n d)" "d' = fail_row maxr now (pending_batch n d ! k) err ?m"
    with fail show ?thesis by simp
  qed
qed

lemma conv_exec_grows:
  assumes "conv_inv (s_db s)"
  shows "grows (s_db s) (s_db (snd (conv_exec dp wk p call s)))"
proof (cases call)
  case CallPoll
  have "grows (s_db s) (s_db (snd (processBatch wk p s)))"
  proof (rule processBatch_db [of wk p s])
    fix k now
    assume b: "batch_result (max_retries wk) now (pending_batch (cw_BatchSize wk) (s_db s)) k (s_db s)
      (s_db (snd (processBatch wk p s)))"
    have "outbox_ok (s_db s)" using assms by (simp add: conv_inv_def)
    from batch_result_props(1) [OF b] batch_result_events [OF b this] show ?thesis
      by (simp add: grows_def same_data_def)
  qed (simp add: grows_refl)
  with CallPoll show ?thesis by simp
qed (rule gr.exec_rel, simp)+

lemma conv_run_grows:
  assumes "conv_run dp wk p st tr st'" and "conv_inv (fst st)"
  shows "grows (fst st) (fst st')"
  using assms
proof (induction rule: conv_run.induct)
  case (run_cons call d w script now r t tr st')
  from run_cons conv_exec_inv [of "session d w script now" dp wk p call]
    conv_exec_grows [of "session d w script now" dp wk p call]
  show ?case using grows_trans by fastforce
qed (simp add: grows_refl)

end
