(* ===== verification/ConvLog.thy ===== *)
theory ConvLog
  imports ConvExec
begin

text \<open>
  From the outbox to the broker: a row is marked processed only after the broker has acknowledged
  its message, rows that keep failing end in \<open>outbox_dlq\<close> with their retries used up, and no event
  that was recorded is lost. The service's cache is assumed to leave the broker's log alone
  (\<open>cache_quiet\<close>).
\<close>

definition cache_quiet :: "('w \<Rightarrow> 'b kafka_msg list) \<Rightarrow> ('w, 'b) conv_deps \<Rightarrow> bool" where
  "cache_quiet klog dp \<longleftrightarrow>
     (case dp_cache dp of
        None \<Rightarrow> True
      | Some rd \<Rightarrow>
          (\<forall>k w. klog (snd (rd_Get rd k w)) = klog w)
          \<and> (\<forall>k v n w. klog (snd (rd_Set rd k v n w)) = klog w)
          \<and> (\<forall>k w. klog (snd (rd_Del rd k w)) = klog w))"

interpretation wl: world_order "\<lambda>w w'. klog w' = klog w" for klog :: "'w \<Rightarrow> 'x"
  by unfold_locales simp_all

abbreviation same_log :: "('w \<Rightarrow> 'x) \<Rightarrow> 'w \<Rightarrow> 'w \<Rightarrow> bool" where
  "same_log klog \<equiv> \<lambda>w w'. klog w' = klog w"

lemma cache_calls_quiet:
  assumes "cache_quiet klog dp" and "dp_cache dp = Some rd"
  shows "world_rel (same_log klog) (on_world (Cache_GetConversation dp rd i))"
    "world_rel (same_log klog) (on_world (Cache_SetConversation dp rd c))"
    "world_rel (same_log klog) (on_world (Cache_DeleteConversation rd i))"
proof -
  have q: "klog (snd (rd_Get rd k w)) = klog w" "klog (snd (rd_Set rd k v n w)) = klog w"
    "klog (snd (rd_Del rd k w)) = klog w" for k v n w
    using assms by (simp_all add: cache_quiet_def)
  have "w' = snd (rd_Get rd (conv_key i) w)" if "Cache_GetConversation dp rd i w = (r, w')" for w r w'
    using that by (auto simp: Cache_GetConversation_def split: prod.splits sum.splits redis_err.splits)
  then have "klog w' = klog w" if "Cache_GetConversation dp rd i w = (r, w')" for w w' and r :: "conv_err go_error + Conversation option"
    using that q(1) by metis
  then show "world_rel (same_log klog) (on_world (Cache_GetConversation dp rd i))"
    by (rule wl.on_world_rel)
  have "w' = w \<or> (\<exists>v n. w' = snd (rd_Set rd (conv_key (c_ID c)) v n w))"
    if "Cache_SetConversation dp rd c w = (r, w')" for w r w'
    using that by (auto simp: Cache_SetConversation_def split: prod.splits sum.splits option.splits) (metis snd_conv)+
  then have "klog w' = klog w" if "Cache_SetConversation dp rd c w = (r, w')" for w w' and r :: "conv_err go_error + unit"
    using that q(2) by metis
  then show "world_rel (same_log klog) (on_world (Cache_SetConversation dp rd c))"
    by (rule wl.on_world_rel)
  have "w' = snd (rd_Del rd (conv_key i) w)" if "Cache_DeleteConversation rd i w = (r, w')" for w r w'
    using that by (auto simp: Cache_DeleteConversation_def split: prod.splits option.splits)
  then have "klog w' = klog w" if "Cache_DeleteConversation rd i w = (r, w')" for w w' and r :: "conv_err go_error + unit"
    using that q(3) by metis
  then show "world_rel (same_log klog) (on_world (Cache_DeleteConversation rd i))"
    by (rule wl.on_world_rel)
qed

lemma repo_world:
  "world_rel (same_log klog) (InsertParticipant tx i u r)"
  "world_rel (same_log klog) (DeleteParticipant tx i u)"
  "world_rel (same_log klog) (UpdateLastReadSequence tx i u n)"
  "world_rel (same_log klog) (GetCurrentMaxSequence tx i)"
  "world_rel (same_log klog) (InsertConversation tx i ty nm av k)"
  "world_rel (same_log klog) (InitSequence tx i)"
  "world_rel (same_log klog) (repo_NextSequence tx i)"
  "world_rel (same_log klog) (InsertOutbox tx a i e b)"
  "world_rel (same_log klog) (fetchConversation tx i fu)"
  "world_rel (same_log klog) (GetConversationByLookupKey tx ky)"
  "world_rel (same_log klog) (ListConversations us)"
  "world_rel (same_log klog) (emit_event cd et i nm ev)"
  unfolding InsertParticipant_def DeleteParticipant_def UpdateLastReadSequence_def GetCurrentMaxSequence_def
    InsertConversation_def InitSequence_def repo_NextSequence_def InsertOutbox_def fetchConversation_def
    GetConversationByLookupKey_def emit_event_def ListConversations_def ListConversationsByUser_def Let_def
  by (intro wl.world_rules)+

lemma cached_world:
  assumes "cache_quiet klog dp"
  shows "world_rel (same_log klog) (repo_GetConversation dp tx i)"
    "world_rel (same_log klog) (InvalidateConversation dp i)"
proof -
  show "world_rel (same_log klog) (repo_GetConversation dp tx i)"
  proof (cases "dp_cache dp")
    case None
    then have "repo_GetConversation dp tx i = bindE (fetchConversation tx i False) (\<lambda>conv. ret conv)"
      by (simp add: repo_GetConversation_def Let_def)
    then show ?thesis by (simp only:) (intro wl.world_rules repo_world)
  next
    case (Some rd)
    show ?thesis unfolding repo_GetConversation_def Let_def Some option.case
      by (intro wl.world_rules repo_world cache_calls_quiet [OF assms Some])
  qed
  show "world_rel (same_log klog) (InvalidateConversation dp i)"
  proof (cases "dp_cache dp")
    case None
    then show ?thesis unfolding InvalidateConversation_def by simp (intro wl.world_rules)
  next
    case (Some rd)
    show ?thesis unfolding InvalidateConversation_def Some option.case
      by (intro cache_calls_quiet [OF assms Some])
  qed
qed

lemma parallelLookup_world:
  assumes "cache_quiet klog dp"
  shows "world_rel (same_log klog) (parallelLookup dp idFirst i k)"
  unfolding parallelLookup_def lookup_quiet_def Let_def
  by (intro wl.world_rules repo_world cached_world assms)

lemma doCreateConversation_world: "world_rel (same_log klog) (doCreateConversation dp cmd k)"
proof -
  have "world_rel (same_log klog) (insertParticipants_from cmd n us)" for n us
    by (induction us arbitrary: n) (auto simp: Let_def intro!: wl.world_rules repo_world)
  then show ?thesis
    unfolding doCreateConversation_def insertParticipants_def emitConversationCreated_def GetConversationLocked_def
    by (intro wl.world_rules repo_world)
qed

lemma lookup_in_tx_world:
  assumes "cache_quiet klog dp" and "world_rel (same_log klog) k"
  shows "world_rel (same_log klog) (lookup_in_tx dp cmd key k)"
  unfolding lookup_in_tx_def found_or_def Let_def
  by (intro wl.world_rules repo_world cached_world assms)

lemma ops_world:
  assumes "cache_quiet klog dp"
  shows "world_rel (same_log klog) (AddParticipant dp ac)"
    "world_rel (same_log klog) (RemoveParticipant dp rc)"
    "world_rel (same_log klog) (NextSequence i)"
    "world_rel (same_log klog) (UpdateReadReceipt dp i u n)"
    "world_rel (same_log klog) (CreateConversation dp idFirst cc)"
  unfolding AddParticipant_def AddParticipant_tx_def RemoveParticipant_def RemoveParticipant_tx_def
    NextSequence_def UpdateReadReceipt_def UpdateReadReceipt_tx_def CreateConversation_def
    CreateConversation_tx_def GetConversationLocked_def Let_def
  by (intro wl.world_rules repo_world cached_world [OF assms] parallelLookup_world [OF assms]
      lookup_in_tx_world [OF assms] doCreateConversation_world)+

lemma exec_world:
  assumes "cache_quiet klog dp" and "call \<noteq> CallPoll"
  shows "klog (s_world (snd (conv_exec dp wk p call s))) = klog (s_world s)"
  using assms(2)
  by (cases call) (simp_all add: GetConversation_def ops_world [OF assms(1), unfolded world_rel_def, rule_format]
      cached_world [OF assms(1), unfolded world_rel_def, rule_format]
      repo_world(11) [of klog, unfolded world_rel_def, rule_format])

section \<open>Marked rows are in the log\<close>

definition delivered :: "('w \<Rightarrow> 'b kafka_msg list) \<Rightarrow> ('w, 'b) producer \<Rightarrow> 'b conv_db \<Rightarrow> 'w \<Rightarrow> bool" where
  "delivered klog p d w \<longleftrightarrow>
     (\<forall>e \<in> set (outbox_events d). o_processed_at e \<noteq> None \<longrightarrow> msg_of p e \<in> set (klog w))"

definition retries_ok :: "nat \<Rightarrow> 'b conv_db \<Rightarrow> bool" where
  "retries_ok maxr d \<longleftrightarrow>
     (\<forall>e \<in> set (outbox_events d). o_retry_count e \<le> maxr) \<and> (\<forall>q \<in> set (outbox_dlq d). q_retry_count q = maxr + 1)"

lemma subseq_set: "subseq xs ys \<Longrightarrow> set xs \<subseteq> set ys"
  by (induction rule: list_emb.induct) auto

lemma appends_delivered:
  assumes "appends d d'" and "delivered klog p d w" and "klog w' = klog w"
  shows "delivered klog p d' w'"
  using assms unfolding appends_def delivered_def by fastforce

lemma appends_retries:
  assumes "appends d d'" and "retries_ok maxr d"
  shows "retries_ok maxr d'"
  using assms unfolding appends_def retries_ok_def by fastforce

lemma mark_all_delivered:
  assumes dist: "distinct (map o_id (outbox_events d))" and sub: "set es \<subseteq> set (outbox_events d)"
    and del: "delivered klog p d w" and log: "klog w' = klog w @ ext" "subseq (map (msg_of p) es) ext"
  shows "delivered klog p (mark_all now es d) w'"
proof -
  have old: "msg_of p e \<in> set (klog w')" if "e \<in> set es" for e
  proof -
    from log(2) have "set (map (msg_of p) es) \<subseteq> set ext" by (rule subseq_set)
    with that log(1) show ?thesis by auto
  qed
  have same: "x = e" if "x \<in> set (outbox_events d)" "e \<in> set es" "o_id x = o_id e" for x e
    using that sub dist by (auto simp: distinct_map inj_on_def)
  define f where "f = (\<lambda>r :: 'a outbox_row. if o_id r \<in> o_id ` set es then r\<lparr>o_processed_at := Some now\<rparr> else r)"
  have "msg_of p (f x) \<in> set (klog w')" if "x \<in> set (outbox_events d)" "o_processed_at (f x) \<noteq> None" for x
  proof (cases "o_id x \<in> o_id ` set es")
    case True
    then obtain e where "e \<in> set es" "o_id x = o_id e" by blast
    with same [OF that(1)] old [of e] True show ?thesis by (simp add: msg_of_def f_def)
  next
    case False
    with that del log(1) show ?thesis by (auto simp: delivered_def f_def)
  qed
  moreover have "outbox_events (mark_all now es d) = map f (outbox_events d)"
    by (simp add: mark_all_eq f_def)
  ultimately show ?thesis by (simp add: delivered_def)
qed

lemma fail_row_delivered:
  assumes "delivered klog p d w"
  shows "delivered klog p (fail_row maxr now e err d) w"
  using assms by (auto simp: delivered_def fail_row_def msg_of_def)

lemma mark_all_retries: "retries_ok maxr (mark_all now es d) = retries_ok maxr d"
  by (auto simp: retries_ok_def mark_all_eq simp del: if_image_distrib)

lemma fail_row_retries:
  assumes ok: "retries_ok maxr d" and dist: "distinct (map o_id (outbox_events d))"
    and r: "r \<in> set (outbox_events d)" "o_id r = o_id e" "o_retry_count r = o_retry_count e"
  shows "retries_ok maxr (fail_row maxr now e err d)"
proof -
  have uniq: "o_retry_count x = o_retry_count e" if "x \<in> set (outbox_events d)" "o_id x = o_id e" for x
    using dist that r by (auto simp: distinct_map inj_on_def)
  have "o_retry_count e \<le> maxr" using ok r by (auto simp: retries_ok_def)
  with ok uniq show ?thesis by (auto simp: retries_ok_def fail_row_def)
qed

lemma batch_result_retries:
  assumes b: "batch_result maxr now (pending_batch n d) k d d'"
    and dist: "distinct (map o_id (outbox_events d))" and ok: "retries_ok maxr d"
  shows "retries_ok maxr d'"
  using b unfolding batch_result_def
proof (elim disjE conjE exE)
  assume "d' = mark_all now (pending_batch n d) d"
  with ok show ?thesis by (simp add: mark_all_retries)
next
  fix err
  let ?m = "mark_all now (take k (pending_batch n d)) d" and ?e = "pending_batch n d ! k"
  let ?f = "\<lambda>r. if o_id r \<in> o_id ` set (take k (pending_batch n d)) then r\<lparr>o_processed_at := Some now\<rparr> else r"
  assume k: "k < length (pending_batch n d)" and d': "d' = fail_row maxr now ?e err ?m"
  have "?e \<in> set (outbox_events d)" using pending_batch_set nth_mem [OF k] by blast
  then have "?f ?e \<in> set (outbox_events ?m)" unfolding mark_all_eq by simp
  moreover have "o_id (?f ?e) = o_id ?e" "o_retry_count (?f ?e) = o_retry_count ?e" by simp_all
  ultimately show ?thesis
    unfolding d' using ok dist
    by (intro fail_row_retries [of maxr ?m "?f ?e"]) (simp_all only: mark_all_retries mark_all_ids)
qed

lemma batch_result_delivered:
  assumes b: "batch_result maxr now (pending_batch n d) k d d'"
    and dist: "distinct (map o_id (outbox_events d))" and del: "delivered klog p d w"
    and log: "klog w' = klog w @ ext" "subseq (map (msg_of p) (take k (pending_batch n d))) ext"
  shows "delivered klog p d' w'"
proof -
  have sub: "set (take k (pending_batch n d)) \<subseteq> set (outbox_events d)"
    using pending_batch_set [of n d] set_take_subset [of k "pending_batch n d"] by blast
  from mark_all_delivered [OF dist sub del log]
  have m: "delivered klog p (mark_all now (take k (pending_batch n d)) d) w'" .
  from b show ?thesis
    unfolding batch_result_def
  proof (elim disjE conjE exE)
    assume "k = length (pending_batch n d)" "d' = mark_all now (pending_batch n d) d"
    with m show ?thesis by simp
  next
    fix err assume "d' = fail_row maxr now (pending_batch n d ! k) err (mark_all now (take k (pending_batch n d)) d)"
    with fail_row_delivered [OF m] show ?thesis by simp
  qed
qed

lemma processBatch_delivered:
  assumes "broker_ok klog p" and "conv_inv (s_db s)" and "delivered klog p (s_db s) (s_world s)"
    and run: "processBatch wk p s = (r, t)"
  shows "delivered klog p (s_db t) (s_world t)"
proof -
  have dist: "distinct (map o_id (outbox_events (s_db s)))"
    using assms(2) by (simp add: conv_inv_def outbox_ok_def)
  from processBatch_cases [OF run, of klog] show ?thesis
  proof (elim disjE conjE exE)
    assume "s_db t = s_db s" "broker_ok klog p \<longrightarrow> (\<exists>ext. klog (s_world t) = klog (s_world s) @ ext)"
    with assms show ?thesis by (auto simp: delivered_def)
  next
    fix k now
    assume "batch_result (max_retries wk) now (pending_batch (cw_BatchSize wk) (s_db s)) k (s_db s) (s_db t)"
      "broker_ok klog p \<longrightarrow> (\<exists>ext. klog (s_world t) = klog (s_world s) @ ext
        \<and> subseq (map (msg_of p) (take k (pending_batch (cw_BatchSize wk) (s_db s)))) ext)"
    with assms(1) obtain ext where ext: "klog (s_world t) = klog (s_world s) @ ext"
      "subseq (map (msg_of p) (take k (pending_batch (cw_BatchSize wk) (s_db s)))) ext" by blast
    from batch_result_delivered [OF \<open>batch_result _ _ _ _ _ _\<close> dist assms(3) ext] show ?thesis .
  qed
qed

lemma processBatch_retries:
  assumes "conv_inv (s_db s)" and "retries_ok (max_retries wk) (s_db s)"
  shows "retries_ok (max_retries wk) (s_db (snd (processBatch wk p s)))"
proof (rule processBatch_db [of wk p s])
  fix k now
  assume b: "batch_result (max_retries wk) now (pending_batch (cw_BatchSize wk) (s_db s)) k (s_db s)
    (s_db (snd (processBatch wk p s)))"
  have "distinct (map o_id (outbox_events (s_db s)))"
    using assms(1) by (simp add: conv_inv_def outbox_ok_def)
  from batch_result_retries [OF b this assms(2)] show ?thesis .
qed (use assms in simp)

lemma conv_exec_delivered:
  assumes "broker_ok klog p" and "cache_quiet klog dp" and "conv_inv (s_db s)"
    and "delivered klog p (s_db s) (s_world s)"
  shows "delivered klog p (s_db (snd (conv_exec dp wk p call s))) (s_world (snd (conv_exec dp wk p call s)))"
proof (cases "call = CallPoll")
  case True
  with processBatch_delivered [OF assms(1,3,4), of wk "fst (processBatch wk p s)" "snd (processBatch wk p s)"]
  show ?thesis by simp
next
  case False
  from appends_delivered [OF ap.exec_rel [OF False] assms(4) exec_world [OF assms(2) False]] show ?thesis .
qed

lemma conv_exec_retries:
  assumes "conv_inv (s_db s)" and "retries_ok (max_retries wk) (s_db s)"
  shows "retries_ok (max_retries wk) (s_db (snd (conv_exec dp wk p call s)))"
proof (cases "call = CallPoll")
  case True
  with processBatch_retries [OF assms] show ?thesis by simp
next
  case False
  from appends_retries [OF ap.exec_rel [OF False] assms(2)] show ?thesis .
qed

lemma conv_run_delivered:
  assumes "conv_run dp wk p st tr st'" and "broker_ok klog p" and "cache_quiet klog dp"
    and "conv_inv (fst st)" and "delivered klog p (fst st) (snd st)" and "retries_ok (max_retries wk) (fst st)"
  shows "delivered klog p (fst st') (snd st') \<and> retries_ok (max_retries wk) (fst st')"
  using assms(1,4,5,6)
proof (induction rule: conv_run.induct)
  case (run_cons call d w script now r t tr st')
  let ?s = "session d w script now"
  from run_cons.prems have "conv_inv (s_db ?s)" "delivered klog p (s_db ?s) (s_world ?s)"
    "retries_ok (max_retries wk) (s_db ?s)" by simp_all
  from conv_exec_inv [OF this(1), of dp wk p call] conv_exec_retries [OF this(1,3), of dp p call]
    conv_exec_delivered [OF assms(2,3) this(1,2), of wk call] run_cons
  show ?case by simp
qed simp

end
