(* ===== verification/ConvMembers.thy ===== *)
theory ConvMembers
  imports ConvExec
begin

text \<open>
  Who is a member: what the operations of the conversation service do to the participants of a
  conversation, as the tables show them through \<open>abs_conv\<close>, compared with the methods of the domain
  aggregate.
\<close>

lemma abs_conv_participants:
  "abs_conv d i = Some c \<Longrightarrow> c_Participants c = scan_participants i d"
  by (auto dest!: abs_conv_SomeD)

lemma abs_conv_defined:
  assumes "i \<in> r_id ` set (conversations d)"
  shows "\<exists>c. abs_conv d i = Some c"
proof -
  have "find (\<lambda>r. r_id r = i) (conversations d) \<noteq> None"
    unfolding find_None_conv using assms by blast
  then show ?thesis by (auto simp: abs_conv_def)
qed

lemma abs_conv_scan:
  assumes "abs_conv d i = Some c" and "abs_conv d' i = abs_conv d i"
  shows "scan_participants i d' = scan_participants i d"
  using abs_conv_participants assms by metis

lemma abs_conv_update:
  assumes "abs_conv d i = Some c" and "conversations d' = conversations d"
  shows "abs_conv d' i = Some (c\<lparr>c_Participants := scan_participants i d'\<rparr>)"
  using assms by (auto simp: abs_conv_def split: option.splits)

lemma abs_conv_frame:
  assumes "conversations d' = conversations d" and "scan_participants j d' = scan_participants j d"
  shows "abs_conv d' j = abs_conv d j"
  using assms by (simp add: abs_conv_def split: option.splits)

lemma map_put_fresh: "map_of m k = None \<Longrightarrow> map_put k v m = m @ [(k, v)]"
  by (induction m) (auto split: if_splits)

text \<open>A successful insertion of a member, seen through the view.\<close>

lemma insert_member_view:
  assumes "sql_insert_participant now i u RoleMember d = Inr (d', ())"
  shows "conversations d' = conversations d" "outbox_events d' = outbox_events d"
    "scan_participants j d' =
       scan_participants j d @ (if i = j then [(u, \<lparr>p_UserID = u, p_Role = RoleMember\<rparr>)] else [])"
proof -
  have d': "d' = d\<lparr>conversation_participants := conversation_participants d @
      [\<lparr>m_conv = i, m_user = u, m_role = RoleMember, m_last_read = 0, m_joined_at = now\<rparr>]\<rparr>"
    using assms by (auto simp: sql_insert_participant_def split: if_splits)
  show "conversations d' = conversations d" "outbox_events d' = outbox_events d" by (simp_all add: d')
  show "scan_participants j d' =
      scan_participants j d @ (if i = j then [(u, \<lparr>p_UserID = u, p_Role = RoleMember\<rparr>)] else [])"
    unfolding d' scan_add_row by simp
qed

text \<open>An outbox row whose payload is the envelope of an event.\<close>

definition event_row :: "'b codec \<Rightarrow> int \<Rightarrow> event_type \<Rightarrow> string \<Rightarrow> string \<Rightarrow> pb_event \<Rightarrow> 'b outbox_row \<Rightarrow> bool" where
  "event_row cd now et i name ev e \<longleftrightarrow>
     (\<exists>b b'. enc_event cd ev = Inr b \<and> enc_env cd (EventEnvelope et 1 now b) = Inr b'
        \<and> o_aggregate_id e = i \<and> o_event_type e = name \<and> o_payload e = b' \<and> o_processed_at e = None)"

text \<open>The change of one membership and the one event that announces it.\<close>

definition membership_event :: "'b codec \<Rightarrow> string \<Rightarrow> string \<Rightarrow> bool \<Rightarrow> 'b conv_db \<Rightarrow> 'b conv_db \<Rightarrow> bool" where
  "membership_event cd i u joined d d' \<longleftrightarrow>
     (\<exists>now e. outbox_events d' = outbox_events d @ [e]
        \<and> event_row cd now EVENT_TYPE_MEMBERSHIP_CHANGED i ''MEMBERSHIP_CHANGED'' (MembershipChangedEvent i u joined) e)"

definition add_effect :: "('w, 'b) conv_deps \<Rightarrow> AddParticipantCommand \<Rightarrow> 'b conv_db \<Rightarrow> 'b conv_db \<Rightarrow> bool" where
  "add_effect dp cmd d d' \<longleftrightarrow>
     (\<exists>c. abs_conv d (ap_ConversationID cmd) = Some c
        \<and> c_Type c = ConversationGroup \<and> is_admin c (ap_ActorID cmd)
        \<and> (if map_of (c_Participants c) (ap_TargetID cmd) \<noteq> None then d' = d
           else (\<exists>c'. domain_AddParticipant c (ap_ActorID cmd) (ap_TargetID cmd) = Inr c'
                   \<and> abs_conv d' (ap_ConversationID cmd) = Some c')
             \<and> (\<forall>j. j \<noteq> ap_ConversationID cmd \<longrightarrow> abs_conv d' j = abs_conv d j)
             \<and> membership_event (dp_codec dp) (ap_ConversationID cmd) (ap_TargetID cmd) True d d'))"

lemma AddParticipant_tx_effect:
  assumes "AddParticipant_tx dp cmd s = (Inr u, t)"
  shows "add_effect dp cmd (s_db s) (s_db t)"
proof -
  let ?i = "ap_ConversationID cmd" and ?v = "ap_TargetID cmd"
  from AddParticipant_tx_InrD [OF assms] obtain c where
      c: "abs_conv (s_db s) ?i = Some c" "c_Type c = ConversationGroup" "is_admin c (ap_ActorID cmd)"
    and k: "if map_of (c_Participants c) ?v \<noteq> None then s_db t = s_db s
       else \<exists>d1 b b'.
         sql_insert_participant (s_now s) ?i ?v RoleMember (s_db s) = Inr (d1, ())
         \<and> enc_event (dp_codec dp) (MembershipChangedEvent ?i ?v True) = Inr b
         \<and> enc_env (dp_codec dp) (EventEnvelope EVENT_TYPE_MEMBERSHIP_CHANGED 1 (s_now s) b) = Inr b'
         \<and> s_db t = sql_insert_outbox (s_now s) ''message'' ?i ''MEMBERSHIP_CHANGED'' b' d1"
    by blast
  show ?thesis
  proof (cases "map_of (c_Participants c) ?v")
    case (Some p)
    with c k show ?thesis by (auto simp: add_effect_def)
  next
    case None
    with k obtain d1 b b' where ins: "sql_insert_participant (s_now s) ?i ?v RoleMember (s_db s) = Inr (d1, ())"
      and b: "enc_event (dp_codec dp) (MembershipChangedEvent ?i ?v True) = Inr b"
        "enc_env (dp_codec dp) (EventEnvelope EVENT_TYPE_MEMBERSHIP_CHANGED 1 (s_now s) b) = Inr b'"
      and t: "s_db t = sql_insert_outbox (s_now s) ''message'' ?i ''MEMBERSHIP_CHANGED'' b' d1"
      by auto
    note view = insert_member_view [OF ins]
    have fresh: "map_of (scan_participants ?i (s_db s)) ?v = None"
      using None abs_conv_participants [OF c(1)] by simp
    have "abs_conv (s_db t) ?i = Some (c\<lparr>c_Participants :=
        map_put ?v \<lparr>p_UserID = ?v, p_Role = RoleMember\<rparr> (c_Participants c)\<rparr>)"
      using abs_conv_update [OF c(1) view(1)] fresh
      by (simp add: t view map_put_fresh abs_conv_participants [OF c(1)])
    moreover have "abs_conv (s_db t) j = abs_conv (s_db s) j" if "j \<noteq> ?i" for j
      using abs_conv_frame [OF view(1), of j] that by (simp add: t view)
    moreover have "membership_event (dp_codec dp) ?i ?v True (s_db s) (s_db t)"
      using b by (auto simp: membership_event_def event_row_def t sql_insert_outbox_events view)
    ultimately show ?thesis
      using c None by (auto simp: add_effect_def domain_AddParticipant_def)
  qed
qed

definition remove_effect :: "('w, 'b) conv_deps \<Rightarrow> RemoveParticipantCommand \<Rightarrow> 'b conv_db \<Rightarrow> 'b conv_db \<Rightarrow> bool" where
  "remove_effect dp cmd d d' \<longleftrightarrow>
     (\<exists>c. abs_conv d (rp_ConversationID cmd) = Some c
        \<and> c_Type c = ConversationGroup \<and> is_admin c (rp_ActorID cmd)
        \<and> (case map_of (c_Participants c) (rp_TargetID cmd) of
             None \<Rightarrow> d' = d
           | Some q \<Rightarrow>
               (p_Role q = RoleAdmin \<longrightarrow> 2 \<le> adminCount (c_Participants c))
               \<and> (\<exists>c'. domain_RemoveParticipant c (rp_ActorID cmd) (rp_TargetID cmd) = Inr c'
                    \<and> abs_conv d' (rp_ConversationID cmd) = Some c')
               \<and> (\<forall>j. j \<noteq> rp_ConversationID cmd \<longrightarrow> abs_conv d' j = abs_conv d j)
               \<and> membership_event (dp_codec dp) (rp_ConversationID cmd) (rp_TargetID cmd) False d d'))"

lemma RemoveParticipant_tx_effect:
  assumes "RemoveParticipant_tx dp cmd s = (Inr u, t)"
  shows "remove_effect dp cmd (s_db s) (s_db t)"
proof -
  let ?i = "rp_ConversationID cmd" and ?v = "rp_TargetID cmd"
  let ?d1 = "(s_db s)\<lparr>conversation_participants :=
    filter (\<lambda>r. \<not> (m_conv r = ?i \<and> m_user r = ?v)) (conversation_participants (s_db s))\<rparr>"
  from RemoveParticipant_tx_InrD [OF assms] obtain c where
      c: "abs_conv (s_db s) ?i = Some c" "c_Type c = ConversationGroup" "is_admin c (rp_ActorID cmd)"
    and k: "case map_of (c_Participants c) ?v of
         None \<Rightarrow> s_db t = s_db s
       | Some q \<Rightarrow> \<not> (p_Role q = RoleAdmin \<and> adminCount (c_Participants c) \<le> 1)
         \<and> (\<exists>b b'. enc_event (dp_codec dp) (MembershipChangedEvent ?i ?v False) = Inr b
             \<and> enc_env (dp_codec dp) (EventEnvelope EVENT_TYPE_MEMBERSHIP_CHANGED 1 (s_now s) b) = Inr b'
             \<and> s_db t = sql_insert_outbox (s_now s) ''message'' ?i ''MEMBERSHIP_CHANGED'' b' ?d1)"
    by blast
  show ?thesis
  proof (cases "map_of (c_Participants c) ?v")
    case None
    with c k show ?thesis by (auto simp: remove_effect_def)
  next
    case (Some q)
    note k' = k [unfolded Some option.case]
    note guard = conjunct1 [OF k']
    from conjunct2 [OF k'] obtain b b' where
        b: "enc_event (dp_codec dp) (MembershipChangedEvent ?i ?v False) = Inr b"
        "enc_env (dp_codec dp) (EventEnvelope EVENT_TYPE_MEMBERSHIP_CHANGED 1 (s_now s) b) = Inr b'"
      and t: "s_db t = sql_insert_outbox (s_now s) ''message'' ?i ''MEMBERSHIP_CHANGED'' b' ?d1"
      by blast
    have scan: "scan_participants j (s_db t) =
        (if ?i = j then map_del ?v (scan_participants j (s_db s)) else scan_participants j (s_db s))" for j
      unfolding t scan_sql_insert_outbox by (rule scan_del_row)
    have same: "conversations (s_db t) = conversations (s_db s)" by (simp add: t)
    have "abs_conv (s_db t) ?i = Some (c\<lparr>c_Participants := map_del ?v (c_Participants c)\<rparr>)"
      using abs_conv_update [OF c(1) same] by (simp add: scan abs_conv_participants [OF c(1)])
    moreover have "abs_conv (s_db t) j = abs_conv (s_db s) j" if "j \<noteq> ?i" for j
      using abs_conv_frame [OF same, of j] that by (simp add: scan)
    moreover have "membership_event (dp_codec dp) ?i ?v False (s_db s) (s_db t)"
      using b by (auto simp: membership_event_def event_row_def t sql_insert_outbox_events)
    moreover have "p_Role q = RoleAdmin \<longrightarrow> 2 \<le> adminCount (c_Participants c)" using guard by auto
    ultimately show ?thesis
      using c Some unfolding remove_effect_def by (auto simp: domain_RemoveParticipant_def)
  qed
qed

text \<open>The same for a whole call, which commits one run of its callback or none.\<close>

lemma AddParticipant_effect:
  "add_effect dp cmd (s_db s) (s_db (snd (AddParticipant dp cmd s)))
    \<or> s_db (snd (AddParticipant dp cmd s)) = s_db s"
  unfolding AddParticipant_def by (rule txm.relates) (metis AddParticipant_tx_effect, simp)

lemma AddParticipant_success:
  assumes "AddParticipant dp cmd s = (Inr u, t)"
  shows "add_effect dp cmd (s_db s) (s_db t)"
  using txm.success [OF assms [unfolded AddParticipant_def]] AddParticipant_tx_effect
  unfolding committed_def by metis

lemma RemoveParticipant_effect:
  "remove_effect dp cmd (s_db s) (s_db (snd (RemoveParticipant dp cmd s)))
    \<or> s_db (snd (RemoveParticipant dp cmd s)) = s_db s"
  unfolding RemoveParticipant_def by (rule txm.relates) (metis RemoveParticipant_tx_effect, simp)

lemma RemoveParticipant_success:
  assumes "RemoveParticipant dp cmd s = (Inr u, t)"
  shows "remove_effect dp cmd (s_db s) (s_db t)"
  using txm.success [OF assms [unfolded RemoveParticipant_def]] RemoveParticipant_tx_effect
  unfolding committed_def by metis

section \<open>Calls that leave the members alone\<close>

lemma NextSequence_scan:
  "scan_participants i (s_db (snd (NextSequence j s))) = scan_participants i (s_db s)"
  unfolding NextSequence_def
  by (rule txm.relates)
    (auto dest!: repo_NextSequence_InrD intro!: scan_participants_cong)

lemma UpdateReadReceipt_scan:
  "scan_participants i (s_db (snd (UpdateReadReceipt dp j u n s))) = scan_participants i (s_db s)"
  unfolding UpdateReadReceipt_def
proof (rule txm.relates)
  fix s1 a s2
  assume "s_db s1 = s_db s" and "UpdateReadReceipt_tx dp j u n s1 = (Inr a, s2)"
  with UpdateReadReceipt_tx_InrD [OF this(2)] map_conv_rows_scan [of "raise_receipt j u (clamp_receipt (s_db s1) j n)"]
  show "scan_participants i (s_db s2) = scan_participants i (s_db s)" by auto
qed simp

lemma created_tables_scan:
  assumes "created_tables now cmd d d3" and "i \<in> r_id ` set (conversations d)"
  shows "scan_participants i d3 = scan_participants i d"
proof -
  from assms(1) obtain d1 where ins: "sql_insert_conversation now (cc_ID cmd) (cc_Type cmd) (cc_Name cmd)
      (cc_AvatarURL cmd) (getLookupKey cmd) d = Inr (d1, ())"
    and d3: "conversation_participants d3 = conversation_participants d1 @ new_rows now cmd 0 (cc_Participants cmd)"
    unfolding created_tables_def by auto
  from ins have "cc_ID cmd \<notin> r_id ` set (conversations d)"
    by (auto simp: sql_insert_conversation_def split: if_splits)
  with assms(2) have "cc_ID cmd \<noteq> i" by blast
  then have "filter (\<lambda>r. m_conv r = i) (new_rows now cmd 0 (cc_Participants cmd)) = []"
    by (auto simp: filter_empty_conv dest: new_rows_fields)
  then show ?thesis
    using d3 sql_insert_conversation_parts [OF ins] by (simp add: scan_participants_def)
qed

lemma CreateConversation_scan:
  assumes inv: "conv_inv (s_db s)" and i: "i \<in> r_id ` set (conversations (s_db s))"
  shows "scan_participants i (s_db (snd (CreateConversation dp idFirst cmd s))) = scan_participants i (s_db s)"
proof -
  obtain r s1 where pl: "parallelLookup dp idFirst (cc_ID cmd) (getLookupKey cmd) s = (r, s1)" by fastforce
  note same = only_readsD(1) [OF only_reads_parallelLookup pl]
  have dist: "distinct (map (\<lambda>p. (m_conv p, m_user p)) (conversation_participants (s_db s)))"
    using inv by (simp add: conv_inv_def keys_ok_def)
  have "scan_participants i (s_db (snd (WithTx conv_err_text (CreateConversation_tx dp cmd (getLookupKey cmd)) s1)))
      = scan_participants i (s_db s1)"
  proof (rule txm.relates)
    fix s2 a s3
    assume s2: "s_db s2 = s_db s1" and run: "CreateConversation_tx dp cmd (getLookupKey cmd) s2 = (Inr a, s3)"
      and ok: "\<not> s_aborted s3"
    have "distinct (map (\<lambda>p. (m_conv p, m_user p)) (conversation_participants (s_db s2)))"
      using dist s2 same by simp
    from CreateConversation_tx_InrD [OF run ok this] created_tables_scan i s2 same
    show "scan_participants i (s_db s3) = scan_participants i (s_db s1)" by fastforce
  qed simp
  moreover have "s_db (snd (CreateConversation dp idFirst cmd s)) = s_db s \<or>
      CreateConversation dp idFirst cmd s =
        WithTx conv_err_text (CreateConversation_tx dp cmd (getLookupKey cmd)) s1"
    using pl same by (cases r) (auto simp: CreateConversation_def Let_def split: option.splits)
  ultimately show ?thesis using same by auto
qed

lemma processBatch_scan:
  "scan_participants i (s_db (snd (processBatch wk p s))) = scan_participants i (s_db s)"
  using processBatch_same_data [of s wk p] by (intro scan_participants_cong) (simp add: same_data_def)

text \<open>A call that changes the members of an existing conversation is a permitted one.\<close>

definition may_change_members :: "'b conv_db \<Rightarrow> string \<Rightarrow> conv_call \<Rightarrow> bool" where
  "may_change_members d i call \<longleftrightarrow>
     (\<exists>c actor. abs_conv d i = Some c \<and> c_Type c = ConversationGroup \<and> is_admin c actor
        \<and> (\<exists>u. call = CallAdd \<lparr>ap_ConversationID = i, ap_ActorID = actor, ap_TargetID = u\<rparr>
             \<or> call = CallRemove \<lparr>rp_ConversationID = i, rp_ActorID = actor, rp_TargetID = u\<rparr>))"

lemma conv_exec_members:
  assumes inv: "conv_inv (s_db s)" and i: "i \<in> r_id ` set (conversations (s_db s))"
    and ch: "scan_participants i (s_db (snd (conv_exec dp wk p call s))) \<noteq> scan_participants i (s_db s)"
  shows "may_change_members (s_db s) i call"
proof (cases call)
  case (CallAdd cmd)
  with ch AddParticipant_effect [of dp cmd s] have eff: "add_effect dp cmd (s_db s) (s_db (snd (AddParticipant dp cmd s)))"
    by auto
  have "ap_ConversationID cmd = i"
  proof (rule ccontr)
    assume ne: "ap_ConversationID cmd \<noteq> i"
    obtain c where c: "abs_conv (s_db s) i = Some c"
      using abs_conv_defined [OF i] by blast
    from eff ne have eq: "abs_conv (s_db (snd (AddParticipant dp cmd s))) i = abs_conv (s_db s) i"
      unfolding add_effect_def by (metis (no_types, lifting))
    from abs_conv_scan [OF c eq] ch CallAdd show False by simp
  qed
  with eff CallAdd show ?thesis unfolding add_effect_def may_change_members_def by (cases cmd) auto
next
  case (CallRemove cmd)
  with ch RemoveParticipant_effect [of dp cmd s]
  have eff: "remove_effect dp cmd (s_db s) (s_db (snd (RemoveParticipant dp cmd s)))" by auto
  have "rp_ConversationID cmd = i"
  proof (rule ccontr)
    assume ne: "rp_ConversationID cmd \<noteq> i"
    obtain c where c: "abs_conv (s_db s) i = Some c"
      using abs_conv_defined [OF i] by blast
    from eff ne have eq: "abs_conv (s_db (snd (RemoveParticipant dp cmd s))) i = abs_conv (s_db s) i"
      unfolding remove_effect_def by (fastforce split: option.splits)
    from abs_conv_scan [OF c eq] ch CallRemove show False by simp
  qed
  with eff CallRemove show ?thesis unfolding remove_effect_def may_change_members_def by (cases cmd) auto
qed (use ch inv i in \<open>simp_all add: NextSequence_scan UpdateReadReceipt_scan CreateConversation_scan processBatch_scan
    GetConversation_db ListConversations_db\<close>)

end
