(* ===== verification/ConvCreate.thy ===== *)
theory ConvCreate
  imports ConvMembers
begin

text \<open>
  Runs in which no database call fails (\<open>calm\<close>): the repository's reads answer from the tables, and
  the creation of a conversation has the effect its code describes, once.
\<close>

definition calm :: "('d, 'w) sess \<Rightarrow> bool" where
  "calm s \<longleftrightarrow> s_script s = [] \<and> \<not> s_aborted s"

lemma calm_update [simp]: "calm (s\<lparr>s_db := d\<rparr>) = calm s" "calm (s\<lparr>s_aborted := False\<rparr>) = (s_script s = [])"
  by (simp_all add: calm_def)

lemma calm_not_aborted: "calm s \<Longrightarrow> s\<lparr>s_aborted := False\<rparr> = s"
  by (simp add: calm_def)

lemma stmt_calm:
  assumes "calm s" and "f (s_db s) = Inr (d, a)"
  shows "stmt tx f s = (Inr a, s\<lparr>s_db := d\<rparr>)"
  using stmt_ok [of s tx f] assms by (simp add: calm_def)

lemma query_calm: "calm s \<Longrightarrow> query tx f s = (Inr (f (s_db s)), s)"
  using query_ok [of s tx f] by (simp add: calm_def)

lemma WithTx_calm:
  assumes "calm s" and "fn s = (Inr a, s1)" and "calm s1"
  shows "WithTx etxt fn s = (Inr a, s1)"
proof (rule WithTx_ok)
  show "fn (s\<lparr>s_aborted := False\<rparr>) = (Inr a, s1)"
    unfolding calm_not_aborted [OF assms(1)] by (rule assms(2))
qed (use assms in \<open>simp_all add: calm_def\<close>)

section \<open>Direct conversations\<close>

lemma direct_key_sym: "{p, q} = {p', q'} \<Longrightarrow> direct_key p q = direct_key p' q'"
  by (auto simp: direct_key_def doubleton_eq_iff min.commute max.commute)

text \<open>For ids without the separator the key determines the pair.\<close>

lemma direct_key_eq_iff:
  assumes "CHR '':'' \<notin> set p" "CHR '':'' \<notin> set q" "CHR '':'' \<notin> set p'" "CHR '':'' \<notin> set q'"
  shows "direct_key p q = direct_key p' q' \<longleftrightarrow> {p, q} = {p', q'}"
proof
  assume "direct_key p q = direct_key p' q'"
  then have "min p q @ CHR '':'' # max p q = min p' q' @ CHR '':'' # max p' q'"
    by (simp add: direct_key_def)
  then have "min p q = min p' q' \<and> max p q = max p' q'"
    by (rule split_at_first) (use assms in \<open>auto simp: min_def\<close>)
  then show "{p, q} = {p', q'}" by (auto simp: min_def max_def split: if_splits)
qed (rule direct_key_sym)

lemma lookup_keys_filter_distinct:
  assumes "distinct (lookup_keys rs)" and "\<And>r. r \<in> set rs \<Longrightarrow> P r \<Longrightarrow> r_lookup_key r = Some k"
  shows "length (filter P rs) \<le> 1"
  using assms
proof (induction rs)
  case (Cons r rs)
  have "lookup_keys (r # rs) = lookup_keys [r] @ lookup_keys rs" by (metis append_Cons append_Nil lookup_keys_append)
  with Cons.prems(1) have dist: "distinct (lookup_keys rs)" "set (lookup_keys [r]) \<inter> set (lookup_keys rs) = {}"
    by simp_all
  show ?case
  proof (cases "P r")
    case True
    with Cons.prems(2) have "k \<in> set (lookup_keys [r])" by (simp add: in_lookup_keys)
    with dist(2) have "k \<notin> set (lookup_keys rs)" by blast
    then have "\<forall>x \<in> set rs. r_lookup_key x \<noteq> Some k" by (auto simp: in_lookup_keys)
    with Cons.prems(2) have "filter P rs = []" by (auto simp: filter_empty_conv)
    then show ?thesis by simp
  next
    case False
    with Cons.IH [OF dist(1)] Cons.prems(2) show ?thesis by simp
  qed
qed simp

definition directs_between :: "string \<Rightarrow> string \<Rightarrow> 'b conv_db \<Rightarrow> conv_row list" where
  "directs_between u v d =
     filter (\<lambda>r. r_type r = ConversationDirect \<and> fst ` set (scan_participants (r_id r) d) = {u, v})
       (conversations d)"

lemma directs_between_unique:
  assumes "conv_inv d"
  shows "length (directs_between u v d) \<le> 1"
  unfolding directs_between_def
proof (rule lookup_keys_filter_distinct)
  show "distinct (lookup_keys (conversations d))" using assms by (simp add: conv_inv_def lookup_ok_def)
  fix r assume r: "r \<in> set (conversations d)"
    "r_type r = ConversationDirect \<and> fst ` set (scan_participants (r_id r) d) = {u, v}"
  then obtain p q where "r_lookup_key r = Some (direct_key p q)" "fst ` set (scan_participants (r_id r) d) = {p, q}"
    using assms unfolding conv_inv_def lookup_ok_def by blast
  with r direct_key_sym [of p q u v] show "r_lookup_key r = Some (direct_key u v)" by auto
qed

section \<open>Reads\<close>

lemma fetchConversation_calm:
  assumes "calm s"
  shows "fetchConversation tx i fu s =
    (case abs_conv (s_db s) i of None \<Rightarrow> (Inl (Domain ErrConversationNotFound), s) | Some c \<Rightarrow> (Inr c, s))"
proof (cases "find (\<lambda>r. r_id r = i) (conversations (s_db s))")
  case None
  with query_calm [OF assms, of tx "\<lambda>d. find (\<lambda>r. r_id r = i) (conversations d)", where 'c = conv_err]
  show ?thesis by (simp add: fetchConversation_def abs_conv_def)
next
  case (Some r)
  with query_calm [OF assms, of tx "\<lambda>d. find (\<lambda>r. r_id r = i) (conversations d)", where 'c = conv_err]
    query_calm [OF assms, of tx "scan_participants i", where 'c = conv_err]
  show ?thesis by (simp add: fetchConversation_def abs_conv_def)
qed

lemma repo_GetConversation_nocache:
  assumes "dp_cache dp = None"
  shows "repo_GetConversation dp tx i s = fetchConversation tx i False s"
proof -
  have "bindE (fetchConversation tx i False) ret s = fetchConversation tx i False s"
    by (auto simp: bindE_def attempt_def split: prod.splits sum.splits)
  with assms show ?thesis by (simp add: repo_GetConversation_def Let_def)
qed

definition conv_by_key :: "'b conv_db \<Rightarrow> string \<rightharpoonup> Conversation" where
  "conv_by_key d key =
     (case find (\<lambda>r. r_lookup_key r = Some key) (conversations d) of
        None \<Rightarrow> None | Some r \<Rightarrow> abs_conv d (r_id r))"

lemma GetConversationByLookupKey_calm:
  assumes "calm s"
  shows "GetConversationByLookupKey tx key s =
    (case conv_by_key (s_db s) key of None \<Rightarrow> (Inl (Domain ErrConversationNotFound), s) | Some c \<Rightarrow> (Inr c, s))"
proof (cases "find (\<lambda>r. r_lookup_key r = Some key) (conversations (s_db s))")
  case None
  with query_calm [OF assms, of tx "\<lambda>d. find (\<lambda>r. r_lookup_key r = Some key) (conversations d)", where 'c = conv_err]
  show ?thesis by (simp add: GetConversationByLookupKey_def conv_by_key_def)
next
  case (Some r)
  with query_calm [OF assms, of tx "\<lambda>d. find (\<lambda>r. r_lookup_key r = Some key) (conversations d)", where 'c = conv_err]
    fetchConversation_calm [OF assms, of tx "r_id r" False]
  show ?thesis by (simp add: GetConversationByLookupKey_def conv_by_key_def)
qed

text \<open>The lookup before the transaction: by id, by key, the schedule deciding when both answer.\<close>

definition first_found :: "bool \<Rightarrow> 'a option \<Rightarrow> 'a option \<Rightarrow> 'a option" where
  "first_found idFirst a b =
     (if idFirst then (case a of Some c \<Rightarrow> Some c | None \<Rightarrow> b) else (case b of Some c \<Rightarrow> Some c | None \<Rightarrow> a))"

lemma parallelLookup_calm:
  assumes "calm s" and "dp_cache dp = None" and "i \<noteq> []"
  shows "parallelLookup dp idFirst i key s =
    (Inr (first_found idFirst (abs_conv (s_db s) i)
       (case key of None \<Rightarrow> None | Some k \<Rightarrow> conv_by_key (s_db s) k)), s)"
proof -
  have id: "lookup_quiet (repo_GetConversation dp False i) s = (Inr (abs_conv (s_db s) i), s)"
    using fetchConversation_calm [OF assms(1), of False i False] assms(2)
    by (auto simp: lookup_quiet_def repo_GetConversation_nocache attempt_def split: option.splits)
  have ky: "(case key of None \<Rightarrow> ret None | Some key \<Rightarrow> lookup_quiet (GetConversationByLookupKey False key)) s =
      (Inr (case key of None \<Rightarrow> None | Some k \<Rightarrow> conv_by_key (s_db s) k), s)"
    using GetConversationByLookupKey_calm [OF assms(1)]
    by (cases key) (auto simp: lookup_quiet_def attempt_def split: option.splits)
  show ?thesis
    using id ky assms(3) by (cases idFirst) (simp_all add: parallelLookup_def Let_def first_found_def)
qed

lemma lookup_in_tx_miss:
  assumes "calm s" and "dp_cache dp = None" and "abs_conv (s_db s) (cc_ID cmd) = None"
    and "\<And>k. key = Some k \<Longrightarrow> conv_by_key (s_db s) k = None"
  shows "lookup_in_tx dp cmd key m s = m s"
proof -
  have ky: "(case key of None \<Rightarrow> m | Some k \<Rightarrow> found_or (GetConversationByLookupKey True k) m) s = m s"
    using GetConversationByLookupKey_calm [OF assms(1), of True] assms(4)
    by (cases key) (auto simp: found_or_def)
  have "repo_GetConversation dp True (cc_ID cmd) s = (Inl (Domain ErrConversationNotFound), s)"
    using fetchConversation_calm [OF assms(1), of True "cc_ID cmd" False] assms(2,3)
    by (simp add: repo_GetConversation_nocache)
  with ky show ?thesis by (simp add: lookup_in_tx_def Let_def found_or_def)
qed

section \<open>Writes\<close>

lemma insertParticipants_from_calm:
  assumes "calm s" and "cc_ID cmd \<in> r_id ` set (conversations (s_db s))" and "distinct us"
    and "\<And>u. u \<in> set us \<Longrightarrow> \<not> (\<exists>r \<in> set (conversation_participants (s_db s)). m_conv r = cc_ID cmd \<and> m_user r = u)"
  shows "insertParticipants_from cmd i us s =
    (Inr (), s\<lparr>s_db := (s_db s)\<lparr>conversation_participants :=
       conversation_participants (s_db s) @ new_rows (s_now s) cmd i us\<rparr>\<rparr>)"
  using assms
proof (induction us arbitrary: i s)
  case Nil
  then show ?case by simp
next
  case (Cons u us)
  let ?role = "if cc_Type cmd = ConversationGroup \<and> i = 0 then RoleAdmin else RoleMember"
  let ?row = "\<lparr>m_conv = cc_ID cmd, m_user = u, m_role = ?role, m_last_read = 0, m_joined_at = s_now s\<rparr>"
  let ?d1 = "(s_db s)\<lparr>conversation_participants := conversation_participants (s_db s) @ [?row]\<rparr>"
  have "sql_insert_participant (s_now s) (cc_ID cmd) u ?role (s_db s) = Inr (?d1, ())"
    using Cons.prems(2) Cons.prems(4) [of u] by (auto simp: sql_insert_participant_def valid_role_def)
  from stmt_calm [OF Cons.prems(1), where f = "sql_insert_participant (s_now s) (cc_ID cmd) u ?role", OF this, of True]
  have one: "InsertParticipant True (cc_ID cmd) u ?role s = (Inr (), s\<lparr>s_db := ?d1\<rparr>)"
    by (simp add: InsertParticipant_def)
  have "insertParticipants_from cmd (Suc i) us (s\<lparr>s_db := ?d1\<rparr>) =
      (Inr (), s\<lparr>s_db := ?d1\<lparr>conversation_participants :=
         conversation_participants ?d1 @ new_rows (s_now s) cmd (Suc i) us\<rparr>\<rparr>)"
    using Cons.prems by (subst Cons.IH) auto
  with one show ?case by (simp add: Let_def)
qed

text \<open>A codec that never refuses a message.\<close>

definition codec_total :: "'b codec \<Rightarrow> bool" where
  "codec_total cd \<longleftrightarrow> (\<forall>e. \<exists>b. enc_event cd e = Inr b) \<and> (\<forall>e. \<exists>b. enc_env cd e = Inr b)"

lemma emitConversationCreated_calm:
  assumes "calm s" and "abs_conv (s_db s) i = Some c" and "codec_total (dp_codec dp)"
  shows "\<exists>b b'. enc_event (dp_codec dp) (created_event c) = Inr b
    \<and> enc_env (dp_codec dp) (EventEnvelope EVENT_TYPE_CONVERSATION_CREATED 1 (c_CreatedAt c) b) = Inr b'
    \<and> emitConversationCreated dp i s =
        (Inr c, s\<lparr>s_db := sql_insert_outbox (s_now s) ''message'' i ''CONVERSATION_CREATED'' b' (s_db s)\<rparr>)"
proof -
  obtain b b' where b: "enc_event (dp_codec dp) (created_event c) = Inr b"
    "enc_env (dp_codec dp) (EventEnvelope EVENT_TYPE_CONVERSATION_CREATED 1 (c_CreatedAt c) b) = Inr b'"
    using assms(3) unfolding codec_total_def by blast
  have i: "c_ID c = i" using assms(2) by (auto dest!: abs_conv_SomeD)
  have f: "GetConversationLocked True i s = (Inr c, s)"
    using fetchConversation_calm [OF assms(1), of True i True] assms(2) by (simp add: GetConversationLocked_def)
  have o: "InsertOutbox True ''message'' i ''CONVERSATION_CREATED'' b' s =
      (Inr (), s\<lparr>s_db := sql_insert_outbox (s_now s) ''message'' i ''CONVERSATION_CREATED'' b' (s_db s)\<rparr>)"
    using stmt_calm [OF assms(1), of "\<lambda>d. Inr (sql_insert_outbox (s_now s) ''message'' i ''CONVERSATION_CREATED'' b' d, ())",
        OF refl, of True] by (simp add: InsertOutbox_def)
  have "wrap_err ''failed to lock conversation after creation'' (GetConversationLocked True i) s = (Inr c, s)"
    "wrap_err ''failed to save outbox event'' (InsertOutbox True ''message'' i ''CONVERSATION_CREATED'' b') s =
      (Inr (), s\<lparr>s_db := sql_insert_outbox (s_now s) ''message'' i ''CONVERSATION_CREATED'' b' (s_db s)\<rparr>)"
    using f o by simp_all
  then have "emitConversationCreated dp i s =
      (Inr c, s\<lparr>s_db := sql_insert_outbox (s_now s) ''message'' i ''CONVERSATION_CREATED'' b' (s_db s)\<rparr>)"
    unfolding emitConversationCreated_def using b i by (auto simp: bindE_Inr_iff)
  with b show ?thesis by blast
qed

section \<open>Creating a conversation\<close>

text \<open>The roles of a new conversation: the first participant of a group is its admin.\<close>

definition initial_participants :: "CreateConversationCommand \<Rightarrow> (string \<times> Participant) list" where
  "initial_participants cmd =
     map (\<lambda>(k, u). (u, \<lparr>p_UserID = u,
           p_Role = (if cc_Type cmd = ConversationGroup \<and> k = 0 then RoleAdmin else RoleMember)\<rparr>))
       (enumerate 0 (cc_Participants cmd))"

lemma new_rows_enumerate:
  "map (\<lambda>r. (m_user r, \<lparr>p_UserID = m_user r, p_Role = m_role r\<rparr>)) (new_rows now cmd k us) =
     map (\<lambda>(k, u). (u, \<lparr>p_UserID = u,
           p_Role = (if cc_Type cmd = ConversationGroup \<and> k = 0 then RoleAdmin else RoleMember)\<rparr>)) (enumerate k us)"
  by (induction us arbitrary: k) auto

definition new_conversation :: "int \<Rightarrow> CreateConversationCommand \<Rightarrow> Conversation" where
  "new_conversation now cmd =
     \<lparr>c_ID = cc_ID cmd, c_Type = cc_Type cmd, c_DisplayName = cc_Name cmd, c_AvatarURL = cc_AvatarURL cmd,
      c_CreatedAt = now, c_Participants = initial_participants cmd\<rparr>"

text \<open>A creation that nothing in the tables stands against.\<close>

definition creatable :: "'b conv_db \<Rightarrow> CreateConversationCommand \<Rightarrow> bool" where
  "creatable d cmd \<longleftrightarrow>
     valid_create cmd \<and> valid_type (cc_Type cmd) \<and> distinct (cc_Participants cmd)
     \<and> (\<forall>r \<in> set (conversations d). r_id r \<noteq> cc_ID cmd)
     \<and> (\<forall>r \<in> set (conversations d). getLookupKey cmd = None \<or> r_lookup_key r \<noteq> getLookupKey cmd)"

lemma creatable_fresh: "creatable d cmd \<Longrightarrow> cc_ID cmd \<notin> r_id ` set (conversations d)"
  by (auto simp: creatable_def)

definition create_tables :: "int \<Rightarrow> CreateConversationCommand \<Rightarrow> 'b conv_db \<Rightarrow> 'b conv_db" where
  "create_tables now cmd d =
     d\<lparr>conversations := conversations d @
         [\<lparr>r_id = cc_ID cmd, r_type = cc_Type cmd, r_display_name = Some (cc_Name cmd),
           r_avatar_url = Some (cc_AvatarURL cmd), r_lookup_key = getLookupKey cmd,
           r_created_at = now, r_updated_at = now\<rparr>],
       conversation_sequences := conversation_sequences d @ [(cc_ID cmd, 0)],
       conversation_participants := conversation_participants d @ new_rows now cmd 0 (cc_Participants cmd)\<rparr>"

lemma abs_conv_create_tables:
  assumes inv: "conv_inv d" and cr: "creatable d cmd"
  shows "abs_conv (create_tables now cmd d) (cc_ID cmd) = Some (new_conversation now cmd)"
    and "j \<noteq> cc_ID cmd \<Longrightarrow> abs_conv (create_tables now cmd d) j = abs_conv d j"
proof -
  have fresh: "find (\<lambda>r. r_id r = cc_ID cmd) (conversations d) = None"
    using cr by (auto simp: creatable_def find_None_conv)
  have none: "filter (\<lambda>r. m_conv r = cc_ID cmd) (conversation_participants d) = []"
    using inv creatable_fresh [OF cr] unfolding conv_inv_def keys_ok_def filter_empty_conv by metis
  have all: "filter (\<lambda>r. m_conv r = cc_ID cmd) (new_rows now cmd 0 us) = new_rows now cmd 0 us" for us
    by (auto simp: filter_id_conv dest: new_rows_fields)
  have find_app: "find P (xs @ ys) = (case find P xs of None \<Rightarrow> find P ys | Some x \<Rightarrow> Some x)"
    for P and xs ys :: "conv_row list" by (induction xs) auto
  show "abs_conv (create_tables now cmd d) (cc_ID cmd) = Some (new_conversation now cmd)"
    by (simp add: abs_conv_def create_tables_def find_app fresh scan_participants_def none all
        new_conversation_def conv_of_row_def initial_participants_def new_rows_enumerate)
  assume j: "j \<noteq> cc_ID cmd"
  then have "filter (\<lambda>r. m_conv r = j) (new_rows now cmd 0 us) = []" for us
    by (auto simp: filter_empty_conv dest: new_rows_fields)
  with j show "abs_conv (create_tables now cmd d) j = abs_conv d j"
    by (simp add: abs_conv_def create_tables_def find_app scan_participants_def split: option.splits)
qed

lemma abs_conv_None: "i \<notin> r_id ` set (conversations d) \<Longrightarrow> abs_conv d i = None"
  by (auto simp: abs_conv_def find_None_conv split: option.splits dest!: find_SomeD)

lemma creatable_misses:
  assumes "creatable d cmd"
  shows "abs_conv d (cc_ID cmd) = None" "getLookupKey cmd = Some k \<Longrightarrow> conv_by_key d k = None"
proof -
  show "abs_conv d (cc_ID cmd) = None" by (rule abs_conv_None [OF creatable_fresh [OF assms]])
  assume "getLookupKey cmd = Some k"
  with assms have "find (\<lambda>r. r_lookup_key r = Some k) (conversations d) = None"
    by (auto simp: creatable_def find_None_conv)
  then show "conv_by_key d k = None" by (simp add: conv_by_key_def)
qed

lemma doCreateConversation_calm:
  assumes calm: "calm s" and inv: "conv_inv (s_db s)" and cr: "creatable (s_db s) cmd"
    and cd: "codec_total (dp_codec dp)"
  shows "\<exists>b. doCreateConversation dp cmd (getLookupKey cmd) s =
    (Inr (new_conversation (s_now s) cmd), s\<lparr>s_db := sql_insert_outbox (s_now s) ''message'' (cc_ID cmd)
        ''CONVERSATION_CREATED'' b (create_tables (s_now s) cmd (s_db s))\<rparr>)"
proof -
  define d1 where "d1 = (s_db s)\<lparr>conversations := conversations (s_db s) @
         [\<lparr>r_id = cc_ID cmd, r_type = cc_Type cmd, r_display_name = Some (cc_Name cmd),
           r_avatar_url = Some (cc_AvatarURL cmd), r_lookup_key = getLookupKey cmd,
           r_created_at = s_now s, r_updated_at = s_now s\<rparr>]\<rparr>"
  define d2 where "d2 = d1\<lparr>conversation_sequences := conversation_sequences d1 @ [(cc_ID cmd, 0)]\<rparr>"
  have "sql_insert_conversation (s_now s) (cc_ID cmd) (cc_Type cmd) (cc_Name cmd) (cc_AvatarURL cmd)
      (getLookupKey cmd) (s_db s) = Inr (d1, ())"
    using cr by (auto simp: sql_insert_conversation_def creatable_def d1_def)
  from stmt_calm [OF calm, where f = "sql_insert_conversation (s_now s) (cc_ID cmd) (cc_Type cmd) (cc_Name cmd)
      (cc_AvatarURL cmd) (getLookupKey cmd)", OF this, of True]
  have i1: "InsertConversation True (cc_ID cmd) (cc_Type cmd) (cc_Name cmd) (cc_AvatarURL cmd) (getLookupKey cmd) s
      = (Inr (), s\<lparr>s_db := d1\<rparr>)"
    by (simp add: InsertConversation_def)
  have "cc_ID cmd \<notin> fst ` set (conversation_sequences (s_db s))"
    using inv creatable_fresh [OF cr] by (simp add: conv_inv_def seqs_ok_def)
  then have "map_of (conversation_sequences d1) (cc_ID cmd) = None" by (simp add: d1_def map_of_None_iff)
  then have i2: "InitSequence True (cc_ID cmd) (s\<lparr>s_db := d1\<rparr>) = (Inr (), s\<lparr>s_db := d2\<rparr>)"
    unfolding InitSequence_def
    by (subst stmt_calm [of _ _ d2 "()"]) (use calm in \<open>auto simp: d1_def d2_def\<close>)
  have "m_conv r \<noteq> cc_ID cmd" if "r \<in> set (conversation_participants (s_db s))" for r
    using inv creatable_fresh [OF cr] that unfolding conv_inv_def keys_ok_def by metis
  then have i3: "insertParticipants cmd (s\<lparr>s_db := d2\<rparr>) = (Inr (), s\<lparr>s_db := create_tables (s_now s) cmd (s_db s)\<rparr>)"
    unfolding insertParticipants_def
    by (subst insertParticipants_from_calm)
      (use calm cr in \<open>auto simp: creatable_def d1_def d2_def create_tables_def\<close>)
  have "calm (s\<lparr>s_db := create_tables (s_now s) cmd (s_db s)\<rparr>)" using calm by simp
  from emitConversationCreated_calm [OF this _ cd, of "cc_ID cmd" "new_conversation (s_now s) cmd"]
    abs_conv_create_tables [OF inv cr]
  obtain b where "emitConversationCreated dp (cc_ID cmd) (s\<lparr>s_db := create_tables (s_now s) cmd (s_db s)\<rparr>) =
      (Inr (new_conversation (s_now s) cmd), s\<lparr>s_db := sql_insert_outbox (s_now s) ''message'' (cc_ID cmd)
        ''CONVERSATION_CREATED'' b (create_tables (s_now s) cmd (s_db s))\<rparr>)"
    by auto
  with i1 i2 i3 show ?thesis by (auto simp: doCreateConversation_def bindE_Inr_iff)
qed

lemma direct_has_key:
  assumes "valid_create cmd" and dir: "cc_Type cmd = ConversationDirect"
  shows "getLookupKey cmd \<noteq> None"
proof -
  from assms obtain p q where "cc_Participants cmd = [p, q]"
    by (auto simp: valid_create_def numeral_2_eq_2 length_Suc_conv)
  with getLookupKey_direct [OF dir] show ?thesis by simp
qed

lemma CreateConversation_calm:
  assumes calm: "calm s" and inv: "conv_inv (s_db s)" and cr: "creatable (s_db s) cmd"
    and cd: "codec_total (dp_codec dp)" and nc: "dp_cache dp = None"
  shows "\<exists>b. CreateConversation dp idFirst cmd s =
    (Inr (new_conversation (s_now s) cmd), s\<lparr>s_db := sql_insert_outbox (s_now s) ''message'' (cc_ID cmd)
        ''CONVERSATION_CREATED'' b (create_tables (s_now s) cmd (s_db s))\<rparr>)"
proof -
  note miss = creatable_misses [OF cr]
  have guards: "cc_ID cmd \<noteq> []" "cc_Type cmd = ConversationDirect \<Longrightarrow> length (cc_Participants cmd) = 2"
    "cc_Type cmd = ConversationGroup \<Longrightarrow> cc_Participants cmd \<noteq> []"
    using cr by (auto simp: creatable_def valid_create_def)
  have key: "cc_Type cmd = ConversationDirect \<Longrightarrow> getLookupKey cmd \<noteq> None"
    using cr by (intro direct_has_key) (simp_all add: creatable_def)
  have "first_found idFirst (abs_conv (s_db s) (cc_ID cmd))
      (case getLookupKey cmd of None \<Rightarrow> None | Some k \<Rightarrow> conv_by_key (s_db s) k) = None"
    using miss by (auto simp: first_found_def split: option.splits)
  with parallelLookup_calm [OF calm nc guards(1), of idFirst "getLookupKey cmd"]
  have pl: "parallelLookup dp idFirst (cc_ID cmd) (getLookupKey cmd) s = (Inr None, s)" by simp
  from doCreateConversation_calm [OF calm inv cr cd] obtain b where
    dc: "doCreateConversation dp cmd (getLookupKey cmd) s =
    (Inr (new_conversation (s_now s) cmd), s\<lparr>s_db := sql_insert_outbox (s_now s) ''message'' (cc_ID cmd)
        ''CONVERSATION_CREATED'' b (create_tables (s_now s) cmd (s_db s))\<rparr>)" by blast
  have "CreateConversation_tx dp cmd (getLookupKey cmd) s =
    (Inr (new_conversation (s_now s) cmd), s\<lparr>s_db := sql_insert_outbox (s_now s) ''message'' (cc_ID cmd)
        ''CONVERSATION_CREATED'' b (create_tables (s_now s) cmd (s_db s))\<rparr>)"
    unfolding CreateConversation_tx_def
    by (subst lookup_in_tx_miss [OF calm nc miss(1)]) (use miss(2) dc in \<open>auto\<close>)
  from WithTx_calm [OF calm, where fn = "CreateConversation_tx dp cmd (getLookupKey cmd)", OF this, of conv_err_text] calm
  have tx: "WithTx conv_err_text (CreateConversation_tx dp cmd (getLookupKey cmd)) s =
    (Inr (new_conversation (s_now s) cmd), s\<lparr>s_db := sql_insert_outbox (s_now s) ''message'' (cc_ID cmd)
        ''CONVERSATION_CREATED'' b (create_tables (s_now s) cmd (s_db s))\<rparr>)"
    by simp
  show ?thesis
    using guards key pl tx by (auto simp: CreateConversation_def Let_def)
qed

section \<open>Refusals\<close>

lemma domain_not_serialization: "\<not> isSerializationError conv_err_text (Some (Domain e))"
  by (cases e) (simp_all add: isSerializationError_def)

lemma WithTx_refuses:
  assumes "calm s" and "fn s = (Inl (Domain e), s)"
  shows "WithTx conv_err_text fn s = (Inl (Domain e), s)"
proof -
  have "WithTx conv_err_text fn s = (Inl (Domain e), rollback s s)"
  proof (rule WithTx_err)
    show "fn (s\<lparr>s_aborted := False\<rparr>) = (Inl (Domain e), s)"
      unfolding calm_not_aborted [OF assms(1)] by (rule assms(2))
  qed (use assms domain_not_serialization in \<open>auto simp: calm_def\<close>)
  also have "rollback s s = s" using assms(1) by (simp add: rollback_def calm_def)
  finally show ?thesis .
qed

text \<open>The refusal that the code's guards give, in their order.\<close>

definition add_refusal :: "'b conv_db \<Rightarrow> AddParticipantCommand \<Rightarrow> conv_err option" where
  "add_refusal d cmd =
     (case abs_conv d (ap_ConversationID cmd) of
        None \<Rightarrow> Some ErrConversationNotFound
      | Some c \<Rightarrow>
          if c_Type c \<noteq> ConversationGroup then Some ErrDirectModification
          else if \<not> is_admin c (ap_ActorID cmd) then Some ErrNotAdmin
          else None)"

definition remove_refusal :: "'b conv_db \<Rightarrow> RemoveParticipantCommand \<Rightarrow> conv_err option" where
  "remove_refusal d cmd =
     (case abs_conv d (rp_ConversationID cmd) of
        None \<Rightarrow> Some ErrConversationNotFound
      | Some c \<Rightarrow>
          if c_Type c \<noteq> ConversationGroup then Some ErrDirectModification
          else if \<not> is_admin c (rp_ActorID cmd) then Some ErrNotAdmin
          else (case map_of (c_Participants c) (rp_TargetID cmd) of
            None \<Rightarrow> None
          | Some q \<Rightarrow> if p_Role q = RoleAdmin \<and> adminCount (c_Participants c) \<le> 1 then Some ErrLastAdmin else None))"

lemma AddParticipant_refuses:
  assumes "calm s" and "add_refusal (s_db s) cmd = Some e"
  shows "AddParticipant dp cmd s = (Inl (Domain e), s)"
  unfolding AddParticipant_def
proof (rule WithTx_refuses [OF assms(1)])
  show "AddParticipant_tx dp cmd s = (Inl (Domain e), s)"
    using assms(2) fetchConversation_calm [OF assms(1), of True "ap_ConversationID cmd" True]
    by (auto simp: add_refusal_def AddParticipant_tx_def GetConversationLocked_def split: option.splits if_splits)
qed

lemma RemoveParticipant_refuses:
  assumes "calm s" and "remove_refusal (s_db s) cmd = Some e"
  shows "RemoveParticipant dp cmd s = (Inl (Domain e), s)"
  unfolding RemoveParticipant_def
proof (rule WithTx_refuses [OF assms(1)])
  show "RemoveParticipant_tx dp cmd s = (Inl (Domain e), s)"
    using assms(2) fetchConversation_calm [OF assms(1), of True "rp_ConversationID cmd" True]
    by (auto simp: remove_refusal_def RemoveParticipant_tx_def GetConversationLocked_def
        split: option.splits if_splits)
qed

end
