(* ===== verification/ConvSeq.thy ===== *)
theory ConvSeq
  imports ConvExec
begin

text \<open>
  Sequence numbers and read receipts over whole runs of the conversation service, and the listing of
  a user's conversations.
\<close>

section \<open>Sequence numbers\<close>

lemma NextSequence_success:
  fixes s :: "('b conv_db, 'w) sess"
  assumes "NextSequence i s = (Inr n, t)"
  shows "\<exists>m. map_of (conversation_sequences (s_db s)) i = Some m \<and> m \<noteq> max_bigint \<and> n = m + 1
    \<and> s_db t = (s_db s)\<lparr>conversation_sequences := map_put i n (conversation_sequences (s_db s))\<rparr>"
proof -
  from txm.success [OF assms [unfolded NextSequence_def]] obtain s1 s2 :: "('b conv_db, 'w) sess" where
    s1: "s_db s1 = s_db s" "repo_NextSequence True i s1 = (Inr n, s2)" "s_db t = s_db s2"
    unfolding committed_def wrap_err_Inr_iff by blast
  from repo_NextSequence_InrD [OF s1(2)] s1 show ?thesis by auto
qed

text \<open>The numbers that successful calls of \<open>NextSequence\<close> on \<open>i\<close> returned, in the order of the run.\<close>

fun handed_out :: "string \<Rightarrow> (conv_call \<times> conv_result) list \<Rightarrow> int list" where
  "handed_out i [] = []"
| "handed_out i ((CallNext j, Inr (AnsSeq n)) # tr) = (if j = i then n # handed_out i tr else handed_out i tr)"
| "handed_out i (e # tr) = handed_out i tr"

lemma handed_out_cons:
  "handed_out i ((call, r) # tr) =
     (if call = CallNext i \<and> (\<exists>n. r = Inr (AnsSeq n)) then [case r of Inr (AnsSeq n) \<Rightarrow> n] else []) @ handed_out i tr"
proof (cases call)
  case (CallNext j)
  then show ?thesis
  proof (cases r)
    case (Inr a)
    with CallNext show ?thesis by (cases a) auto
  qed simp
qed simp_all

text \<open>The sequence of a conversation, 0 when it has none.\<close>

definition seq_of :: "'b conv_db \<Rightarrow> string \<Rightarrow> int" where
  "seq_of d i = (case map_of (conversation_sequences d) i of None \<Rightarrow> 0 | Some n \<Rightarrow> n)"

lemma seq_of_grows:
  assumes "grows d d'" and "conv_inv d'"
  shows "seq_of d i \<le> seq_of d' i"
proof (cases "map_of (conversation_sequences d) i")
  case None
  have "0 \<le> n" if "map_of (conversation_sequences d') i = Some n" for n
    using assms(2) map_of_SomeD [OF that] by (auto simp: conv_inv_def seqs_ok_def)
  with None show ?thesis by (auto simp: seq_of_def split: option.splits)
next
  case (Some n)
  with assms(1) obtain n' where "map_of (conversation_sequences d') i = Some n'" "n \<le> n'"
    unfolding grows_def by blast
  with Some show ?thesis by (simp add: seq_of_def)
qed

lemma handed_out_increasing:
  assumes "conv_run dp wk p st tr st'" and "conv_inv (fst st)"
  shows "sorted_wrt (<) (handed_out i tr) \<and> (\<forall>n \<in> set (handed_out i tr). seq_of (fst st) i < n \<and> n \<le> seq_of (fst st') i)"
  using assms
proof (induction rule: conv_run.induct)
  case (run_nil st)
  then show ?case by simp
next
  case (run_cons call d w script now r t tr st')
  let ?s = "session d w script now"
  have inv: "conv_inv d" using run_cons.prems by simp
  have t: "snd (conv_exec dp wk p call ?s) = t" using run_cons.hyps(1) by simp
  have inv': "conv_inv (s_db t)" using conv_exec_inv [of ?s dp wk p call] inv t by simp
  have gr: "grows d (s_db t)" using conv_exec_grows [of ?s dp wk p call] inv t by simp
  note le = seq_of_grows [OF gr inv', of i]
  from run_cons.IH inv' have ih: "sorted_wrt (<) (handed_out i tr)"
    "\<forall>n \<in> set (handed_out i tr). seq_of (s_db t) i < n \<and> n \<le> seq_of (fst st') i" by simp_all
  show ?case
  proof (cases "call = CallNext i \<and> (\<exists>n. r = Inr (AnsSeq n))")
    case False
    then have "handed_out i ((call, r) # tr) = handed_out i tr" by (subst handed_out_cons) simp
    with ih le show ?thesis by auto
  next
    case True
    then obtain n where call: "call = CallNext i" "r = Inr (AnsSeq n)" by blast
    with run_cons.hyps(1) have "NextSequence i ?s = (Inr n, t)" by (auto simp: answer_Inr_iff)
    from NextSequence_success [OF this] have n: "seq_of d i < n" "seq_of (s_db t) i = n"
      by (auto simp: seq_of_def)
    have "seq_of (s_db t) i \<le> seq_of (fst st') i"
      using seq_of_grows conv_run_grows [OF run_cons.hyps(2)] conv_run_inv [OF run_cons.hyps(2)] inv' by simp
    with ih n call show ?thesis by (auto simp: handed_out_cons)
  qed
qed

section \<open>Receipts\<close>

text \<open>The receipt of a user, if the user is a participant.\<close>

definition receipt :: "'b conv_db \<Rightarrow> string \<Rightarrow> string \<rightharpoonup> int" where
  "receipt d i u = map_option m_last_read (find (\<lambda>r. m_conv r = i \<and> m_user r = u) (conversation_participants d))"

lemma receipt_raise:
  "map_option m_last_read (find (\<lambda>r. m_conv r = j \<and> m_user r = v) (map (raise_receipt i u n) ps)) =
     map_option (\<lambda>m. if i = j \<and> u = v then max m n else m)
       (map_option m_last_read (find (\<lambda>r. m_conv r = j \<and> m_user r = v) ps))"
  by (induction ps) (auto simp: raise_receipt_def)

lemma UpdateReadReceipt_success:
  assumes "UpdateReadReceipt dp i u n s = (Inr x, t)"
  shows "receipt (s_db t) j v = map_option (\<lambda>m. if i = j \<and> u = v then max m (clamp_receipt (s_db s) i n) else m)
      (receipt (s_db s) j v)"
    "\<exists>b b' now. enc_event (dp_codec dp) (ReadReceiptUpdatedEvent i u (clamp_receipt (s_db s) i n)) = Inr b
      \<and> enc_env (dp_codec dp) (EventEnvelope EVENT_TYPE_READ_RECEIPT_UPDATED 1 now b) = Inr b'
      \<and> s_db t = sql_insert_outbox now ''message'' i ''READ_RECEIPT_UPDATED'' b'
          ((s_db s)\<lparr>conversation_participants :=
             map (raise_receipt i u (clamp_receipt (s_db s) i n)) (conversation_participants (s_db s))\<rparr>)"
proof -
  from txm.success [OF assms [unfolded UpdateReadReceipt_def]] obtain s1 s2 where
    s1: "s_db s1 = s_db s" "UpdateReadReceipt_tx dp i u n s1 = (Inr x, s2)" "s_db t = s_db s2"
    by (auto simp: committed_def)
  from UpdateReadReceipt_tx_InrD [OF s1(2)] s1
  show ev: "\<exists>b b' now. enc_event (dp_codec dp) (ReadReceiptUpdatedEvent i u (clamp_receipt (s_db s) i n)) = Inr b
      \<and> enc_env (dp_codec dp) (EventEnvelope EVENT_TYPE_READ_RECEIPT_UPDATED 1 now b) = Inr b'
      \<and> s_db t = sql_insert_outbox now ''message'' i ''READ_RECEIPT_UPDATED'' b'
          ((s_db s)\<lparr>conversation_participants :=
             map (raise_receipt i u (clamp_receipt (s_db s) i n)) (conversation_participants (s_db s))\<rparr>)"
    by auto
  then have "conversation_participants (s_db t) =
      map (raise_receipt i u (clamp_receipt (s_db s) i n)) (conversation_participants (s_db s))" by auto
  then show "receipt (s_db t) j v = map_option (\<lambda>m. if i = j \<and> u = v then max m (clamp_receipt (s_db s) i n) else m)
      (receipt (s_db s) j v)"
    unfolding receipt_def by (simp only: receipt_raise)
qed

lemma receipt_bound:
  assumes "conv_inv d" and "receipt d i u = Some m"
  shows "0 \<le> m" and "0 < seq_of d i \<Longrightarrow> m < seq_of d i"
proof -
  from assms(2) obtain r where r: "r \<in> set (conversation_participants d)" "m_conv r = i" "m = m_last_read r"
    by (auto simp: receipt_def dest: find_SomeD)
  with assms(1) show "0 \<le> m" by (simp add: conv_inv_def receipts_ok_def)
  assume "0 < seq_of d i"
  with r assms(1) show "m < seq_of d i"
    by (auto simp: conv_inv_def receipts_ok_def seq_of_def split: option.splits)
qed

section \<open>Listing\<close>

lemma fold_put_scan:
  assumes "distinct (map fst acc)" and "distinct (map m_user (filter (\<lambda>r. m_conv r = i) rows))"
    and "set (map fst acc) \<inter> set (map m_user (filter (\<lambda>r. m_conv r = i) rows)) = {}"
  shows "fold (\<lambda>r m. if m_conv r = i then map_put (m_user r) \<lparr>p_UserID = m_user r, p_Role = m_role r\<rparr> m else m) rows acc
    = acc @ map (\<lambda>r. (m_user r, \<lparr>p_UserID = m_user r, p_Role = m_role r\<rparr>)) (filter (\<lambda>r. m_conv r = i) rows)"
  using assms
proof (induction rows arbitrary: acc)
  case (Cons r rows)
  show ?case
  proof (cases "m_conv r = i")
    case True
    with Cons.prems have "map_of acc (m_user r) = None" by (auto simp: map_of_eq_None_iff)
    then have "map_put (m_user r) \<lparr>p_UserID = m_user r, p_Role = m_role r\<rparr> acc
        = acc @ [(m_user r, \<lparr>p_UserID = m_user r, p_Role = m_role r\<rparr>)]"
      by (induction acc) (auto split: if_splits)
    with True Cons show ?thesis by simp
  next
    case False
    with Cons show ?thesis by simp
  qed
qed simp

lemma filter_user_once:
  assumes "distinct (map (\<lambda>p. (m_conv p, m_user p)) ps)"
  shows "filter (\<lambda>m. m_conv m = i \<and> m_user m = u) ps =
    (case find (\<lambda>m. m_conv m = i \<and> m_user m = u) ps of None \<Rightarrow> [] | Some p \<Rightarrow> [p])"
  using assms
proof (induction ps)
  case (Cons a ps)
  have "filter (\<lambda>m. m_conv m = m_conv a \<and> m_user m = m_user a) ps = []"
    using Cons.prems by (force simp: filter_empty_conv image_iff)
  with Cons show ?case by auto
qed simp

definition member_rows :: "string \<Rightarrow> 'b conv_db \<Rightarrow> conv_row list" where
  "member_rows u d = filter (\<lambda>c. u \<in> fst ` set (scan_participants (r_id c) d)) (conversations d)"

lemma user_conv_rows_eq:
  assumes "conv_inv d"
  shows "user_conv_rows u d = order_updated_desc (member_rows u d)"
proof -
  have dist: "distinct (map (\<lambda>p. (m_conv p, m_user p)) (conversation_participants d))"
    using assms by (simp add: conv_inv_def keys_ok_def)
  have one: "map (\<lambda>_. c) (filter (\<lambda>m. m_conv m = r_id c \<and> m_user m = u) (conversation_participants d)) =
      (if u \<in> fst ` set (scan_participants (r_id c) d) then [c] else [])" for c
    unfolding filter_user_once [OF dist] keys_scan_participants
    by (auto simp: find_None_conv split: option.splits dest: find_SomeD)
  have "concat (map (\<lambda>c. if P c then [c] else []) cs) = filter P cs" for P and cs :: "conv_row list"
    by (induction cs) auto
  then show ?thesis by (simp add: user_conv_rows_def one member_rows_def)
qed

lemma ListConversations_success:
  assumes inv: "conv_inv (s_db s)" and run: "ListConversations u s = (Inr cs, t)"
  shows "cs = map (conv_view (s_db s)) (order_updated_desc (member_rows u (s_db s)))"
proof -
  let ?d = "s_db s"
  let ?rows = "order_updated_desc (member_rows u ?d)"
  let ?p = "\<lambda>m. m_conv m \<in> set (map r_id ?rows)"
  have view: "fill_participants (filter ?p (conversation_participants ?d)) (conv_of_row r) = conv_view ?d r"
    if "r \<in> set ?rows" for r
  proof -
    have ff: "filter (\<lambda>x. m_conv x = r_id r) (filter ?p (conversation_participants ?d)) =
        filter (\<lambda>x. m_conv x = r_id r) (conversation_participants ?d)"
      using that by (auto simp: filter_filter intro!: filter_cong)
    have "distinct (map fst (scan_participants (r_id r) ?d))"
      using inv by (intro distinct_scan_participants) (simp add: conv_inv_def keys_ok_def)
    then have dist: "distinct (map m_user (filter (\<lambda>x. m_conv x = r_id r) (conversation_participants ?d)))"
      by (simp add: scan_participants_def comp_def)
    show ?thesis
      using fold_put_scan [of "[]" "r_id r" "filter ?p (conversation_participants ?d)"] dist
      unfolding ff by (simp add: fill_participants_def conv_view_def conv_of_row_def scan_participants_def)
  qed
  from run obtain rows s1 where q: "query False (user_conv_rows u) s = (Inr rows :: conv_err go_error + _, s1)"
    and k: "(if map r_id rows = [] then ret (map conv_of_row rows)
       else bindE (query False (\<lambda>d. filter (\<lambda>m. m_conv m \<in> set (map r_id rows)) (conversation_participants d)))
              (\<lambda>pRows. ret (map (fill_participants pRows) (map conv_of_row rows)))) s1 = (Inr cs :: conv_err go_error + _, t)"
    unfolding ListConversations_def ListConversationsByUser_def bindE_Inr_iff Let_def by blast
  from query_InrD [OF q] have rows: "rows = ?rows" "s_db s1 = ?d" using user_conv_rows_eq [OF inv] by auto
  show ?thesis
  proof (cases "rows = []")
    case True
    with k rows show ?thesis by simp
  next
    case False
    with k rows have "cs = map (fill_participants (filter ?p (conversation_participants ?d))) (map conv_of_row ?rows)"
      by (auto simp: bindE_Inr_iff dest!: query_InrD)
    with view show ?thesis by simp
  qed
qed

end
