(* ===== verification/Grpc.thy ===== *)
theory Grpc
  imports SqlTx
begin

text \<open>
  What the gRPC servers of the services share: the context with the caller's identity, the errors of
  the handlers. \<open>status.FromError\<close> of the gRPC library is the parameter \<open>is_status\<close>; \<open>status_ok\<close> is its
  documented behaviour, that it recognises a status error also when it is wrapped.
\<close>

definition status_ok :: "('e go_error \<Rightarrow> bool) \<Rightarrow> bool" where
  "status_ok is_status \<longleftrightarrow> (\<forall>e. is_status e = wraps_status e)"

definition errors_Is_any :: "'e go_error \<Rightarrow> 'e list \<Rightarrow> bool" where
  "errors_Is_any err ds = (\<exists>d \<in> set ds. errors_Is err d)"

fun sentinel :: "'e go_error \<Rightarrow> 'e option" where
  "sentinel (Domain d) = Some d"
| "sentinel (Plain t) = None"
| "sentinel (Wrapf p err) = sentinel err"
| "sentinel (Status c m) = None"

lemma errors_Is_sentinel: "errors_Is err d \<longleftrightarrow> sentinel err = Some d"
  by (induction err d rule: errors_Is.induct) auto

section \<open>Identity\<close>

record grpc_ctx =
  cx_user :: "string option"     \<comment> \<open>the value under \<open>UserIDKey\<close>\<close>
  cx_request :: "string option"  \<comment> \<open>the value under \<open>RequestIDKey\<close>\<close>

definition no_ctx :: grpc_ctx where
  "no_ctx = \<lparr>cx_user = None, cx_request = None\<rparr>"

abbreviation HeaderUserID :: string where "HeaderUserID \<equiv> ''x-user-id''"
abbreviation HeaderRequestID :: string where "HeaderRequestID \<equiv> ''x-request-id''"

definition GetUserID :: "grpc_ctx \<Rightarrow> string + string" where
  "GetUserID ctx = (case cx_user ctx of None \<Rightarrow> Inl ''user id not found in context'' | Some uid \<Rightarrow> Inr uid)"

text \<open>The user that the interceptor finds in the metadata.\<close>

definition header_user :: "(string \<Rightarrow> string list) option \<Rightarrow> string option" where
  "header_user md =
     (case md of None \<Rightarrow> None
      | Some get \<Rightarrow> (case get HeaderUserID of [] \<Rightarrow> None | uid # _ \<Rightarrow> if uid = [] then None else Some uid))"

section \<open>Handlers\<close>

definition with_user :: "grpc_ctx \<Rightarrow> (string \<Rightarrow> ('d, 'w, 'e, 'a) prog) \<Rightarrow> ('d, 'w, 'e, 'a) prog" where
  "with_user ctx k =
     (case GetUserID ctx of Inl t \<Rightarrow> throw (Status Unauthenticated t) | Inr userID \<Rightarrow> k userID)"

definition mapping_errors ::
  "('e go_error \<Rightarrow> 'e go_error) \<Rightarrow> ('d, 'w, 'e, 'a) prog \<Rightarrow> ('d, 'w, 'e, 'a) prog" where
  "mapping_errors f m = attempt m (\<lambda>r. case r of Inl err \<Rightarrow> throw (f err) | Inr a \<Rightarrow> ret a)"

lemma bindE_ret_snd: "snd (bindE m (\<lambda>a. ret (f a)) s) = snd (m s)"
  by (cases "m s"; cases "fst (m s)") (auto simp: bindE_def attempt_def)

lemma mapping_errors_snd: "snd (mapping_errors f m s) = snd (m s)"
  by (cases "m s"; cases "fst (m s)") (auto simp: mapping_errors_def attempt_def)

lemmas serve_snd = bindE_ret_snd mapping_errors_snd

lemma with_user_cases:
  "(\<exists>e. with_user ctx k s = (Inl e, s)) \<or> (\<exists>u. cx_user ctx = Some u \<and> with_user ctx k s = k u s)"
  by (cases "cx_user ctx") (auto simp: with_user_def GetUserID_def)

end
