(* ===== verification/ConvGrpc.thy ===== *)
theory ConvGrpc
  imports ConvMembers Grpc
begin

text \<open>
  \<^verbatim>\<open>services/conversation/internal/transport/grpc\<close> and \<^verbatim>\<open>internal/auth\<close>: the interceptor that reads the
  caller's identity from the metadata, the error mapper and the handlers, put together as the server
  does.
\<close>

definition MapError :: "(conv_err go_error \<Rightarrow> bool) \<Rightarrow> conv_err go_error \<Rightarrow> conv_err go_error" where
  "MapError is_status err =
     (if is_status err then err
      else if errors_Is_any err [ErrConversationNotFound, ErrMessageNotFound]
      then Status NotFound (err_text conv_err_text err)
      else if errors_Is_any err [ErrNotParticipant, ErrNotAdmin]
      then Status PermissionDenied (err_text conv_err_text err)
      else if errors_Is_any err [ErrInvalidMessage, ErrInvalidSequence, ErrMessageTooLarge, ErrInvalidInput]
      then Status InvalidArgument (err_text conv_err_text err)
      else if errors_Is_any err [ErrDirectModification, ErrLastAdmin]
      then Status FailedPrecondition (err_text conv_err_text err)
      else Status Internal ''internal server error'')"

section \<open>Identity\<close>

definition exempt_method :: "string \<Rightarrow> bool" where
  "exempt_method m \<longleftrightarrow>
     m = ''/realchat.conversation.v1.ConversationApi/GetConversation''
     \<or> m = ''/realchat.conversation.v1.ConversationApi/NextSequence''"

text \<open>\<open>md\<close> is \<open>md.Get\<close> of the incoming metadata, \<open>None\<close> when there is none.\<close>

definition Interceptor ::
  "(string \<Rightarrow> string list) option \<Rightarrow> string \<Rightarrow> (grpc_ctx \<Rightarrow> ('d, 'w, 'e, 'a) prog) \<Rightarrow> ('d, 'w, 'e, 'a) prog" where
  "Interceptor md fullMethod handler =
     (case md of
        None \<Rightarrow>
          if exempt_method fullMethod then handler no_ctx
          else throw (Status Unauthenticated ''metadata is not provided'')
      | Some get \<Rightarrow>
          (case get HeaderUserID of
             [] \<Rightarrow>
               if exempt_method fullMethod then handler no_ctx
               else throw (Status Unauthenticated ''x-user-id header is missing'')
           | uid # _ \<Rightarrow>
               if uid = []
               then (if exempt_method fullMethod then handler no_ctx
                     else throw (Status Unauthenticated ''x-user-id header is missing''))
               else
                 let newCtx = no_ctx\<lparr>cx_user := Some uid\<rparr> in
                 handler (case get HeaderRequestID of
                            [] \<Rightarrow> newCtx
                          | rid # _ \<Rightarrow> if rid = [] then newCtx else newCtx\<lparr>cx_request := Some rid\<rparr>)))"

section \<open>Conversions\<close>

fun domainTypeToProto :: "ConversationType \<Rightarrow> pb_conv_type" where
  "domainTypeToProto ConversationDirect = DIRECT"
| "domainTypeToProto ConversationGroup = GROUP"
| "domainTypeToProto (OtherConversationType t) = CONVERSATION_TYPE_UNSPECIFIED"

fun protoTypeToDomain :: "pb_conv_type \<Rightarrow> conv_err go_error + ConversationType" where
  "protoTypeToDomain DIRECT = Inr ConversationDirect"
| "protoTypeToDomain GROUP = Inr ConversationGroup"
| "protoTypeToDomain _ =
     Inl (Status InvalidArgument ''invalid conversation type: must be DIRECT or GROUP'')"

fun domainRoleToProto :: "Role \<Rightarrow> pb_role" where
  "domainRoleToProto RoleAdmin = ADMIN"
| "domainRoleToProto RoleMember = MEMBER"
| "domainRoleToProto (OtherRole t) = PARTICIPANT_ROLE_UNSPECIFIED"

definition toProtoConversation :: "Conversation \<Rightarrow> pb_conversation" where
  "toProtoConversation conv =
     \<lparr>pc_ConversationId = c_ID conv, pc_DisplayName = c_DisplayName conv, pc_AvatarUrl = c_AvatarURL conv,
      pc_CreatedAt = c_CreatedAt conv, pc_Type = domainTypeToProto (c_Type conv),
      pc_ParticipantUserIds = map fst (c_Participants conv),
      pc_ParticipantsWithRoles =
        map (\<lambda>(uid, p). \<lparr>pp_UserId = uid, pp_Role = domainRoleToProto (p_Role p)\<rparr>) (c_Participants conv)\<rparr>"

section \<open>Handlers\<close>

abbreviation errActorMismatch :: string where "errActorMismatch \<equiv> ''actor id mismatch''"
abbreviation errUserIDMismatch :: string where "errUserIDMismatch \<equiv> ''user id mismatch''"

datatype conv_request =
    CreateConversationRequest string pb_conv_type string string "string list"
  | ListConversationsRequest string
  | GetConversationRequest string
  | AddParticipantRequest string string string       \<comment> \<open>conversation, actor, target\<close>
  | RemoveParticipantRequest string string string
  | UpdateReadReceiptRequest string string int
  | NextSequenceRequest string

datatype conv_response =
    CreateConversationResponse pb_conversation
  | ListConversationsResponse "pb_conversation list"
  | GetConversationResponse pb_get_conversation_response
  | EmptyResponse
  | NextSequenceResponse int

definition rpc_CreateConversation where
  "rpc_CreateConversation is_status dp idFirst ctx convID ty name avatar participants =
     with_user ctx (\<lambda>userID.
       if participants \<noteq> [] \<and> hd participants \<noteq> userID
       then throw (Status PermissionDenied errUserIDMismatch)
       else (case protoTypeToDomain ty of
         Inl err \<Rightarrow> throw err
       | Inr convType \<Rightarrow>
           bindE (mapping_errors (MapError is_status)
                    (CreateConversation dp idFirst
                       \<lparr>cc_ID = convID, cc_Type = convType, cc_Name = name, cc_AvatarURL = avatar,
                        cc_Participants = participants\<rparr>))
             (\<lambda>conv. ret (CreateConversationResponse (toProtoConversation conv)))))"

definition rpc_ListConversations where
  "rpc_ListConversations is_status ctx reqUser =
     with_user ctx (\<lambda>userID.
       if reqUser \<noteq> userID then throw (Status PermissionDenied errUserIDMismatch)
       else bindE (mapping_errors (MapError is_status) (ListConversations userID))
              (\<lambda>conversations. ret (ListConversationsResponse (map toProtoConversation conversations))))"

definition rpc_GetConversation where
  "rpc_GetConversation is_status dp convID =
     bindE (mapping_errors (MapError is_status) (GetConversation dp convID)) (\<lambda>conv.
       let pbConv = toProtoConversation conv in
       ret (GetConversationResponse
         \<lparr>gr_Conversation = pbConv, gr_ParticipantUserIds = pc_ParticipantUserIds pbConv\<rparr>))"

definition rpc_AddParticipant where
  "rpc_AddParticipant is_status dp ctx convID actor target =
     with_user ctx (\<lambda>userID.
       if actor \<noteq> userID then throw (Status PermissionDenied errActorMismatch)
       else bindE (mapping_errors (MapError is_status)
                     (AddParticipant dp \<lparr>ap_ConversationID = convID, ap_ActorID = actor, ap_TargetID = target\<rparr>))
              (\<lambda>_. ret EmptyResponse))"

definition rpc_RemoveParticipant where
  "rpc_RemoveParticipant is_status dp ctx convID actor target =
     with_user ctx (\<lambda>userID.
       if actor \<noteq> userID then throw (Status PermissionDenied errActorMismatch)
       else bindE (mapping_errors (MapError is_status)
                     (RemoveParticipant dp \<lparr>rp_ConversationID = convID, rp_ActorID = actor, rp_TargetID = target\<rparr>))
              (\<lambda>_. ret EmptyResponse))"

definition rpc_UpdateReadReceipt where
  "rpc_UpdateReadReceipt is_status dp ctx convID user readSequence =
     with_user ctx (\<lambda>userID.
       if user \<noteq> userID then throw (Status PermissionDenied errUserIDMismatch)
       else bindE (mapping_errors (MapError is_status) (UpdateReadReceipt dp convID user readSequence))
              (\<lambda>_. ret EmptyResponse))"

definition rpc_NextSequence where
  "rpc_NextSequence is_status convID =
     (if convID = [] then throw (Status InvalidArgument ''conversation_id is required'')
      else bindE (mapping_errors (MapError is_status) (NextSequence convID))
             (\<lambda>seq. ret (NextSequenceResponse seq)))"

fun rpc_method :: "conv_request \<Rightarrow> string" where
  "rpc_method (CreateConversationRequest _ _ _ _ _) = ''/realchat.conversation.v1.ConversationApi/CreateConversation''"
| "rpc_method (ListConversationsRequest _) = ''/realchat.conversation.v1.ConversationApi/ListConversations''"
| "rpc_method (GetConversationRequest _) = ''/realchat.conversation.v1.ConversationApi/GetConversation''"
| "rpc_method (AddParticipantRequest _ _ _) = ''/realchat.conversation.v1.ConversationApi/AddParticipant''"
| "rpc_method (RemoveParticipantRequest _ _ _) = ''/realchat.conversation.v1.ConversationApi/RemoveParticipant''"
| "rpc_method (UpdateReadReceiptRequest _ _ _) = ''/realchat.conversation.v1.ConversationApi/UpdateReadReceipt''"
| "rpc_method (NextSequenceRequest _) = ''/realchat.conversation.v1.ConversationApi/NextSequence''"

fun rpc_handler ::
  "(conv_err go_error \<Rightarrow> bool) \<Rightarrow> ('w, 'b) conv_deps \<Rightarrow> bool \<Rightarrow> conv_request \<Rightarrow> grpc_ctx
    \<Rightarrow> ('w, 'b, conv_response) conv_prog" where
  "rpc_handler is_status dp idFirst (CreateConversationRequest i ty n a ps) ctx =
     rpc_CreateConversation is_status dp idFirst ctx i ty n a ps"
| "rpc_handler is_status dp idFirst (ListConversationsRequest u) ctx = rpc_ListConversations is_status ctx u"
| "rpc_handler is_status dp idFirst (GetConversationRequest i) ctx = rpc_GetConversation is_status dp i"
| "rpc_handler is_status dp idFirst (AddParticipantRequest i a u) ctx = rpc_AddParticipant is_status dp ctx i a u"
| "rpc_handler is_status dp idFirst (RemoveParticipantRequest i a u) ctx = rpc_RemoveParticipant is_status dp ctx i a u"
| "rpc_handler is_status dp idFirst (UpdateReadReceiptRequest i u n) ctx = rpc_UpdateReadReceipt is_status dp ctx i u n"
| "rpc_handler is_status dp idFirst (NextSequenceRequest i) ctx = rpc_NextSequence is_status i"

text \<open>A unary call as the server runs it.\<close>

definition conv_serve ::
  "(conv_err go_error \<Rightarrow> bool) \<Rightarrow> ('w, 'b) conv_deps \<Rightarrow> bool \<Rightarrow> (string \<Rightarrow> string list) option \<Rightarrow> conv_request
    \<Rightarrow> ('w, 'b, conv_response) conv_prog" where
  "conv_serve is_status dp idFirst md req =
     Interceptor md (rpc_method req) (rpc_handler is_status dp idFirst req)"

section \<open>The error mapper as a table\<close>

fun conv_code :: "conv_err \<Rightarrow> code" where
  "conv_code ErrConversationNotFound = NotFound"
| "conv_code ErrMessageNotFound = NotFound"
| "conv_code ErrNotParticipant = PermissionDenied"
| "conv_code ErrNotAdmin = PermissionDenied"
| "conv_code ErrInvalidMessage = InvalidArgument"
| "conv_code ErrInvalidSequence = InvalidArgument"
| "conv_code ErrMessageTooLarge = InvalidArgument"
| "conv_code ErrInvalidInput = InvalidArgument"
| "conv_code ErrDirectModification = FailedPrecondition"
| "conv_code ErrLastAdmin = FailedPrecondition"

lemma MapError_table:
  assumes "\<not> is_status err"
  shows "MapError is_status err =
    (case sentinel err of
       None \<Rightarrow> Status Internal ''internal server error''
     | Some d \<Rightarrow> Status (conv_code d) (err_text conv_err_text err))"
proof (cases "sentinel err")
  case None
  with assms show ?thesis by (simp add: MapError_def errors_Is_any_def errors_Is_sentinel)
next
  case (Some d)
  with assms show ?thesis by (cases d) (simp_all add: MapError_def errors_Is_any_def errors_Is_sentinel)
qed

section \<open>Who may do what\<close>

lemma Interceptor_cases:
  "(\<exists>e. Interceptor md m h s = (Inl (Status Unauthenticated e), s)) \<and> header_user md = None \<and> \<not> exempt_method m
   \<or> (\<exists>ctx. Interceptor md m h s = h ctx s \<and> cx_user ctx = header_user md \<and> (header_user md \<noteq> None \<or> exempt_method m))"
proof (cases md)
  case None
  then show ?thesis
    by (cases "exempt_method m") (auto simp: Interceptor_def header_user_def no_ctx_def)
next
  case (Some get)
  show ?thesis
  proof (cases "get HeaderUserID")
    case Nil
    with Some show ?thesis
      by (cases "exempt_method m") (auto simp: Interceptor_def header_user_def no_ctx_def)
  next
    case (Cons uid us)
    with Some show ?thesis
      by (cases "exempt_method m"; cases "uid = []")
        (auto simp: Interceptor_def header_user_def no_ctx_def Let_def split: list.splits)
  qed
qed

text \<open>
  A handler either refuses, leaving everything as it was, or makes the one call of the application
  that belongs to the request, on behalf of the user in the context.
\<close>

fun call_of :: "bool \<Rightarrow> conv_request \<Rightarrow> conv_call \<Rightarrow> bool" where
  "call_of idFirst (CreateConversationRequest i ty n a ps) call =
     (\<exists>cmd. call = CallCreate idFirst cmd \<and> cc_ID cmd = i \<and> cc_Participants cmd = ps)"
| "call_of idFirst (ListConversationsRequest u) call = (call = CallList u)"
| "call_of idFirst (GetConversationRequest i) call = (call = CallGet i)"
| "call_of idFirst (AddParticipantRequest i a u) call =
     (call = CallAdd \<lparr>ap_ConversationID = i, ap_ActorID = a, ap_TargetID = u\<rparr>)"
| "call_of idFirst (RemoveParticipantRequest i a u) call =
     (call = CallRemove \<lparr>rp_ConversationID = i, rp_ActorID = a, rp_TargetID = u\<rparr>)"
| "call_of idFirst (UpdateReadReceiptRequest i u n) call = (call = CallReceipt i u n)"
| "call_of idFirst (NextSequenceRequest i) call = (call = CallNext i)"

text \<open>The user on whose behalf a request acts, if the handler insists on one.\<close>

fun acting_user :: "conv_request \<Rightarrow> string option" where
  "acting_user (CreateConversationRequest i ty n a ps) = (case ps of [] \<Rightarrow> None | p # _ \<Rightarrow> Some p)"
| "acting_user (ListConversationsRequest u) = Some u"
| "acting_user (AddParticipantRequest i a u) = Some a"
| "acting_user (RemoveParticipantRequest i a u) = Some a"
| "acting_user (UpdateReadReceiptRequest i u n) = Some u"
| "acting_user (GetConversationRequest i) = None"
| "acting_user (NextSequenceRequest i) = None"

lemma rpc_handler_cases:
  "(\<exists>e. rpc_handler is_status dp idFirst req ctx s = (Inl e, s))
   \<or> (\<exists>call. call_of idFirst req call
        \<and> snd (rpc_handler is_status dp idFirst req ctx s) = snd (conv_exec dp wk p call s)
        \<and> (acting_user req \<noteq> None \<longrightarrow> cx_user ctx = acting_user req))"
proof (cases req)
  case (CreateConversationRequest i ty n a ps)
  consider (refused) e where "rpc_CreateConversation is_status dp idFirst ctx i ty n a ps s = (Inl e, s)"
    | (called) u convType where "cx_user ctx = Some u" "ps = [] \<or> hd ps = u" "protoTypeToDomain ty = Inr convType"
    by (cases "cx_user ctx"; cases "protoTypeToDomain ty"; cases "ps = []"; cases "Some (hd ps) = cx_user ctx")
      (auto simp: rpc_CreateConversation_def with_user_def GetUserID_def)
  then show ?thesis
  proof cases
    case refused
    with CreateConversationRequest show ?thesis by auto
  next
    case called
    with CreateConversationRequest show ?thesis
      by (intro disjI2 exI [of _ "CallCreate idFirst \<lparr>cc_ID = i, cc_Type = convType, cc_Name = n,
          cc_AvatarURL = a, cc_Participants = ps\<rparr>"])
        (auto simp: rpc_CreateConversation_def with_user_def GetUserID_def serve_snd split: list.splits)
  qed
next
  case (ListConversationsRequest u)
  then show ?thesis by (cases "cx_user ctx") (auto simp: rpc_ListConversations_def with_user_def GetUserID_def serve_snd)
next
  case (GetConversationRequest i)
  then show ?thesis by (auto simp: rpc_GetConversation_def Let_def serve_snd)
next
  case (AddParticipantRequest i a u)
  then show ?thesis by (cases "cx_user ctx") (auto simp: rpc_AddParticipant_def with_user_def GetUserID_def serve_snd)
next
  case (RemoveParticipantRequest i a u)
  then show ?thesis by (cases "cx_user ctx") (auto simp: rpc_RemoveParticipant_def with_user_def GetUserID_def serve_snd)
next
  case (UpdateReadReceiptRequest i u n)
  then show ?thesis by (cases "cx_user ctx") (auto simp: rpc_UpdateReadReceipt_def with_user_def GetUserID_def serve_snd)
next
  case (NextSequenceRequest i)
  then show ?thesis by (auto simp: rpc_NextSequence_def serve_snd)
qed

lemma conv_serve_cases:
  "(\<exists>e. conv_serve is_status dp idFirst md req s = (Inl e, s))
   \<or> (\<exists>call. call_of idFirst req call
        \<and> snd (conv_serve is_status dp idFirst md req s) = snd (conv_exec dp wk p call s)
        \<and> (acting_user req \<noteq> None \<longrightarrow> header_user md = acting_user req))"
proof -
  from Interceptor_cases [of md "rpc_method req" "rpc_handler is_status dp idFirst req" s]
  consider (refused) e where "conv_serve is_status dp idFirst md req s = (Inl e, s)"
    | (passed) ctx where "conv_serve is_status dp idFirst md req s = rpc_handler is_status dp idFirst req ctx s"
        "cx_user ctx = header_user md"
    unfolding conv_serve_def by blast
  then show ?thesis
  proof cases
    case refused
    then show ?thesis by blast
  next
    case passed
    with rpc_handler_cases [of is_status dp idFirst req ctx s wk p] show ?thesis by simp
  qed
qed

end
