(* ===== verification/ConvProps.thy ===== *)
theory ConvProps
  imports ConvLog ConvCreate ConvSeq ConvGrpc
begin

text \<open>
  The properties of the conversation service, each with a run of the model where it has hypotheses.
\<close>

section \<open>A concrete deployment\<close>

text \<open>
  No cache, the codec that carries messages as they are, a broker that appends to its log and
  acknowledges; its log is the world.
\<close>

definition demo_deps :: "(wire kafka_msg list, wire) conv_deps" where
  "demo_deps = \<lparr>dp_cache = None, dp_json_enc = (\<lambda>_. Inl []), dp_json_dec = (\<lambda>_. Inl []), dp_codec = wire_codec\<rparr>"

definition demo_worker :: conv_worker where
  "demo_worker = \<lparr>cw_BatchSize = 10, cw_MaxRetries = 0\<rparr>"

definition demo_producer :: "('b kafka_msg list, 'b) producer" where
  "demo_producer = \<lparr>kp_topic = ''messages'', kp_inject = [], kp_produce = (\<lambda>m w. (Delivery None, w @ [m]))\<rparr>"

definition demo_group :: CreateConversationCommand where
  "demo_group = \<lparr>cc_ID = ''g'', cc_Type = ConversationGroup, cc_Name = ''team'', cc_AvatarURL = [],
     cc_Participants = [''ann'', ''bob'']\<rparr>"

definition demo_direct :: CreateConversationCommand where
  "demo_direct = \<lparr>cc_ID = ''d'', cc_Type = ConversationDirect, cc_Name = [], cc_AvatarURL = [],
     cc_Participants = [''bob'', ''ann'']\<rparr>"

definition demo_add :: AddParticipantCommand where
  "demo_add = \<lparr>ap_ConversationID = ''g'', ap_ActorID = ''ann'', ap_TargetID = ''cid''\<rparr>"

definition demo_remove :: RemoveParticipantCommand where
  "demo_remove = \<lparr>rp_ConversationID = ''g'', rp_ActorID = ''ann'', rp_TargetID = ''bob''\<rparr>"

text \<open>
  A run with a serialization failure that is retried, a poll, receipts and a commit whose answer is lost.
\<close>

definition demo_calls :: "(conv_call \<times> outcome list \<times> int) list" where
  "demo_calls = [
     (CallCreate True demo_group, [], 1),
     (CallCreate False demo_direct, [], 2),
     (CallAdd demo_add, [Proceed, Fails ''pq: could not serialize access''], 3),
     (CallPoll, [], 4),
     (CallNext ''g'', [], 5),
     (CallNext ''g'', [Proceed, Proceed, Lost], 6),
     (CallNext ''g'', [], 7),
     (CallReceipt ''g'' ''bob'' 3, [], 8),
     (CallRemove demo_remove, [], 9)]"

definition demo_end :: "(conv_call \<times> conv_result) list \<times> (wire conv_db \<times> wire kafka_msg list)" where
  "demo_end = run_calls demo_deps demo_worker demo_producer demo_calls (empty_conv_db, [])"

lemma demo_run:
  "conv_run demo_deps demo_worker demo_producer (empty_conv_db, []) (fst demo_end) (fst (snd demo_end), snd (snd demo_end))"
  by (rule run_calls_run) (simp add: demo_end_def)

lemma demo_shape:
  "map r_id (conversations (fst (snd demo_end))) = [''g'', ''d''] \<and> length (outbox_events (fst (snd demo_end))) = 5
    \<and> length (snd (snd demo_end)) = 3"
  by code_simp

lemma demo_producer_ok: "broker_ok (\<lambda>w. w) demo_producer"
  by (simp add: broker_ok_def demo_producer_def)

lemma demo_cache_quiet: "cache_quiet klog demo_deps"
  by (simp add: cache_quiet_def demo_deps_def)


section \<open>The tables\<close>

text \<open>C6: In every state that the conversation service reaches from empty tables, whatever calls it serves,
  whatever the outbox worker does and whatever failures the database reports (failed and lost
  statements and commits, retried serialization conflicts), the tables satisfy \<open>conv_inv\<close>: the keys
  are unique and refer to existing conversations, every conversation has its sequence, a direct
  conversation has exactly two participants and the lookup key made of them, a group has an admin,
  lookup keys are unique, receipts lie below the sequence, and outbox ids are never reused.\<close>

theorem conv_tables_invariant:
  assumes "conv_run dp wk p (empty_conv_db, w0) tr (d, w)"
  shows "conv_inv d"
  using assms by (rule conv_reach_inv)

theorem conv_tables_invariant_witness:
  "conv_inv (fst (snd demo_end)) \<and> length (conversations (fst (snd demo_end))) = 2"
  using conv_tables_invariant [OF demo_run] demo_shape by (metis length_Cons list.size(3) length_map numeral_2_eq_2)

text \<open>Once recorded, nothing is lost or rewritten: between any two states of a run the conversation rows are
  only extended, no sequence goes down, and every event that was recorded is still there, in the
  outbox or in the dead letter table.\<close>

theorem conv_history_grows:
  assumes "conv_run dp wk p (empty_conv_db, w0) tr1 (d1, w1)"
    and "conv_run dp wk p (d1, w1) tr2 (d2, w2)"
  shows "prefix (conversations d1) (conversations d2)
    \<and> (\<forall>i n. map_of (conversation_sequences d1) i = Some n \<longrightarrow>
         (\<exists>n'. map_of (conversation_sequences d2) i = Some n' \<and> n \<le> n'))
    \<and> events_of d1 \<subseteq> events_of d2"
  using conv_run_grows [OF assms(2)] conv_reach_inv [OF assms(1)] by (simp add: grows_def)

theorem conv_history_grows_witness:
  "prefix (conversations (empty_conv_db :: wire conv_db)) (conversations (fst (snd demo_end)))"
  using conv_history_grows [OF run_nil demo_run] by blast

text \<open>C29: At most one direct conversation exists between two users: in every reachable state at most one row
  is a direct conversation whose participants are exactly these two.\<close>

theorem direct_conversation_unique:
  assumes "conv_run dp wk p (empty_conv_db, w0) tr (d, w)"
  shows "length (directs_between u v d) \<le> 1"
  using conv_reach_inv [OF assms] by (rule directs_between_unique)

theorem direct_conversation_unique_witness:
  "length (directs_between ''ann'' ''bob'' (fst (snd demo_end))) \<le> 1
    \<and> directs_between ''ann'' ''bob'' (fst (snd demo_end)) \<noteq> []"
proof
  show "length (directs_between ''ann'' ''bob'' (fst (snd demo_end))) \<le> 1"
    by (rule direct_conversation_unique [OF demo_run])
  show "directs_between ''ann'' ''bob'' (fst (snd demo_end)) \<noteq> []" by code_simp
qed

text \<open>C36: The lookup key of a direct conversation does not depend on the order of its participants, and for user
  ids without a colon two creations get the same key exactly when they name the same two users.\<close>

theorem lookup_key_identifies_pair:
  assumes "cc_Type c1 = ConversationDirect" "cc_Participants c1 = [p1, q1]"
    and "cc_Type c2 = ConversationDirect" "cc_Participants c2 = [p2, q2]"
    and "CHR '':'' \<notin> set p1 \<union> set q1 \<union> set p2 \<union> set q2"
  shows "getLookupKey c1 = getLookupKey c2 \<longleftrightarrow> {p1, q1} = {p2, q2}"
proof -
  have "getLookupKey c1 = getLookupKey c2 \<longleftrightarrow> direct_key p1 q1 = direct_key p2 q2"
    using getLookupKey_direct assms(1-4) by simp
  also have "\<dots> \<longleftrightarrow> {p1, q1} = {p2, q2}" using assms(5) by (intro direct_key_eq_iff) auto
  finally show ?thesis .
qed

theorem lookup_key_identifies_pair_witness:
  "getLookupKey demo_direct = getLookupKey (demo_direct\<lparr>cc_Participants := [''ann'', ''bob'']\<rparr>)"
proof -
  have "{''bob'', ''ann''} = {''ann'', ''bob''}" by auto
  with lookup_key_identifies_pair [of demo_direct "''bob''" "''ann''"
      "demo_direct\<lparr>cc_Participants := [''ann'', ''bob'']\<rparr>" "''ann''" "''bob''"]
  show ?thesis by (simp add: demo_direct_def)
qed

section \<open>Transactions\<close>

text \<open>C30: A transaction is all or nothing: \<open>WithTx\<close> returns the result of one run of the callback that started from the
  caller's tables and whose effect is exactly what is kept; or it returns an error and the tables are
  as before; only when the connection is lost during the commit it returns an error although the
  effect of one successful run was kept.\<close>

theorem WithTx_all_or_nothing:
  assumes "WithTx etxt fn s = (r, t)"
  shows "(\<exists>a. r = Inr a \<and> committed fn s a t)
    \<or> (r = Inl (Plain err_bad_conn) \<and> (\<exists>a. committed fn s a t))
    \<or> (\<exists>e. r = Inl e \<and> s_db t = s_db s)"
  using txm.withtx_result [OF assms] .

definition demo_session :: "(wire conv_db, wire kafka_msg list) sess" where
  "demo_session = session (fst (snd demo_end)) [] [Proceed, Fails ''could not serialize''] 10"

theorem WithTx_all_or_nothing_witness:
  "(\<exists>a. fst (NextSequence ''g'' demo_session) = Inr a
      \<and> committed (wrap_err (''failed to increment sequence for conversation g'') (repo_NextSequence True ''g''))
          demo_session a (snd (NextSequence ''g'' demo_session)))"
proof -
  have "fst (NextSequence ''g'' demo_session) = Inr 4" by code_simp
  with WithTx_all_or_nothing [of conv_err_text "wrap_err (''failed to increment sequence for conversation g'')
      (repo_NextSequence True ''g'')" demo_session "fst (NextSequence ''g'' demo_session)"
      "snd (NextSequence ''g'' demo_session)"]
  show ?thesis by (auto simp: NextSequence_def)
qed

text \<open>Retries are bounded: the callback runs at most five times, so what one run can add to the world outside
  the database (counted by any measure) happens at most five times.\<close>

theorem WithTx_runs_bounded:
  fixes \<mu> :: "'w \<Rightarrow> nat" and fn :: "('d, 'w, 'e, 'a) prog"
  assumes "\<And>s1. \<mu> (s_world (snd (fn s1))) \<le> \<mu> (s_world s1) + k"
  shows "\<mu> (s_world (snd (WithTx etxt fn s))) \<le> \<mu> (s_world s) + 5 * k"
  using WithTx_loop_world_bound [of \<mu> fn k etxt maxRetries s, OF assms] by (simp add: WithTx_def maxRetries_def)

definition count_run :: "(unit, nat, conv_err, unit) prog" where
  "count_run = attempt (on_world (\<lambda>n. (Inr (), n + 1))) (\<lambda>_. throw (Plain ''could not serialize''))"

theorem WithTx_runs_bounded_witness:
  "s_world (snd (WithTx conv_err_text count_run (session () 0 [] 0))) \<le> 5
    \<and> 5 \<le> s_world (snd (WithTx conv_err_text count_run (session () 0 [] 0)))"
proof
  show "s_world (snd (WithTx conv_err_text count_run (session () 0 [] 0))) \<le> 5"
    using WithTx_runs_bounded [of "\<lambda>n. n" count_run 1 conv_err_text "session () 0 [] 0"]
    by (simp add: count_run_def on_world_def attempt_def)
  show "5 \<le> s_world (snd (WithTx conv_err_text count_run (session () 0 [] 0)))" by code_simp
qed

section \<open>Membership\<close>

text \<open>A call of \<open>AddParticipant\<close> that succeeds refines the aggregate's method: the actor was an admin of
  a group; a target that was already a member changes nothing; otherwise the conversation in the tables becomes
  the aggregate that \<open>Conversation.AddParticipant\<close> computes, every other conversation stays as it was, and
  exactly one outbox event, the one that announces this change, is recorded with it.\<close>

theorem AddParticipant_refines:
  assumes "AddParticipant dp cmd s = (Inr u, t)"
  shows "\<exists>c. abs_conv (s_db s) (ap_ConversationID cmd) = Some c
    \<and> c_Type c = ConversationGroup \<and> is_admin c (ap_ActorID cmd)
    \<and> (if map_of (c_Participants c) (ap_TargetID cmd) \<noteq> None then s_db t = s_db s
       else (\<exists>c'. domain_AddParticipant c (ap_ActorID cmd) (ap_TargetID cmd) = Inr c'
               \<and> abs_conv (s_db t) (ap_ConversationID cmd) = Some c')
         \<and> (\<forall>j. j \<noteq> ap_ConversationID cmd \<longrightarrow> abs_conv (s_db t) j = abs_conv (s_db s) j)
         \<and> membership_event (dp_codec dp) (ap_ConversationID cmd) (ap_TargetID cmd) True (s_db s) (s_db t))"
  using AddParticipant_success [OF assms] unfolding add_effect_def .

definition demo_before_add :: "(wire conv_db, wire kafka_msg list) sess" where
  "demo_before_add = session (fst (snd (run_calls demo_deps demo_worker demo_producer (take 2 demo_calls) (empty_conv_db, [])))) [] [] 3"

theorem AddParticipant_refines_witness:
  "\<exists>c'. abs_conv (s_db (snd (AddParticipant demo_deps demo_add demo_before_add))) ''g'' = Some c'
    \<and> map fst (c_Participants c') = [''ann'', ''bob'', ''cid'']"
proof -
  let ?r = "AddParticipant demo_deps demo_add demo_before_add"
  have ok: "fst ?r = Inr ()" by code_simp
  have before: "map_option (\<lambda>c. (map fst (c_Participants c), c_Type c, is_admin c ''ann'', map_of (c_Participants c) ''cid''))
      (abs_conv (s_db demo_before_add) ''g'') = Some ([''ann'', ''bob''], ConversationGroup, True, None)" by code_simp
  from AddParticipant_refines [of demo_deps demo_add demo_before_add "()" "snd ?r"] ok
  obtain c where c: "abs_conv (s_db demo_before_add) ''g'' = Some c"
    and k: "map_of (c_Participants c) ''cid'' = None \<Longrightarrow>
      (\<exists>c'. domain_AddParticipant c ''ann'' ''cid'' = Inr c' \<and> abs_conv (s_db (snd ?r)) ''g'' = Some c')"
    by (auto simp: demo_add_def prod_eq_iff split: if_splits)
  from before c have m: "map fst (c_Participants c) = [''ann'', ''bob'']" "c_Type c = ConversationGroup" "is_admin c ''ann''"
    and none: "map_of (c_Participants c) ''cid'' = None"
    by auto
  from k [OF none] m none show ?thesis by (auto simp: domain_AddParticipant_def map_put_fresh)
qed

text \<open>C19: A call of \<open>RemoveParticipant\<close> that succeeds refines the aggregate's method and never removes the last admin:
  the actor was an admin of a group; a target that is not a member changes nothing; otherwise, if the target
  was an admin the group had another one, the conversation in the tables becomes the aggregate that
  \<open>Conversation.RemoveParticipant\<close> computes, every other conversation stays as it was, and exactly one
  outbox event announces the change.\<close>

theorem RemoveParticipant_refines:
  assumes "RemoveParticipant dp cmd s = (Inr u, t)"
  shows "\<exists>c. abs_conv (s_db s) (rp_ConversationID cmd) = Some c
    \<and> c_Type c = ConversationGroup \<and> is_admin c (rp_ActorID cmd)
    \<and> (case map_of (c_Participants c) (rp_TargetID cmd) of
         None \<Rightarrow> s_db t = s_db s
       | Some q \<Rightarrow>
           (p_Role q = RoleAdmin \<longrightarrow> 2 \<le> adminCount (c_Participants c))
           \<and> (\<exists>c'. domain_RemoveParticipant c (rp_ActorID cmd) (rp_TargetID cmd) = Inr c'
                \<and> abs_conv (s_db t) (rp_ConversationID cmd) = Some c')
           \<and> (\<forall>j. j \<noteq> rp_ConversationID cmd \<longrightarrow> abs_conv (s_db t) j = abs_conv (s_db s) j)
           \<and> membership_event (dp_codec dp) (rp_ConversationID cmd) (rp_TargetID cmd) False (s_db s) (s_db t))"
  using RemoveParticipant_success [OF assms] unfolding remove_effect_def .

theorem RemoveParticipant_refines_witness:
  "\<exists>c'. abs_conv (s_db (snd (RemoveParticipant demo_deps demo_remove demo_before_add))) ''g'' = Some c'
    \<and> map fst (c_Participants c') = [''ann'']"
proof -
  let ?r = "RemoveParticipant demo_deps demo_remove demo_before_add"
  have ok: "fst ?r = Inr ()" by code_simp
  have before: "map_option (\<lambda>c. (map fst (map_del ''bob'' (c_Participants c)), c_Type c, is_admin c ''ann'',
        map_of (c_Participants c) ''bob''))
      (abs_conv (s_db demo_before_add) ''g'') =
    Some ([''ann''], ConversationGroup, True, Some \<lparr>p_UserID = ''bob'', p_Role = RoleMember\<rparr>)" by code_simp
  from RemoveParticipant_refines [of demo_deps demo_remove demo_before_add "()" "snd ?r"] ok
  obtain c where c: "abs_conv (s_db demo_before_add) ''g'' = Some c"
    and k: "map_of (c_Participants c) ''bob'' \<noteq> None \<Longrightarrow>
      (\<exists>c'. domain_RemoveParticipant c ''ann'' ''bob'' = Inr c' \<and> abs_conv (s_db (snd ?r)) ''g'' = Some c')"
    by (fastforce simp: demo_remove_def prod_eq_iff split: option.splits)
  from before c have m: "map fst (map_del ''bob'' (c_Participants c)) = [''ann'']" "c_Type c = ConversationGroup" "is_admin c ''ann''"
    and some: "map_of (c_Participants c) ''bob'' \<noteq> None"
    by auto
  from k [OF some] m show ?thesis by (auto simp: domain_RemoveParticipant_def)
qed

text \<open>Only admins change who is in a conversation: for every call in every reachable state, if the participants
  of an existing conversation differ afterwards, then the call was \<open>AddParticipant\<close> or \<open>RemoveParticipant\<close> on
  that conversation, it is a group, and the actor of the call was one of its admins at that moment.\<close>

theorem only_admins_change_members:
  assumes "conv_run dp wk p (empty_conv_db, w0) tr (d, w)"
    and "i \<in> r_id ` set (conversations d)"
    and "scan_participants i (s_db (snd (conv_exec dp wk p call (session d w script now)))) \<noteq> scan_participants i d"
  shows "\<exists>c actor u. abs_conv d i = Some c \<and> c_Type c = ConversationGroup \<and> is_admin c actor
    \<and> (call = CallAdd \<lparr>ap_ConversationID = i, ap_ActorID = actor, ap_TargetID = u\<rparr>
       \<or> call = CallRemove \<lparr>rp_ConversationID = i, rp_ActorID = actor, rp_TargetID = u\<rparr>)"
  using conv_exec_members [of "session d w script now" i dp wk p call] conv_reach_inv [OF assms(1)] assms(2,3)
  by (auto simp: may_change_members_def)

theorem only_admins_change_members_witness:
  "\<exists>c actor u. abs_conv (s_db demo_before_add) ''g'' = Some c \<and> is_admin c actor
    \<and> CallAdd demo_add = CallAdd \<lparr>ap_ConversationID = ''g'', ap_ActorID = actor, ap_TargetID = u\<rparr>"
proof -
  let ?st = "run_calls demo_deps demo_worker demo_producer (take 2 demo_calls) (empty_conv_db, [])"
  let ?d = "fst (snd ?st)" and ?s = "session (fst (snd ?st)) (snd (snd ?st)) [] 3"
  let ?x = "conv_exec demo_deps demo_worker demo_producer (CallAdd demo_add) ?s"
  have run: "conv_run demo_deps demo_worker demo_producer (empty_conv_db, []) (fst ?st) (?d, snd (snd ?st))"
    by (rule run_calls_run) simp
  have g: "''g'' \<in> r_id ` set (conversations ?d)" by code_simp
  have "map fst (scan_participants ''g'' (s_db (snd ?x))) \<noteq> map fst (scan_participants ''g'' ?d)"
    by code_simp
  then have "scan_participants ''g'' (s_db (snd ?x)) \<noteq> scan_participants ''g'' ?d" by metis
  from only_admins_change_members [OF run g this] show ?thesis
    unfolding demo_before_add_def session_fields by blast
qed

section \<open>Sequence numbers and receipts\<close>

text \<open>C15: No sequence number is handed out twice: over any run, with any failures, retries and lost commits, the
  numbers that the successful calls of \<open>NextSequence\<close> for a conversation return are positive and strictly
  increasing, and the last one is at most the number the tables hold at the end.\<close>

theorem sequence_numbers_increase:
  assumes "conv_run dp wk p (empty_conv_db, w0) tr (d, w)"
  shows "sorted_wrt (<) (handed_out i tr) \<and> (\<forall>n \<in> set (handed_out i tr). 0 < n \<and> n \<le> seq_of d i)"
proof -
  have inv: "conv_inv (fst (empty_conv_db, w0))" by (simp add: conv_inv_empty)
  from handed_out_increasing [OF assms inv, of i] show ?thesis by (simp add: seq_of_def empty_conv_db_def)
qed

theorem sequence_numbers_increase_witness:
  "sorted_wrt (<) (handed_out ''g'' (fst demo_end)) \<and> handed_out ''g'' (fst demo_end) = [1, 3]"
proof
  show "sorted_wrt (<) (handed_out ''g'' (fst demo_end))"
    using sequence_numbers_increase [OF demo_run] by blast
  show "handed_out ''g'' (fst demo_end) = [1, 3]" by code_simp
qed

text \<open>A successful \<open>NextSequence\<close> takes the next number: the conversation had a sequence below the range of BIGINT,
  the result is one more than it, the tables hold the result, and nothing else in them changed.\<close>

theorem NextSequence_takes_next:
  assumes "NextSequence i s = (Inr n, t)"
  shows "\<exists>m. map_of (conversation_sequences (s_db s)) i = Some m \<and> m \<noteq> max_bigint \<and> n = m + 1
    \<and> s_db t = (s_db s)\<lparr>conversation_sequences := map_put i n (conversation_sequences (s_db s))\<rparr>"
  by (rule NextSequence_success [OF assms])

theorem NextSequence_takes_next_witness:
  "map_of (conversation_sequences (s_db (snd (NextSequence ''g'' demo_session)))) ''g'' = Some 4"
proof -
  have "fst (NextSequence ''g'' demo_session) = Inr 4" by code_simp
  with NextSequence_takes_next [of "''g''" demo_session 4 "snd (NextSequence ''g'' demo_session)"]
  show ?thesis by (auto simp: prod_eq_iff)
qed

text \<open>A successful \<open>UpdateReadReceipt\<close> raises the caller's receipt to the requested number cut to the bound it
  computes (\<open>next_sequence - 1\<close>), never lowers it, leaves every other receipt alone, and records exactly
  one event, which carries the cut number.\<close>

theorem UpdateReadReceipt_effect:
  assumes "UpdateReadReceipt dp i u n s = (Inr x, t)"
  shows "(\<forall>j v. receipt (s_db t) j v =
       map_option (\<lambda>m. if i = j \<and> u = v then max m (clamp_receipt (s_db s) i n) else m) (receipt (s_db s) j v))
    \<and> (\<exists>now e. outbox_events (s_db t) = outbox_events (s_db s) @ [e]
         \<and> event_row (dp_codec dp) now EVENT_TYPE_READ_RECEIPT_UPDATED i ''READ_RECEIPT_UPDATED''
             (ReadReceiptUpdatedEvent i u (clamp_receipt (s_db s) i n)) e)"
  using UpdateReadReceipt_success(1) [OF assms] UpdateReadReceipt_success(2) [OF assms]
  by (auto simp: event_row_def sql_insert_outbox_events)

theorem UpdateReadReceipt_effect_witness:
  "receipt (s_db (snd (UpdateReadReceipt demo_deps ''g'' ''ann'' 99 demo_session))) ''g'' ''ann'' = Some 2"
proof -
  have r: "fst (UpdateReadReceipt demo_deps ''g'' ''ann'' 99 demo_session) = Inr ()" by code_simp
  have a: "receipt (s_db demo_session) ''g'' ''ann'' = Some 0" by code_simp
  have c: "clamp_receipt (s_db demo_session) ''g'' 99 = 2" by code_simp
  show ?thesis
    using UpdateReadReceipt_effect [of demo_deps "''g''" "''ann''" 99 demo_session "()"
        "snd (UpdateReadReceipt demo_deps ''g'' ''ann'' 99 demo_session)"] r a c
    by (simp add: prod_eq_iff)
qed

text \<open>C37: The last message of a conversation can never be marked as read: in every reachable state, once numbers have
  been handed out in a conversation, every receipt in it is strictly below the last number
  (\<open>GetCurrentMaxSequence\<close> subtracts one from a counter that already holds the last number).\<close>

theorem last_message_never_read:
  assumes "conv_run dp wk p (empty_conv_db, w0) tr (d, w)"
    and "receipt d i u = Some m" and "0 < seq_of d i"
  shows "0 \<le> m \<and> m < seq_of d i"
  using receipt_bound [OF conv_reach_inv [OF assms(1)] assms(2)] assms(3) by simp

theorem last_message_never_read_witness:
  "\<exists>m. receipt (fst (snd demo_end)) ''g'' ''cid'' = Some m \<and> m < seq_of (fst (snd demo_end)) ''g''"
proof -
  have r: "receipt (fst (snd demo_end)) ''g'' ''cid'' = Some 0" by code_simp
  have "0 < seq_of (fst (snd demo_end)) ''g''" by code_simp
  from last_message_never_read [OF demo_run r this] r show ?thesis by blast
qed

section \<open>Creation and reading\<close>



text \<open>Creation is idempotent: with no failing database call, asking again for a conversation whose id exists, or
  for a direct conversation between two users who already have one, returns the existing
  conversation and leaves everything as it was.\<close>

theorem CreateConversation_idempotent:
  assumes "calm s" and "dp_cache dp = None" and "valid_create cmd"
    and "first_found idFirst (abs_conv (s_db s) (cc_ID cmd))
      (case getLookupKey cmd of None \<Rightarrow> None | Some k \<Rightarrow> conv_by_key (s_db s) k) = Some c"
  shows "CreateConversation dp idFirst cmd s = (Inr c, s)"
proof -
  have id: "cc_ID cmd \<noteq> []" using assms(3) by (simp add: valid_create_def)
  from parallelLookup_calm [OF assms(1,2) id, of idFirst "getLookupKey cmd"] assms(4)
  have pl: "parallelLookup dp idFirst (cc_ID cmd) (getLookupKey cmd) s = (Inr (Some c), s)" by simp
  show ?thesis using pl assms(3) direct_has_key [OF assms(3)]
    by (auto simp: CreateConversation_def valid_create_def Let_def)
qed

theorem CreateConversation_idempotent_witness:
  "\<exists>c. CreateConversation demo_deps False (demo_direct\<lparr>cc_ID := ''other'', cc_Participants := [''ann'', ''bob'']\<rparr>)
      (demo_session\<lparr>s_script := []\<rparr>) = (Inr c, demo_session\<lparr>s_script := []\<rparr>) \<and> c_ID c = ''d''"
proof -
  let ?cmd = "demo_direct\<lparr>cc_ID := ''other'', cc_Participants := [''ann'', ''bob'']\<rparr>"
  have "map_option c_ID (first_found False (abs_conv (s_db (demo_session\<lparr>s_script := []\<rparr>)) (cc_ID ?cmd))
      (case getLookupKey ?cmd of None \<Rightarrow> None | Some k \<Rightarrow> conv_by_key (s_db (demo_session\<lparr>s_script := []\<rparr>)) k)) = Some ''d''"
    by code_simp
  then obtain c where c: "first_found False (abs_conv (s_db (demo_session\<lparr>s_script := []\<rparr>)) (cc_ID ?cmd))
      (case getLookupKey ?cmd of None \<Rightarrow> None | Some k \<Rightarrow> conv_by_key (s_db (demo_session\<lparr>s_script := []\<rparr>)) k) = Some c"
    "c_ID c = ''d''" by blast
  from CreateConversation_idempotent [OF _ _ _ c(1), of demo_deps] c(2) show ?thesis
    by (auto simp: calm_def demo_session_def demo_deps_def valid_create_def demo_direct_def)
qed

text \<open>The refetch after a failed creation cannot help: once a statement of the creation has failed, the
  transaction block ignores every further statement, so without a cache the lookups that follow find
  nothing and the call ends with the creation's own error, even when the conflicting conversation exists.\<close>

theorem create_conflict_not_recovered:
  assumes "dp_cache dp = None" and "s_aborted s2"
  shows "lookup_in_tx dp cmd key (throw e) s2 = (Inl e, s2)"
  using assms
  by (auto simp: lookup_in_tx_def Let_def found_or_def repo_GetConversation_nocache attempt_def
      GetConversationByLookupKey_def fetchConversation_def bindE_def split: option.splits)

theorem create_conflict_not_recovered_witness:
  "\<exists>e. lookup_in_tx demo_deps demo_group None (throw e) (demo_session\<lparr>s_aborted := True\<rparr>) =
      (Inl e, demo_session\<lparr>s_aborted := True\<rparr>) \<and> abs_conv (s_db (demo_session\<lparr>s_aborted := True\<rparr>)) ''g'' \<noteq> None"
proof -
  have "map_option c_ID (abs_conv (s_db (demo_session\<lparr>s_aborted := True\<rparr>)) ''g'') = Some ''g''" by code_simp
  with create_conflict_not_recovered [of demo_deps "demo_session\<lparr>s_aborted := True\<rparr>" demo_group None "Domain ErrInvalidInput"]
  show ?thesis by (auto simp: demo_deps_def)
qed

text \<open>\<open>ListConversations\<close> is complete and exact: when it succeeds it returns, newest update first, one entry for each
  conversation the user is a participant of and no other, each with all its participants and roles.\<close>

theorem ListConversations_exact:
  assumes "conv_inv (s_db s)" and "ListConversations u s = (Inr cs, t)"
  shows "cs = map (conv_view (s_db s)) (order_updated_desc (member_rows u (s_db s)))
    \<and> sorted_wrt (\<lambda>a b. r_updated_at b \<le> r_updated_at a) (order_updated_desc (member_rows u (s_db s)))
    \<and> mset (order_updated_desc (member_rows u (s_db s))) = mset (member_rows u (s_db s))"
proof (intro conjI)
  show "cs = map (conv_view (s_db s)) (order_updated_desc (member_rows u (s_db s)))"
    by (rule ListConversations_success [OF assms])
  have "sorted (map (\<lambda>r. - r_updated_at r) (order_updated_desc (member_rows u (s_db s))))"
    by (simp add: order_updated_desc_def)
  then show "sorted_wrt (\<lambda>a b. r_updated_at b \<le> r_updated_at a) (order_updated_desc (member_rows u (s_db s)))"
    by (simp add: sorted_wrt_map)
qed (simp add: order_updated_desc_def)

theorem ListConversations_exact_witness:
  "\<exists>cs. fst (ListConversations ''ann'' (demo_session\<lparr>s_script := []\<rparr>)) = Inr cs \<and> map c_ID cs = [''d'', ''g'']"
proof -
  let ?s = "demo_session\<lparr>s_script := []\<rparr>"
  have inv: "conv_inv (s_db ?s)" using conv_reach_inv [OF demo_run] by (simp add: demo_session_def)
  have "(case fst (ListConversations ''ann'' ?s) of Inr cs \<Rightarrow> True | Inl _ \<Rightarrow> False)" by code_simp
  then obtain cs where cs: "ListConversations ''ann'' ?s = (Inr cs, snd (ListConversations ''ann'' ?s))"
    by (metis (no_types, lifting) prod.collapse sum.case_eq_if sum.collapse(2))
  have "map r_id (order_updated_desc (member_rows ''ann'' (s_db ?s))) = [''d'', ''g'']" by code_simp
  with conjunct1 [OF ListConversations_exact [OF inv cs]] have "map c_ID cs = [''d'', ''g'']"
    by (simp add: comp_def)
  with cs show ?thesis by (metis fst_conv)
qed

text \<open>Refusals come first and change nothing: with no failing database call, \<open>AddParticipant\<close> and \<open>RemoveParticipant\<close> answer
  exactly the sentinel of the first guard that fails (unknown conversation, direct conversation, actor not
  an admin, and for a removal the last admin) and leave the session as it was.\<close>

theorem membership_refusals:
  assumes "calm s"
  shows "(add_refusal (s_db s) ac = Some e1 \<longrightarrow> AddParticipant dp ac s = (Inl (Domain e1), s))
    \<and> (remove_refusal (s_db s) rc = Some e2 \<longrightarrow> RemoveParticipant dp rc s = (Inl (Domain e2), s))"
  using AddParticipant_refuses RemoveParticipant_refuses assms by auto

theorem membership_refusals_witness:
  "RemoveParticipant demo_deps (demo_remove\<lparr>rp_TargetID := ''ann''\<rparr>) demo_before_add =
     (Inl (Domain ErrLastAdmin), demo_before_add)
   \<and> AddParticipant demo_deps (demo_add\<lparr>ap_ActorID := ''bob''\<rparr>) demo_before_add =
     (Inl (Domain ErrNotAdmin), demo_before_add)"
proof
  have calm: "calm demo_before_add" by (simp add: calm_def demo_before_add_def)
  have "remove_refusal (s_db demo_before_add) (demo_remove\<lparr>rp_TargetID := ''ann''\<rparr>) = Some ErrLastAdmin" by code_simp
  then show "RemoveParticipant demo_deps (demo_remove\<lparr>rp_TargetID := ''ann''\<rparr>) demo_before_add =
     (Inl (Domain ErrLastAdmin), demo_before_add)" using membership_refusals [OF calm] by blast
  have "add_refusal (s_db demo_before_add) (demo_add\<lparr>ap_ActorID := ''bob''\<rparr>) = Some ErrNotAdmin" by code_simp
  then show "AddParticipant demo_deps (demo_add\<lparr>ap_ActorID := ''bob''\<rparr>) demo_before_add =
     (Inl (Domain ErrNotAdmin), demo_before_add)" using membership_refusals [OF calm] by blast
qed

section \<open>The outbox\<close>

text \<open>C7: No event is lost between the tables and the broker: whenever an event was recorded in some state of a run,
  in every later state it is in the outbox, and if it is marked processed there the broker has acknowledged
  its message, or it is in the dead letter table after its retries (the configured number plus the
  first attempt) were used up.\<close>

theorem no_event_lost:
  assumes run1: "conv_run dp wk p (empty_conv_db, w0) tr1 (d1, w1)"
    and run2: "conv_run dp wk p (d1, w1) tr2 (d2, w2)"
    and broker: "broker_ok klog p" and cache: "cache_quiet klog dp"
    and ev: "(i, a, ty, b) \<in> events_of d1"
  shows "(\<exists>e \<in> set (outbox_events d2). o_event e = (i, a, ty, b)
            \<and> (o_processed_at e = None \<or> Publish_msg p a b \<in> set (klog w2)))
    \<or> (\<exists>q \<in> set (outbox_dlq d2). (q_id q, q_aggregate_id q, q_event_type q, q_payload q) = (i, a, ty, b)
            \<and> q_retry_count q = max_retries wk + 1)"
proof -
  have "delivered klog p d1 w1 \<and> retries_ok (max_retries wk) d1"
    using conv_run_delivered [OF run1 broker cache] conv_inv_empty
    by (simp add: delivered_def retries_ok_def empty_conv_db_def)
  with conv_run_delivered [OF run2 broker cache] conv_reach_inv [OF run1]
  have del: "delivered klog p d2 w2" "retries_ok (max_retries wk) d2" by simp_all
  have "(i, a, ty, b) \<in> events_of d2"
    using conv_run_grows [OF run2] conv_reach_inv [OF run1] ev by (auto simp: grows_def)
  then consider (out) e where "e \<in> set (outbox_events d2)" "o_event e = (i, a, ty, b)"
    | (dlq) q where "q \<in> set (outbox_dlq d2)" "(q_id q, q_aggregate_id q, q_event_type q, q_payload q) = (i, a, ty, b)"
    by (auto simp: events_of_def)
  then show ?thesis
  proof cases
    case out
    with del(1) have "o_processed_at e = None \<or> msg_of p e \<in> set (klog w2)" unfolding delivered_def by blast
    with out show ?thesis by (auto simp: msg_of_def o_event_def)
  next
    case dlq
    with del(2) show ?thesis by (auto simp: retries_ok_def)
  qed
qed

theorem no_event_lost_witness:
  "\<exists>e \<in> set (outbox_events (fst (snd demo_end))). o_id e = 1 \<and> o_processed_at e \<noteq> None
    \<and> Publish_msg demo_producer (o_aggregate_id e) (o_payload e) \<in> set (snd (snd demo_end))"
proof -
  have "\<forall>e \<in> set (take 1 (outbox_events (fst (snd demo_end)))). o_id e = 1 \<and> o_processed_at e \<noteq> None"
    "take 1 (outbox_events (fst (snd demo_end))) \<noteq> []" "outbox_dlq (fst (snd demo_end)) = []"
    "distinct (map o_id (outbox_events (fst (snd demo_end))))"
    by code_simp+
  then obtain e where e: "e \<in> set (outbox_events (fst (snd demo_end)))" "o_id e = 1" "o_processed_at e \<noteq> None"
    by (metis in_set_takeD list.set_intros(1) neq_Nil_conv)
  then have "o_event e \<in> events_of (fst (snd demo_end))" by (simp add: events_of_def)
  from no_event_lost [OF demo_run run_nil demo_producer_ok demo_cache_quiet, of "o_id e" "o_aggregate_id e"
      "o_event_type e" "o_payload e"] this \<open>outbox_dlq _ = []\<close>
  obtain e' where "e' \<in> set (outbox_events (fst (snd demo_end)))" "o_event e' = o_event e"
    "o_processed_at e' = None \<or> Publish_msg demo_producer (o_aggregate_id e) (o_payload e) \<in> set (snd (snd demo_end))"
    by (auto simp: o_event_def)
  moreover from this e \<open>distinct _\<close> have "e' = e" by (auto simp: o_event_def distinct_map inj_on_def)
  ultimately show ?thesis using e by auto
qed

text \<open>A poll of the outbox publishes in order: whatever fails, either the tables are as before, or some first part
  of the batch of pending events, taken in id order, was acknowledged by the broker in that order, exactly
  these rows are marked, and if the batch stopped early the next row, and no other, has its failure
  counted or is moved to the dead letter table.\<close>

theorem poll_publishes_in_order:
  assumes "processBatch wk p s = (r, t)" and "broker_ok klog p"
  shows "\<exists>ext. klog (s_world t) = klog (s_world s) @ ext
    \<and> (s_db t = s_db s \<or>
       (\<exists>k now. subseq (map (msg_of p) (take k (pending_batch (cw_BatchSize wk) (s_db s)))) ext
          \<and> batch_result (max_retries wk) now (pending_batch (cw_BatchSize wk) (s_db s)) k (s_db s) (s_db t)))"
  using processBatch_cases [OF assms(1), of klog] assms(2) by blast

theorem poll_publishes_in_order_witness:
  "\<exists>ext. s_world (snd (processBatch demo_worker demo_producer demo_before_add)) = s_world demo_before_add @ ext
    \<and> length ext = 2"
proof -
  let ?r = "processBatch demo_worker demo_producer demo_before_add"
  have "length (s_world (snd ?r)) = 2" "s_world demo_before_add = []" by code_simp+
  with poll_publishes_in_order [of demo_worker demo_producer demo_before_add "fst ?r" "snd ?r" "\<lambda>w. w", OF _ demo_producer_ok]
  show ?thesis by auto
qed

section \<open>The gRPC boundary\<close>

text \<open>At the gRPC boundary only an authenticated admin changes members: in every reachable state, if a request to
  the conversation server changes the participants of an existing conversation, then the metadata carried a
  non-empty \<open>x-user-id\<close>, and that user is an admin of the conversation, which is a group.\<close>

theorem only_authenticated_admins_change_members:
  assumes "conv_run dp wk p (empty_conv_db, w0) tr (d, w)"
    and "i \<in> r_id ` set (conversations d)"
    and "scan_participants i (s_db (snd (conv_serve is_status dp idFirst md req (session d w script now))))
      \<noteq> scan_participants i d"
  shows "\<exists>uid c. header_user md = Some uid \<and> abs_conv d i = Some c \<and> c_Type c = ConversationGroup \<and> is_admin c uid"
proof -
  let ?s = "session d w script now"
  from conv_serve_cases [of is_status dp idFirst md req ?s wk p] assms(3) obtain call where
      call: "call_of idFirst req call" "acting_user req \<noteq> None \<longrightarrow> header_user md = acting_user req"
    and same: "snd (conv_serve is_status dp idFirst md req ?s) = snd (conv_exec dp wk p call ?s)"
    by (auto simp del: conv_exec.simps)
  from conv_exec_members [of ?s i dp wk p call] conv_reach_inv [OF assms(1)] assms(2,3) same
  have "may_change_members d i call" by (simp del: conv_exec.simps)
  with call show ?thesis
    by (cases req) (auto simp: may_change_members_def)
qed

theorem only_authenticated_admins_change_members_witness:
  "\<exists>c. abs_conv (s_db demo_before_add) ''g'' = Some c \<and> is_admin c ''ann''"
proof -
  let ?st = "run_calls demo_deps demo_worker demo_producer (take 2 demo_calls) (empty_conv_db, [])"
  let ?d = "fst (snd ?st)" and ?s = "session (fst (snd ?st)) (snd (snd ?st)) [] 3"
  let ?md = "Some (\<lambda>k. if k = HeaderUserID then [''ann''] else [])"
  let ?x = "conv_serve wraps_status demo_deps True ?md (AddParticipantRequest ''g'' ''ann'' ''cid'') ?s"
  have run: "conv_run demo_deps demo_worker demo_producer (empty_conv_db, []) (fst ?st) (?d, snd (snd ?st))"
    by (rule run_calls_run) simp
  have g: "''g'' \<in> r_id ` set (conversations ?d)" by code_simp
  have "map fst (scan_participants ''g'' (s_db (snd ?x))) \<noteq> map fst (scan_participants ''g'' ?d)"
    by code_simp
  then have ne: "scan_participants ''g'' (s_db (snd ?x)) \<noteq> scan_participants ''g'' ?d" by metis
  have "header_user ?md = Some ''ann''" by (simp add: header_user_def)
  with only_authenticated_admins_change_members [OF run g ne] show ?thesis
    unfolding demo_before_add_def session_fields by auto
qed

text \<open>Every error leaves the server as a status, and only known errors keep their text: an error that is not a
  status is mapped to the code of its sentinel, however deeply it is wrapped, with its text; every other
  error becomes \<open>Internal\<close> with a fixed text, so no detail of the database reaches the caller.\<close>

theorem MapError_by_sentinel:
  assumes "status_ok is_status" and "\<not> wraps_status err"
  shows "MapError is_status err =
    (case sentinel err of
       None \<Rightarrow> Status Internal ''internal server error''
     | Some d \<Rightarrow> Status (conv_code d) (err_text conv_err_text err))"
  using assms by (intro MapError_table) (simp add: status_ok_def)

theorem MapError_by_sentinel_witness:
  "MapError wraps_status (Wrapf ''failed to lock conversation'' (Domain ErrConversationNotFound)) =
     Status NotFound ''failed to lock conversation: conversation not found''"
  using MapError_by_sentinel [of wraps_status "Wrapf ''failed to lock conversation'' (Domain ErrConversationNotFound)"]
  by (simp add: status_ok_def)

end
