(* ===== verification/MsgDomain.thy ===== *)
theory MsgDomain
  imports Contracts
begin

text \<open>
  \<^verbatim>\<open>services/message/internal/domain\<close>: the message, its sentinel errors and its constructor, which is
  where the limits of a message are enforced.
\<close>

datatype msg_err =
    ErrInvalidMessage | ErrInvalidSequence | ErrMessageTooLarge | ErrNotParticipant
  | ErrMessageNotFound | ErrInvalidInput

fun msg_err_text :: "msg_err \<Rightarrow> string" where
  "msg_err_text ErrInvalidMessage = ''invalid message''"
| "msg_err_text ErrInvalidSequence = ''invalid sequence''"
| "msg_err_text ErrMessageTooLarge = ''message too large''"
| "msg_err_text ErrNotParticipant = ''user not participant''"
| "msg_err_text ErrMessageNotFound = ''message not found''"
| "msg_err_text ErrInvalidInput = ''invalid input''"

definition MaxMessageSize :: nat where
  "MaxMessageSize = 5000"

record Message =
  g_ID :: string
  g_ConversationID :: string
  g_SenderID :: string
  g_Sequence :: int
  g_Type :: string
  g_Content :: string
  g_Metadata :: string
  g_SentAt :: int
  g_DeletedAt :: "int option"

text \<open>\<open>len(content)\<close> counts bytes, and a \<open>string\<close> here is the list of its bytes.\<close>

definition NewMessage ::
  "string \<Rightarrow> string \<Rightarrow> string \<Rightarrow> int \<Rightarrow> string \<Rightarrow> string \<Rightarrow> string \<Rightarrow> int \<Rightarrow> msg_err + Message" where
  "NewMessage i conversationID senderID sequence msgType content metadata now =
     (if i = [] \<or> conversationID = [] \<or> senderID = [] then Inl ErrInvalidMessage
      else if sequence \<le> 0 then Inl ErrInvalidSequence
      else if length content > MaxMessageSize then Inl ErrMessageTooLarge
      else Inr \<lparr>g_ID = i, g_ConversationID = conversationID, g_SenderID = senderID, g_Sequence = sequence,
             g_Type = msgType, g_Content = content, g_Metadata = metadata, g_SentAt = now, g_DeletedAt = None\<rparr>)"

definition msg_wf :: "Message \<Rightarrow> bool" where
  "msg_wf m \<longleftrightarrow> g_ID m \<noteq> [] \<and> g_ConversationID m \<noteq> [] \<and> g_SenderID m \<noteq> [] \<and> 0 < g_Sequence m
     \<and> length (g_Content m) \<le> MaxMessageSize"

lemma NewMessage_Inr_iff:
  "NewMessage i c u n ty ct md now = Inr m \<longleftrightarrow>
     i \<noteq> [] \<and> c \<noteq> [] \<and> u \<noteq> [] \<and> 0 < n \<and> length ct \<le> MaxMessageSize
     \<and> m = \<lparr>g_ID = i, g_ConversationID = c, g_SenderID = u, g_Sequence = n, g_Type = ty, g_Content = ct,
            g_Metadata = md, g_SentAt = now, g_DeletedAt = None\<rparr>"
  by (auto simp: NewMessage_def)

lemma NewMessage_wf: "NewMessage i c u n ty ct md now = Inr m \<Longrightarrow> msg_wf m"
  by (auto simp: NewMessage_Inr_iff msg_wf_def)

end
