(* ===== verification/MsgRepo.thy ===== *)
theory MsgRepo
  imports MsgDomain SqlTx
begin

text \<open>
  \<^verbatim>\<open>services/message/internal/repository/postgres/repo.go\<close> on the tables of
  \<^verbatim>\<open>services/message/migrations\<close>. What the service is wired with is \<open>msg_deps\<close>: the client of the
  conversation service, the source of UUIDs, the JSON codec of the stored answers, the protobuf
  codec, and what the database does with the text of a JSONB value (\<open>md_jsonb\<close>: \<open>None\<close> refuses it,
  \<open>Some t\<close> stores it so that it reads back as \<open>t\<close>).
\<close>

record msg_row =
  w_id :: string
  w_conv :: string
  w_sender :: string
  w_seq :: int
  w_type :: string
  w_content :: string
  w_metadata :: "string option"
  w_deleted_at :: "int option"
  w_sent_at :: int

record 'j idem_row =
  y_key :: string
  y_user :: string
  y_conv :: string
  y_payload :: "'j option"
  y_created_at :: int
  y_expires_at :: int

record 'b msg_outbox_row =
  x_id :: nat
  x_aggregate_type :: string
  x_aggregate_id :: string
  x_event_type :: string
  x_payload :: 'b
  x_created_at :: int
  x_processed_at :: "int option"

record ('j, 'b) msg_db =
  messages :: "msg_row list"
  idempotency_keys :: "'j idem_row list"
  msg_outbox :: "'b msg_outbox_row list"
  msg_outbox_serial :: nat

definition empty_msg_db :: "('j, 'b) msg_db" where
  "empty_msg_db = \<lparr>messages = [], idempotency_keys = [], msg_outbox = [], msg_outbox_serial = 0\<rparr>"

type_synonym ('w, 'j, 'b, 'a) msg_prog = "(('j, 'b) msg_db, 'w, msg_err, 'a) prog"

record ('w, 'j, 'b) msg_deps =
  md_GetConversation :: "string \<Rightarrow> 'w \<Rightarrow> (msg_err go_error + pb_get_conversation_response) \<times> 'w"
  md_NextSequence :: "string \<Rightarrow> 'w \<Rightarrow> (msg_err go_error + int) \<times> 'w"
  md_uuid :: "'w \<Rightarrow> string \<times> 'w"
  md_json_enc :: "Message \<Rightarrow> string + 'j"
  md_json_dec :: "'j \<Rightarrow> string + Message"
  md_codec :: "'b codec"
  md_jsonb :: "string \<Rightarrow> string option"

abbreviation err_dup :: string where
  "err_dup \<equiv> ''pq: duplicate key value violates unique constraint''"

section \<open>Messages\<close>

definition sql_insert_message ::
  "(string \<Rightarrow> string option) \<Rightarrow> Message \<Rightarrow> ('j, 'b) msg_db \<Rightarrow> string + ('j, 'b) msg_db \<times> unit" where
  "sql_insert_message jsonb msg d =
     (let metadata = (if g_Metadata msg = [] then None else Some (g_Metadata msg)) in
      if metadata \<noteq> None \<and> jsonb (g_Metadata msg) = None then Inl ''pq: invalid input syntax for type json''
      else if \<exists>r \<in> set (messages d). w_id r = g_ID msg then Inl err_dup
      else if \<exists>r \<in> set (messages d). w_conv r = g_ConversationID msg \<and> w_seq r = g_Sequence msg then Inl err_dup
      else Inr (d\<lparr>messages := messages d @
             [\<lparr>w_id = g_ID msg, w_conv = g_ConversationID msg, w_sender = g_SenderID msg, w_seq = g_Sequence msg,
               w_type = g_Type msg, w_content = g_Content msg,
               w_metadata = (if metadata = None then None else jsonb (g_Metadata msg)),
               w_deleted_at = None, w_sent_at = g_SentAt msg\<rparr>]\<rparr>, ()))"

definition InsertMessage :: "('w, 'j, 'b) msg_deps \<Rightarrow> bool \<Rightarrow> Message \<Rightarrow> ('w, 'j, 'b, unit) msg_prog" where
  "InsertMessage md tx msg = stmt tx (sql_insert_message (md_jsonb md) msg)"

fun opt_text :: "string option \<Rightarrow> string" where
  "opt_text None = []"
| "opt_text (Some t) = t"

definition msg_of_row :: "msg_row \<Rightarrow> Message" where
  "msg_of_row r = \<lparr>g_ID = w_id r, g_ConversationID = w_conv r, g_SenderID = w_sender r, g_Sequence = w_seq r,
     g_Type = w_type r, g_Content = w_content r, g_Metadata = opt_text (w_metadata r), g_SentAt = w_sent_at r,
     g_DeletedAt = w_deleted_at r\<rparr>"

text \<open>\<open>WHERE conversation_id = $1 AND sequence > $2 ORDER BY sequence ASC LIMIT $3\<close>; \<open>limit\<close> is positive.\<close>

definition sql_fetch :: "string \<Rightarrow> int \<Rightarrow> nat \<Rightarrow> ('j, 'b) msg_db \<Rightarrow> msg_row list" where
  "sql_fetch convID lastSeq limit d =
     take limit (sort_key w_seq (filter (\<lambda>r. w_conv r = convID \<and> w_seq r > lastSeq) (messages d)))"

definition FetchMessages :: "string \<Rightarrow> int \<Rightarrow> nat \<Rightarrow> ('w, 'j, 'b, Message list) msg_prog" where
  "FetchMessages convID lastSeq limit =
     bindE (query False (sql_fetch convID lastSeq limit)) (\<lambda>rows. ret (map msg_of_row rows))"

definition GetMessageForUpdate :: "bool \<Rightarrow> string \<Rightarrow> ('w, 'j, 'b, Message) msg_prog" where
  "GetMessageForUpdate tx messageID =
     bindE (query tx (\<lambda>d. find (\<lambda>r. w_id r = messageID) (messages d))) (\<lambda>row.
       case row of None \<Rightarrow> throw (Domain ErrMessageNotFound) | Some r \<Rightarrow> ret (msg_of_row r))"

definition MarkMessageDeleted :: "bool \<Rightarrow> string \<Rightarrow> ('w, 'j, 'b, unit) msg_prog" where
  "MarkMessageDeleted tx msgID =
     bindE get_now (\<lambda>now. stmt tx (\<lambda>d. Inr (d\<lparr>messages :=
       map (\<lambda>r. if w_id r = msgID then r\<lparr>w_deleted_at := Some now\<rparr> else r) (messages d)\<rparr>, ())))"

section \<open>Idempotency keys\<close>

abbreviation same_key :: "string \<Rightarrow> string \<Rightarrow> string \<Rightarrow> 'j idem_row \<Rightarrow> bool" where
  "same_key key userID conversationID y \<equiv> y_key y = key \<and> y_user y = userID \<and> y_conv y = conversationID"

text \<open>\<open>ON CONFLICT DO NOTHING\<close>; the answer is whether a row was inserted.\<close>

definition TryInsertIdempotency ::
  "bool \<Rightarrow> string \<Rightarrow> string \<Rightarrow> string \<Rightarrow> int \<Rightarrow> ('w, 'j, 'b, bool) msg_prog" where
  "TryInsertIdempotency tx key userID conversationID expiresAt =
     bindE get_now (\<lambda>now. stmt tx (\<lambda>d.
       if \<exists>y \<in> set (idempotency_keys d). same_key key userID conversationID y then Inr (d, False)
       else Inr (d\<lparr>idempotency_keys := idempotency_keys d @
              [\<lparr>y_key = key, y_user = userID, y_conv = conversationID, y_payload = None,
                y_created_at = now, y_expires_at = expiresAt\<rparr>]\<rparr>, True)))"

definition GetIdempotencyForUpdate ::
  "bool \<Rightarrow> string \<Rightarrow> string \<Rightarrow> string \<Rightarrow> ('w, 'j, 'b, 'j option) msg_prog" where
  "GetIdempotencyForUpdate tx key userID conversationID =
     query tx (\<lambda>d. case find (same_key key userID conversationID) (idempotency_keys d) of
       None \<Rightarrow> None | Some y \<Rightarrow> y_payload y)"

definition UpdateIdempotencyResponse ::
  "bool \<Rightarrow> string \<Rightarrow> string \<Rightarrow> string \<Rightarrow> 'j \<Rightarrow> ('w, 'j, 'b, unit) msg_prog" where
  "UpdateIdempotencyResponse tx key userID conversationID payload =
     stmt tx (\<lambda>d. Inr (d\<lparr>idempotency_keys :=
       map (\<lambda>y. if same_key key userID conversationID y then y\<lparr>y_payload := Some payload\<rparr> else y)
         (idempotency_keys d)\<rparr>, ()))"

section \<open>Outbox\<close>

definition sql_insert_msg_outbox ::
  "int \<Rightarrow> string \<Rightarrow> string \<Rightarrow> string \<Rightarrow> 'b \<Rightarrow> ('j, 'b) msg_db \<Rightarrow> ('j, 'b) msg_db" where
  "sql_insert_msg_outbox now aggregateType aggregateID eventType payload d =
     d\<lparr>msg_outbox := msg_outbox d @
         [\<lparr>x_id = msg_outbox_serial d + 1, x_aggregate_type = aggregateType, x_aggregate_id = aggregateID,
           x_event_type = eventType, x_payload = payload, x_created_at = now, x_processed_at = None\<rparr>],
       msg_outbox_serial := msg_outbox_serial d + 1\<rparr>"

definition msg_InsertOutbox ::
  "bool \<Rightarrow> string \<Rightarrow> string \<Rightarrow> string \<Rightarrow> 'b \<Rightarrow> ('w, 'j, 'b, unit) msg_prog" where
  "msg_InsertOutbox tx aggregateType aggregateID eventType payload =
     bindE get_now (\<lambda>now. stmt tx (\<lambda>d.
       Inr (sql_insert_msg_outbox now aggregateType aggregateID eventType payload d, ())))"

end
