(* ===== verification/MsgApp.thy ===== *)
theory MsgApp
  imports MsgRepo
begin

text \<open>
  \<^verbatim>\<open>services/message/internal/application\<close>: sending, deleting and syncing messages. The calls to the
  conversation service go to the world; the transaction of the message service does not cover them.
\<close>

text \<open>\<^verbatim>\<open>internal/tx/manager.go\<close> of this service is the same manager.\<close>

definition msg_WithTx :: "('w, 'j, 'b, 'a) msg_prog \<Rightarrow> ('w, 'j, 'b, 'a) msg_prog" where
  "msg_WithTx = WithTx msg_err_text"

section \<open>Sending\<close>

record SendMessageCommand =
  sm_ConversationID :: string
  sm_UserID :: string
  sm_ClientMsgID :: string
  sm_Type :: string
  sm_Content :: string
  sm_Metadata :: string

text \<open>
  The two calls run in parallel: both are always made, and \<open>seqFirst\<close> says which one the conversation
  service serves first.
\<close>

definition parallelConvCalls ::
  "('w, 'j, 'b) msg_deps \<Rightarrow> bool \<Rightarrow> string \<Rightarrow> ('w, 'j, 'b, pb_get_conversation_response \<times> int) msg_prog" where
  "parallelConvCalls md seqFirst convID =
     (let conv = on_world (md_GetConversation md convID);
          nxt = on_world (md_NextSequence md convID);
          finish = (\<lambda>cr sr.
            case cr of
              Inl err \<Rightarrow> throw (Wrapf ''failed to fetch conversation via gRPC'' err)
            | Inr resp \<Rightarrow>
                (case sr of
                   Inl err \<Rightarrow> throw (Wrapf ''failed to generate message sequence'' err)
                 | Inr seq \<Rightarrow> ret (resp, seq)))
      in if seqFirst then attempt nxt (\<lambda>sr. attempt conv (\<lambda>cr. finish cr sr))
         else attempt conv (\<lambda>cr. attempt nxt (\<lambda>sr. finish cr sr)))"

definition sent_pb :: "Message \<Rightarrow> pb_message" where
  "sent_pb msg = \<lparr>pm_MessageId = g_ID msg, pm_ConversationId = g_ConversationID msg,
     pm_SenderUserId = g_SenderID msg, pm_Sequence = g_Sequence msg, pm_MessageType = g_Type msg,
     pm_Content = g_Content msg, pm_MetadataJson = g_Metadata msg, pm_SentAt = g_SentAt msg, pm_DeletedAt = None\<rparr>"

text \<open>From the created message on: its row, its event and the stored answer.\<close>

definition store_message ::
  "('w, 'j, 'b) msg_deps \<Rightarrow> SendMessageCommand \<Rightarrow> Message \<Rightarrow> ('w, 'j, 'b, Message) msg_prog" where
  "store_message md cmd msg =
     bindE (wrap_err ''failed to save message'' (InsertMessage md True msg)) (\<lambda>_.
     bindE (wrap_err ''failed to marshal message for idempotency'' (lift_res (md_json_enc md msg))) (\<lambda>payload.
     bindE (wrap_err ''failed to marshal event payload''
              (lift_res (enc_event (md_codec md) (MessageSentEvent (Some (sent_pb msg)))))) (\<lambda>eventPayload.
     bindE get_now (\<lambda>now.
     bindE (wrap_err ''failed to marshal event envelope''
              (lift_res (enc_env (md_codec md) (EventEnvelope EVENT_TYPE_MESSAGE_SENT 1 now eventPayload))))
       (\<lambda>envPayload.
     bindE (wrap_err ''failed to save outbox event''
              (msg_InsertOutbox True ''message'' (g_ConversationID msg) ''MESSAGE_SENT'' envPayload)) (\<lambda>_.
     bindE (wrap_err ''failed to update idempotency response''
              (UpdateIdempotencyResponse True (sm_ClientMsgID cmd) (sm_UserID cmd) (sm_ConversationID cmd) payload))
       (\<lambda>_. ret msg)))))))"

definition send_new ::
  "('w, 'j, 'b) msg_deps \<Rightarrow> bool \<Rightarrow> SendMessageCommand \<Rightarrow> ('w, 'j, 'b, Message) msg_prog" where
  "send_new md seqFirst cmd =
     bindE (parallelConvCalls md seqFirst (sm_ConversationID cmd)) (\<lambda>(resp, seq).
       if sm_UserID cmd \<notin> set (gr_ParticipantUserIds resp) then throw (Domain ErrNotParticipant)
       else
         bindE (on_world (\<lambda>w. case md_uuid md w of (u, w') \<Rightarrow> (Inr u, w'))) (\<lambda>i.
         bindE get_now (\<lambda>now.
           case NewMessage i (sm_ConversationID cmd) (sm_UserID cmd) seq (sm_Type cmd) (sm_Content cmd)
                  (sm_Metadata cmd) now of
             Inl e \<Rightarrow> throw (Wrapf ''failed to create new message'' (Domain e))
           | Inr msg \<Rightarrow> store_message md cmd msg)))"

definition SendMessage_tx ::
  "('w, 'j, 'b) msg_deps \<Rightarrow> bool \<Rightarrow> SendMessageCommand \<Rightarrow> ('w, 'j, 'b, Message) msg_prog" where
  "SendMessage_tx md seqFirst cmd =
     bindE get_now (\<lambda>now.
     bindE (wrap_err ''failed to check idempotency''
              (TryInsertIdempotency True (sm_ClientMsgID cmd) (sm_UserID cmd) (sm_ConversationID cmd)
                 (now + 24 * 60 * 60))) (\<lambda>owned.
       if owned then send_new md seqFirst cmd
       else
         bindE (wrap_err ''failed to fetch idempotency response''
                  (GetIdempotencyForUpdate True (sm_ClientMsgID cmd) (sm_UserID cmd) (sm_ConversationID cmd)))
           (\<lambda>payload.
              case payload of
                None \<Rightarrow> send_new md seqFirst cmd
              | Some b \<Rightarrow> wrap_err ''failed to unmarshal cached message'' (lift_res (md_json_dec md b)))))"

definition SendMessage ::
  "('w, 'j, 'b) msg_deps \<Rightarrow> bool \<Rightarrow> SendMessageCommand \<Rightarrow> ('w, 'j, 'b, Message) msg_prog" where
  "SendMessage md seqFirst cmd = msg_WithTx (SendMessage_tx md seqFirst cmd)"

section \<open>Deleting\<close>

record DeleteMessageCommand =
  dm_ConversationID :: string
  dm_MessageID :: string
  dm_RequesterID :: string

definition pb_admin :: "string \<Rightarrow> pb_get_conversation_response \<Rightarrow> bool" where
  "pb_admin u resp =
     (\<exists>p \<in> set (pc_ParticipantsWithRoles (gr_Conversation resp)). pp_UserId p = u \<and> pp_Role p = ADMIN)"

definition delete_marked ::
  "('w, 'j, 'b) msg_deps \<Rightarrow> DeleteMessageCommand \<Rightarrow> Message \<Rightarrow> ('w, 'j, 'b, unit) msg_prog" where
  "delete_marked md cmd msg =
     (if g_DeletedAt msg \<noteq> None then ret ()
      else
        bindE (MarkMessageDeleted True (dm_MessageID cmd)) (\<lambda>_.
        bindE (lift_res (enc_event (md_codec md) (MessageDeletedEvent (dm_ConversationID cmd) (dm_MessageID cmd))))
          (\<lambda>eventPayload.
        bindE get_now (\<lambda>now.
        bindE (lift_res (enc_env (md_codec md) (EventEnvelope EVENT_TYPE_MESSAGE_DELETED 1 now eventPayload)))
          (\<lambda>payload.
             msg_InsertOutbox True ''message'' (dm_ConversationID cmd) ''MESSAGE_DELETED'' payload)))))"

definition DeleteMessage_tx ::
  "('w, 'j, 'b) msg_deps \<Rightarrow> DeleteMessageCommand \<Rightarrow> ('w, 'j, 'b, unit) msg_prog" where
  "DeleteMessage_tx md cmd =
     bindE (GetMessageForUpdate True (dm_MessageID cmd)) (\<lambda>msg.
       if g_ConversationID msg \<noteq> dm_ConversationID cmd then throw (Domain ErrInvalidInput)
       else if g_SenderID msg \<noteq> dm_RequesterID cmd
       then bindE (on_world (md_GetConversation md (dm_ConversationID cmd))) (\<lambda>convResp.
              if pb_admin (dm_RequesterID cmd) convResp then delete_marked md cmd msg
              else throw (Domain ErrNotParticipant))
       else delete_marked md cmd msg)"

definition DeleteMessage ::
  "('w, 'j, 'b) msg_deps \<Rightarrow> DeleteMessageCommand \<Rightarrow> ('w, 'j, 'b, unit) msg_prog" where
  "DeleteMessage md cmd = msg_WithTx (DeleteMessage_tx md cmd)"

section \<open>Syncing\<close>

definition page_size :: "int \<Rightarrow> nat" where
  "page_size pageSize = (if pageSize \<le> 0 \<or> pageSize > 500 then 100 else nat pageSize)"

definition SyncMessages ::
  "('w, 'j, 'b) msg_deps \<Rightarrow> string \<Rightarrow> string \<Rightarrow> int \<Rightarrow> int \<Rightarrow> ('w, 'j, 'b, Message list) msg_prog" where
  "SyncMessages md conversationID userID afterSequence pageSize =
     bindE (on_world (md_GetConversation md conversationID)) (\<lambda>resp.
       if userID \<notin> set (gr_ParticipantUserIds resp) then throw (Domain ErrNotParticipant)
       else FetchMessages conversationID afterSequence (page_size pageSize))"

end
