(* ===== verification/MsgInv.thy ===== *)
theory MsgInv
  imports MsgApp
begin

text \<open>
  The tables of the message service: the invariant \<open>msg_inv\<close>, what the callbacks do when they succeed,
  and that every operation keeps the invariant. \<open>msg_json_ok\<close> is what the code relies on of
  \<open>encoding/json\<close> and of the JSONB column that stores the answer: a stored message reads back as it was.
\<close>

definition msg_json_ok :: "('w, 'j, 'b) msg_deps \<Rightarrow> bool" where
  "msg_json_ok md \<longleftrightarrow> (\<forall>m b. md_json_enc md m = Inr b \<longrightarrow> md_json_dec md b = Inr m)"

section \<open>Invariant\<close>

text \<open>The part of a message that never changes.\<close>

definition row_core :: "msg_row \<Rightarrow> string \<times> string \<times> string \<times> int \<times> string \<times> string \<times> string option \<times> int" where
  "row_core r = (w_id r, w_conv r, w_sender r, w_seq r, w_type r, w_content r, w_metadata r, w_sent_at r)"

definition rows_ok :: "('j, 'b) msg_db \<Rightarrow> bool" where
  "rows_ok d \<longleftrightarrow>
     distinct (map w_id (messages d)) \<and> distinct (map (\<lambda>r. (w_conv r, w_seq r)) (messages d))
     \<and> (\<forall>r \<in> set (messages d). msg_wf (msg_of_row r))"

text \<open>
  Every stored key carries an answer, which is a message of that user and conversation in the table.
\<close>

definition answers :: "('w, 'j, 'b) msg_deps \<Rightarrow> 'j idem_row \<Rightarrow> msg_row \<Rightarrow> bool" where
  "answers md y r \<longleftrightarrow>
     (\<exists>b m. y_payload y = Some b \<and> md_json_dec md b = Inr m \<and> g_ID m = w_id r \<and> g_ConversationID m = w_conv r
        \<and> g_SenderID m = w_sender r \<and> g_Sequence m = w_seq r \<and> g_Content m = w_content r
        \<and> w_conv r = y_conv y \<and> w_sender r = y_user y)"

definition idem_ok :: "('w, 'j, 'b) msg_deps \<Rightarrow> ('j, 'b) msg_db \<Rightarrow> bool" where
  "idem_ok md d \<longleftrightarrow>
     distinct (map (\<lambda>y. (y_key y, y_user y, y_conv y)) (idempotency_keys d))
     \<and> (\<forall>y \<in> set (idempotency_keys d). \<exists>r \<in> set (messages d). answers md y r)"

definition msg_outbox_ok :: "('j, 'b) msg_db \<Rightarrow> bool" where
  "msg_outbox_ok d \<longleftrightarrow>
     distinct (map x_id (msg_outbox d)) \<and> (\<forall>e \<in> set (msg_outbox d). x_id e \<le> msg_outbox_serial d)"

definition msg_inv :: "('w, 'j, 'b) msg_deps \<Rightarrow> ('j, 'b) msg_db \<Rightarrow> bool" where
  "msg_inv md d \<longleftrightarrow> rows_ok d \<and> idem_ok md d \<and> msg_outbox_ok d"

lemma msg_inv_empty: "msg_inv md empty_msg_db"
  by (simp add: msg_inv_def rows_ok_def idem_ok_def msg_outbox_ok_def empty_msg_db_def)

section \<open>Successful calls\<close>

lemma sql_insert_message_InrD:
  assumes "sql_insert_message jb m d = Inr (d', u)"
  shows "\<exists>md. d' = d\<lparr>messages := messages d @ [\<lparr>w_id = g_ID m, w_conv = g_ConversationID m, w_sender = g_SenderID m,
      w_seq = g_Sequence m, w_type = g_Type m, w_content = g_Content m, w_metadata = md, w_deleted_at = None,
      w_sent_at = g_SentAt m\<rparr>]\<rparr>
    \<and> (\<forall>r \<in> set (messages d). w_id r \<noteq> g_ID m \<and> \<not> (w_conv r = g_ConversationID m \<and> w_seq r = g_Sequence m))"
  using assms by (auto simp: sql_insert_message_def Let_def split: if_splits)

text \<open>The tables after a new message: its row, its event, and its answer under the key.\<close>

definition sent_tables ::
  "('w, 'j, 'b) msg_deps \<Rightarrow> SendMessageCommand \<Rightarrow> Message \<Rightarrow> int \<Rightarrow> ('j, 'b) msg_db \<Rightarrow> ('j, 'b) msg_db \<Rightarrow> bool" where
  "sent_tables md cmd m now d d' \<longleftrightarrow>
     (\<exists>d1 j b b'.
        sql_insert_message (md_jsonb md) m d = Inr (d1, ())
        \<and> md_json_enc md m = Inr j
        \<and> enc_event (md_codec md) (MessageSentEvent (Some (sent_pb m))) = Inr b
        \<and> enc_env (md_codec md) (EventEnvelope EVENT_TYPE_MESSAGE_SENT 1 now b) = Inr b'
        \<and> d' = (let d2 = sql_insert_msg_outbox now ''message'' (g_ConversationID m) ''MESSAGE_SENT'' b' d1 in
            d2\<lparr>idempotency_keys := map (\<lambda>y. if same_key (sm_ClientMsgID cmd) (sm_UserID cmd) (sm_ConversationID cmd) y
                 then y\<lparr>y_payload := Some j\<rparr> else y) (idempotency_keys d2)\<rparr>))"

lemma InsertMessage_InrD:
  "InsertMessage md tx m s = (Inr u, t) \<Longrightarrow>
     sql_insert_message (md_jsonb md) m (s_db s) = Inr (s_db t, ()) \<and> s_world t = s_world s \<and> s_now t = s_now s
     \<and> s_aborted t = s_aborted s"
  by (auto simp: InsertMessage_def dest!: stmt_InrD)

lemma msg_InsertOutbox_InrD:
  "msg_InsertOutbox tx a i e b s = (Inr u, t) \<Longrightarrow>
     s_db t = sql_insert_msg_outbox (s_now s) a i e b (s_db s) \<and> s_world t = s_world s \<and> s_now t = s_now s
     \<and> s_aborted t = s_aborted s"
  by (auto simp: msg_InsertOutbox_def bindE_Inr_iff dest!: stmt_total_InrD)

lemma store_message_InrD:
  assumes "store_message md cmd m s = (Inr m', t)"
  shows "m' = m \<and> sent_tables md cmd m (s_now s) (s_db s) (s_db t) \<and> s_world t = s_world s"
proof -
  from assms obtain s1 j b b' s2 where
      ins: "InsertMessage md True m s = (Inr (), s1)" and j: "md_json_enc md m = Inr j"
    and b: "enc_event (md_codec md) (MessageSentEvent (Some (sent_pb m))) = Inr b"
    and b': "enc_env (md_codec md) (EventEnvelope EVENT_TYPE_MESSAGE_SENT 1 (s_now s1) b) = Inr b'"
    and out: "msg_InsertOutbox True ''message'' (g_ConversationID m) ''MESSAGE_SENT'' b' s1 = (Inr (), s2)"
    and upd: "UpdateIdempotencyResponse True (sm_ClientMsgID cmd) (sm_UserID cmd) (sm_ConversationID cmd) j s2
        = (Inr (), t)"
    and m': "m' = m"
    by (auto simp: store_message_def bindE_Inr_iff)
  note i = InsertMessage_InrD [OF ins] and o = msg_InsertOutbox_InrD [OF out]
    and u = stmt_total_InrD [OF upd [unfolded UpdateIdempotencyResponse_def]]
  show ?thesis
    unfolding sent_tables_def Let_def using i o u j b b' m' by (intro conjI exI [of _ "s_db s1"]) auto
qed

text \<open>A new message comes from an answer of the conversation service that lists the sender.\<close>

definition world_conv_calls ::
  "('w, 'j, 'b) msg_deps \<Rightarrow> bool \<Rightarrow> string \<Rightarrow> 'w \<Rightarrow> pb_get_conversation_response \<Rightarrow> int \<Rightarrow> 'w \<Rightarrow> bool" where
  "world_conv_calls md seqFirst i w resp n w' \<longleftrightarrow>
     (if seqFirst
      then \<exists>w1. md_NextSequence md i w = (Inr n, w1) \<and> md_GetConversation md i w1 = (Inr resp, w')
      else \<exists>w1. md_GetConversation md i w = (Inr resp, w1) \<and> md_NextSequence md i w1 = (Inr n, w'))"

lemma on_world_eq_iff:
  "on_world f s = (r, t) \<longleftrightarrow> (\<exists>w. f (s_world s) = (r, w) \<and> t = s\<lparr>s_world := w\<rparr>)"
  by (auto simp: on_world_def split: prod.splits)

lemma parallelConvCalls_InrD:
  assumes "parallelConvCalls md seqFirst i s = (Inr (resp, n), t)"
  shows "world_conv_calls md seqFirst i (s_world s) resp n (s_world t)
    \<and> s_db t = s_db s \<and> s_now t = s_now s \<and> s_aborted t = s_aborted s"
  using assms
  by (cases seqFirst)
    (auto simp: parallelConvCalls_def Let_def attempt_def on_world_def world_conv_calls_def
      split: prod.splits sum.splits)

lemma send_new_InrD:
  assumes "send_new md seqFirst cmd s = (Inr m, t)"
  shows "\<exists>resp n w1 i w2. world_conv_calls md seqFirst (sm_ConversationID cmd) (s_world s) resp n w1
    \<and> sm_UserID cmd \<in> set (gr_ParticipantUserIds resp)
    \<and> md_uuid md w1 = (i, w2)
    \<and> NewMessage i (sm_ConversationID cmd) (sm_UserID cmd) n (sm_Type cmd) (sm_Content cmd) (sm_Metadata cmd) (s_now s)
        = Inr m
    \<and> sent_tables md cmd m (s_now s) (s_db s) (s_db t) \<and> s_world t = w2"
proof -
  from assms obtain resp n s1 where
      pc: "parallelConvCalls md seqFirst (sm_ConversationID cmd) s = (Inr (resp, n), s1)"
    and mem: "sm_UserID cmd \<in> set (gr_ParticipantUserIds resp)"
    and rest: "bindE (on_world (\<lambda>w. case md_uuid md w of (u, w') \<Rightarrow> (Inr u, w'))) (\<lambda>i.
         bindE get_now (\<lambda>now.
           case NewMessage i (sm_ConversationID cmd) (sm_UserID cmd) n (sm_Type cmd) (sm_Content cmd)
                  (sm_Metadata cmd) now of
             Inl e \<Rightarrow> throw (Wrapf ''failed to create new message'' (Domain e))
           | Inr msg \<Rightarrow> store_message md cmd msg)) s1 = (Inr m, t)"
    by (auto simp: send_new_def bindE_Inr_iff split: if_splits)
  note p = parallelConvCalls_InrD [OF pc]
  obtain i w2 where u: "md_uuid md (s_world s1) = (i, w2)" by fastforce
  with rest obtain msg where
      nm: "NewMessage i (sm_ConversationID cmd) (sm_UserID cmd) n (sm_Type cmd) (sm_Content cmd) (sm_Metadata cmd)
        (s_now s1) = Inr msg"
    and st: "store_message md cmd msg (s1\<lparr>s_world := w2\<rparr>) = (Inr m, t)"
    by (auto simp: bindE_Inr_iff on_world_eq_iff split: sum.splits)
  from store_message_InrD [OF st] have "m = msg" "sent_tables md cmd m (s_now s) (s_db s) (s_db t)" "s_world t = w2"
    using p by auto
  with p mem u nm show ?thesis by auto
qed

text \<open>The key row of a command and its insertion.\<close>

definition key_row :: "SendMessageCommand \<Rightarrow> int \<Rightarrow> 'j idem_row" where
  "key_row cmd now = \<lparr>y_key = sm_ClientMsgID cmd, y_user = sm_UserID cmd, y_conv = sm_ConversationID cmd,
     y_payload = None, y_created_at = now, y_expires_at = now + 24 * 60 * 60\<rparr>"

definition stored_key :: "SendMessageCommand \<Rightarrow> ('j, 'b) msg_db \<Rightarrow> 'j idem_row option" where
  "stored_key cmd d =
     find (same_key (sm_ClientMsgID cmd) (sm_UserID cmd) (sm_ConversationID cmd)) (idempotency_keys d)"

lemma stored_key_None_iff:
  "stored_key cmd d = None \<longleftrightarrow>
     \<not> (\<exists>y \<in> set (idempotency_keys d). same_key (sm_ClientMsgID cmd) (sm_UserID cmd) (sm_ConversationID cmd) y)"
  by (auto simp: stored_key_def find_None_iff)

lemma SendMessage_tx_InrD:
  assumes "SendMessage_tx md seqFirst cmd s = (Inr m, t)"
  shows "(\<exists>y b. stored_key cmd (s_db s) = Some y \<and> y_payload y = Some b \<and> md_json_dec md b = Inr m
      \<and> s_db t = s_db s \<and> s_world t = s_world s)
    \<or> (\<exists>s1 d1. send_new md seqFirst cmd s1 = (Inr m, t) \<and> s_now s1 = s_now s \<and> s_world s1 = s_world s \<and> s_db s1 = d1
      \<and> (case stored_key cmd (s_db s) of
           None \<Rightarrow> d1 = (s_db s)\<lparr>idempotency_keys := idempotency_keys (s_db s) @ [key_row cmd (s_now s)]\<rparr>
         | Some y \<Rightarrow> y_payload y = None \<and> d1 = s_db s))"
proof -
  let ?tr = "TryInsertIdempotency True (sm_ClientMsgID cmd) (sm_UserID cmd) (sm_ConversationID cmd) (s_now s + 24 * 60 * 60)"
  from assms obtain owned s1 where t: "?tr s = (Inr owned, s1)"
    and k: "(if owned then send_new md seqFirst cmd
       else bindE (wrap_err ''failed to fetch idempotency response''
                  (GetIdempotencyForUpdate True (sm_ClientMsgID cmd) (sm_UserID cmd) (sm_ConversationID cmd)))
           (\<lambda>payload. case payload of
                None \<Rightarrow> send_new md seqFirst cmd
              | Some b \<Rightarrow> wrap_err ''failed to unmarshal cached message'' (lift_res (md_json_dec md b)))) s1 = (Inr m, t)"
    by (auto simp: SendMessage_tx_def bindE_Inr_iff)
  from t have tr: "s_world s1 = s_world s" "s_now s1 = s_now s"
    "owned = (stored_key cmd (s_db s) = None)"
    "s_db s1 = (if owned then (s_db s)\<lparr>idempotency_keys := idempotency_keys (s_db s) @ [key_row cmd (s_now s)]\<rparr> else s_db s)"
    unfolding stored_key_None_iff key_row_def
    by (auto simp: TryInsertIdempotency_def bindE_Inr_iff split: if_splits dest!: stmt_InrD)
  show ?thesis
  proof (cases owned)
    case True
    with k tr show ?thesis by (intro disjI2 exI [of _ s1]) auto
  next
    case False
    with tr(3) obtain y where y: "stored_key cmd (s_db s) = Some y" by auto
    from k False obtain payload s2 where
        g: "GetIdempotencyForUpdate True (sm_ClientMsgID cmd) (sm_UserID cmd) (sm_ConversationID cmd) s1 = (Inr payload, s2)"
      and k2: "(case payload of None \<Rightarrow> send_new md seqFirst cmd
              | Some b \<Rightarrow> wrap_err ''failed to unmarshal cached message'' (lift_res (md_json_dec md b))) s2 = (Inr m, t)"
      by (auto simp: bindE_Inr_iff)
    from query_InrD [OF g [unfolded GetIdempotencyForUpdate_def]]
    have q: "s_db s2 = s_db s1" "s_world s2 = s_world s1" "s_now s2 = s_now s1" "payload = y_payload y"
      using y False tr by (auto simp: stored_key_def)
    show ?thesis
    proof (cases payload)
      case None
      with k2 q tr False y show ?thesis by (intro disjI2 exI [of _ s2]) auto
    next
      case (Some b)
      from k2 Some have "md_json_dec md b = Inr m" "t = s2" by auto
      with q tr False y Some show ?thesis by (intro disjI1 exI [of _ y] exI [of _ b]) simp
    qed
  qed
qed

end
