(* ===== verification/MsgOps.thy ===== *)
theory MsgOps
  imports MsgInv Monotone
begin

text \<open>
  Every operation of the message service keeps the invariant of its tables, stored messages are never
  changed or dropped except for their deletion mark, and stored answers never change.
\<close>

section \<open>Sending keeps the invariant\<close>

text \<open>The tables inside the transaction, after the key was taken: only the command's own key has no answer.\<close>

definition idem_except :: "('w, 'j, 'b) msg_deps \<Rightarrow> SendMessageCommand \<Rightarrow> ('j, 'b) msg_db \<Rightarrow> bool" where
  "idem_except md cmd d \<longleftrightarrow>
     distinct (map (\<lambda>y. (y_key y, y_user y, y_conv y)) (idempotency_keys d))
     \<and> (\<forall>y \<in> set (idempotency_keys d). same_key (sm_ClientMsgID cmd) (sm_UserID cmd) (sm_ConversationID cmd) y
          \<or> (\<exists>r \<in> set (messages d). answers md y r))"

lemma idem_except_key_row:
  assumes "idem_ok md d" and "stored_key cmd d = None"
  shows "idem_except md cmd (d\<lparr>idempotency_keys := idempotency_keys d @ [key_row cmd now]\<rparr>)"
  using assms by (auto simp: idem_ok_def idem_except_def stored_key_None_iff key_row_def)

lemma idem_ok_payload:
  assumes "idem_ok md d" and "stored_key cmd d = Some y"
  shows "y_payload y \<noteq> None"
  using assms find_SomeD by (fastforce simp: idem_ok_def stored_key_def answers_def)

lemma sent_tables_rows:
  assumes "sent_tables md cmd m now d d'"
  shows "\<exists>r. messages d' = messages d @ [r] \<and> msg_of_row r = m\<lparr>g_Metadata := g_Metadata (msg_of_row r), g_DeletedAt := None\<rparr>
    \<and> w_deleted_at r = None
    \<and> (\<forall>r' \<in> set (messages d). w_id r' \<noteq> w_id r \<and> \<not> (w_conv r' = w_conv r \<and> w_seq r' = w_seq r))"
proof -
  from assms obtain d1 where ins: "sql_insert_message (md_jsonb md) m d = Inr (d1, ())"
    and d': "messages d' = messages d1"
    unfolding sent_tables_def by (auto simp: Let_def sql_insert_msg_outbox_def)
  from sql_insert_message_InrD [OF ins] d' show ?thesis by (auto simp: msg_of_row_def)
qed

lemma sent_tables_keys:
  assumes "sent_tables md cmd m now d d'"
  shows "\<exists>j. md_json_enc md m = Inr j \<and> idempotency_keys d' =
    map (\<lambda>y. if same_key (sm_ClientMsgID cmd) (sm_UserID cmd) (sm_ConversationID cmd) y
      then y\<lparr>y_payload := Some j\<rparr> else y) (idempotency_keys d)"
proof -
  from assms obtain d1 j where ins: "sql_insert_message (md_jsonb md) m d = Inr (d1, ())" and j: "md_json_enc md m = Inr j"
    and d': "idempotency_keys d' = map (\<lambda>y. if same_key (sm_ClientMsgID cmd) (sm_UserID cmd) (sm_ConversationID cmd) y
      then y\<lparr>y_payload := Some j\<rparr> else y) (idempotency_keys d1)"
    unfolding sent_tables_def by (auto simp: Let_def sql_insert_msg_outbox_def)
  from sql_insert_message_InrD [OF ins] j d' show ?thesis by auto
qed

lemma sent_tables_outbox:
  assumes "sent_tables md cmd m now d d'"
  shows "\<exists>b b'. enc_event (md_codec md) (MessageSentEvent (Some (sent_pb m))) = Inr b
    \<and> enc_env (md_codec md) (EventEnvelope EVENT_TYPE_MESSAGE_SENT 1 now b) = Inr b'
    \<and> msg_outbox d' = msg_outbox d @ [\<lparr>x_id = msg_outbox_serial d + 1, x_aggregate_type = ''message'',
        x_aggregate_id = g_ConversationID m, x_event_type = ''MESSAGE_SENT'', x_payload = b', x_created_at = now,
        x_processed_at = None\<rparr>]
    \<and> msg_outbox_serial d' = msg_outbox_serial d + 1"
proof -
  from assms obtain d1 b b' where ins: "sql_insert_message (md_jsonb md) m d = Inr (d1, ())"
    and b: "enc_event (md_codec md) (MessageSentEvent (Some (sent_pb m))) = Inr b"
      "enc_env (md_codec md) (EventEnvelope EVENT_TYPE_MESSAGE_SENT 1 now b) = Inr b'"
    and d': "msg_outbox d' = msg_outbox (sql_insert_msg_outbox now ''message'' (g_ConversationID m) ''MESSAGE_SENT'' b' d1)"
      "msg_outbox_serial d' = msg_outbox_serial d1 + 1"
    unfolding sent_tables_def by (auto simp: Let_def sql_insert_msg_outbox_def)
  from sql_insert_message_InrD [OF ins] b d' show ?thesis by (auto simp: sql_insert_msg_outbox_def)
qed

lemma msg_outbox_ok_append:
  assumes "msg_outbox_ok d" and "msg_outbox d' = msg_outbox d @ [e]" and "x_id e = msg_outbox_serial d + 1"
    and "msg_outbox_serial d' = msg_outbox_serial d + 1"
  shows "msg_outbox_ok d'"
  using assms unfolding msg_outbox_ok_def by fastforce

lemma distinct_map_same_key:
  "distinct (map (\<lambda>y. (y_key y, y_user y, y_conv y)) (map (\<lambda>y. if p y then y\<lparr>y_payload := v\<rparr> else y) ys))
     = distinct (map (\<lambda>y. (y_key y, y_user y, y_conv y)) ys)"
  by (induction ys) (auto simp: image_iff)

lemma sent_tables_inv:
  assumes json: "msg_json_ok md" and rows: "rows_ok d" and out: "msg_outbox_ok d" and idem: "idem_except md cmd d"
    and m: "msg_wf m" "g_DeletedAt m = None" "g_ConversationID m = sm_ConversationID cmd" "g_SenderID m = sm_UserID cmd"
    and sent: "sent_tables md cmd m now d d'"
  shows "msg_inv md d'"
proof -
  from sent_tables_rows [OF sent] obtain r where r: "messages d' = messages d @ [r]"
      "msg_of_row r = m\<lparr>g_Metadata := g_Metadata (msg_of_row r), g_DeletedAt := None\<rparr>"
      "\<forall>r' \<in> set (messages d). w_id r' \<noteq> w_id r \<and> \<not> (w_conv r' = w_conv r \<and> w_seq r' = w_seq r)"
    by blast
  then have core: "w_id r = g_ID m" "w_conv r = g_ConversationID m" "w_sender r = g_SenderID m" "w_seq r = g_Sequence m"
      "w_content r = g_Content m"
    by (cases m; simp add: msg_of_row_def)+
  have "msg_wf (msg_of_row r)" using m(1) core by (simp add: msg_wf_def msg_of_row_def)
  with rows r have rows': "rows_ok d'" by (auto simp: rows_ok_def image_iff)
  from sent_tables_keys [OF sent] obtain j where j: "md_json_enc md m = Inr j"
    and keys: "idempotency_keys d' = map (\<lambda>y. if same_key (sm_ClientMsgID cmd) (sm_UserID cmd) (sm_ConversationID cmd) y
      then y\<lparr>y_payload := Some j\<rparr> else y) (idempotency_keys d)"
    by blast
  from json j have "md_json_dec md j = Inr m" by (auto simp: msg_json_ok_def)
  with core m have ans: "answers md (y\<lparr>y_payload := Some j\<rparr>) r"
    if "same_key (sm_ClientMsgID cmd) (sm_UserID cmd) (sm_ConversationID cmd) y" for y
    using that by (auto simp: answers_def)
  have "idem_ok md d'"
    unfolding idem_ok_def
  proof (intro conjI ballI)
    show "distinct (map (\<lambda>y. (y_key y, y_user y, y_conv y)) (idempotency_keys d'))"
      unfolding keys distinct_map_same_key using idem by (simp add: idem_except_def)
    fix y assume "y \<in> set (idempotency_keys d')"
    then obtain y0 where y0: "y0 \<in> set (idempotency_keys d)"
      "y = (if same_key (sm_ClientMsgID cmd) (sm_UserID cmd) (sm_ConversationID cmd) y0
        then y0\<lparr>y_payload := Some j\<rparr> else y0)"
      unfolding keys by auto
    with idem r(1) ans show "\<exists>r \<in> set (messages d'). answers md y r"
      unfolding idem_except_def by (cases "same_key (sm_ClientMsgID cmd) (sm_UserID cmd) (sm_ConversationID cmd) y0") auto
  qed
  moreover have "msg_outbox_ok d'"
    using sent_tables_outbox [OF sent] msg_outbox_ok_append [OF out] by fastforce
  ultimately show ?thesis using rows' by (simp add: msg_inv_def)
qed

text \<open>What a committed send did: it answered with the stored message, or stored a new one.\<close>

lemma SendMessage_tx_cases:
  assumes inv: "msg_inv md (s_db s)" and run: "SendMessage_tx md seqFirst cmd s = (Inr m, t)"
  shows "(\<exists>y b. stored_key cmd (s_db s) = Some y \<and> y_payload y = Some b \<and> md_json_dec md b = Inr m
      \<and> s_db t = s_db s \<and> s_world t = s_world s)
    \<or> (\<exists>resp n w1 i w2. stored_key cmd (s_db s) = None
      \<and> world_conv_calls md seqFirst (sm_ConversationID cmd) (s_world s) resp n w1
      \<and> sm_UserID cmd \<in> set (gr_ParticipantUserIds resp)
      \<and> md_uuid md w1 = (i, w2)
      \<and> NewMessage i (sm_ConversationID cmd) (sm_UserID cmd) n (sm_Type cmd) (sm_Content cmd) (sm_Metadata cmd) (s_now s)
          = Inr m
      \<and> sent_tables md cmd m (s_now s)
          ((s_db s)\<lparr>idempotency_keys := idempotency_keys (s_db s) @ [key_row cmd (s_now s)]\<rparr>) (s_db t)
      \<and> s_world t = w2)"
  using SendMessage_tx_InrD [OF run]
proof (elim disjE exE conjE)
  fix s1 d1 assume new: "send_new md seqFirst cmd s1 = (Inr m, t)"
    and s1: "s_now s1 = s_now s" "s_world s1 = s_world s" "s_db s1 = d1"
    and d1: "case stored_key cmd (s_db s) of
         None \<Rightarrow> d1 = (s_db s)\<lparr>idempotency_keys := idempotency_keys (s_db s) @ [key_row cmd (s_now s)]\<rparr>
       | Some y \<Rightarrow> y_payload y = None \<and> d1 = s_db s"
  have none: "stored_key cmd (s_db s) = None"
    using inv d1 idem_ok_payload [of md "s_db s" cmd] by (cases "stored_key cmd (s_db s)") (auto simp: msg_inv_def)
  with d1 have "d1 = (s_db s)\<lparr>idempotency_keys := idempotency_keys (s_db s) @ [key_row cmd (s_now s)]\<rparr>" by simp
  with send_new_InrD [OF new] s1 none show ?thesis by (intro disjI2) simp
qed blast

lemma SendMessage_tx_inv:
  assumes json: "msg_json_ok md" and inv: "msg_inv md (s_db s)" and run: "SendMessage_tx md seqFirst cmd s = (Inr m, t)"
  shows "msg_inv md (s_db t)"
  using SendMessage_tx_cases [OF inv run]
proof (elim disjE exE conjE)
  fix resp n w1 i w2
  assume none: "stored_key cmd (s_db s) = None"
    and new: "NewMessage i (sm_ConversationID cmd) (sm_UserID cmd) n (sm_Type cmd) (sm_Content cmd) (sm_Metadata cmd)
      (s_now s) = Inr m"
    and sent: "sent_tables md cmd m (s_now s)
      ((s_db s)\<lparr>idempotency_keys := idempotency_keys (s_db s) @ [key_row cmd (s_now s)]\<rparr>) (s_db t)"
  show ?thesis
  proof (rule sent_tables_inv [OF json _ _ idem_except_key_row _ _ _ _ sent])
    show "idem_ok md (s_db s)" and "stored_key cmd (s_db s) = None" using inv none by (simp_all add: msg_inv_def)
  qed (use inv new NewMessage_wf [OF new] in \<open>auto simp: msg_inv_def rows_ok_def msg_outbox_ok_def NewMessage_Inr_iff\<close>)
qed (use inv in simp)

lemma SendMessage_inv:
  "msg_json_ok md \<Longrightarrow> msg_inv md (s_db s) \<Longrightarrow> msg_inv md (s_db (snd (SendMessage md seqFirst cmd s)))"
  unfolding SendMessage_def msg_WithTx_def by (rule txm.preserves) (auto intro: SendMessage_tx_inv)

section \<open>Deleting\<close>

definition mark_deleted :: "int \<Rightarrow> string \<Rightarrow> ('j, 'b) msg_db \<Rightarrow> ('j, 'b) msg_db" where
  "mark_deleted now i d =
     d\<lparr>messages := map (\<lambda>r. if w_id r = i then r\<lparr>w_deleted_at := Some now\<rparr> else r) (messages d)\<rparr>"

lemma delete_marked_InrD:
  assumes "delete_marked md cmd m s = (Inr u, t)"
  shows "(g_DeletedAt m \<noteq> None \<and> s_db t = s_db s \<and> s_world t = s_world s)
    \<or> (g_DeletedAt m = None \<and> s_world t = s_world s \<and> (\<exists>b b'.
        enc_event (md_codec md) (MessageDeletedEvent (dm_ConversationID cmd) (dm_MessageID cmd)) = Inr b
        \<and> enc_env (md_codec md) (EventEnvelope EVENT_TYPE_MESSAGE_DELETED 1 (s_now s) b) = Inr b'
        \<and> s_db t = sql_insert_msg_outbox (s_now s) ''message'' (dm_ConversationID cmd) ''MESSAGE_DELETED'' b'
            (mark_deleted (s_now s) (dm_MessageID cmd) (s_db s))))"
proof (cases "g_DeletedAt m")
  case (Some x)
  with assms show ?thesis by (simp add: delete_marked_def)
next
  case None
  with assms obtain s1 b b' where mk: "MarkMessageDeleted True (dm_MessageID cmd) s = (Inr (), s1)"
    and b: "enc_event (md_codec md) (MessageDeletedEvent (dm_ConversationID cmd) (dm_MessageID cmd)) = Inr b"
      "enc_env (md_codec md) (EventEnvelope EVENT_TYPE_MESSAGE_DELETED 1 (s_now s1) b) = Inr b'"
    and out: "msg_InsertOutbox True ''message'' (dm_ConversationID cmd) ''MESSAGE_DELETED'' b' s1 = (Inr (), t)"
    by (auto simp: delete_marked_def bindE_Inr_iff)
  from mk have "s_db s1 = mark_deleted (s_now s) (dm_MessageID cmd) (s_db s)" "s_world s1 = s_world s" "s_now s1 = s_now s"
    by (auto simp: MarkMessageDeleted_def mark_deleted_def bindE_Inr_iff dest!: stmt_total_InrD)
  with msg_InsertOutbox_InrD [OF out] b None show ?thesis by auto
qed

text \<open>A successful deletion: the requester is the sender, or an administrator in an answer of the conversation service.\<close>

lemma DeleteMessage_tx_InrD:
  assumes "DeleteMessage_tx md cmd s = (Inr u, t)"
  shows "\<exists>r s1. find (\<lambda>r. w_id r = dm_MessageID cmd) (messages (s_db s)) = Some r
    \<and> w_conv r = dm_ConversationID cmd
    \<and> (w_sender r = dm_RequesterID cmd \<and> s_world s1 = s_world s
       \<or> (\<exists>resp. md_GetConversation md (dm_ConversationID cmd) (s_world s) = (Inr resp, s_world s1)
            \<and> pb_admin (dm_RequesterID cmd) resp))
    \<and> s_db s1 = s_db s \<and> s_now s1 = s_now s \<and> delete_marked md cmd (msg_of_row r) s1 = (Inr u, t)"
proof -
  from assms obtain m s0 where g: "GetMessageForUpdate True (dm_MessageID cmd) s = (Inr m, s0)"
    and c: "g_ConversationID m = dm_ConversationID cmd"
    and k: "(if g_SenderID m \<noteq> dm_RequesterID cmd
       then bindE (on_world (md_GetConversation md (dm_ConversationID cmd))) (\<lambda>convResp.
              if pb_admin (dm_RequesterID cmd) convResp then delete_marked md cmd m
              else throw (Domain ErrNotParticipant))
       else delete_marked md cmd m) s0 = (Inr u, t)"
    by (auto simp: DeleteMessage_tx_def bindE_Inr_iff split: if_splits)
  from g obtain r where r: "find (\<lambda>r. w_id r = dm_MessageID cmd) (messages (s_db s)) = Some r" "m = msg_of_row r"
      and s0: "s_db s0 = s_db s" "s_world s0 = s_world s" "s_now s0 = s_now s"
    by (auto simp: GetMessageForUpdate_def bindE_Inr_iff split: option.splits dest!: query_InrD)
  show ?thesis
  proof (cases "g_SenderID m = dm_RequesterID cmd")
    case True
    with k r s0 c show ?thesis by (intro exI [of _ r] exI [of _ s0]) (auto simp: msg_of_row_def)
  next
    case False
    with k obtain resp s1 where w: "on_world (md_GetConversation md (dm_ConversationID cmd)) s0
        = (Inr resp :: msg_err go_error + _, s1)"
      and a: "pb_admin (dm_RequesterID cmd) resp" and d: "delete_marked md cmd m s1 = (Inr u, t)"
      by (auto simp: bindE_Inr_iff split: if_splits)
    from on_world_InrD [OF w] a d r s0 c show ?thesis
      by (intro exI [of _ r] exI [of _ s1]) (auto simp: msg_of_row_def)
  qed
qed

lemma mark_deleted_messages:
  "map row_core (messages (mark_deleted now i d)) = map row_core (messages d)"
  by (auto simp: mark_deleted_def row_core_def)

lemma answers_core:
  assumes "answers md y r" and "row_core r' = row_core r"
  shows "answers md y r'"
  using assms by (simp add: answers_def row_core_def)

lemma core_in_set:
  assumes "map row_core xs = map row_core ys" and "r \<in> set ys"
  shows "\<exists>r' \<in> set xs. row_core r' = row_core r"
  using assms by (metis (no_types, lifting) image_iff image_set)

lemma msg_wf_core: "row_core r' = row_core r \<Longrightarrow> msg_wf (msg_of_row r') = msg_wf (msg_of_row r)"
  by (simp add: row_core_def msg_wf_def msg_of_row_def)

lemma rows_ok_core:
  assumes "map row_core (messages d') = map row_core (messages d)" and "rows_ok d"
  shows "rows_ok d'"
proof -
  have "map w_id (messages d') = map w_id (messages d)"
    using arg_cong [OF assms(1), of "map fst"] by (simp add: row_core_def comp_def)
  moreover have "map (\<lambda>r. (w_conv r, w_seq r)) (messages d') = map (\<lambda>r. (w_conv r, w_seq r)) (messages d)"
    using arg_cong [OF assms(1), of "map (\<lambda>(i, c, u, n, _). (c, n))"] by (simp add: row_core_def comp_def)
  moreover have "\<forall>r \<in> set (messages d'). msg_wf (msg_of_row r)"
    using assms msg_wf_core core_in_set [OF assms(1) [symmetric]] unfolding rows_ok_def by metis
  ultimately show ?thesis using assms(2) by (simp add: rows_ok_def)
qed

lemma mark_deleted_inv: "msg_inv md d \<Longrightarrow> msg_inv md (mark_deleted now i d)"
proof -
  assume inv: "msg_inv md d"
  have core: "map row_core (messages (mark_deleted now i d)) = map row_core (messages d)"
    by (rule mark_deleted_messages)
  have "idem_ok md (mark_deleted now i d)"
    using inv core_in_set [OF core] answers_core unfolding msg_inv_def idem_ok_def
    by (simp add: mark_deleted_def) blast
  with inv rows_ok_core [OF core] show ?thesis by (simp add: msg_inv_def msg_outbox_ok_def mark_deleted_def)
qed

lemma msg_outbox_inv: "msg_inv md d \<Longrightarrow> msg_inv md (sql_insert_msg_outbox now a i e b d)"
  by (auto simp: msg_inv_def sql_insert_msg_outbox_def rows_ok_def idem_ok_def msg_outbox_ok_def)

lemma DeleteMessage_inv: "msg_inv md (s_db s) \<Longrightarrow> msg_inv md (s_db (snd (DeleteMessage md cmd s)))"
  unfolding DeleteMessage_def msg_WithTx_def
proof (rule txm.preserves)
  fix s1 u s2 assume inv: "msg_inv md (s_db s1)" and run: "DeleteMessage_tx md cmd s1 = (Inr u, s2)"
  from DeleteMessage_tx_InrD [OF run] obtain r s3 where "s_db s3 = s_db s1" "delete_marked md cmd (msg_of_row r) s3 = (Inr u, s2)"
    by blast
  with delete_marked_InrD [OF this(2)] inv show "msg_inv md (s_db s2)"
    by (elim disjE conjE exE) (simp_all add: mark_deleted_inv msg_outbox_inv)
qed

section \<open>New rows\<close>

lemma SendMessage_new_rows:
  assumes inv: "msg_inv md (s_db s)" and m: "m \<in> set (messages (s_db (snd (SendMessage md seqFirst cmd s))))"
    and new: "row_core m \<notin> row_core ` set (messages (s_db s))"
  shows "w_sender m = sm_UserID cmd \<and> w_conv m = sm_ConversationID cmd"
proof -
  let ?R = "\<lambda>d d'. \<forall>x \<in> set (messages d'). row_core x \<notin> row_core ` set (messages d) \<longrightarrow>
      w_sender x = sm_UserID cmd \<and> w_conv x = sm_ConversationID cmd"
  have "?R (s_db s) (s_db (snd (SendMessage md seqFirst cmd s)))"
    unfolding SendMessage_def msg_WithTx_def
  proof (rule txm.relates [where R = ?R])
    fix s1 a s2 assume s1: "s_db s1 = s_db s" and run: "SendMessage_tx md seqFirst cmd s1 = (Inr a, s2)"
    have "msg_inv md (s_db s1)" using inv s1 by simp
    from SendMessage_tx_cases [OF this run] show "?R (s_db s) (s_db s2)"
      unfolding s1
    proof (elim disjE exE conjE)
      fix resp n w1 i w2
      assume nm: "NewMessage i (sm_ConversationID cmd) (sm_UserID cmd) n (sm_Type cmd) (sm_Content cmd)
          (sm_Metadata cmd) (s_now s1) = Inr a"
        and sent: "sent_tables md cmd a (s_now s1)
          ((s_db s)\<lparr>idempotency_keys := idempotency_keys (s_db s) @ [key_row cmd (s_now s1)]\<rparr>) (s_db s2)"
      from sent_tables_rows [OF sent] obtain row where row: "messages (s_db s2) = messages (s_db s) @ [row]"
        "msg_of_row row = a\<lparr>g_Metadata := g_Metadata (msg_of_row row), g_DeletedAt := None\<rparr>" by auto
      from arg_cong [OF row(2), of g_SenderID] arg_cong [OF row(2), of g_ConversationID] nm
      have "w_sender row = sm_UserID cmd" "w_conv row = sm_ConversationID cmd"
        by (auto simp: msg_of_row_def NewMessage_Inr_iff)
      with row(1) show ?thesis by auto
    qed simp
  qed simp
  with m new show ?thesis by blast
qed

lemma DeleteMessage_cores:
  "map row_core (messages (s_db (snd (DeleteMessage md cmd s)))) = map row_core (messages (s_db s))"
  unfolding DeleteMessage_def msg_WithTx_def
proof (rule txm.relates)
  fix s1 u s2 assume s1: "s_db s1 = s_db s" and run: "DeleteMessage_tx md cmd s1 = (Inr u, s2)"
  from DeleteMessage_tx_InrD [OF run] obtain r s3 where
    s3: "s_db s3 = s_db s" and run: "delete_marked md cmd (msg_of_row r) s3 = (Inr u, s2)" unfolding s1 by blast
  from delete_marked_InrD [OF run] show "map row_core (messages (s_db s2)) = map row_core (messages (s_db s))"
    unfolding s3 by (elim disjE conjE exE) (simp_all add: mark_deleted_messages sql_insert_msg_outbox_def)
qed simp

section \<open>Syncing\<close>

lemma SyncMessages_db: "s_db (snd (SyncMessages md c u n ps s)) = s_db s"
proof -
  have "only_reads (SyncMessages md c u n ps)"
    unfolding SyncMessages_def FetchMessages_def by (intro only_reads_rules)
  from only_readsD(1) [OF this] show ?thesis by (metis prod.collapse)
qed

end
