(* ===== verification/MsgWorker.thy ===== *)
theory MsgWorker
  imports MsgOps Kafka
begin

text \<open>
  \<^verbatim>\<open>services/message/internal/outbox/worker.go\<close>: one poll of the outbox of the message service. Unlike
  the worker of the conversation service, the first failure undoes the marks of the whole batch, so
  that everything published before it is published again by the next poll.
\<close>

definition msg_pending :: "('j, 'b) msg_db \<Rightarrow> 'b msg_outbox_row list" where
  "msg_pending d = sort_key x_id (filter (\<lambda>e. x_processed_at e = None) (msg_outbox d))"

text \<open>\<^verbatim>\<open>internal/kafka/producer.go\<close> is the producer of the conversation service.\<close>

definition msg_Publish :: "('w, 'b) producer \<Rightarrow> string \<Rightarrow> 'b \<Rightarrow> 'w \<Rightarrow> (msg_err go_error + unit) \<times> 'w" where
  "msg_Publish = Publish"

definition msg_mark :: "int \<Rightarrow> nat \<Rightarrow> ('j, 'b) msg_db \<Rightarrow> ('j, 'b) msg_db" where
  "msg_mark now i d =
     d\<lparr>msg_outbox := map (\<lambda>e. if x_id e = i then e\<lparr>x_processed_at := Some now\<rparr> else e) (msg_outbox d)\<rparr>"

fun msg_publish_events :: "('w, 'b) producer \<Rightarrow> 'b msg_outbox_row list \<Rightarrow> ('w, 'j, 'b, unit) msg_prog" where
  "msg_publish_events p [] = ret ()"
| "msg_publish_events p (e # es) =
     bindE (on_world (msg_Publish p (x_aggregate_id e) (x_payload e))) (\<lambda>_.
     bindE get_now (\<lambda>now.
     bindE (stmt True (\<lambda>d. Inr (msg_mark now (x_id e) d, ()))) (\<lambda>_.
       msg_publish_events p es)))"

text \<open>\<open>False\<close> is the early return of an empty batch, which rolls back and sleeps.\<close>

definition msg_batch_body :: "nat \<Rightarrow> ('w, 'b) producer \<Rightarrow> ('w, 'j, 'b, bool) msg_prog" where
  "msg_batch_body batchSize p =
     bindE (query True (\<lambda>d. take batchSize (msg_pending d))) (\<lambda>events.
       if events = [] then ret False
       else bindE (msg_publish_events p events) (\<lambda>_. ret True))"

definition msg_processBatch :: "nat \<Rightarrow> ('w, 'b) producer \<Rightarrow> ('w, 'j, 'b, unit) msg_prog" where
  "msg_processBatch batchSize p s =
     (case take_outcome s of (oc, s0) \<Rightarrow>
       (case oc of
          Fails t \<Rightarrow> (Inl (Plain t), s0)
        | Lost \<Rightarrow> (Inl (Plain err_bad_conn), s0)
        | Proceed \<Rightarrow>
            (case msg_batch_body batchSize p (s0\<lparr>s_aborted := False\<rparr>) of
               (Inl err, s1) \<Rightarrow> (Inl err, rollback s0 s1)
             | (Inr False, s1) \<Rightarrow> (Inr (), rollback s0 s1)
             | (Inr True, s1) \<Rightarrow>
                 (case commit s0 s1 of
                    (Some err, s2) \<Rightarrow> (Inl err, s2)
                  | (None, s2) \<Rightarrow> (Inr (), s2)))))"

section \<open>A batch in closed form\<close>

definition msg_marks :: "int \<Rightarrow> 'b msg_outbox_row list \<Rightarrow> ('j, 'b) msg_db \<Rightarrow> ('j, 'b) msg_db" where
  "msg_marks now es d =
     d\<lparr>msg_outbox := map (\<lambda>e. if x_id e \<in> x_id ` set es then e\<lparr>x_processed_at := Some now\<rparr> else e) (msg_outbox d)\<rparr>"

lemma msg_marks_Nil [simp]: "msg_marks now [] d = d"
  by (simp add: msg_marks_def)

lemma msg_marks_Cons: "msg_marks now es (msg_mark now (x_id e) d) = msg_marks now (e # es) d"
  by (auto simp: msg_marks_def msg_mark_def)

definition kmsg_of :: "('w, 'b) producer \<Rightarrow> 'b msg_outbox_row \<Rightarrow> 'b kafka_msg" where
  "kmsg_of p e = Publish_msg p (x_aggregate_id e) (x_payload e)"

text \<open>Every run of the loop extends the log; a successful one publishes the whole batch, in order.\<close>

lemma msg_publish_events_log:
  assumes broker: "broker_ok klog p" and "msg_publish_events p es s = (r, t)"
  shows "\<exists>ext. klog (s_world t) = klog (s_world s) @ ext
    \<and> ((\<exists>u. r = Inr u) \<longrightarrow> subseq (map (kmsg_of p) es) ext)"
  using assms(2)
proof (induction es arbitrary: s)
  case Nil
  then show ?case by auto
next
  case (Cons e es)
  obtain q :: "msg_err go_error + unit" and s1 where
    pub: "on_world (msg_Publish p (x_aggregate_id e) (x_payload e)) s = (q, s1)" by fastforce
  then have "msg_Publish p (x_aggregate_id e) (x_payload e) (s_world s) = (q, s_world s1)"
    by (auto simp: on_world_def split: prod.splits)
  from Publish_log [OF broker this [unfolded msg_Publish_def]] obtain ext where
    ext: "klog (s_world s1) = klog (s_world s) @ ext" "(\<exists>u. q = Inr u) \<longrightarrow> kmsg_of p e \<in> set ext"
    by (auto simp: kmsg_of_def)
  show ?case
  proof (cases q)
    case (Inl err)
    with Cons.prems pub ext show ?thesis by auto
  next
    case (Inr u)
    let ?m = "stmt True (\<lambda>d. Inr (msg_mark (s_now s1) (x_id e) d, ())) :: ('a, 'c, 'b, unit) msg_prog"
    obtain q2 s2 where mk: "?m s1 = (q2, s2)" by fastforce
    have w2: "s_world s2 = s_world s1" by (rule stmt_world_eq [OF mk])
    show ?thesis
    proof (cases q2)
      case (Inl err)
      with Cons.prems pub Inr mk w2 ext show ?thesis by auto
    next
      case (Inr u2)
      with Cons.prems pub \<open>q = Inr u\<close> mk have "msg_publish_events p es s2 = (r, t)" by simp
      from Cons.IH [OF this] obtain ext2 where e2: "klog (s_world t) = klog (s_world s2) @ ext2"
        "(\<exists>u. r = Inr u) \<longrightarrow> subseq (map (kmsg_of p) es) ext2" by blast
      from ext \<open>q = Inr u\<close> have "subseq [kmsg_of p e] ext" by (simp add: subseq_singleton_left)
      with e2(2) have "(\<exists>u. r = Inr u) \<longrightarrow> subseq ([kmsg_of p e] @ map (kmsg_of p) es) (ext @ ext2)"
        using list_emb_append_mono by blast
      with e2(1) ext(1) w2 show ?thesis by (intro exI [of _ "ext @ ext2"]) simp
    qed
  qed
qed

lemma msg_publish_events_db:
  assumes "msg_publish_events p es s = (Inr u, t)"
  shows "s_db t = msg_marks (s_now s) es (s_db s)"
  using assms
proof (induction es arbitrary: s)
  case (Cons e es)
  then obtain s1 s2 where pub: "on_world (msg_Publish p (x_aggregate_id e) (x_payload e)) s
      = (Inr () :: msg_err go_error + unit, s1)"
    and mk: "stmt True (\<lambda>d. Inr (msg_mark (s_now s1) (x_id e) d, ())) s1 = (Inr () :: msg_err go_error + unit, s2)"
    and rest: "msg_publish_events p es s2 = (Inr u, t)"
    by (auto simp: bindE_Inr_iff)
  from on_world_InrD [OF pub] stmt_total_InrD [OF mk]
  have s2: "s_db s2 = msg_mark (s_now s) (x_id e) (s_db s)" "s_now s2 = s_now s" by auto
  from Cons.IH [OF rest] show ?case by (simp only: s2 msg_marks_Cons)
qed simp

text \<open>A poll leaves the tables as they were, or has published and marked the whole batch.\<close>

lemma msg_batch_body_cases:
  fixes s :: "(('j, 'b) msg_db, 'w) sess"
  assumes body: "msg_batch_body n p s = (q, s1)"
  shows "\<exists>ext. (broker_ok klog p \<longrightarrow> klog (s_world s1) = klog (s_world s) @ ext)
    \<and> (q = Inr True \<longrightarrow> s_db s1 = msg_marks (s_now s) (take n (msg_pending (s_db s))) (s_db s)
        \<and> (broker_ok klog p \<longrightarrow> subseq (map (kmsg_of p) (take n (msg_pending (s_db s)))) ext))"
proof -
  let ?q = "query True (\<lambda>d. take n (msg_pending d)) :: ('w, 'j, 'b, 'b msg_outbox_row list) msg_prog"
  obtain qr sq where qu: "?q s = (qr, sq)" by fastforce
  have w: "s_world sq = s_world s" "s_db sq = s_db s" "s_now sq = s_now s"
    using qu by (cases qr; auto dest!: query_InlD query_InrD)+
  have qv: "qr = Inr es \<Longrightarrow> es = take n (msg_pending (s_db s))" for es
    using qu by (auto dest!: query_InrD)
  show ?thesis
  proof (cases "(\<exists>e. qr = Inl e) \<or> qr = Inr []")
    case True
    with body qu w show ?thesis
      by (intro exI [of _ "[]"]) (auto simp: msg_batch_body_def bindE_def attempt_def)
  next
    case False
    then obtain es where es: "qr = Inr es" "es \<noteq> []" by (cases qr) auto
    obtain pr sp where pe: "msg_publish_events p es sq = (pr, sp)" by fastforce
    with body qu es have q: "q = (case pr of Inl e \<Rightarrow> Inl e | Inr _ \<Rightarrow> Inr True)" "s1 = sp"
      by (auto simp: msg_batch_body_def bindE_def attempt_def split: sum.splits)
    have "\<exists>ext. broker_ok klog p \<longrightarrow> klog (s_world sp) = klog (s_world sq) @ ext
        \<and> ((\<exists>u. pr = Inr u) \<longrightarrow> subseq (map (kmsg_of p) es) ext)"
      using msg_publish_events_log [OF _ pe, of klog] by blast
    moreover have "pr = Inr u \<Longrightarrow> s_db sp = msg_marks (s_now sq) es (s_db sq)" for u
      using msg_publish_events_db pe by blast
    ultimately show ?thesis using q w qv [OF es(1)] by (cases pr) auto
  qed
qed

lemma msg_processBatch_cases:
  fixes s :: "(('j, 'b) msg_db, 'w) sess"
  assumes "msg_processBatch n p s = (r, t)"
  shows "\<exists>ext. (broker_ok klog p \<longrightarrow> klog (s_world t) = klog (s_world s) @ ext)
    \<and> (s_db t = s_db s
       \<or> (\<exists>now. s_db t = msg_marks now (take n (msg_pending (s_db s))) (s_db s)
           \<and> (broker_ok klog p \<longrightarrow> subseq (map (kmsg_of p) (take n (msg_pending (s_db s)))) ext)))"
proof -
  obtain oc s0 where oc: "take_outcome s = (oc, s0)" by fastforce
  note eq = take_outcome_eqD [OF oc]
  show ?thesis
  proof (cases oc)
    case Proceed
    obtain q s1 where body: "msg_batch_body n p (s0\<lparr>s_aborted := False\<rparr>) = (q, s1)" by fastforce
    from msg_batch_body_cases [OF body, of klog] eq obtain ext where
        ext: "broker_ok klog p \<longrightarrow> klog (s_world s1) = klog (s_world s) @ ext"
      and pub: "q = Inr True \<longrightarrow> s_db s1 = msg_marks (s_now s) (take n (msg_pending (s_db s))) (s_db s)
          \<and> (broker_ok klog p \<longrightarrow> subseq (map (kmsg_of p) (take n (msg_pending (s_db s)))) ext)" by auto
    obtain err :: "msg_err go_error option" and s2 where cm: "commit s0 s1 = (err, s2)" by fastforce
    from assms oc Proceed body cm
    have "(q = Inr True \<and> t = s2) \<or> t = rollback s0 s1"
      by (cases q; cases "q = Inr True"; cases err) (auto simp: msg_processBatch_def split: bool.splits)
    then show ?thesis
      using ext pub commit_cases [OF cm] eq by (intro exI [of _ ext]) auto
  qed (use assms oc eq in \<open>auto simp: msg_processBatch_def\<close>)
qed

lemma msg_marks_inv: "msg_inv md d \<Longrightarrow> msg_inv md (msg_marks now es d)"
proof -
  assume inv: "msg_inv md d"
  have ids: "map x_id (msg_outbox (msg_marks now es d)) = map x_id (msg_outbox d)"
    by (auto simp: msg_marks_def)
  have "set (map x_id (msg_outbox (msg_marks now es d))) = set (map x_id (msg_outbox d))"
    unfolding ids ..
  with inv show ?thesis
    unfolding msg_inv_def msg_outbox_ok_def ids
    by (auto simp: msg_marks_def rows_ok_def idem_ok_def)
qed

end
