(* ===== verification/MsgExec.thy ===== *)
theory MsgExec
  imports MsgWorker
begin

text \<open>
  The message service as a state machine. Its state is the committed tables and the world (the
  conversation service, the broker, the source of identifiers); between two calls the world may move
  as \<open>env\<close> allows, because other clients use it too. A step is one call of the service or one poll of
  its outbox worker, with any script of database failures and any reading of the clock.
\<close>

datatype msg_call =
    CallSend bool SendMessageCommand
  | CallDelete DeleteMessageCommand
  | CallSync string string int int
  | CallPublish

datatype msg_answer = AnsMsg Message | AnsMsgs "Message list" | AnsDone

fun msg_exec ::
  "('w, 'j, 'b) msg_deps \<Rightarrow> nat \<Rightarrow> ('w, 'b) producer \<Rightarrow> msg_call \<Rightarrow> ('w, 'j, 'b, msg_answer) msg_prog" where
  "msg_exec md n p (CallSend seqFirst cmd) = answer AnsMsg (SendMessage md seqFirst cmd)"
| "msg_exec md n p (CallDelete cmd) = answer (\<lambda>_. AnsDone) (DeleteMessage md cmd)"
| "msg_exec md n p (CallSync c u a ps) = answer AnsMsgs (SyncMessages md c u a ps)"
| "msg_exec md n p CallPublish = answer (\<lambda>_. AnsDone) (msg_processBatch n p)"

type_synonym msg_result = "msg_err go_error + msg_answer"

inductive msg_run ::
  "('w, 'j, 'b) msg_deps \<Rightarrow> nat \<Rightarrow> ('w, 'b) producer \<Rightarrow> ('w \<Rightarrow> 'w \<Rightarrow> bool) \<Rightarrow> ('j, 'b) msg_db \<times> 'w
    \<Rightarrow> (msg_call \<times> msg_result) list \<Rightarrow> ('j, 'b) msg_db \<times> 'w \<Rightarrow> bool"
  for md n p env where
  mrun_nil: "env w w' \<Longrightarrow> msg_run md n p env (d, w) [] (d, w')"
| mrun_cons: "env w w1 \<Longrightarrow> msg_exec md n p call (session d w1 script now) = (r, t) \<Longrightarrow>
    msg_run md n p env (s_db t, s_world t) tr st' \<Longrightarrow>
    msg_run md n p env (d, w) ((call, r) # tr) st'"

inductive_cases msg_run_nilE [elim!]: "msg_run md n p env st [] st'"
inductive_cases msg_run_consE: "msg_run md n p env st (e # tr) st'"

text \<open>Runs in which nobody else moves the world, as a function.\<close>

fun msg_calls ::
  "('w, 'j, 'b) msg_deps \<Rightarrow> nat \<Rightarrow> ('w, 'b) producer \<Rightarrow> (msg_call \<times> outcome list \<times> int) list
    \<Rightarrow> ('j, 'b) msg_db \<times> 'w \<Rightarrow> (msg_call \<times> msg_result) list \<times> (('j, 'b) msg_db \<times> 'w)" where
  "msg_calls md n p [] st = ([], st)"
| "msg_calls md n p ((call, script, now) # cs) st =
     (case msg_exec md n p call (session (fst st) (snd st) script now) of (r, t) \<Rightarrow>
       (case msg_calls md n p cs (s_db t, s_world t) of (tr, st') \<Rightarrow> ((call, r) # tr, st')))"

lemma msg_calls_run:
  assumes "\<And>w. env w w"
  shows "msg_calls md n p cs st = (tr, st') \<Longrightarrow> msg_run md n p env st tr st'"
proof (induction cs arbitrary: st tr)
  case Nil
  with assms show ?case by (cases st') (auto intro: mrun_nil)
next
  case (Cons c cs)
  obtain d w where st: "st = (d, w)" by fastforce
  obtain call script now where c: "c = (call, script, now)" by (cases c) auto
  obtain r t where ex: "msg_exec md n p call (session d w script now) = (r, t)" by fastforce
  obtain tr1 where run: "msg_calls md n p cs (s_db t, s_world t) = (tr1, st')" and tr: "tr = (call, r) # tr1"
    using Cons.prems by (auto simp: c st ex split: prod.splits)
  from mrun_cons [OF assms ex Cons.IH [OF run]] show ?case by (simp add: st tr)
qed

section \<open>What every call does to the tables\<close>

lemma msg_exec_inv:
  assumes "msg_json_ok md" and "msg_inv md (s_db s)"
  shows "msg_inv md (s_db (snd (msg_exec md n p call s)))"
proof (cases call)
  case CallPublish
  obtain r t where run: "msg_processBatch n p s = (r, t)" by fastforce
  from msg_processBatch_cases [OF run] have "s_db t = s_db s \<or> (\<exists>now es. s_db t = msg_marks now es (s_db s))" by blast
  with assms(2) run CallPublish show ?thesis by (auto intro: msg_marks_inv)
qed (simp_all add: assms SendMessage_inv DeleteMessage_inv SyncMessages_db)

text \<open>
  Messages stay as they were sent, in the order they were stored, but for the mark of their deletion,
  which stays too; answers under a key never change; recorded events stay in their order.
\<close>

definition x_event :: "'b msg_outbox_row \<Rightarrow> nat \<times> string \<times> string \<times> 'b" where
  "x_event e = (x_id e, x_aggregate_id e, x_event_type e, x_payload e)"

definition msg_grows :: "('j, 'b) msg_db \<Rightarrow> ('j, 'b) msg_db \<Rightarrow> bool" where
  "msg_grows d d' \<longleftrightarrow>
     prefix (map row_core (messages d)) (map row_core (messages d'))
     \<and> {r \<in> set (messages d). w_deleted_at r \<noteq> None} \<subseteq> set (messages d')
     \<and> prefix (idempotency_keys d) (idempotency_keys d')
     \<and> prefix (map x_event (msg_outbox d)) (map x_event (msg_outbox d'))"

lemma msg_grows_refl [simp]: "msg_grows d d"
  by (auto simp: msg_grows_def)

lemma msg_grows_trans:
  assumes "msg_grows d1 d2" and "msg_grows d2 d3"
  shows "msg_grows d1 d3"
proof -
  have "{r \<in> set (messages d1). w_deleted_at r \<noteq> None} \<subseteq> set (messages d3)"
    using assms unfolding msg_grows_def by blast
  with assms show ?thesis
    unfolding msg_grows_def by (elim conjE) (intro conjI; (erule (1) prefix_order.trans | assumption))
qed

lemma sent_tables_grows:
  assumes none: "stored_key cmd d = None"
    and sent: "sent_tables md cmd m now (d\<lparr>idempotency_keys := idempotency_keys d @ [key_row cmd t0]\<rparr>) d'"
  shows "msg_grows d d'"
proof -
  let ?u = "\<lambda>j y. if same_key (sm_ClientMsgID cmd) (sm_UserID cmd) (sm_ConversationID cmd) y
      then y\<lparr>y_payload := Some j\<rparr> else y"
  from sent_tables_keys [OF sent] obtain j where
    "idempotency_keys d' = map (?u j) (idempotency_keys d @ [key_row cmd t0])" by auto
  moreover have "map (?u j) (idempotency_keys d) = idempotency_keys d"
    using none by (intro map_idI) (auto simp: stored_key_None_iff)
  ultimately have "prefix (idempotency_keys d) (idempotency_keys d')" by simp
  with sent_tables_rows [OF sent] sent_tables_outbox [OF sent] show ?thesis
    by (auto simp: msg_grows_def)
qed

lemma SendMessage_grows:
  assumes "msg_inv md (s_db s)"
  shows "msg_grows (s_db s) (s_db (snd (SendMessage md seqFirst cmd s)))"
  unfolding SendMessage_def msg_WithTx_def
proof (rule txm.relates)
  fix s1 m s2 assume s1: "s_db s1 = s_db s" and run: "SendMessage_tx md seqFirst cmd s1 = (Inr m, s2)"
  have "msg_inv md (s_db s1)" using assms s1 by simp
  from SendMessage_tx_cases [OF this run] show "msg_grows (s_db s) (s_db s2)"
    unfolding s1 by (elim disjE exE conjE) (simp_all add: sent_tables_grows)
qed simp

lemma mark_deleted_grows:
  assumes dist: "distinct (map w_id (messages d))"
    and r: "find (\<lambda>r. w_id r = i) (messages d) = Some r" "w_deleted_at r = None"
  shows "msg_grows d (mark_deleted now i d)"
proof -
  have "r' \<in> set (messages (mark_deleted now i d))" if "r' \<in> set (messages d)" "w_deleted_at r' \<noteq> None" for r'
  proof -
    have "w_id r' \<noteq> i"
      using find_unique [OF dist that(1), of i] r that(2) by auto
    with that(1) show ?thesis by (force simp: mark_deleted_def)
  qed
  moreover have "idempotency_keys (mark_deleted now i d) = idempotency_keys d"
    "msg_outbox (mark_deleted now i d) = msg_outbox d"
    by (simp_all add: mark_deleted_def)
  ultimately show ?thesis by (auto simp: msg_grows_def mark_deleted_messages)
qed

lemma msg_outbox_grows: "msg_grows d d' \<Longrightarrow> msg_grows d (sql_insert_msg_outbox now a i e b d')"
  by (auto simp: msg_grows_def sql_insert_msg_outbox_def intro: prefix_append)

lemma DeleteMessage_grows:
  assumes inv: "msg_inv md (s_db s)"
  shows "msg_grows (s_db s) (s_db (snd (DeleteMessage md cmd s)))"
  unfolding DeleteMessage_def msg_WithTx_def
proof (rule txm.relates)
  fix s1 u s2 assume s1: "s_db s1 = s_db s" and run: "DeleteMessage_tx md cmd s1 = (Inr u, s2)"
  from DeleteMessage_tx_InrD [OF run] obtain r s3 where
      r: "find (\<lambda>r. w_id r = dm_MessageID cmd) (messages (s_db s)) = Some r"
    and s3: "s_db s3 = s_db s" and run: "delete_marked md cmd (msg_of_row r) s3 = (Inr u, s2)"
    unfolding s1 by blast
  have dist: "distinct (map w_id (messages (s_db s)))" using inv by (simp add: msg_inv_def rows_ok_def)
  from delete_marked_InrD [OF run] mark_deleted_grows [OF dist r] show "msg_grows (s_db s) (s_db s2)"
    unfolding s3 by (elim disjE exE conjE) (simp_all add: msg_outbox_grows msg_of_row_def)
qed simp

lemma msg_marks_grows: "msg_grows d (msg_marks now es d)"
proof -
  have "map x_event (msg_outbox (msg_marks now es d)) = map x_event (msg_outbox d)"
    by (auto simp: msg_marks_def x_event_def)
  moreover have "messages (msg_marks now es d) = messages d" "idempotency_keys (msg_marks now es d) = idempotency_keys d"
    by (simp_all add: msg_marks_def)
  ultimately show ?thesis by (auto simp: msg_grows_def)
qed

lemma msg_exec_grows:
  assumes "msg_inv md (s_db s)"
  shows "msg_grows (s_db s) (s_db (snd (msg_exec md n p call s)))"
proof (cases call)
  case CallPublish
  obtain r t where run: "msg_processBatch n p s = (r, t)" by fastforce
  from msg_processBatch_cases [OF run] have "s_db t = s_db s \<or> (\<exists>now es. s_db t = msg_marks now es (s_db s))" by blast
  with run CallPublish show ?thesis by (auto simp: msg_marks_grows)
qed (simp_all add: assms SendMessage_grows DeleteMessage_grows SyncMessages_db)

section \<open>Runs\<close>

lemma msg_run_inv_grows:
  assumes "msg_run md n p env st tr st'" and json: "msg_json_ok md" and "msg_inv md (fst st)"
  shows "msg_inv md (fst st') \<and> msg_grows (fst st) (fst st')"
  using assms(1,3)
proof (induction rule: msg_run.induct)
  case (mrun_cons w w1 call d script now r t tr st')
  have t: "s_db t = s_db (snd (msg_exec md n p call (session d w1 script now)))" using mrun_cons.hyps by simp
  have "msg_inv md (s_db t)" "msg_grows d (s_db t)"
    using msg_exec_inv [OF json, of "session d w1 script now"] msg_exec_grows [of md "session d w1 script now"]
      mrun_cons.prems t by auto
  with mrun_cons.IH show ?case by (auto intro: msg_grows_trans)
qed simp

text \<open>A property of the tables and the world that calls and other clients keep.\<close>

lemma msg_run_preserves:
  assumes "msg_run md n p env st tr st'" and "I (fst st) (snd st)"
    and "\<And>d w w'. I d w \<Longrightarrow> env w w' \<Longrightarrow> I d w'"
    and "\<And>call s r t. I (s_db s) (s_world s) \<Longrightarrow> msg_exec md n p call s = (r, t) \<Longrightarrow> I (s_db t) (s_world t)"
  shows "I (fst st') (snd st')"
  using assms(1,2)
proof (induction rule: msg_run.induct)
  case (mrun_nil w w' d)
  with assms(3) show ?case by auto
next
  case (mrun_cons w w1 call d script now r t tr st')
  from mrun_cons.prems mrun_cons.hyps(1) assms(3) have "I d w1" by auto
  with mrun_cons.IH assms(4) [OF _ mrun_cons.hyps(2)] show ?case by simp
qed

section \<open>The answer under a key\<close>

definition stored_answer :: "('w, 'j, 'b) msg_deps \<Rightarrow> SendMessageCommand \<Rightarrow> ('j, 'b) msg_db \<Rightarrow> Message option" where
  "stored_answer md cmd d =
     (case stored_key cmd d of
        None \<Rightarrow> None
      | Some y \<Rightarrow> (case y_payload y of None \<Rightarrow> None
          | Some b \<Rightarrow> (case md_json_dec md b of Inl _ \<Rightarrow> None | Inr m \<Rightarrow> Some m)))"

lemma stored_key_prefix:
  assumes "prefix (idempotency_keys d) (idempotency_keys d')" and "stored_key cmd d = Some y"
  shows "stored_key cmd d' = Some y"
proof -
  have "find P (xs @ ys) = Some y" if "find P xs = Some y" for P xs ys using that by (induction xs) auto
  with assms show ?thesis by (auto simp: stored_key_def prefix_def)
qed

lemma stored_answer_grows:
  assumes "msg_grows d d'" and "stored_answer md cmd d = Some m"
  shows "stored_answer md cmd d' = Some m"
  using assms stored_key_prefix [of d d' cmd]
  by (auto simp: stored_answer_def msg_grows_def split: option.splits)

lemma sent_tables_answer:
  assumes json: "msg_json_ok md" and none: "stored_key cmd d = None"
    and sent: "sent_tables md cmd m now (d\<lparr>idempotency_keys := idempotency_keys d @ [key_row cmd t0]\<rparr>) d'"
  shows "stored_answer md cmd d' = Some m"
proof -
  let ?k = "same_key (sm_ClientMsgID cmd) (sm_UserID cmd) (sm_ConversationID cmd)"
  from sent_tables_keys [OF sent] obtain j where j: "md_json_enc md m = Inr j"
    and keys: "idempotency_keys d' = map (\<lambda>y. if ?k y then y\<lparr>y_payload := Some j\<rparr> else y)
      (idempotency_keys d @ [key_row cmd t0])" by auto
  have "find ?k (map (\<lambda>y. if ?k y then y\<lparr>y_payload := Some j\<rparr> else y) (ys @ [key_row cmd t0]))
      = Some ((key_row cmd t0)\<lparr>y_payload := Some j\<rparr>)" if "\<forall>y \<in> set ys. \<not> ?k y" for ys
    using that by (induction ys) (auto simp: key_row_def)
  with none have "stored_key cmd d' = Some ((key_row cmd t0)\<lparr>y_payload := Some j\<rparr>)"
    unfolding stored_key_def keys by (simp add: find_None_conv)
  with json j show ?thesis by (auto simp: stored_answer_def msg_json_ok_def)
qed

lemma SendMessage_answer:
  assumes json: "msg_json_ok md" and inv: "msg_inv md (s_db s)"
    and run: "SendMessage md seqFirst cmd s = (Inr m, t)"
  shows "stored_answer md cmd (s_db t) = Some m"
proof -
  from txm.success [OF run [unfolded SendMessage_def msg_WithTx_def]] obtain s1 s2 where
      s1: "s_db s1 = s_db s" and tx: "SendMessage_tx md seqFirst cmd s1 = (Inr m, s2)" and t: "s_db t = s_db s2"
    unfolding committed_def by blast
  have "msg_inv md (s_db s1)" using inv s1 by simp
  from SendMessage_tx_cases [OF this tx] show ?thesis
  proof (elim disjE exE conjE)
    fix y b assume "stored_key cmd (s_db s1) = Some y" "y_payload y = Some b" "md_json_dec md b = Inr m" "s_db s2 = s_db s1"
    then show ?thesis by (simp add: stored_answer_def t)
  next
    fix resp n w1 i w2 assume "stored_key cmd (s_db s1) = None"
      "sent_tables md cmd m (s_now s1) ((s_db s1)\<lparr>idempotency_keys := idempotency_keys (s_db s1) @ [key_row cmd (s_now s1)]\<rparr>)
         (s_db s2)"
    from sent_tables_answer [OF json this] show ?thesis by (simp add: t)
  qed
qed

text \<open>Every answer given to a send is still the stored answer at the end of the run.\<close>

lemma msg_run_answers:
  assumes "msg_run md n p env st tr st'" and json: "msg_json_ok md" and "msg_inv md (fst st)"
    and "(CallSend seqFirst cmd, Inr (AnsMsg m)) \<in> set tr"
  shows "stored_answer md cmd (fst st') = Some m"
  using assms(1,3,4)
proof (induction rule: msg_run.induct)
  case (mrun_cons w w1 call d script now r t tr st')
  have inv: "msg_inv md (s_db t)"
    using msg_exec_inv [OF json, of "session d w1 script now" n p call] mrun_cons.hyps(2) mrun_cons.prems(1) by simp
  show ?case
  proof (cases "(CallSend seqFirst cmd, Inr (AnsMsg m)) \<in> set tr")
    case True
    with mrun_cons.IH inv show ?thesis by simp
  next
    case False
    with mrun_cons.prems(2) have "call = CallSend seqFirst cmd" "r = Inr (AnsMsg m)" by auto
    with mrun_cons.hyps(2) have "SendMessage md seqFirst cmd (session d w1 script now) = (Inr m, t)"
      by (auto simp: answer_Inr_iff)
    from SendMessage_answer [OF json _ this] mrun_cons.prems(1) have "stored_answer md cmd (s_db t) = Some m" by simp
    moreover have "msg_grows (s_db t) (fst st')"
      using msg_run_inv_grows [OF mrun_cons.hyps(3) json] inv by simp
    ultimately show ?thesis using stored_answer_grows by blast
  qed
qed simp

text \<open>There are as many messages as keys: no call stores a second message for a key.\<close>

definition one_per_key :: "('j, 'b) msg_db \<Rightarrow> bool" where
  "one_per_key d \<longleftrightarrow> length (messages d) = length (idempotency_keys d)"

lemma sent_tables_counts:
  assumes "sent_tables md cmd m now (d\<lparr>idempotency_keys := idempotency_keys d @ [key_row cmd t0]\<rparr>) d'"
  shows "one_per_key d' = one_per_key d"
  using sent_tables_rows [OF assms] sent_tables_keys [OF assms] by (auto simp: one_per_key_def)

lemma SendMessage_one_per_key:
  assumes "msg_inv md (s_db s)"
  shows "one_per_key (s_db s) \<longrightarrow> one_per_key (s_db (snd (SendMessage md seqFirst cmd s)))"
  unfolding SendMessage_def msg_WithTx_def
proof (rule txm.relates)
  fix s1 m s2 assume s1: "s_db s1 = s_db s" and run: "SendMessage_tx md seqFirst cmd s1 = (Inr m, s2)"
  have "msg_inv md (s_db s1)" using assms s1 by simp
  from SendMessage_tx_cases [OF this run] show "one_per_key (s_db s) \<longrightarrow> one_per_key (s_db s2)"
    unfolding s1 by (elim disjE exE conjE) (simp_all add: sent_tables_counts)
qed simp

lemma DeleteMessage_one_per_key: "one_per_key (s_db s) \<longrightarrow> one_per_key (s_db (snd (DeleteMessage md cmd s)))"
  unfolding DeleteMessage_def msg_WithTx_def
proof (rule txm.relates)
  fix s1 u s2 assume s1: "s_db s1 = s_db s" and run: "DeleteMessage_tx md cmd s1 = (Inr u, s2)"
  from DeleteMessage_tx_InrD [OF run] obtain r s3 where
    s3: "s_db s3 = s_db s" and run: "delete_marked md cmd (msg_of_row r) s3 = (Inr u, s2)" unfolding s1 by blast
  from delete_marked_InrD [OF run] show "one_per_key (s_db s) \<longrightarrow> one_per_key (s_db s2)"
    unfolding s3 by (auto simp: one_per_key_def mark_deleted_def sql_insert_msg_outbox_def)
qed simp

lemma msg_exec_one_per_key:
  assumes "msg_inv md (s_db s)" and "one_per_key (s_db s)"
  shows "one_per_key (s_db (snd (msg_exec md n p call s)))"
proof (cases call)
  case CallPublish
  obtain r t where run: "msg_processBatch n p s = (r, t)" by fastforce
  from msg_processBatch_cases [OF run] have "s_db t = s_db s \<or> (\<exists>now es. s_db t = msg_marks now es (s_db s))" by blast
  with run assms CallPublish show ?thesis by (auto simp: msg_marks_def one_per_key_def)
qed (simp_all add: assms SendMessage_one_per_key DeleteMessage_one_per_key SyncMessages_db)

lemma msg_run_one_per_key:
  assumes run: "msg_run md n p env st tr st'" and json: "msg_json_ok md" and "msg_inv md (fst st) \<and> one_per_key (fst st)"
  shows "one_per_key (fst st')"
proof -
  have "msg_inv md (fst st') \<and> one_per_key (fst st')"
  proof (rule msg_run_preserves [OF run, where I = "\<lambda>d w. msg_inv md d \<and> one_per_key d"])
    fix call s r t assume "msg_inv md (s_db s) \<and> one_per_key (s_db s)" "msg_exec md n p call s = (r, t)"
    then show "msg_inv md (s_db t) \<and> one_per_key (s_db t)"
      using msg_exec_inv [OF json, of s n p call] msg_exec_one_per_key [of md s n p call] by simp
  qed (use assms(3) in auto)
  then show ?thesis ..
qed

lemma stored_answer_row:
  assumes inv: "msg_inv md d" and a: "stored_answer md cmd d = Some m"
  shows "length (filter (\<lambda>r. w_id r = g_ID m) (messages d)) = 1"
proof -
  from a obtain y b where y: "stored_key cmd d = Some y" "y_payload y = Some b" "md_json_dec md b = Inr m"
    by (auto simp: stored_answer_def split: option.splits sum.splits)
  then have "y \<in> set (idempotency_keys d)" by (auto simp: stored_key_def dest: find_SomeD)
  with inv obtain r where r: "r \<in> set (messages d)" "answers md y r" by (auto simp: msg_inv_def idem_ok_def)
  with y have id: "w_id r = g_ID m" by (auto simp: answers_def)
  have dist: "distinct (map w_id (messages d))" using inv by (simp add: msg_inv_def rows_ok_def)
  have "length (filter (\<lambda>x. w_id x = w_id r) xs) = 1" if "r \<in> set xs" "distinct (map w_id xs)" for xs
    using that
  proof (induction xs)
    case (Cons x xs)
    show ?case
    proof (cases "w_id x = w_id r")
      case True
      with Cons.prems(2) have "w_id r \<notin> w_id ` set xs" by simp
      then have "filter (\<lambda>x. w_id x = w_id r) xs = []" unfolding filter_empty_conv by (metis image_eqI)
      with True show ?thesis by simp
    next
      case False
      with Cons show ?thesis by auto
    qed
  qed simp
  with r(1) dist id show ?thesis by simp
qed

end
