(* ===== verification/MsgGrpc.thy ===== *)
theory MsgGrpc
  imports MsgExec Grpc
begin

text \<open>
  \<^verbatim>\<open>services/message/internal/transport/grpc\<close> and \<^verbatim>\<open>internal/auth\<close>: the server of the message service.
  Unlike the conversation service it exempts no method from identification. \<open>msg_ClientInterceptor\<close> is
  the other end: it puts the identity of the call being served on the calls to the conversation service.
\<close>

definition msg_MapError :: "(msg_err go_error \<Rightarrow> bool) \<Rightarrow> msg_err go_error \<Rightarrow> msg_err go_error" where
  "msg_MapError is_status err =
     (if is_status err then err
      else if errors_Is err ErrMessageNotFound then Status NotFound (err_text msg_err_text err)
      else if errors_Is err ErrNotParticipant then Status PermissionDenied (err_text msg_err_text err)
      else if errors_Is_any err [ErrInvalidMessage, ErrInvalidSequence, ErrMessageTooLarge, ErrInvalidInput]
      then Status InvalidArgument (err_text msg_err_text err)
      else Status Internal ''internal server error'')"

section \<open>Identity\<close>

definition msg_Interceptor ::
  "(string \<Rightarrow> string list) option \<Rightarrow> (grpc_ctx \<Rightarrow> ('d, 'w, 'e, 'a) prog) \<Rightarrow> ('d, 'w, 'e, 'a) prog" where
  "msg_Interceptor md handler =
     (case md of
        None \<Rightarrow> throw (Status Unauthenticated ''metadata is not provided'')
      | Some get \<Rightarrow>
          let userValues = get HeaderUserID; reqValues = get HeaderRequestID in
          if userValues \<noteq> [] \<and> hd userValues \<noteq> []
          then
            let newCtx = no_ctx\<lparr>cx_user := Some (hd userValues)\<rparr> in
            handler (if reqValues \<noteq> [] \<and> hd reqValues \<noteq> [] then newCtx\<lparr>cx_request := Some (hd reqValues)\<rparr>
                     else newCtx)
          else throw (Status Unauthenticated ''x-user-id header is missing''))"

definition msg_GetUserID :: "grpc_ctx \<Rightarrow> string + string" where
  "msg_GetUserID = GetUserID"

text \<open>
  Outgoing metadata is a list of pairs in the order they are appended; the receiver's \<open>md.Get\<close> is
  \<open>md_get\<close>. The invoker sends the call with the metadata.
\<close>

definition msg_ClientInterceptor ::
  "grpc_ctx \<Rightarrow> (string \<times> string) list \<Rightarrow> ((string \<times> string) list \<Rightarrow> 'r) \<Rightarrow> 'r" where
  "msg_ClientInterceptor ctx out invoker =
     (let out1 = (case msg_GetUserID ctx of Inl _ \<Rightarrow> out | Inr userID \<Rightarrow> out @ [(HeaderUserID, userID)]);
          out2 = (case cx_request ctx of None \<Rightarrow> out1 | Some reqID \<Rightarrow> out1 @ [(HeaderRequestID, reqID)])
      in invoker out2)"

definition md_get :: "(string \<times> string) list \<Rightarrow> string \<Rightarrow> string list" where
  "md_get out k = map snd (filter (\<lambda>kv. fst kv = k) out)"

section \<open>Handlers\<close>

datatype msg_request =
    SendMessageRequest string string string string string string
      \<comment> \<open>conversation, sender, idempotency key, type, content, metadata\<close>
  | DeleteMessageRequest string string string  \<comment> \<open>conversation, message, actor\<close>
  | SyncMessagesRequest string int int

datatype msg_response =
    SendMessageResponse pb_message
  | DeleteMessageResponse
  | SyncMessagesResponse "pb_message list"

definition rpc_SendMessage where
  "rpc_SendMessage is_status md seqFirst ctx convID sender key msgType content metadata =
     with_user ctx (\<lambda>userID.
       if sender \<noteq> userID then throw (Status PermissionDenied ''sender id mismatch'')
       else bindE (mapping_errors (msg_MapError is_status)
                     (SendMessage md seqFirst \<lparr>sm_ConversationID = convID, sm_UserID = sender, sm_ClientMsgID = key,
                        sm_Type = msgType, sm_Content = content, sm_Metadata = metadata\<rparr>))
              (\<lambda>msg. ret (SendMessageResponse (sent_pb msg))))"

definition rpc_DeleteMessage where
  "rpc_DeleteMessage is_status md ctx convID msgID actor =
     with_user ctx (\<lambda>userID.
       if actor \<noteq> userID then throw (Status PermissionDenied ''actor id mismatch'')
       else bindE (mapping_errors (msg_MapError is_status)
                     (DeleteMessage md \<lparr>dm_ConversationID = convID, dm_MessageID = msgID, dm_RequesterID = actor\<rparr>))
              (\<lambda>_. ret DeleteMessageResponse))"

definition synced_pb :: "Message \<Rightarrow> pb_message" where
  "synced_pb m = (sent_pb m)\<lparr>pm_DeletedAt := g_DeletedAt m\<rparr>"

definition rpc_SyncMessages where
  "rpc_SyncMessages is_status md ctx convID afterSequence pageSize =
     with_user ctx (\<lambda>userID.
       bindE (mapping_errors (msg_MapError is_status) (SyncMessages md convID userID afterSequence pageSize))
         (\<lambda>messages. ret (SyncMessagesResponse (map synced_pb messages))))"

fun msg_handler ::
  "(msg_err go_error \<Rightarrow> bool) \<Rightarrow> ('w, 'j, 'b) msg_deps \<Rightarrow> bool \<Rightarrow> msg_request \<Rightarrow> grpc_ctx
    \<Rightarrow> ('w, 'j, 'b, msg_response) msg_prog" where
  "msg_handler is_status md seqFirst (SendMessageRequest c u k ty ct me) ctx =
     rpc_SendMessage is_status md seqFirst ctx c u k ty ct me"
| "msg_handler is_status md seqFirst (DeleteMessageRequest c i u) ctx = rpc_DeleteMessage is_status md ctx c i u"
| "msg_handler is_status md seqFirst (SyncMessagesRequest c n ps) ctx = rpc_SyncMessages is_status md ctx c n ps"

text \<open>A unary call as the server runs it.\<close>

definition msg_serve ::
  "(msg_err go_error \<Rightarrow> bool) \<Rightarrow> ('w, 'j, 'b) msg_deps \<Rightarrow> bool \<Rightarrow> (string \<Rightarrow> string list) option \<Rightarrow> msg_request
    \<Rightarrow> ('w, 'j, 'b, msg_response) msg_prog" where
  "msg_serve is_status md seqFirst hdrs req = msg_Interceptor hdrs (msg_handler is_status md seqFirst req)"

section \<open>Who may do what\<close>

lemma msg_Interceptor_cases:
  "(\<exists>e. msg_Interceptor hdrs h s = (Inl (Status Unauthenticated e), s)) \<and> header_user hdrs = None
   \<or> (\<exists>ctx u. msg_Interceptor hdrs h s = h ctx s \<and> header_user hdrs = Some u \<and> cx_user ctx = Some u)"
  by (cases hdrs; cases "the hdrs HeaderUserID")
    (auto simp: msg_Interceptor_def header_user_def no_ctx_def Let_def)

text \<open>The call that a request stands for, on behalf of its user.\<close>

fun msg_call_of :: "bool \<Rightarrow> string \<Rightarrow> msg_request \<Rightarrow> msg_call option" where
  "msg_call_of seqFirst u (SendMessageRequest c v k ty ct me) =
     (if v = u then Some (CallSend seqFirst \<lparr>sm_ConversationID = c, sm_UserID = u, sm_ClientMsgID = k, sm_Type = ty,
        sm_Content = ct, sm_Metadata = me\<rparr>) else None)"
| "msg_call_of seqFirst u (DeleteMessageRequest c i v) =
     (if v = u then Some (CallDelete \<lparr>dm_ConversationID = c, dm_MessageID = i, dm_RequesterID = u\<rparr>) else None)"
| "msg_call_of seqFirst u (SyncMessagesRequest c n ps) = Some (CallSync c u n ps)"

lemma msg_handler_cases:
  assumes "cx_user ctx = Some u"
  shows "case msg_call_of seqFirst u req of
      None \<Rightarrow> \<exists>m. msg_handler is_status md seqFirst req ctx s = (Inl (Status PermissionDenied m), s)
    | Some call \<Rightarrow> snd (msg_handler is_status md seqFirst req ctx s) = snd (msg_exec md n p call s)"
  using assms
  by (cases req)
    (auto simp: rpc_SendMessage_def rpc_DeleteMessage_def rpc_SyncMessages_def with_user_def GetUserID_def serve_snd)

lemma msg_serve_cases:
  "case header_user hdrs of
     None \<Rightarrow> \<exists>e. msg_serve is_status md seqFirst hdrs req s = (Inl (Status Unauthenticated e), s)
   | Some u \<Rightarrow>
       (case msg_call_of seqFirst u req of
          None \<Rightarrow> \<exists>m. msg_serve is_status md seqFirst hdrs req s = (Inl (Status PermissionDenied m), s)
        | Some call \<Rightarrow> snd (msg_serve is_status md seqFirst hdrs req s) = snd (msg_exec md n p call s))"
proof -
  from msg_Interceptor_cases [of hdrs "msg_handler is_status md seqFirst req" s] show ?thesis
    unfolding msg_serve_def [symmetric]
  proof (elim disjE conjE exE)
    fix ctx u assume "msg_serve is_status md seqFirst hdrs req s = msg_handler is_status md seqFirst req ctx s"
      "header_user hdrs = Some u" "cx_user ctx = Some u"
    with msg_handler_cases [where ctx = ctx and u = u and seqFirst = seqFirst and req = req and is_status = is_status
        and md = md and s = s and n = n and p = p] show ?thesis by (simp split: option.splits)
  qed auto
qed

section \<open>Errors\<close>

fun msg_code :: "msg_err \<Rightarrow> code" where
  "msg_code ErrMessageNotFound = NotFound"
| "msg_code ErrNotParticipant = PermissionDenied"
| "msg_code ErrInvalidMessage = InvalidArgument"
| "msg_code ErrInvalidSequence = InvalidArgument"
| "msg_code ErrMessageTooLarge = InvalidArgument"
| "msg_code ErrInvalidInput = InvalidArgument"

lemma msg_MapError_table:
  assumes "\<not> is_status err"
  shows "msg_MapError is_status err =
    (case sentinel err of
       None \<Rightarrow> Status Internal ''internal server error''
     | Some d \<Rightarrow> Status (msg_code d) (err_text msg_err_text err))"
proof (cases "sentinel err")
  case None
  with assms show ?thesis by (simp add: msg_MapError_def errors_Is_any_def errors_Is_sentinel)
next
  case (Some d)
  with assms show ?thesis by (cases d) (simp_all add: msg_MapError_def errors_Is_any_def errors_Is_sentinel)
qed

end
