(* ===== verification/TxJoint.thy ===== *)
theory TxJoint
  imports Monotone
begin

text \<open>
  A relation between the tables and the world that every run of the callback keeps, whatever it
  returns, for the tables it started from: it holds when the run starts whose effect is kept.
\<close>

lemma WithTx_loop_joint:
  fixes fn :: "('d, 'w, 'e, 'a) prog"
  assumes keeps: "\<forall>s1 r s2. J (s_world s1) \<longrightarrow> s_db s1 = d \<longrightarrow> fn s1 = (r, s2) \<longrightarrow> J (s_world s2)"
    and "J (s_world s)" and "s_db s = d" and "WithTx_loop txt n fn s = (r, t)"
  shows "J (s_world t) \<and> ((\<exists>s1 a s2. s_db s1 = d \<and> J (s_world s1) \<and> fn s1 = (Inr a, s2) \<and> s_db t = s_db s2
      \<and> s_world t = s_world s2 \<and> (\<forall>b. r = Inr b \<longrightarrow> b = a))
    \<or> ((\<exists>e. r = Inl e) \<and> s_db t = d))"
  using assms(2-)
proof (induction n arbitrary: s)
  case (Suc n)
  obtain oc s0 where oc: "take_outcome s = (oc, s0)" by fastforce
  note eq = take_outcome_eqD [OF oc]
  show ?case
  proof (cases oc)
    case Proceed
    let ?s = "s0\<lparr>s_aborted := False\<rparr>"
    obtain r1 s1 where run: "fn ?s = (r1, s1)" by fastforce
    have start: "s_db ?s = d" "J (s_world ?s)" using eq Suc.prems by simp_all
    from keeps start run have j1: "J (s_world s1)" by blast
    note retry = Suc.IH [of "rollback s0 s1"]
    show ?thesis
    proof (cases r1)
      case (Inl e)
      with Suc.prems oc Proceed run have
        "WithTx_loop txt n fn (rollback s0 s1) = (r, t) \<or> (r = Inl e \<and> t = rollback s0 s1)"
        by (auto simp: WithTx_loop.simps split: if_splits)
      with retry j1 start eq show ?thesis by auto
    next
      case (Inr a)
      obtain err s2 where cm: "commit s0 s1 = (err :: 'e go_error option, s2)" by fastforce
      have step: "WithTx_loop txt (Suc n) fn s = (case err of None \<Rightarrow> (Inr a, s2)
          | Some e \<Rightarrow> if isSerializationError txt (Some e) then WithTx_loop txt n fn s2 else (Inl e, s2))"
        using oc Proceed run Inr cm by (simp add: WithTx_loop.simps split: option.splits)
      have "WithTx_loop txt n fn s2 = (r, t) \<and> (\<exists>x. err = Some (Plain x) \<and> Plain x \<noteq> (Plain err_bad_conn :: 'e go_error))
          \<or> (t = s2 \<and> r = (case err of None \<Rightarrow> Inr a | Some e \<Rightarrow> Inl e))"
      proof (cases err)
        case None
        with step Suc.prems(3) show ?thesis by simp
      next
        case (Some e)
        from commit_cases [OF cm] Some obtain x where e: "e = Plain x" by blast
        have "isSerializationError txt (Some e) \<Longrightarrow> e \<noteq> Plain err_bad_conn" by (metis bad_conn_not_serialization)
        with step Suc.prems(3) Some e show ?thesis by (cases "isSerializationError txt (Some e)") simp_all
      qed
      then show ?thesis
      proof
        assume l: "WithTx_loop txt n fn s2 = (r, t) \<and> (\<exists>x. err = Some (Plain x) \<and> Plain x \<noteq> (Plain err_bad_conn :: 'e go_error))"
        with commit_cases [OF cm] have "s_db s2 = s_db s0" "s_world s2 = s_world s1" by auto
        with Suc.IH [of s2] l j1 start show ?thesis by simp
      next
        assume l: "t = s2 \<and> r = (case err of None \<Rightarrow> Inr a | Some e \<Rightarrow> Inl e)"
        from commit_cases [OF cm] consider (kept) "s_db s2 = s_db s1" "s_world s2 = s_world s1"
          | (undone) x where "err = Some (Plain x)" "s_db s2 = s_db s0" "s_world s2 = s_world s1" by auto
        then show ?thesis
        proof cases
          case kept
          with l j1 start run Inr show ?thesis
            by (intro conjI disjI1 exI [of _ ?s] exI [of _ a] exI [of _ s1]) (auto split: option.splits)
        next
          case undone
          with l j1 start show ?thesis by auto
        qed
      qed
    qed
  qed (use Suc.prems oc eq in \<open>auto simp: WithTx_loop.simps\<close>)
qed auto

lemmas WithTx_joint = WithTx_loop_joint [where n = maxRetries, folded WithTx_def]

end
