(* ===== verification/MsgClient.thy ===== *)
theory MsgClient
  imports MsgExec TxJoint
begin

text \<open>
  The message service as a client: what it may rely on of the services and libraries behind it, as
  locales, with what follows for the calls and the runs of the service.
\<close>

lemma world_rel_case_prod: "(\<And>a b. world_rel R (f a b)) \<Longrightarrow> world_rel R (case x of (a, b) \<Rightarrow> f a b)"
  by (cases x) auto

section \<open>Preorders that the calls respect\<close>

text \<open>
  A preorder on the world that the libraries and services called by the message service respect, and
  that other clients respect, is respected by every call of the message service.
\<close>

locale msg_world = world_order R for R :: "'w \<Rightarrow> 'w \<Rightarrow> bool" +
  fixes md :: "('w, 'j, 'b) msg_deps"
    and prod :: "('w, 'b) producer"
    and env :: "'w \<Rightarrow> 'w \<Rightarrow> bool"
  assumes next_rel: "md_NextSequence md i w = (r, w') \<Longrightarrow> R w w'"
    and get_rel: "md_GetConversation md i w = (q, w') \<Longrightarrow> R w w'"
    and uuid_rel: "md_uuid md w = (u, w') \<Longrightarrow> R w w'"
    and produce_rel: "kp_produce prod k w = (v, w') \<Longrightarrow> R w w'"
    and env_rel: "env w w' \<Longrightarrow> R w w'"
begin

lemma repo_rel:
  "world_rel R (InsertMessage md tx m)"
  "world_rel R (TryInsertIdempotency tx k u c n)"
  "world_rel R (GetIdempotencyForUpdate tx k u c)"
  "world_rel R (UpdateIdempotencyResponse tx k u c b)"
  "world_rel R (msg_InsertOutbox tx a i e v)"
  "world_rel R (GetMessageForUpdate tx i)"
  "world_rel R (MarkMessageDeleted tx i)"
  unfolding InsertMessage_def TryInsertIdempotency_def GetIdempotencyForUpdate_def UpdateIdempotencyResponse_def
    msg_InsertOutbox_def GetMessageForUpdate_def MarkMessageDeleted_def
  by (intro world_rules)+

lemma conv_calls_rel:
  "world_rel R (on_world (md_GetConversation md c))"
  "world_rel R (on_world (md_NextSequence md c))"
  "world_rel R (on_world (\<lambda>w. case md_uuid md w of (u, w') \<Rightarrow> (Inr u, w')))"
  by (rule on_world_rel, auto split: prod.splits intro: next_rel get_rel uuid_rel)+

lemma SendMessage_tx_rel: "world_rel R (SendMessage_tx md seqFirst cmd)"
proof -
  have store: "world_rel R (store_message md cmd m)" for m
    unfolding store_message_def by (intro world_rules repo_rel)
  have calls: "world_rel R (parallelConvCalls md seqFirst c)" for c
    unfolding parallelConvCalls_def Let_def by (intro world_rules conv_calls_rel)
  have new: "world_rel R (send_new md seqFirst cmd)"
    unfolding send_new_def by (intro world_rules calls world_rel_case_prod conv_calls_rel store)
  show ?thesis unfolding SendMessage_tx_def by (intro world_rules repo_rel new)
qed

lemma ops_rel:
  "world_rel R (SendMessage md seqFirst cmd)"
  "world_rel R (DeleteMessage md dc)"
  "world_rel R (SyncMessages md c u a n)"
  unfolding SendMessage_def DeleteMessage_def msg_WithTx_def DeleteMessage_tx_def delete_marked_def
    SyncMessages_def FetchMessages_def
  by (intro world_rules SendMessage_tx_rel repo_rel conv_calls_rel)+

lemma msg_publish_events_rel: "world_rel R (msg_publish_events prod es)"
proof (induction es)
  case (Cons e es)
  have "world_rel R (on_world (msg_Publish prod (x_aggregate_id e) (x_payload e)))"
    by (rule on_world_rel)
      (auto simp: msg_Publish_def Publish_def split: prod.splits produce_result.splits option.splits intro: produce_rel)
  with Cons.IH show ?case by (auto intro!: world_rules)
qed (simp only: msg_publish_events.simps, rule ret_rel)

lemma msg_processBatch_rel: "world_rel R (msg_processBatch n prod)"
proof -
  have "R (s_world s) (s_world t)" if "msg_processBatch n prod s = (r, t)" for s r t
  proof -
    obtain oc s0 where oc: "take_outcome s = (oc, s0)" by fastforce
    note eq = take_outcome_eqD [OF oc]
    let ?s = "s0\<lparr>s_aborted := False\<rparr>"
    obtain q s1 where body: "msg_batch_body n prod ?s = (q, s1)" by fastforce
    have "world_rel R (msg_batch_body n prod)"
      unfolding msg_batch_body_def by (intro world_rules msg_publish_events_rel)
    from world_relD [OF this body] eq have w: "R (s_world s) (s_world s1)" by simp
    obtain err :: "msg_err go_error option" and s2 where cm: "commit s0 s1 = (err, s2)" by fastforce
    have w2: "s_world s2 = s_world s1" using commit_cases [OF cm] by auto
    show ?thesis
      using that oc body cm w w2 eq rel_refl
      by (cases oc; cases q; cases "q = Inr True"; cases err) (auto simp: msg_processBatch_def split: bool.splits)
  qed
  then show ?thesis unfolding world_rel_def by (metis prod.collapse)
qed

lemma exec_rel:
  assumes "msg_exec md n prod call s = (r, t)"
  shows "R (s_world s) (s_world t)"
proof -
  have "R (s_world s) (s_world (snd (msg_exec md n prod call s)))"
    by (cases call) (simp_all add: ops_rel [unfolded world_rel_def, rule_format]
        msg_processBatch_rel [unfolded world_rel_def, rule_format])
  with assms show ?thesis by simp
qed

end

section \<open>Sequence numbers\<close>

text \<open>
  What the message service relies on of the conversation service it calls: \<open>NextSequence\<close> never hands
  out a number twice. \<open>hi w i\<close> is the largest number the conversation \<open>i\<close> has reached in the world
  \<open>w\<close>. The client's lemma is that a stored message always takes a number no message of its
  conversation has, so that the unique index on \<open>(conversation_id, sequence)\<close> is never hit.
\<close>

locale conv_client =
  fixes md :: "('w, 'j, 'b) msg_deps"
    and prod :: "('w, 'b) producer"
    and env :: "'w \<Rightarrow> 'w \<Rightarrow> bool"
    and good :: "'w \<Rightarrow> bool"
    and hi :: "'w \<Rightarrow> string \<Rightarrow> int"
  assumes next_fresh: "good w \<Longrightarrow> md_NextSequence md i w = (r, w') \<Longrightarrow>
      good w' \<and> (\<forall>j. hi w j \<le> hi w' j) \<and> (\<forall>n. r = Inr n \<longrightarrow> hi w i < n \<and> n \<le> hi w' i)"
    and get_keeps: "good w \<Longrightarrow> md_GetConversation md i w = (q, w') \<Longrightarrow> good w' \<and> (\<forall>j. hi w j \<le> hi w' j)"
    and uuid_keeps: "good w \<Longrightarrow> md_uuid md w = (u, w') \<Longrightarrow> good w' \<and> (\<forall>j. hi w j \<le> hi w' j)"
    and produce_keeps: "good w \<Longrightarrow> kp_produce prod k w = (v, w') \<Longrightarrow> good w' \<and> (\<forall>j. hi w j \<le> hi w' j)"
    and env_keeps: "good w \<Longrightarrow> env w w' \<Longrightarrow> good w' \<and> (\<forall>j. hi w j \<le> hi w' j)"
begin

definition reaches :: "'w \<Rightarrow> 'w \<Rightarrow> bool" where
  "reaches w w' \<longleftrightarrow> (good w \<longrightarrow> good w' \<and> (\<forall>j. hi w j \<le> hi w' j))"

lemma reaches_trans: "reaches w1 w2 \<Longrightarrow> reaches w2 w3 \<Longrightarrow> reaches w1 w3"
  unfolding reaches_def by (meson order_trans)

end

sublocale conv_client \<subseteq> mw: msg_world reaches md prod env
proof unfold_locales
  show "reaches w w" for w by (simp add: reaches_def)
  show "reaches w1 w2 \<Longrightarrow> reaches w2 w3 \<Longrightarrow> reaches w1 w3" for w1 w2 w3 by (rule reaches_trans)
qed (use next_fresh get_keeps uuid_keeps produce_keeps env_keeps in \<open>unfold reaches_def, blast+\<close>)

context conv_client
begin

definition seqs_below :: "('j, 'b) msg_db \<Rightarrow> 'w \<Rightarrow> bool" where
  "seqs_below d w \<longleftrightarrow> good w \<and> (\<forall>r \<in> set (messages d). w_seq r \<le> hi w (w_conv r))"

lemma seqs_below_reaches:
  assumes "seqs_below d w" and "reaches w w'" and "map row_core (messages d') = map row_core (messages d)"
  shows "seqs_below d' w'"
proof -
  have "w_seq r \<le> hi w' (w_conv r)" if "r \<in> set (messages d')" for r
  proof -
    from core_in_set [OF assms(3) [symmetric] that] obtain r0 where "r0 \<in> set (messages d)" "row_core r0 = row_core r" ..
    then have "w_seq r0 = w_seq r" "w_conv r0 = w_conv r" by (simp_all add: row_core_def)
    moreover have "w_seq r0 \<le> hi w (w_conv r0)" using assms(1) \<open>r0 \<in> set (messages d)\<close> by (auto simp: seqs_below_def)
    ultimately show ?thesis using assms(1,2) by (metis seqs_below_def reaches_def order_trans)
  qed
  with assms(1,2) show ?thesis by (auto simp: seqs_below_def reaches_def)
qed

lemma world_conv_calls_fresh:
  assumes "world_conv_calls md seqFirst i w resp n w'" and "good w"
  shows "reaches w w' \<and> hi w i < n \<and> n \<le> hi w' i"
proof (cases seqFirst)
  case True
  with assms obtain w1 where "md_NextSequence md i w = (Inr n, w1)" "md_GetConversation md i w1 = (Inr resp, w')"
    by (auto simp: world_conv_calls_def)
  with next_fresh [OF assms(2) this(1)] get_keeps [of w1 i "Inr resp" w'] show ?thesis
    by (auto simp: reaches_def intro: order_trans)
next
  case False
  with assms obtain w1 where c: "md_GetConversation md i w = (Inr resp, w1)" "md_NextSequence md i w1 = (Inr n, w')"
    by (auto simp: world_conv_calls_def)
  from get_keeps [OF assms(2) c(1)] have "good w1" "\<forall>j. hi w j \<le> hi w1 j" by auto
  with next_fresh [OF this(1) c(2)] show ?thesis
    by (auto simp: reaches_def intro: order_trans order_le_less_trans)
qed

lemma SendMessage_tx_fresh:
  assumes inv: "msg_inv md (s_db s)" and below: "seqs_below (s_db s) (s_world s)"
    and run: "SendMessage_tx md seqFirst cmd s = (Inr m, t)"
  shows "seqs_below (s_db t) (s_world t)
    \<and> (stored_key cmd (s_db s) = None \<longrightarrow>
        (\<forall>r \<in> set (messages (s_db s)). w_conv r = g_ConversationID m \<longrightarrow> w_seq r < g_Sequence m))"
  using SendMessage_tx_cases [OF inv run]
proof (elim disjE exE conjE)
  fix resp n w1 i w2
  assume calls: "world_conv_calls md seqFirst (sm_ConversationID cmd) (s_world s) resp n w1"
    and u: "md_uuid md w1 = (i, w2)" and w: "s_world t = w2"
    and new: "NewMessage i (sm_ConversationID cmd) (sm_UserID cmd) n (sm_Type cmd) (sm_Content cmd) (sm_Metadata cmd)
          (s_now s) = Inr m"
    and sent: "sent_tables md cmd m (s_now s)
          ((s_db s)\<lparr>idempotency_keys := idempotency_keys (s_db s) @ [key_row cmd (s_now s)]\<rparr>) (s_db t)"
  from below have good: "good (s_world s)" and le: "\<forall>r \<in> set (messages (s_db s)). w_seq r \<le> hi (s_world s) (w_conv r)"
    by (simp_all add: seqs_below_def)
  note f = world_conv_calls_fresh [OF calls good]
  from new have m: "g_ConversationID m = sm_ConversationID cmd" "g_Sequence m = n" by (auto simp: NewMessage_Inr_iff)
  from sent_tables_rows [OF sent] obtain r where r: "messages (s_db t) = messages (s_db s) @ [r]"
      "msg_of_row r = m\<lparr>g_Metadata := g_Metadata (msg_of_row r), g_DeletedAt := None\<rparr>" by auto
  then have rr: "w_conv r = sm_ConversationID cmd" "w_seq r = n" using m by (cases m; simp add: msg_of_row_def)+
  from f mw.uuid_rel [OF u] good have w2: "good w2" "\<forall>j. hi (s_world s) j \<le> hi w2 j" "n \<le> hi w2 (sm_ConversationID cmd)"
    by (auto simp: reaches_def intro: order_trans)
  with le r(1) rr w have "seqs_below (s_db t) (s_world t)" by (auto simp: seqs_below_def intro: order_trans)
  moreover have "w_seq r' < n" if "r' \<in> set (messages (s_db s))" "w_conv r' = sm_ConversationID cmd" for r'
    using le that f by force
  ultimately show ?thesis using m by simp
qed (use below in simp)

lemma SendMessage_fresh:
  assumes inv: "msg_inv md (s_db s)" and below: "seqs_below (s_db s) (s_world s)"
    and run: "SendMessage md seqFirst cmd s = (r, t)"
  shows "seqs_below (s_db t) (s_world t)
    \<and> (\<forall>m. r = Inr m \<longrightarrow> stored_key cmd (s_db s) = None \<longrightarrow>
        (\<forall>r \<in> set (messages (s_db s)). w_conv r = g_ConversationID m \<longrightarrow> w_seq r < g_Sequence m))"
proof -
  have "seqs_below (s_db s) (s_world s2)"
    if "seqs_below (s_db s) (s_world s1)" "s_db s1 = s_db s" "SendMessage_tx md seqFirst cmd s1 = (q, s2)" for s1 q s2
    using seqs_below_reaches [OF that(1) world_relD [OF mw.SendMessage_tx_rel that(3)]] by simp
  then have "\<forall>s1 q s2. seqs_below (s_db s) (s_world s1) \<longrightarrow> s_db s1 = s_db s
      \<longrightarrow> SendMessage_tx md seqFirst cmd s1 = (q, s2) \<longrightarrow> seqs_below (s_db s) (s_world s2)" by blast
  from WithTx_joint [where J = "seqs_below (s_db s)" and d = "s_db s", OF this below refl
      run [unfolded SendMessage_def msg_WithTx_def]]
  show ?thesis
  proof (elim conjE disjE exE)
    fix s1 m s2 assume s1: "s_db s1 = s_db s" "seqs_below (s_db s) (s_world s1)"
      and tx: "SendMessage_tx md seqFirst cmd s1 = (Inr m, s2)"
      and t: "s_db t = s_db s2" "s_world t = s_world s2" and r: "\<forall>b. r = Inr b \<longrightarrow> b = m"
    from SendMessage_tx_fresh [of s1 seqFirst cmd m s2] s1 inv tx t r show ?thesis by auto
  qed auto
qed

lemma msg_exec_fresh:
  assumes inv: "msg_inv md (s_db s)" and below: "seqs_below (s_db s) (s_world s)"
    and run: "msg_exec md n prod call s = (r, t)"
  shows "seqs_below (s_db t) (s_world t)"
proof (cases call)
  case (CallSend seqFirst cmd)
  obtain q t' where "SendMessage md seqFirst cmd s = (q, t')" by fastforce
  with SendMessage_fresh [OF inv below this] run CallSend answer_snd [of AnsMsg "SendMessage md seqFirst cmd" s]
  show ?thesis by simp
next
  case (CallDelete cmd)
  obtain q t' where d: "DeleteMessage md cmd s = (q, t')" by fastforce
  with run CallDelete answer_snd [of "\<lambda>_. AnsDone" "DeleteMessage md cmd" s] have "t = t'" by simp
  with seqs_below_reaches [OF below world_relD [OF mw.ops_rel(2) d]] DeleteMessage_cores [of md cmd s] d \<open>t = t'\<close> show ?thesis by simp
next
  case (CallSync c u a ps)
  obtain q t' where d: "SyncMessages md c u a ps s = (q, t')" by fastforce
  with run CallSync answer_snd [of AnsMsgs "SyncMessages md c u a ps" s] have "t = t'" by simp
  with seqs_below_reaches [OF below world_relD [OF mw.ops_rel(3) d]] SyncMessages_db [of md c u a ps s] d
  show ?thesis by simp
next
  case CallPublish
  obtain q t' where d: "msg_processBatch n prod s = (q, t')" by fastforce
  with run CallPublish answer_snd [of "\<lambda>_. AnsDone" "msg_processBatch n prod" s] have "t = t'" by simp
  from msg_processBatch_cases [OF d] have "s_db t' = s_db s \<or> (\<exists>now es. s_db t' = msg_marks now es (s_db s))" by blast
  then have "messages (s_db t') = messages (s_db s)" by (auto simp: msg_marks_def)
  with seqs_below_reaches [OF below world_relD [OF mw.msg_processBatch_rel d]] \<open>t = t'\<close> show ?thesis by simp
qed

lemma run_fresh:
  assumes json: "msg_json_ok md" and run: "msg_run md n prod env st tr st'"
    and "msg_inv md (fst st)" and "seqs_below (fst st) (snd st)"
  shows "msg_inv md (fst st') \<and> seqs_below (fst st') (snd st')"
proof (rule msg_run_preserves [OF run])
  fix d w w' assume "msg_inv md d \<and> seqs_below d w" "env w w'"
  then show "msg_inv md d \<and> seqs_below d w'"
    using seqs_below_reaches [of d w w' d] mw.env_rel by simp
next
  fix call s r t assume i: "msg_inv md (s_db s) \<and> seqs_below (s_db s) (s_world s)" and ex: "msg_exec md n prod call s = (r, t)"
  from msg_exec_inv [OF json, of s n prod call] i ex have "msg_inv md (s_db t)" by simp
  with msg_exec_fresh [OF _ _ ex] i show "msg_inv md (s_db t) \<and> seqs_below (s_db t) (s_world t)" by simp
qed (use assms in simp)

text \<open>In every run, a send that is not a replay takes a number above all numbers of its conversation.\<close>

lemma run_send_fresh:
  assumes json: "msg_json_ok md" and run: "msg_run md n prod env (empty_msg_db, w0) tr (d, w)" and w0: "good w0"
    and send: "SendMessage md seqFirst cmd (session d w script now) = (Inr m, t)" and new: "stored_key cmd d = None"
  shows "\<forall>r \<in> set (messages d). w_conv r = g_ConversationID m \<longrightarrow> w_seq r < g_Sequence m"
proof -
  have "msg_inv md (fst (empty_msg_db :: ('j, 'b) msg_db, w0))" "seqs_below (fst (empty_msg_db, w0)) (snd (empty_msg_db :: ('j, 'b) msg_db, w0))"
    using w0 by (simp_all add: msg_inv_empty) (simp add: seqs_below_def empty_msg_db_def)
  from run_fresh [OF json run this] have i: "msg_inv md d" "seqs_below d w" by simp_all
  with SendMessage_fresh [OF _ _ send] new show ?thesis by simp
qed

end

end
