(* ===== verification/MsgConv.thy ===== *)
theory MsgConv
  imports ConvGrpc ConvSeq MsgGrpc MsgClient
begin

text \<open>
  The message service in front of the conversation service: the world of the message service holds the
  tables and the world of the conversation service, the failures its next calls will meet
  (\<open>bk_feed\<close>) and everything else (\<open>bk_rest\<close>: the broker, the source of identifiers). A call through
  the client is a call of the server with the metadata the client interceptor puts on it.
\<close>

record ('w, 'r, 'b) conv_backend =
  bk_db :: "'b conv_db"
  bk_world :: 'w
  bk_feed :: "(outcome list \<times> int) list"
  bk_rest :: 'r

fun next_feed :: "(outcome list \<times> int) list \<Rightarrow> outcome list \<times> int" where
  "next_feed [] = ([], 0)"
| "next_feed (f # fs) = f"

definition backend_call ::
  "(conv_err go_error \<Rightarrow> bool) \<Rightarrow> ('w, 'b) conv_deps \<Rightarrow> grpc_ctx \<Rightarrow> conv_request \<Rightarrow> ('w, 'r, 'b) conv_backend
    \<Rightarrow> (conv_err go_error + conv_response) \<times> ('w, 'r, 'b) conv_backend" where
  "backend_call is_status dp ctx req w =
     (case next_feed (bk_feed w) of (script, now) \<Rightarrow>
       (case msg_ClientInterceptor ctx [] (\<lambda>out. conv_serve is_status dp False (Some (md_get out)) req
               (session (bk_db w) (bk_world w) script now)) of
          (r, t) \<Rightarrow> (r, w\<lparr>bk_db := s_db t, bk_world := s_world t, bk_feed := tl (bk_feed w)\<rparr>)))"

text \<open>An error of a handler as the client sees it: its status, or \<open>Unknown\<close>.\<close>

fun client_error :: "conv_err go_error \<Rightarrow> msg_err go_error" where
  "client_error (Status c m) = Status c m"
| "client_error err = Status (OtherCode 2) (err_text conv_err_text err)"

definition backend_get where
  "backend_get is_status dp ctx i w =
     (case backend_call is_status dp ctx (GetConversationRequest i) w of
        (Inr (GetConversationResponse resp), w') \<Rightarrow> (Inr resp, w')
      | (Inr _, w') \<Rightarrow> (Inl (Status Internal []), w')
      | (Inl e, w') \<Rightarrow> (Inl (client_error e), w'))"

definition backend_next where
  "backend_next is_status dp ctx i w =
     (case backend_call is_status dp ctx (NextSequenceRequest i) w of
        (Inr (NextSequenceResponse n), w') \<Rightarrow> (Inr n, w')
      | (Inr _, w') \<Rightarrow> (Inl (Status Internal []), w')
      | (Inl e, w') \<Rightarrow> (Inl (client_error e), w'))"

definition on_rest :: "('r \<Rightarrow> 'x \<times> 'r) \<Rightarrow> ('w, 'r, 'b) conv_backend \<Rightarrow> 'x \<times> ('w, 'r, 'b) conv_backend" where
  "on_rest f w = (case f (bk_rest w) of (x, r) \<Rightarrow> (x, w\<lparr>bk_rest := r\<rparr>))"

record ('r, 'j) msg_lib =
  lib_uuid :: "'r \<Rightarrow> string \<times> 'r"
  lib_json_enc :: "Message \<Rightarrow> string + 'j"
  lib_json_dec :: "'j \<Rightarrow> string + Message"
  lib_jsonb :: "string \<Rightarrow> string option"

definition backend_deps ::
  "(conv_err go_error \<Rightarrow> bool) \<Rightarrow> ('w, 'b) conv_deps \<Rightarrow> grpc_ctx \<Rightarrow> 'b codec \<Rightarrow> ('r, 'j) msg_lib
    \<Rightarrow> (('w, 'r, 'b) conv_backend, 'j, 'b) msg_deps" where
  "backend_deps is_status dp ctx cd lib =
     \<lparr>md_GetConversation = backend_get is_status dp ctx, md_NextSequence = backend_next is_status dp ctx,
      md_uuid = on_rest (lib_uuid lib), md_json_enc = lib_json_enc lib, md_json_dec = lib_json_dec lib,
      md_codec = cd, md_jsonb = lib_jsonb lib\<rparr>"

definition backend_producer :: "('r, 'b) producer \<Rightarrow> (('w, 'r, 'b) conv_backend, 'b) producer" where
  "backend_producer p = \<lparr>kp_topic = kp_topic p, kp_inject = kp_inject p, kp_produce = (\<lambda>m. on_rest (kp_produce p m))\<rparr>"

text \<open>What others do between two calls: any run of the conversation service, and anything elsewhere.\<close>

definition backend_env ::
  "('w, 'b) conv_deps \<Rightarrow> conv_worker \<Rightarrow> ('w, 'b) producer \<Rightarrow> ('w, 'r, 'b) conv_backend \<Rightarrow> ('w, 'r, 'b) conv_backend \<Rightarrow> bool" where
  "backend_env dp wk p w w' \<longleftrightarrow> (\<exists>tr. conv_run dp wk p (bk_db w, bk_world w) tr (bk_db w', bk_world w'))"

section \<open>The laws of the client\<close>

lemma backend_call_effect:
  assumes "backend_call is_status dp ctx req w = (r, w')" and "conv_inv (bk_db w)"
  shows "conv_inv (bk_db w') \<and> grows (bk_db w) (bk_db w')"
proof -
  obtain script now where f: "next_feed (bk_feed w) = (script, now)" by fastforce
  let ?s = "session (bk_db w) (bk_world w) script now"
  from assms(1) f obtain hdr t where run: "conv_serve is_status dp False hdr req ?s = (r, t)" and db: "bk_db w' = s_db t"
    by (auto simp: backend_call_def msg_ClientInterceptor_def Let_def split: prod.splits)
  from conv_serve_cases [of is_status dp False hdr req ?s undefined undefined] run
  consider "t = ?s" | call where "t = snd (conv_exec dp undefined undefined call ?s)" by auto
  then show ?thesis
    using conv_exec_inv [of ?s dp undefined undefined] conv_exec_grows [of ?s dp undefined undefined] assms(2) db grows_refl
    by cases auto
qed

lemma conv_serve_next_InrD:
  assumes "conv_serve is_status dp idFirst hdr (NextSequenceRequest i) s = (Inr (NextSequenceResponse n), t)"
  shows "NextSequence i s = (Inr n, t)"
proof -
  have ex: "exempt_method (rpc_method (NextSequenceRequest i))" by (simp add: exempt_method_def)
  from Interceptor_cases [of hdr "rpc_method (NextSequenceRequest i)"
      "rpc_handler is_status dp idFirst (NextSequenceRequest i)" s] ex assms
  have "rpc_NextSequence is_status i s = (Inr (NextSequenceResponse n), t)"
    unfolding conv_serve_def by auto
  then show ?thesis
    by (cases "NextSequence i s"; cases "fst (NextSequence i s)")
      (auto simp: rpc_NextSequence_def bindE_Inr_iff mapping_errors_def split: if_splits)
qed

lemma backend_next_fresh:
  assumes inv: "conv_inv (bk_db w)" and run: "backend_next is_status dp ctx i w = (Inr n, w')"
  shows "seq_of (bk_db w) i < n \<and> n \<le> seq_of (bk_db w') i"
proof -
  from run have call: "backend_call is_status dp ctx (NextSequenceRequest i) w = (Inr (NextSequenceResponse n), w')"
    by (auto simp: backend_next_def split: prod.splits sum.splits conv_response.splits)
  obtain script now where f: "next_feed (bk_feed w) = (script, now)" by fastforce
  let ?s = "session (bk_db w) (bk_world w) script now"
  from call f obtain hdr t where "conv_serve is_status dp False hdr (NextSequenceRequest i) ?s
      = (Inr (NextSequenceResponse n), t)" and db: "bk_db w' = s_db t"
    by (auto simp: backend_call_def msg_ClientInterceptor_def Let_def split: prod.splits)
  from NextSequence_success [OF conv_serve_next_InrD [OF this(1)]] db show ?thesis by (auto simp: seq_of_def)
qed

lemma backend_call_seq:
  assumes "backend_call is_status dp ctx req w = (r, w')" and "conv_inv (bk_db w)"
  shows "conv_inv (bk_db w') \<and> (\<forall>j. seq_of (bk_db w) j \<le> seq_of (bk_db w') j)"
  using backend_call_effect [OF assms] seq_of_grows by blast

lemma on_rest_db: "on_rest f w = (x, w') \<Longrightarrow> bk_db w' = bk_db w"
  by (auto simp: on_rest_def split: prod.splits)

lemma backend_get_call: "backend_get is_status dp ctx i w = (q, w') \<Longrightarrow>
    \<exists>r. backend_call is_status dp ctx (GetConversationRequest i) w = (r, w')"
  by (auto simp: backend_get_def split: prod.splits sum.splits conv_response.splits)

lemma backend_next_call: "backend_next is_status dp ctx i w = (q, w') \<Longrightarrow>
    \<exists>r. backend_call is_status dp ctx (NextSequenceRequest i) w = (r, w')"
  by (auto simp: backend_next_def split: prod.splits sum.splits conv_response.splits)

interpretation mc: conv_client "backend_deps is_status dp ctx cd lib" "backend_producer pr" "backend_env dp wk p"
    "\<lambda>w. conv_inv (bk_db w)" "\<lambda>w. seq_of (bk_db w)"
  for is_status dp ctx cd lib pr wk p
proof unfold_locales
  fix w w' :: "('a, 'c, 'b) conv_backend" and i r
  assume inv: "conv_inv (bk_db w)" and run: "md_NextSequence (backend_deps is_status dp ctx cd lib) i w = (r, w')"
  then have run: "backend_next is_status dp ctx i w = (r, w')" by (simp add: backend_deps_def)
  from backend_next_call [OF run] backend_call_seq inv
  have "conv_inv (bk_db w') \<and> (\<forall>j. seq_of (bk_db w) j \<le> seq_of (bk_db w') j)" by blast
  with backend_next_fresh [OF inv, of is_status dp ctx i] run
  show "conv_inv (bk_db w') \<and> (\<forall>j. seq_of (bk_db w) j \<le> seq_of (bk_db w') j)
      \<and> (\<forall>n. r = Inr n \<longrightarrow> seq_of (bk_db w) i < n \<and> n \<le> seq_of (bk_db w') i)" by blast
next
  fix w w' :: "('a, 'c, 'b) conv_backend" and i q
  assume inv: "conv_inv (bk_db w)" and run: "md_GetConversation (backend_deps is_status dp ctx cd lib) i w = (q, w')"
  then have "backend_get is_status dp ctx i w = (q, w')" by (simp add: backend_deps_def)
  from backend_get_call [OF this] backend_call_seq inv
  show "conv_inv (bk_db w') \<and> (\<forall>j. seq_of (bk_db w) j \<le> seq_of (bk_db w') j)" by blast
next
  fix w w' :: "('a, 'c, 'b) conv_backend" and u
  assume "conv_inv (bk_db w)" and "md_uuid (backend_deps is_status dp ctx cd lib) w = (u, w')"
  then show "conv_inv (bk_db w') \<and> (\<forall>j. seq_of (bk_db w) j \<le> seq_of (bk_db w') j)"
    using on_rest_db [of "lib_uuid lib" w u w'] by (simp add: backend_deps_def)
next
  fix w w' :: "('a, 'c, 'b) conv_backend" and k v
  assume "conv_inv (bk_db w)" and "kp_produce (backend_producer pr) k w = (v, w')"
  then show "conv_inv (bk_db w') \<and> (\<forall>j. seq_of (bk_db w) j \<le> seq_of (bk_db w') j)"
    using on_rest_db [of "kp_produce pr k" w v w'] by (simp add: backend_producer_def)
next
  fix w w' :: "('a, 'c, 'b) conv_backend"
  assume inv: "conv_inv (bk_db w)" and "backend_env dp wk p w w'"
  then obtain tr where run: "conv_run dp wk p (bk_db w, bk_world w) tr (bk_db w', bk_world w')"
    by (auto simp: backend_env_def)
  from conv_run_inv [OF run] conv_run_grows [OF run] inv have "conv_inv (bk_db w')" "grows (bk_db w) (bk_db w')"
    by simp_all
  with seq_of_grows show "conv_inv (bk_db w') \<and> (\<forall>j. seq_of (bk_db w) j \<le> seq_of (bk_db w') j)" by blast
qed

end
