(* ===== verification/MsgSync.thy ===== *)
theory MsgSync
  imports MsgGrpc MsgClient
begin

text \<open>
  Reading a conversation page by page, and the outbox of the message service drained by polls.
\<close>

section \<open>Pages\<close>

text \<open>All messages of a conversation above a sequence, in sequence order: what paging has to reproduce.\<close>

definition history :: "string \<Rightarrow> int \<Rightarrow> ('j, 'b) msg_db \<Rightarrow> msg_row list" where
  "history convID afterSeq d =
     sort_key w_seq (filter (\<lambda>r. w_conv r = convID \<and> w_seq r > afterSeq) (messages d))"

lemma sql_fetch_history: "sql_fetch c a n d = take n (history c a d)"
  by (simp add: sql_fetch_def history_def)

lemma history_set: "set (history c a d) = {r \<in> set (messages d). w_conv r = c \<and> w_seq r > a}"
  by (auto simp: history_def)

lemma distinct_seq_filter:
  assumes "distinct (map (\<lambda>r. (w_conv r, w_seq r)) rows)"
  shows "distinct (map w_seq (filter (\<lambda>r. w_conv r = c \<and> w_seq r > a) rows))"
  using assms by (induction rows) (auto simp: image_iff)

lemma sorted_wrt_less_of_distinct:
  "sorted (map f xs) \<Longrightarrow> distinct (map f xs) \<Longrightarrow> sorted_wrt (<) (map f xs)"
  by (simp add: strict_sorted_iff)

lemma history_strict:
  assumes "rows_ok d"
  shows "sorted_wrt (<) (map w_seq (history c a d))"
proof -
  let ?xs = "filter (\<lambda>r. w_conv r = c \<and> w_seq r > a) (messages d)"
  have "mset (map w_seq (history c a d)) = mset (map w_seq ?xs)" by (simp add: history_def)
  moreover have "distinct (map w_seq ?xs)"
    using assms distinct_seq_filter by (auto simp: rows_ok_def)
  ultimately have "distinct (map w_seq (history c a d))" by (metis mset_eq_imp_distinct_iff)
  moreover have "sorted (map w_seq (history c a d))" by (simp add: history_def)
  ultimately show ?thesis by (rule sorted_wrt_less_of_distinct [rotated])
qed

lemma history_filter:
  assumes "a \<le> a'"
  shows "history c a' d = filter (\<lambda>r. w_seq r > a') (history c a d)"
  unfolding history_def filter_sort filter_filter
  by (rule arg_cong [where f = "sort_key w_seq"], rule filter_cong) (use assms in auto)

lemma filter_above_drop:
  fixes f :: "'a \<Rightarrow> int"
  assumes "sorted_wrt (<) (map f xs)" and "k < length xs"
  shows "filter (\<lambda>x. f x > f (xs ! k)) xs = drop (Suc k) xs"
proof -
  have "xs = take (Suc k) xs @ drop (Suc k) xs" by simp
  moreover have "filter (\<lambda>x. f x > f (xs ! k)) (take (Suc k) xs) = []"
    unfolding filter_empty_conv
  proof
    fix x assume "x \<in> set (take (Suc k) xs)"
    then obtain i where i: "i < Suc k" "i < length xs" "x = xs ! i" by (auto simp: in_set_conv_nth)
    have "f x < f (xs ! k)" if "i \<noteq> k"
      using that i assms(2) sorted_wrt_nth_less [OF assms(1), of i k] by simp
    with i show "\<not> f x > f (xs ! k)" by (cases "i = k") auto
  qed
  moreover have "filter (\<lambda>x. f x > f (xs ! k)) (drop (Suc k) xs) = drop (Suc k) xs"
    unfolding filter_id_conv
  proof
    fix x assume "x \<in> set (drop (Suc k) xs)"
    then obtain i where "i < length xs - Suc k" "x = xs ! (Suc k + i)" by (auto simp: in_set_conv_nth)
    then show "f x > f (xs ! k)"
      using sorted_wrt_nth_less [OF assms(1), of k "Suc k + i"] by simp
  qed
  ultimately show ?thesis by (metis append_Nil filter_append)
qed

text \<open>The page after the last sequence of a page is the rest of the history.\<close>

lemma history_next_page:
  assumes "rows_ok d" and "page = take n (history c a d)" and "page \<noteq> []"
  shows "history c (w_seq (last page)) d = drop n (history c a d)"
proof -
  let ?h = "history c a d"
  define k where "k = length page - 1"
  have k: "k < length ?h" "Suc k = min n (length ?h)" "last page = ?h ! k"
    using assms(2,3) by (auto simp: k_def last_conv_nth min_def)
  have "?h ! k \<in> set ?h" using k(1) by simp
  then have "a \<le> w_seq (?h ! k)" unfolding history_set by auto
  from history_filter [OF this, of c d] filter_above_drop [OF history_strict [OF assms(1)] k(1)]
  have "history c (w_seq (last page)) d = drop (Suc k) ?h" unfolding k(3) by simp
  with k(2) show ?thesis by (simp add: drop_all min_def split: if_splits)
qed

lemma SyncMessages_success:
  assumes "SyncMessages md c u a ps s = (Inr msgs, t)"
  shows "(\<exists>resp. md_GetConversation md c (s_world s) = (Inr resp, s_world t) \<and> u \<in> set (gr_ParticipantUserIds resp))
    \<and> msgs = map msg_of_row (take (page_size ps) (history c a (s_db s))) \<and> s_db t = s_db s"
proof -
  from assms obtain resp s1 rows where
      w: "on_world (md_GetConversation md c) s = (Inr resp :: msg_err go_error + _, s1)"
    and u: "u \<in> set (gr_ParticipantUserIds resp)"
    and q: "query False (sql_fetch c a (page_size ps)) s1 = (Inr rows :: msg_err go_error + _, t)"
    and m: "msgs = map msg_of_row rows"
    by (auto simp: SyncMessages_def FetchMessages_def bindE_Inr_iff split: if_splits)
  from on_world_InrD [OF w] query_InrD [OF q] u m show ?thesis by (auto simp: sql_fetch_history)
qed

lemma page_size_bounds: "1 \<le> page_size n \<and> page_size n \<le> 500"
  by (auto simp: page_size_def)

section \<open>Polls drain the outbox\<close>

definition broker_acks :: "('w, 'b) producer \<Rightarrow> bool" where
  "broker_acks p \<longleftrightarrow> (\<forall>m w. fst (kp_produce p m w) = Delivery None)"

lemma msg_publish_events_acks:
  fixes s :: "(('j, 'b) msg_db, 'w) sess"
  assumes "broker_acks p" and "s_script s = []" and "\<not> s_aborted s"
  shows "\<exists>t. msg_publish_events p es s = (Inr (), t) \<and> s_script t = [] \<and> \<not> s_aborted t"
  using assms(2,3)
proof (induction es arbitrary: s)
  case (Cons e es)
  have "fst (kp_produce p m w) = Delivery None" for m w using assms(1) by (simp add: broker_acks_def)
  then obtain w where "kp_produce p (Publish_msg p (x_aggregate_id e) (x_payload e)) (s_world s) = (Delivery None, w)"
    by (metis prod.collapse)
  then have pub: "on_world (msg_Publish p (x_aggregate_id e) (x_payload e)) s = (Inr (), s\<lparr>s_world := w\<rparr>)"
    by (simp add: on_world_def msg_Publish_def Publish_def)
  have "stmt True (\<lambda>d. Inr (msg_mark now (x_id e) d, ())) (s\<lparr>s_world := w\<rparr>) =
      (Inr () :: msg_err go_error + unit, s\<lparr>s_world := w, s_db := msg_mark now (x_id e) (s_db s)\<rparr>)" for now
    using Cons.prems by (subst stmt_ok) simp_all
  with pub Cons.IH [of "s\<lparr>s_world := w, s_db := msg_mark (s_now s) (x_id e) (s_db s)\<rparr>"] Cons.prems
  show ?case by simp
qed simp

lemma msg_processBatch_acks:
  fixes s :: "(('j, 'b) msg_db, 'w) sess"
  assumes "broker_acks p" and "s_script s = []"
  shows "\<exists>t now. msg_processBatch n p s = (Inr (), t) \<and> s_db t = msg_marks now (take n (msg_pending (s_db s))) (s_db s)"
proof (cases "take n (msg_pending (s_db s)) = []")
  case True
  then have "msg_batch_body n p (s\<lparr>s_aborted := False\<rparr>) = (Inr False, s\<lparr>s_aborted := False\<rparr>)"
    using assms(2) by (simp add: msg_batch_body_def query_ok)
  with assms(2) have "msg_processBatch n p s = (Inr (), rollback s (s\<lparr>s_aborted := False\<rparr>))"
    by (simp add: msg_processBatch_def take_outcome_def)
  then show ?thesis unfolding True by simp
next
  case False
  let ?s = "s\<lparr>s_aborted := False\<rparr>" and ?es = "take n (msg_pending (s_db s))"
  from msg_publish_events_acks [OF assms(1), of ?s ?es] assms(2) obtain t where
      pe: "msg_publish_events p ?es ?s = (Inr (), t)" and t: "s_script t = []" "\<not> s_aborted t" by auto
  have "msg_batch_body n p ?s = (Inr True, t)"
    using False pe assms(2) by (simp add: msg_batch_body_def query_ok)
  with assms(2) t have "msg_processBatch n p s = (Inr (), t)"
    by (simp add: msg_processBatch_def take_outcome_def commit_def)
  with msg_publish_events_db [OF pe] show ?thesis by auto
qed

lemma msg_marks_pending:
  assumes "msg_outbox_ok d"
  shows "msg_pending (msg_marks now (take n (msg_pending d)) d) = drop n (msg_pending d)"
proof -
  let ?p = "filter (\<lambda>e. x_processed_at e = None) (msg_outbox d)" and ?t = "take n (msg_pending d)"
  let ?m = "\<lambda>e. if x_id e \<in> x_id ` set ?t then e\<lparr>x_processed_at := Some now\<rparr> else e"
  have "filter (\<lambda>e. x_processed_at e = None) (map ?m xs)
      = filter (\<lambda>e. x_id e \<notin> x_id ` set ?t) (filter (\<lambda>e. x_processed_at e = None) xs)" for xs
    by (induction xs) auto
  note unmarked = this [of "msg_outbox d"]
  have "msg_outbox (msg_marks now ?t d) = map ?m (msg_outbox d)" by (simp add: msg_marks_def)
  then have "msg_pending (msg_marks now ?t d) = sort_key x_id (filter (\<lambda>e. x_id e \<notin> x_id ` set ?t) ?p)"
    by (simp only: msg_pending_def [of "msg_marks now ?t d"] unmarked)
  also have "\<dots> = filter (\<lambda>e. x_id e \<notin> x_id ` set ?t) (msg_pending d)" by (simp add: msg_pending_def filter_sort)
  also have "\<dots> = drop n (msg_pending d)"
  proof -
    have "distinct (map x_id ?p)"
      using assms distinct_map_filter by (auto simp: msg_outbox_ok_def)
    moreover have "mset (map x_id (msg_pending d)) = mset (map x_id ?p)" by (simp add: msg_pending_def)
    ultimately have dist: "distinct (map x_id (msg_pending d))" by (metis mset_eq_imp_distinct_iff)
    have "filter (\<lambda>e. x_id e \<notin> x_id ` set xs) (xs @ ys) = ys" if "distinct (map x_id (xs @ ys))" for xs ys :: "'b msg_outbox_row list"
      using that by (auto simp: filter_empty_conv filter_id_conv)
    from this [of ?t "drop n (msg_pending d)"] dist show ?thesis by simp
  qed
  finally show ?thesis .
qed

lemma msg_marks_outbox_ok: "msg_outbox_ok d \<Longrightarrow> msg_outbox_ok (msg_marks now es d)"
proof -
  have ids: "map x_id (msg_outbox (msg_marks now es d)) = map x_id (msg_outbox d)" by (auto simp: msg_marks_def)
  then have "x_id ` set (msg_outbox (msg_marks now es d)) = x_id ` set (msg_outbox d)" by (metis image_set)
  moreover assume "msg_outbox_ok d"
  ultimately show ?thesis unfolding msg_outbox_ok_def ids
    by (auto simp: msg_marks_def)
qed

lemma polls_drain:
  fixes d :: "('j, 'b) msg_db"
  assumes "broker_acks p" and "msg_outbox_ok d"
    and "msg_calls md n p (replicate k (CallPublish, [], now)) (d, w) = (tr, (d', w'))"
  shows "msg_pending d' = drop (k * n) (msg_pending d)"
  using assms(2,3)
proof (induction k arbitrary: d w tr)
  case 0
  then show ?case by simp
next
  case (Suc k)
  let ?s = "session d w [] now"
  from msg_processBatch_acks [OF assms(1), of ?s n] obtain t now' where
      run: "msg_processBatch n p ?s = (Inr (), t)" and t: "s_db t = msg_marks now' (take n (msg_pending d)) d" by auto
  from run Suc.prems(2) obtain tr' where "msg_calls md n p (replicate k (CallPublish, [], now)) (s_db t, s_world t)
      = (tr', (d', w'))"
    by (auto simp: answer_def split: prod.splits)
  from Suc.IH [OF _ this] t msg_marks_outbox_ok [OF Suc.prems(1)]
  have "msg_pending d' = drop (k * n) (msg_pending (s_db t))" by simp
  with t msg_marks_pending [OF Suc.prems(1)] show ?case by (simp add: add.commute)
qed

section \<open>Marked events have been published\<close>

text \<open>Nothing but the producer touches the log of the broker, or it only appends to it.\<close>

definition log_kept :: "('w \<Rightarrow> 'b kafka_msg list) \<Rightarrow> ('w, 'j, 'b) msg_deps \<Rightarrow> ('w \<Rightarrow> 'w \<Rightarrow> bool) \<Rightarrow> bool" where
  "log_kept klog md env \<longleftrightarrow>
     (\<forall>i w. prefix (klog w) (klog (snd (md_NextSequence md i w))))
     \<and> (\<forall>i w. prefix (klog w) (klog (snd (md_GetConversation md i w))))
     \<and> (\<forall>w. prefix (klog w) (klog (snd (md_uuid md w))))
     \<and> (\<forall>w w'. env w w' \<longrightarrow> prefix (klog w) (klog w'))"

definition log_extends ::
  "('w \<Rightarrow> 'b kafka_msg list) \<Rightarrow> ('w, 'j, 'b) msg_deps \<Rightarrow> ('w, 'b) producer \<Rightarrow> ('w \<Rightarrow> 'w \<Rightarrow> bool) \<Rightarrow> 'w \<Rightarrow> 'w \<Rightarrow> bool" where
  "log_extends klog md p env w w' \<longleftrightarrow> (broker_ok klog p \<and> log_kept klog md env \<longrightarrow> prefix (klog w) (klog w'))"

interpretation lg: msg_world "log_extends klog md p env" md p env for klog md p env
proof unfold_locales
  fix i w r w' assume "md_NextSequence md i w = (r, w')"
  then show "log_extends klog md p env w w'" unfolding log_extends_def log_kept_def by (metis snd_conv)
next
  fix i w r w' assume "md_GetConversation md i w = (r, w')"
  then show "log_extends klog md p env w w'" unfolding log_extends_def log_kept_def by (metis snd_conv)
next
  fix w r w' assume "md_uuid md w = (r, w')"
  then show "log_extends klog md p env w w'" unfolding log_extends_def log_kept_def by (metis snd_conv)
next
  fix k w v w' assume "kp_produce p k w = (v, w')"
  then show "log_extends klog md p env w w'"
    unfolding log_extends_def broker_ok_def by (fastforce intro: prefixI)
qed (auto simp: log_extends_def log_kept_def intro: prefix_order.trans)

definition msg_delivered :: "('w \<Rightarrow> 'b kafka_msg list) \<Rightarrow> ('w, 'b) producer \<Rightarrow> ('j, 'b) msg_db \<Rightarrow> 'w \<Rightarrow> bool" where
  "msg_delivered klog p d w \<longleftrightarrow>
     (\<forall>e \<in> set (msg_outbox d). x_processed_at e \<noteq> None \<longrightarrow> kmsg_of p e \<in> set (klog w))"

lemma msg_delivered_grows:
  assumes "msg_delivered klog p d w" and "prefix (klog w) (klog w')"
    and "{e \<in> set (msg_outbox d'). x_processed_at e \<noteq> None} \<subseteq> set (msg_outbox d)"
  shows "msg_delivered klog p d' w'"
  using assms set_mono_prefix [OF assms(2)] unfolding msg_delivered_def by blast

lemma SendMessage_marked:
  assumes "msg_inv md (s_db s)"
  shows "{e \<in> set (msg_outbox (s_db (snd (SendMessage md seqFirst cmd s)))). x_processed_at e \<noteq> None}
    \<subseteq> set (msg_outbox (s_db s))"
  unfolding SendMessage_def msg_WithTx_def
proof (rule txm.relates [where R = "\<lambda>d d'. {e \<in> set (msg_outbox d'). x_processed_at e \<noteq> None} \<subseteq> set (msg_outbox d)"])
  fix s1 m s2 assume s1: "s_db s1 = s_db s" and run: "SendMessage_tx md seqFirst cmd s1 = (Inr m, s2)"
  have "msg_inv md (s_db s1)" using assms s1 by simp
  from SendMessage_tx_cases [OF this run]
  consider "s_db s2 = s_db s" | now d0 where "sent_tables md cmd m now d0 (s_db s2)" "msg_outbox d0 = msg_outbox (s_db s)"
    unfolding s1 by (elim disjE exE conjE) simp_all
  then show "{e \<in> set (msg_outbox (s_db s2)). x_processed_at e \<noteq> None} \<subseteq> set (msg_outbox (s_db s))"
  proof cases
    case 2
    from sent_tables_outbox [OF 2(1)] 2(2) show ?thesis by auto
  qed auto
qed auto

lemma DeleteMessage_marked:
  "{e \<in> set (msg_outbox (s_db (snd (DeleteMessage md cmd s)))). x_processed_at e \<noteq> None} \<subseteq> set (msg_outbox (s_db s))"
  unfolding DeleteMessage_def msg_WithTx_def
proof (rule txm.relates [where R = "\<lambda>d d'. {e \<in> set (msg_outbox d'). x_processed_at e \<noteq> None} \<subseteq> set (msg_outbox d)"])
  fix s1 u s2 assume s1: "s_db s1 = s_db s" and run: "DeleteMessage_tx md cmd s1 = (Inr u, s2)"
  from DeleteMessage_tx_InrD [OF run] obtain r s3 where
    s3: "s_db s3 = s_db s" and run: "delete_marked md cmd (msg_of_row r) s3 = (Inr u, s2)" unfolding s1 by blast
  from delete_marked_InrD [OF run]
  show "{e \<in> set (msg_outbox (s_db s2)). x_processed_at e \<noteq> None} \<subseteq> set (msg_outbox (s_db s))"
    unfolding s3 by (auto simp: mark_deleted_def sql_insert_msg_outbox_def)
qed auto

lemma msg_pending_set: "set (msg_pending d) = {e \<in> set (msg_outbox d). x_processed_at e = None}"
  by (auto simp: msg_pending_def)

lemma msg_marks_delivered:
  assumes inv: "msg_outbox_ok d" and del: "msg_delivered klog p d w" and ext: "klog w' = klog w @ ext"
    and sub: "subseq (map (kmsg_of p) (take n (msg_pending d))) ext"
  shows "msg_delivered klog p (msg_marks now (take n (msg_pending d)) d) w'"
  unfolding msg_delivered_def
proof (intro ballI impI)
  let ?t = "take n (msg_pending d)"
  fix e assume e: "e \<in> set (msg_outbox (msg_marks now ?t d))" "x_processed_at e \<noteq> None"
  then obtain e0 where e0: "e0 \<in> set (msg_outbox d)"
    "e = (if x_id e0 \<in> x_id ` set ?t then e0\<lparr>x_processed_at := Some now\<rparr> else e0)" by (auto simp: msg_marks_def)
  have k: "kmsg_of p e = kmsg_of p e0" using e0(2) by (auto simp: kmsg_of_def)
  show "kmsg_of p e \<in> set (klog w')"
  proof (cases "x_id e0 \<in> x_id ` set ?t")
    case True
    then obtain e1 where e1: "e1 \<in> set ?t" "x_id e1 = x_id e0" by auto
    then have "e1 \<in> set (msg_outbox d)" using msg_pending_set in_set_takeD by fastforce
    with e0(1) e1(2) inv have "e1 = e0" by (auto simp: msg_outbox_ok_def distinct_map inj_on_def)
    with e1(1) have "kmsg_of p e0 \<in> set (map (kmsg_of p) ?t)" by simp
    with list_emb_set [OF sub] have "kmsg_of p e0 \<in> set ext" by blast
    with k ext show ?thesis by simp
  next
    case False
    with e0 e(2) del have "kmsg_of p e0 \<in> set (klog w)" by (simp add: msg_delivered_def)
    with k ext show ?thesis by simp
  qed
qed

lemma msg_exec_delivered:
  assumes broker: "broker_ok klog p" and kept: "log_kept klog md env" and inv: "msg_inv md (s_db s)"
    and del: "msg_delivered klog p (s_db s) (s_world s)" and run: "msg_exec md n p call s = (r, t)"
  shows "msg_delivered klog p (s_db t) (s_world t)"
proof -
  have log: "prefix (klog (s_world s)) (klog (s_world t))"
    using lg.exec_rel [OF run, of klog env] broker kept by (simp add: log_extends_def)
  have t: "t = snd (msg_exec md n p call s)" using run by simp
  show ?thesis
  proof (cases "call = CallPublish")
    case True
    with run obtain q where pb: "msg_processBatch n p s = (q, t)"
      using answer_snd [of "\<lambda>_. AnsDone" "msg_processBatch n p" s] by (metis msg_exec.simps(4) prod.collapse snd_conv)
    from msg_processBatch_cases [OF pb, of klog] broker obtain ext where
        ext: "klog (s_world t) = klog (s_world s) @ ext"
      and cases: "s_db t = s_db s \<or> (\<exists>now. s_db t = msg_marks now (take n (msg_pending (s_db s))) (s_db s)
        \<and> subseq (map (kmsg_of p) (take n (msg_pending (s_db s)))) ext)" by blast
    have "msg_outbox_ok (s_db s)" using inv by (simp add: msg_inv_def)
    with cases msg_marks_delivered [OF _ del ext] msg_delivered_grows [OF del log, of "s_db s"] show ?thesis by auto
  next
    case False
    have "{e \<in> set (msg_outbox (s_db t)). x_processed_at e \<noteq> None} \<subseteq> set (msg_outbox (s_db s))"
      using False SendMessage_marked [OF inv] DeleteMessage_marked [of md _ s] SyncMessages_db [of md]
      unfolding t by (cases call) (simp_all, blast?)
    with msg_delivered_grows [OF del log] show ?thesis .
  qed
qed

lemma msg_run_delivered:
  assumes run: "msg_run md n p env (empty_msg_db, w0) tr (d, w)" and json: "msg_json_ok md"
    and broker: "broker_ok klog p" and kept: "log_kept klog md env"
  shows "msg_delivered klog p d w"
proof -
  have "msg_inv md (fst (d, w)) \<and> msg_delivered klog p (fst (d, w)) (snd (d, w))"
  proof (rule msg_run_preserves [OF run])
    fix d w w' assume i: "msg_inv md d \<and> msg_delivered klog p d w" and e: "env w w'"
    from kept e have "prefix (klog w) (klog w')" by (simp add: log_kept_def)
    with i msg_delivered_grows [of klog p d w w' d] show "msg_inv md d \<and> msg_delivered klog p d w'" by auto
  next
    fix call s r t assume i: "msg_inv md (s_db s) \<and> msg_delivered klog p (s_db s) (s_world s)"
      and ex: "msg_exec md n p call s = (r, t)"
    from msg_exec_inv [OF json, of s n p call] i ex have "msg_inv md (s_db t)" by simp
    with msg_exec_delivered [OF broker kept _ _ ex] i
    show "msg_inv md (s_db t) \<and> msg_delivered klog p (s_db t) (s_world t)" by simp
  qed (simp add: msg_inv_empty, simp add: msg_delivered_def empty_msg_db_def)
  then show ?thesis by simp
qed

end
