(* ===== verification/MsgProps.thy ===== *)
theory MsgProps
  imports MsgConv MsgSync ConvProps
begin

text \<open>
  The properties of the message service, each with a run of the model where it has hypotheses.
\<close>

section \<open>A concrete deployment\<close>

text \<open>
  A conversation service that knows one conversation and counts, identifiers made from the count, the
  stored answer kept as it is; the world is the count and the log of the broker.
\<close>

definition demo_conv_resp :: "string \<Rightarrow> pb_get_conversation_response" where
  "demo_conv_resp i =
     \<lparr>gr_Conversation = \<lparr>pc_ConversationId = i, pc_DisplayName = ''team'', pc_AvatarUrl = [], pc_CreatedAt = 0,
        pc_Type = GROUP, pc_ParticipantUserIds = [''ann'', ''bob''],
        pc_ParticipantsWithRoles = [\<lparr>pp_UserId = ''ann'', pp_Role = ADMIN\<rparr>, \<lparr>pp_UserId = ''bob'', pp_Role = MEMBER\<rparr>]\<rparr>,
      gr_ParticipantUserIds = [''ann'', ''bob'']\<rparr>"

type_synonym demo_world = "nat \<times> wire kafka_msg list"

definition demo_md :: "(demo_world, Message, wire) msg_deps" where
  "demo_md = \<lparr>md_GetConversation = (\<lambda>i w. (Inr (demo_conv_resp i), w)),
     md_NextSequence = (\<lambda>i w. (Inr (int (fst w) + 1), (Suc (fst w), snd w))),
     md_uuid = (\<lambda>w. (''m'' @ replicate (fst w) (CHR ''i''), w)),
     md_json_enc = Inr, md_json_dec = Inr, md_codec = wire_codec, md_jsonb = Some\<rparr>"

definition demo_mp :: "(demo_world, wire) producer" where
  "demo_mp = \<lparr>kp_topic = ''messages'', kp_inject = [], kp_produce = (\<lambda>m w. (Delivery None, (fst w, snd w @ [m])))\<rparr>"

definition demo_send :: "string \<Rightarrow> string \<Rightarrow> SendMessageCommand" where
  "demo_send key content = \<lparr>sm_ConversationID = ''g'', sm_UserID = ''bob'', sm_ClientMsgID = key, sm_Type = ''text'',
     sm_Content = content, sm_Metadata = []\<rparr>"

definition demo_delete :: DeleteMessageCommand where
  "demo_delete = \<lparr>dm_ConversationID = ''g'', dm_MessageID = ''mi'', dm_RequesterID = ''ann''\<rparr>"

text \<open>
  A send whose commit answer is lost, its retry by the client, a serialization conflict inside another
  send, a deletion by the admin and a poll.
\<close>

definition demo_msg_calls :: "(msg_call \<times> outcome list \<times> int) list" where
  "demo_msg_calls = [
     (CallSend True (demo_send ''k1'' ''hello''), [Proceed, Proceed, Proceed, Proceed, Proceed, Lost], 1),
     (CallSend False (demo_send ''k1'' ''hello''), [], 2),
     (CallSend False (demo_send ''k1'' ''hello''), [], 3),
     (CallSend True (demo_send ''k2'' ''again''), [Proceed, Proceed, Fails ''pq: could not serialize access''], 4),
     (CallPublish, [], 5),
     (CallDelete demo_delete, [], 6)]"

definition demo_msg_end :: "(msg_call \<times> msg_result) list \<times> ((Message, wire) msg_db \<times> demo_world)" where
  "demo_msg_end = msg_calls demo_md 10 demo_mp demo_msg_calls (empty_msg_db, (0, []))"

lemma demo_msg_run:
  "msg_run demo_md 10 demo_mp (=) (empty_msg_db, (0, [])) (fst demo_msg_end)
     (fst (snd demo_msg_end), snd (snd demo_msg_end))"
  by (rule msg_calls_run) (simp_all add: demo_msg_end_def)

lemma demo_json_ok: "msg_json_ok demo_md"
  by (simp add: msg_json_ok_def demo_md_def)

lemma demo_md_codec_ok: "codec_ok (md_codec demo_md)"
  by (simp add: demo_md_def wire_codec_ok)

lemma demo_msg_shape:
  "map w_id (messages (fst (snd demo_msg_end))) = [''mi'', ''miii''] \<and> length (msg_outbox (fst (snd demo_msg_end))) = 3
    \<and> length (filter (\<lambda>e. x_processed_at e \<noteq> None) (msg_outbox (fst (snd demo_msg_end)))) = 2"
  by code_simp

section \<open>Sending\<close>

text \<open>C4: Sending is idempotent. In every run of the message service, whatever fails in between and whatever other
  clients do, two sends with the same idempotency key, user and conversation that both succeed give
  the same message, exactly one stored message has its id, and there are exactly as many stored
  messages as keys, so that no retry stores a message twice.\<close>

theorem send_idempotent:
  assumes run: "msg_run md n p env (empty_msg_db, w0) tr (d, w)" and json: "msg_json_ok md"
    and c1: "(CallSend f1 cmd1, Inr (AnsMsg m1)) \<in> set tr" and c2: "(CallSend f2 cmd2, Inr (AnsMsg m2)) \<in> set tr"
    and same: "sm_ClientMsgID cmd1 = sm_ClientMsgID cmd2" "sm_UserID cmd1 = sm_UserID cmd2"
      "sm_ConversationID cmd1 = sm_ConversationID cmd2"
  shows "m1 = m2 \<and> length (filter (\<lambda>r. w_id r = g_ID m1) (messages d)) = 1
    \<and> length (messages d) = length (idempotency_keys d)"
proof -
  have start: "msg_inv md (fst (empty_msg_db, w0))" "one_per_key (fst (empty_msg_db, w0))"
    by (simp_all add: msg_inv_empty) (simp add: one_per_key_def empty_msg_db_def)
  have a1: "stored_answer md cmd1 d = Some m1" using msg_run_answers [OF run json start(1) c1] by simp
  have "stored_answer md cmd2 d = Some m2" using msg_run_answers [OF run json start(1) c2] by simp
  with a1 same have "m1 = m2" by (simp add: stored_answer_def stored_key_def)
  moreover have "msg_inv md d" using msg_run_inv_grows [OF run json] start by simp
  then have "length (filter (\<lambda>r. w_id r = g_ID m1) (messages d)) = 1" using a1 by (rule stored_answer_row)
  moreover have "one_per_key d" using msg_run_one_per_key [OF run json] start by simp
  ultimately show ?thesis by (simp add: one_per_key_def)
qed

definition demo_hello :: Message where
  "demo_hello = \<lparr>g_ID = ''mi'', g_ConversationID = ''g'', g_SenderID = ''bob'', g_Sequence = 1, g_Type = ''text'',
     g_Content = ''hello'', g_Metadata = [], g_SentAt = 1, g_DeletedAt = None\<rparr>"

lemma demo_retries:
  "take 2 (drop 1 (fst demo_msg_end)) = [(CallSend False (demo_send ''k1'' ''hello''), Inr (AnsMsg demo_hello)),
     (CallSend False (demo_send ''k1'' ''hello''), Inr (AnsMsg demo_hello))]"
  by code_simp

theorem send_idempotent_witness:
  "length (filter (\<lambda>r. w_id r = g_ID demo_hello) (messages (fst (snd demo_msg_end)))) = 1
    \<and> length (messages (fst (snd demo_msg_end))) = length (idempotency_keys (fst (snd demo_msg_end)))"
proof -
  have "(CallSend False (demo_send ''k1'' ''hello''), Inr (AnsMsg demo_hello)) \<in> set (take 2 (drop 1 (fst demo_msg_end)))"
    unfolding demo_retries by simp
  then have "(CallSend False (demo_send ''k1'' ''hello''), Inr (AnsMsg demo_hello)) \<in> set (fst demo_msg_end)"
    by (metis in_set_takeD in_set_dropD)
  from send_idempotent [OF demo_msg_run demo_json_ok this this] show ?thesis by simp
qed

text \<open>C14: A successful send that is not a replay of a stored answer stores exactly one message and records
  exactly one event for it, in the same transaction. The conversation service listed the sender as a
  participant and handed out the sequence; the message has the fields of the command and respects the
  limits of the domain; the stored row reads back as that message (up to the metadata, which the JSONB
  column stores), and the event decodes to it.\<close>

theorem SendMessage_stores_and_announces:
  assumes inv: "msg_inv md (s_db s)" and cd: "codec_ok (md_codec md)"
    and run: "SendMessage md seqFirst cmd s = (Inr m, t)" and new: "stored_key cmd (s_db s) = None"
  shows "\<exists>resp n w w1 i w2 now row ev evp.
      world_conv_calls md seqFirst (sm_ConversationID cmd) w resp n w1
    \<and> sm_UserID cmd \<in> set (gr_ParticipantUserIds resp) \<and> md_uuid md w1 = (i, w2) \<and> s_world t = w2
    \<and> m = \<lparr>g_ID = i, g_ConversationID = sm_ConversationID cmd, g_SenderID = sm_UserID cmd, g_Sequence = n,
        g_Type = sm_Type cmd, g_Content = sm_Content cmd, g_Metadata = sm_Metadata cmd, g_SentAt = now, g_DeletedAt = None\<rparr>
    \<and> msg_wf m
    \<and> messages (s_db t) = messages (s_db s) @ [row]
    \<and> (msg_of_row row)\<lparr>g_Metadata := g_Metadata m\<rparr> = m
    \<and> msg_outbox (s_db t) = msg_outbox (s_db s) @ [ev]
    \<and> x_aggregate_id ev = sm_ConversationID cmd \<and> x_processed_at ev = None
    \<and> dec_env (md_codec md) (x_payload ev) = Inr (EventEnvelope EVENT_TYPE_MESSAGE_SENT 1 now evp)
    \<and> dec_sent (md_codec md) evp = Inr (Some (sent_pb m))"
proof -
  from txm.success [OF run [unfolded SendMessage_def msg_WithTx_def]] obtain s1 s2 where
      s1: "s_db s1 = s_db s" and tx: "SendMessage_tx md seqFirst cmd s1 = (Inr m, s2)"
    and t: "s_db t = s_db s2" "s_world t = s_world s2" unfolding committed_def by blast
  have inv1: "msg_inv md (s_db s1)" using inv s1 by simp
  from SendMessage_tx_cases [OF inv1 tx] new s1 obtain resp n w1 i w2 where
      calls: "world_conv_calls md seqFirst (sm_ConversationID cmd) (s_world s1) resp n w1"
        "sm_UserID cmd \<in> set (gr_ParticipantUserIds resp)" "md_uuid md w1 = (i, w2)" "s_world s2 = w2"
    and nm: "NewMessage i (sm_ConversationID cmd) (sm_UserID cmd) n (sm_Type cmd) (sm_Content cmd) (sm_Metadata cmd)
          (s_now s1) = Inr m"
    and sent: "sent_tables md cmd m (s_now s1)
          ((s_db s)\<lparr>idempotency_keys := idempotency_keys (s_db s) @ [key_row cmd (s_now s1)]\<rparr>) (s_db s2)"
    by auto
  from nm have m: "m = \<lparr>g_ID = i, g_ConversationID = sm_ConversationID cmd, g_SenderID = sm_UserID cmd, g_Sequence = n,
        g_Type = sm_Type cmd, g_Content = sm_Content cmd, g_Metadata = sm_Metadata cmd, g_SentAt = s_now s1,
        g_DeletedAt = None\<rparr>" by (simp add: NewMessage_Inr_iff)
  from sent_tables_rows [OF sent] obtain row where row: "messages (s_db s2) = messages (s_db s) @ [row]"
    "msg_of_row row = m\<lparr>g_Metadata := g_Metadata (msg_of_row row), g_DeletedAt := None\<rparr>" by auto
  from row(2) m have stored: "(msg_of_row row)\<lparr>g_Metadata := g_Metadata m\<rparr> = m" by (cases "msg_of_row row") simp
  from sent_tables_outbox [OF sent] obtain b ev where ev: "msg_outbox (s_db s2) = msg_outbox (s_db s) @ [ev]"
      "x_aggregate_id ev = g_ConversationID m" "x_processed_at ev = None"
      "enc_event (md_codec md) (MessageSentEvent (Some (sent_pb m))) = Inr b"
      "enc_env (md_codec md) (EventEnvelope EVENT_TYPE_MESSAGE_SENT 1 (s_now s1) b) = Inr (x_payload ev)" by auto
  with cd have dec: "dec_env (md_codec md) (x_payload ev) = Inr (EventEnvelope EVENT_TYPE_MESSAGE_SENT 1 (s_now s1) b)"
      "dec_sent (md_codec md) b = Inr (Some (sent_pb m))" by (auto simp: codec_ok_def)
  show ?thesis
    by (rule exI [of _ resp], rule exI [of _ n], rule exI [of _ "s_world s1"], rule exI [of _ w1], rule exI [of _ i],
        rule exI [of _ w2], rule exI [of _ "s_now s1"], rule exI [of _ row], rule exI [of _ ev], rule exI [of _ b])
      (intro conjI; use calls m NewMessage_wf [OF nm] row(1) stored ev dec t in \<open>assumption | simp\<close>)
qed

definition demo_first_send where
  "demo_first_send = SendMessage demo_md True (demo_send ''k1'' ''hello'') (session empty_msg_db (0, []) [] 1)"

theorem SendMessage_stores_and_announces_witness:
  "\<exists>row ev evp. messages (s_db (snd demo_first_send)) = [row] \<and> msg_outbox (s_db (snd demo_first_send)) = [ev]
    \<and> dec_env wire_codec (x_payload ev) = Inr (EventEnvelope EVENT_TYPE_MESSAGE_SENT 1 1 evp)
    \<and> dec_sent wire_codec evp = Inr (Some (sent_pb demo_hello))"
proof -
  have "fst demo_first_send = Inr demo_hello" by code_simp
  then have run: "SendMessage demo_md True (demo_send ''k1'' ''hello'') (session empty_msg_db (0, []) [] 1)
      = (Inr demo_hello, snd demo_first_send)" by (metis demo_first_send_def prod.collapse)
  have "msg_inv demo_md (s_db (session (empty_msg_db :: (Message, wire) msg_db) (0 :: nat, [] :: wire kafka_msg list) [] 1))"
    "stored_key (demo_send ''k1'' ''hello'')
      (s_db (session (empty_msg_db :: (Message, wire) msg_db) (0 :: nat, [] :: wire kafka_msg list) [] 1)) = None"
    by (simp_all add: msg_inv_empty) (simp add: stored_key_def empty_msg_db_def)
  from SendMessage_stores_and_announces [OF this(1) demo_md_codec_ok run this(2)]
  show ?thesis by (auto simp: demo_md_def empty_msg_db_def demo_hello_def)
qed

section \<open>Deleting\<close>


lemma demo_first_send_inv: "msg_inv demo_md (s_db (snd demo_first_send))"
  unfolding demo_first_send_def by (rule SendMessage_inv [OF demo_json_ok]) (simp add: msg_inv_empty)


section \<open>What stays\<close>

text \<open>C26: Between any two states of a run of the message service the stored messages are only extended: their
  content, sender, sequence and time never change and their order stays; a deletion mark is never
  taken back or changed; the answer stored under an idempotency key never changes; recorded events
  stay as they are, in their order. In every reachable state message ids are unique, no two messages of
  a conversation share a sequence, and every message respects the limits of the domain.\<close>

theorem messages_only_extended:
  assumes run1: "msg_run md n p env (empty_msg_db, w0) tr1 (d1, w1)" and run2: "msg_run md n p env (d1, w1) tr2 (d2, w2)"
    and json: "msg_json_ok md"
  shows "prefix (map row_core (messages d1)) (map row_core (messages d2))
    \<and> {r \<in> set (messages d1). w_deleted_at r \<noteq> None} \<subseteq> set (messages d2)
    \<and> prefix (idempotency_keys d1) (idempotency_keys d2)
    \<and> prefix (map x_event (msg_outbox d1)) (map x_event (msg_outbox d2))
    \<and> distinct (map w_id (messages d2)) \<and> distinct (map (\<lambda>r. (w_conv r, w_seq r)) (messages d2))
    \<and> (\<forall>r \<in> set (messages d2). msg_wf (msg_of_row r))"
proof -
  have "msg_inv md d1" using msg_run_inv_grows [OF run1 json] msg_inv_empty [of md] by simp
  with msg_run_inv_grows [OF run2 json] have "msg_inv md d2" "msg_grows d1 d2" by simp_all
  then show ?thesis by (simp add: msg_grows_def msg_inv_def rows_ok_def)
qed

lemma demo_msg_rest:
  "msg_run demo_md 10 demo_mp (=) (fst (snd demo_msg_end), snd (snd demo_msg_end)) [] (fst (snd demo_msg_end), snd (snd demo_msg_end))"
  by (rule mrun_nil) simp

theorem messages_only_extended_witness:
  "distinct (map (\<lambda>r. (w_conv r, w_seq r)) (messages (fst (snd demo_msg_end)))) \<and> length (messages (fst (snd demo_msg_end))) = 2"
proof
  show "distinct (map (\<lambda>r. (w_conv r, w_seq r)) (messages (fst (snd demo_msg_end))))"
    using messages_only_extended [OF demo_msg_run demo_msg_rest demo_json_ok] by blast
  show "length (messages (fst (snd demo_msg_end))) = 2" by code_simp
qed

text \<open>C13: The message service in front of the conversation service never reuses a sequence number. Whatever runs
  of the conversation service other clients cause in between, a send that is not a replay gives its
  message a sequence above that of every stored message of the conversation; the unique index on the
  sequence is never hit.\<close>

theorem sent_sequence_fresh:
  assumes "msg_json_ok (backend_deps is_status dp ctx cd lib)"
    and "msg_run (backend_deps is_status dp ctx cd lib) n (backend_producer pr) (backend_env dp wk p) (empty_msg_db, w0) tr (d, w)"
    and "conv_inv (bk_db w0)"
    and "SendMessage (backend_deps is_status dp ctx cd lib) seqFirst cmd (session d w script now) = (Inr m, t)"
    and "stored_key cmd d = None"
  shows "\<forall>r \<in> set (messages d). w_conv r = g_ConversationID m \<longrightarrow> w_seq r < g_Sequence m"
  using assms by (rule mc.run_send_fresh)

definition demo_lib :: "(demo_world, Message) msg_lib" where
  "demo_lib = \<lparr>lib_uuid = (\<lambda>w. (''m'' @ replicate (fst w) (CHR ''i''), (Suc (fst w), snd w))), lib_json_enc = Inr,
     lib_json_dec = Inr, lib_jsonb = Some\<rparr>"

definition demo_backend_deps :: "((wire kafka_msg list, demo_world, wire) conv_backend, Message, wire) msg_deps" where
  "demo_backend_deps = backend_deps wraps_status demo_deps no_ctx wire_codec demo_lib"

text \<open>The conversation service after the group was created.\<close>

definition demo_created :: "(conv_call \<times> conv_result) list \<times> (wire conv_db \<times> wire kafka_msg list)" where
  "demo_created = run_calls demo_deps demo_worker demo_producer [(CallCreate True demo_group, [], 1)] (empty_conv_db, [])"

definition demo_w0 :: "(wire kafka_msg list, demo_world, wire) conv_backend" where
  "demo_w0 = \<lparr>bk_db = fst (snd demo_created), bk_world = snd (snd demo_created), bk_feed = [], bk_rest = (0, [])\<rparr>"

definition demo_composed where
  "demo_composed = msg_calls demo_backend_deps 10 (backend_producer demo_mp) [(CallSend True (demo_send ''k1'' ''hello''), [], 1)]
     (empty_msg_db, demo_w0)"

definition demo_second where
  "demo_second = SendMessage demo_backend_deps False (demo_send ''k2'' ''again'')
     (session (fst (snd demo_composed)) (snd (snd demo_composed)) [] 2)"

lemma demo_w0_inv: "conv_inv (bk_db demo_w0)"
proof -
  have "conv_run demo_deps demo_worker demo_producer (empty_conv_db, []) (fst demo_created)
      (fst (snd demo_created), snd (snd demo_created))"
    unfolding demo_created_def prod.collapse
    by (rule run_calls_run [where cs = "[(CallCreate True demo_group, [], 1)]"]) (simp del: run_calls.simps)
  from conv_reach_inv [OF this] show ?thesis by (simp add: demo_w0_def)
qed

theorem sent_sequence_fresh_witness:
  "\<exists>m. fst demo_second = Inr m \<and> (\<forall>r \<in> set (messages (fst (snd demo_composed))). w_seq r < g_Sequence m)
     \<and> map w_conv (messages (fst (snd demo_composed))) = [''g'']"
proof -
  have json: "msg_json_ok (backend_deps wraps_status demo_deps no_ctx wire_codec demo_lib)"
    by (simp add: msg_json_ok_def backend_deps_def demo_lib_def)
  have run: "msg_run (backend_deps wraps_status demo_deps no_ctx wire_codec demo_lib) 10 (backend_producer demo_mp)
      (backend_env demo_deps demo_worker demo_producer) (empty_msg_db, demo_w0) (fst demo_composed)
      (fst (snd demo_composed), snd (snd demo_composed))"
    unfolding demo_composed_def demo_backend_deps_def
    by (rule msg_calls_run [where cs = "[(CallSend True (demo_send ''k1'' ''hello''), [], 1)]"])
      (auto simp: backend_env_def simp del: msg_calls.simps intro: run_nil)
  have conv: "map w_conv (messages (fst (snd demo_composed))) = [''g'']" by code_simp
  have key: "stored_key (demo_send ''k2'' ''again'') (fst (snd demo_composed)) = None" by code_simp
  have "case fst demo_second of Inr m \<Rightarrow> g_ConversationID m = ''g'' | Inl _ \<Rightarrow> False" by code_simp
  then obtain m where m: "fst demo_second = Inr m" "g_ConversationID m = ''g''" by (auto split: sum.splits)
  then have "SendMessage (backend_deps wraps_status demo_deps no_ctx wire_codec demo_lib) False (demo_send ''k2'' ''again'')
      (session (fst (snd demo_composed)) (snd (snd demo_composed)) [] 2) = (Inr m, snd demo_second)"
    by (metis demo_second_def demo_backend_deps_def prod.collapse)
  from sent_sequence_fresh [OF json run demo_w0_inv this key] m conv show ?thesis
    by (intro exI [of _ m]) (auto simp: map_eq_Cons_conv)
qed

section \<open>Events\<close>

text \<open>In every run, an event that the worker of the message service has marked as processed is in the log of
  the broker, under the conversation as its key and with the payload that was recorded, whatever polls
  failed in between, provided that the broker keeps what it acknowledged.\<close>

theorem marked_events_published:
  assumes run: "msg_run md n p env (empty_msg_db, w0) tr (d, w)" and json: "msg_json_ok md"
    and broker: "broker_ok klog p" and kept: "log_kept klog md env"
    and e: "e \<in> set (msg_outbox d)" "x_processed_at e \<noteq> None"
  shows "Publish_msg p (x_aggregate_id e) (x_payload e) \<in> set (klog w)"
  using msg_run_delivered [OF run json broker kept] e by (simp add: msg_delivered_def kmsg_of_def)

lemma demo_mp_ok: "broker_ok snd demo_mp"
  by (simp add: broker_ok_def demo_mp_def)

lemma demo_log_kept: "log_kept snd demo_md (=)"
  by (simp add: log_kept_def demo_md_def)

theorem marked_events_published_witness:
  "\<exists>e \<in> set (msg_outbox (fst (snd demo_msg_end))). x_processed_at e \<noteq> None
    \<and> Publish_msg demo_mp (x_aggregate_id e) (x_payload e) \<in> set (snd (snd (snd demo_msg_end)))"
proof -
  have "\<exists>e \<in> set (msg_outbox (fst (snd demo_msg_end))). x_processed_at e \<noteq> None" by code_simp
  then obtain e where "e \<in> set (msg_outbox (fst (snd demo_msg_end)))" "x_processed_at e \<noteq> None" ..
  with marked_events_published [OF demo_msg_run demo_json_ok demo_mp_ok demo_log_kept this] show ?thesis by blast
qed

text \<open>C38: Polling makes progress: when the broker acknowledges and the database does not fail, every poll
  publishes the oldest pending events up to the batch size, so that after enough polls, as many as the
  pending events divided by the batch size, no event is pending.\<close>

theorem polls_empty_the_outbox:
  assumes inv: "msg_inv md d" and acks: "broker_acks p"
    and polls: "msg_calls md n p (replicate k (CallPublish, [], now)) (d, w) = (tr, (d', w'))"
  shows "msg_pending d' = drop (k * n) (msg_pending d) \<and> (length (msg_pending d) \<le> k * n \<longrightarrow> msg_pending d' = [])"
proof -
  have "msg_outbox_ok d" using inv by (simp add: msg_inv_def)
  from polls_drain [OF acks this polls] show ?thesis by simp
qed

theorem polls_empty_the_outbox_witness:
  "msg_pending (s_db (snd demo_first_send)) \<noteq> []
    \<and> msg_pending (fst (snd (msg_calls demo_md 1 demo_mp (replicate 1 (CallPublish, [], 9))
        (s_db (snd demo_first_send), (1, []))))) = []"
proof
  show "msg_pending (s_db (snd demo_first_send)) \<noteq> []" by code_simp
  have len: "length (msg_pending (s_db (snd demo_first_send))) \<le> 1 * 1" by code_simp
  have acks: "broker_acks demo_mp" by (simp add: broker_acks_def demo_mp_def)
  obtain tr d' w' where run: "msg_calls demo_md 1 demo_mp (replicate 1 (CallPublish, [], 9)) (s_db (snd demo_first_send), (1, []))
      = (tr, (d', w'))" by (metis prod.collapse)
  from polls_empty_the_outbox [OF demo_first_send_inv acks run] len
  show "msg_pending (fst (snd (msg_calls demo_md 1 demo_mp (replicate 1 (CallPublish, [], 9))
        (s_db (snd demo_first_send), (1, []))))) = []" unfolding run by simp
qed

section \<open>Identity\<close>

text \<open>What a request may add to the messages.\<close>

lemma msg_serve_new_rows:
  assumes inv: "msg_inv md (s_db s)" and run: "msg_serve is_status md seqFirst hdrs req s = (r, t)"
  shows "(header_user hdrs = None \<longrightarrow> s_db t = s_db s)
    \<and> (\<forall>m \<in> set (messages (s_db t)). row_core m \<notin> row_core ` set (messages (s_db s)) \<longrightarrow>
        header_user hdrs = Some (w_sender m)
        \<and> (\<exists>c k ty ct me. req = SendMessageRequest c (w_sender m) k ty ct me \<and> w_conv m = c))"
proof (cases "\<exists>e. msg_serve is_status md seqFirst hdrs req s = (Inl e, s)")
  case True
  with run show ?thesis by auto
next
  case False
  with msg_serve_cases [where hdrs = hdrs and is_status = is_status and md = md and seqFirst = seqFirst and req = req
      and s = s and n = 0 and p = undefined] obtain u call where
      u: "header_user hdrs = Some u" and call: "msg_call_of seqFirst u req = Some call"
    and t: "t = snd (msg_exec md 0 undefined call s)"
    using run by (auto split: option.splits)
  have "header_user hdrs = Some (w_sender m) \<and> (\<exists>c k ty ct me. req = SendMessageRequest c (w_sender m) k ty ct me \<and> w_conv m = c)"
    if m: "m \<in> set (messages (s_db t))" "row_core m \<notin> row_core ` set (messages (s_db s))" for m
  proof (cases req)
    case (SendMessageRequest c v k ty ct me)
    with call have v: "v = u" by (auto split: if_splits)
    define cmd where "cmd = \<lparr>sm_ConversationID = c, sm_UserID = u, sm_ClientMsgID = k, sm_Type = ty, sm_Content = ct, sm_Metadata = me\<rparr>"
    with call SendMessageRequest v t have t': "t = snd (SendMessage md seqFirst cmd s)" by auto
    from SendMessage_new_rows [OF inv, of m seqFirst cmd] m t' have "w_sender m = u" "w_conv m = c"
      by (auto simp: cmd_def)
    with SendMessageRequest v u show ?thesis by auto
  next
    case (DeleteMessageRequest c i v)
    with call t obtain cmd where "t = snd (DeleteMessage md cmd s)" by (auto split: if_splits)
    with DeleteMessage_cores m have False by (metis image_eqI image_set)
    then show ?thesis ..
  next
    case (SyncMessagesRequest c n ps)
    with call t m SyncMessages_db [of md] have False by auto
    then show ?thesis ..
  qed
  with u show ?thesis by simp
qed

text \<open>Nobody can post in another user's name. If serving a request of the gRPC interface leaves a message that
  was not there, then the request is a send, and the sender of that message is the user whom the
  identity header names; without that header, no request changes the tables at all.\<close>

theorem only_the_sender_posts:
  assumes inv: "msg_inv md (s_db s)" and run: "msg_serve is_status md seqFirst hdrs req s = (r, t)"
  shows "(header_user hdrs = None \<longrightarrow> s_db t = s_db s)
    \<and> (\<forall>m \<in> set (messages (s_db t)). row_core m \<notin> row_core ` set (messages (s_db s)) \<longrightarrow>
        header_user hdrs = Some (w_sender m)
        \<and> (\<exists>c k ty ct me. req = SendMessageRequest c (w_sender m) k ty ct me \<and> w_conv m = c))"
  using msg_serve_new_rows [OF assms] .

definition demo_headers :: "string \<Rightarrow> string list" where
  "demo_headers k = (if k = HeaderUserID then [''bob''] else [])"

definition demo_served where
  "demo_served = msg_serve wraps_status demo_md True (Some demo_headers)
     (SendMessageRequest ''g'' ''bob'' ''k1'' ''text'' ''hello'' []) (session empty_msg_db (0, []) [] 1)"

theorem only_the_sender_posts_witness:
  "\<exists>m \<in> set (messages (s_db (snd demo_served))). w_sender m = ''bob''"
proof -
  have "messages (s_db (snd demo_served)) \<noteq> []" by code_simp
  then obtain m where m: "m \<in> set (messages (s_db (snd demo_served)))" by (metis last_in_set)
  have inv: "msg_inv demo_md (s_db (session (empty_msg_db :: (Message, wire) msg_db) ((0, []) :: demo_world) [] 1))"
    by (simp add: msg_inv_empty)
  have run: "msg_serve wraps_status demo_md True (Some demo_headers)
     (SendMessageRequest ''g'' ''bob'' ''k1'' ''text'' ''hello'' []) (session empty_msg_db (0, []) [] 1)
     = (fst demo_served, snd demo_served)" by (simp add: demo_served_def)
  from only_the_sender_posts [OF inv run] m have "header_user (Some demo_headers) = Some (w_sender m)"
    by (simp add: empty_msg_db_def)
  with m show ?thesis by (auto simp: header_user_def demo_headers_def)
qed

text \<open>The identity of a call survives the hop from the message service to the conversation service: the context
  that the message service's interceptor makes from incoming metadata, put on an outgoing call by the
  client interceptor, is the context that the conversation service's interceptor hands to its handler,
  for every method.\<close>

theorem identity_survives_the_hop:
  assumes "cx_user ctx = Some u" and "u \<noteq> []" and "cx_request ctx \<noteq> Some []"
  shows "msg_ClientInterceptor ctx [] (\<lambda>out. Interceptor (Some (md_get out)) meth h) = h ctx"
proof (cases "cx_request ctx")
  case None
  with assms have "ctx = no_ctx\<lparr>cx_user := Some u\<rparr>" by (cases ctx) (simp add: no_ctx_def)
  with assms None show ?thesis
    by (simp add: msg_ClientInterceptor_def msg_GetUserID_def GetUserID_def md_get_def Interceptor_def Let_def)
next
  case (Some rid)
  with assms have "ctx = no_ctx\<lparr>cx_user := Some u, cx_request := Some rid\<rparr>" by (cases ctx) (simp add: no_ctx_def)
  with assms Some show ?thesis
    by (cases rid) (simp_all add: msg_ClientInterceptor_def msg_GetUserID_def GetUserID_def md_get_def Interceptor_def Let_def)
qed

theorem identity_survives_the_hop_witness:
  "msg_ClientInterceptor \<lparr>cx_user = Some ''bob'', cx_request = Some ''r1''\<rparr> []
     (\<lambda>out. Interceptor (Some (md_get out)) [] (\<lambda>ctx. ret (cx_user ctx, cx_request ctx)))
   = (ret (Some ''bob'', Some ''r1'') :: (unit, unit, conv_err, string option \<times> string option) prog)"
  using identity_survives_the_hop [of "\<lparr>cx_user = Some ''bob'', cx_request = Some ''r1''\<rparr>" "''bob''" "[]"
      "\<lambda>ctx. ret (cx_user ctx, cx_request ctx)"] by simp

end
