(* ===== verification/WsSession.thy ===== *)
theory WsSession
  imports Contracts "HOL-Library.Sublist"
begin

text \<open>
  \<^verbatim>\<open>services/delivery/internal/websocket/session.go\<close>: one connection of one device. Events that arrive
  before the client has caught up are buffered (\<open>Buffer\<close>); when it has, they are flushed in order
  (\<open>FlushBufferSorted\<close>) and later events go to the bounded send queue at once (\<open>TrySend\<close>), which the
  write loop empties. A full queue drops the connection. The methods lock or use atomics, so that each
  is one step here. \<open>ss_frames\<close> are the binary frames written to the connection, \<open>ss_close_frame\<close> its
  close frame, \<open>ss_done\<close> how often the channel \<open>done\<close> was closed (twice would panic), \<open>ss_loop\<close>
  whether the write loop runs.
\<close>

record 'b bufferedEvent =
  be_env :: "'b envelope"
  be_payload :: 'b

record 'b Session =
  ss_ID :: string
  ss_UserID :: string
  ss_DeviceID :: string
  ss_Conn :: bool                       \<comment> \<open>\<open>Conn != nil\<close>\<close>
  ss_SendQueue :: "'b list"
  ss_done :: nat
  ss_closed :: bool
  ss_ready :: bool
  ss_resumeBuffer :: "'b bufferedEvent list"
  ss_loop :: bool
  ss_frames :: "'b list"
  ss_close_frame :: "(int \<times> string) option"

definition SendQueueSize :: nat where
  "SendQueueSize = 128"

definition NewSession :: "string \<Rightarrow> string \<Rightarrow> string \<Rightarrow> bool \<Rightarrow> 'b Session" where
  "NewSession i userID deviceID conn =
     \<lparr>ss_ID = i, ss_UserID = userID, ss_DeviceID = deviceID, ss_Conn = conn, ss_SendQueue = [], ss_done = 0,
      ss_closed = False, ss_ready = False, ss_resumeBuffer = [], ss_loop = False, ss_frames = [], ss_close_frame = None\<rparr>"

definition Session_Start :: "'b Session \<Rightarrow> 'b Session" where
  "Session_Start s = s\<lparr>ss_loop := True\<rparr>"

definition SetReady :: "'b Session \<Rightarrow> 'b Session" where
  "SetReady s = s\<lparr>ss_ready := True\<rparr>"

definition IsReady :: "'b Session \<Rightarrow> bool" where
  "IsReady s = ss_ready s"

definition Buffer :: "'b envelope \<Rightarrow> 'b \<Rightarrow> 'b Session \<Rightarrow> bool \<times> 'b Session" where
  "Buffer env payload s =
     (if ss_ready s then (False, s)
      else (True, s\<lparr>ss_resumeBuffer := ss_resumeBuffer s @ [\<lparr>be_env = env, be_payload = payload\<rparr>]\<rparr>))"

definition CloseWithReason :: "int \<Rightarrow> string \<Rightarrow> 'b Session \<Rightarrow> 'b Session" where
  "CloseWithReason code reason s =
     (if ss_closed s then s
      else s\<lparr>ss_closed := True, ss_done := ss_done s + 1,
             ss_close_frame := (if ss_Conn s then Some (code, reason) else ss_close_frame s)\<rparr>)"

abbreviation CloseNormalClosure :: int where "CloseNormalClosure \<equiv> 1000"
abbreviation CloseInternalServerErr :: int where "CloseInternalServerErr \<equiv> 1011"

definition Session_Close :: "'b Session \<Rightarrow> 'b Session" where
  "Session_Close s = CloseWithReason CloseNormalClosure ''server closing'' s"

definition TrySend :: "'b \<Rightarrow> 'b Session \<Rightarrow> bool \<times> 'b Session" where
  "TrySend msg s =
     (if ss_closed s then (False, s)
      else if length (ss_SendQueue s) < SendQueueSize then (True, s\<lparr>ss_SendQueue := ss_SendQueue s @ [msg]\<rparr>)
      else (False, CloseWithReason CloseInternalServerErr ''backpressure overflow'' s))"

definition getSequence :: "'b codec \<Rightarrow> 'b envelope \<Rightarrow> int" where
  "getSequence cd env =
     (if EventType env \<noteq> EVENT_TYPE_MESSAGE_SENT then 0
      else case dec_sent cd (Payload env) of
        Inl _ \<Rightarrow> 0
      | Inr event \<Rightarrow> (case event of None \<Rightarrow> 0 | Some m \<Rightarrow> pm_Sequence m))"

text \<open>The comparison that \<open>sort.Slice\<close> gets.\<close>

definition event_less :: "'b codec \<Rightarrow> 'b bufferedEvent \<Rightarrow> 'b bufferedEvent \<Rightarrow> bool" where
  "event_less cd a b =
     (let seqI = getSequence cd (be_env a); seqJ = getSequence cd (be_env b) in
      if seqI \<noteq> 0 \<and> seqJ \<noteq> 0 \<and> seqI \<noteq> seqJ then seqI < seqJ
      else OccurredAt (be_env a) < OccurredAt (be_env b))"

text \<open>
  \<open>sort.Slice\<close> is a parameter: it permutes its argument, and sorts it when the comparison is a strict
  weak order on the elements; otherwise its result is one of the permutations. It is not stable.
\<close>

definition strict_weak :: "('a \<Rightarrow> 'a \<Rightarrow> bool) \<Rightarrow> 'a set \<Rightarrow> bool" where
  "strict_weak lt A \<longleftrightarrow>
     (\<forall>x \<in> A. \<not> lt x x)
     \<and> (\<forall>x \<in> A. \<forall>y \<in> A. \<forall>z \<in> A. lt x y \<longrightarrow> lt y z \<longrightarrow> lt x z)
     \<and> (\<forall>x \<in> A. \<forall>y \<in> A. \<forall>z \<in> A. \<not> lt x y \<longrightarrow> \<not> lt y z \<longrightarrow> \<not> lt x z)"

definition sort_slice_ok :: "(('a \<Rightarrow> 'a \<Rightarrow> bool) \<Rightarrow> 'a list \<Rightarrow> 'a list) \<Rightarrow> bool" where
  "sort_slice_ok srt \<longleftrightarrow>
     (\<forall>lt xs. mset (srt lt xs) = mset xs
        \<and> (strict_weak lt (set xs) \<longrightarrow> sorted_wrt (\<lambda>x y. \<not> lt y x) (srt lt xs)))"

type_synonym 'b event_sort =
  "('b bufferedEvent \<Rightarrow> 'b bufferedEvent \<Rightarrow> bool) \<Rightarrow> 'b bufferedEvent list \<Rightarrow> 'b bufferedEvent list"

text \<open>The loop over the buffered events; it logs the ones that are not sent and goes on.\<close>

fun flush_events :: "'b bufferedEvent list \<Rightarrow> 'b Session \<Rightarrow> 'b Session" where
  "flush_events [] s = s"
| "flush_events (b # bs) s = flush_events bs (snd (TrySend (be_payload b) s))"

definition FlushBufferSorted :: "'b event_sort \<Rightarrow> 'b codec \<Rightarrow> 'b Session \<Rightarrow> 'b Session" where
  "FlushBufferSorted srt cd s =
     (if ss_ready s then s
      else
        let buf = srt (event_less cd) (ss_resumeBuffer s);
            s1 = s\<lparr>ss_resumeBuffer := buf, ss_ready := True\<rparr>
        in (flush_events buf s1)\<lparr>ss_resumeBuffer := []\<rparr>)"

text \<open>
  One turn of the write loop: a message is taken from the queue and written (\<open>ok\<close>: the connection
  accepted it), the ticker fires, or \<open>done\<close> is closed. The send queue itself is never closed.
\<close>

datatype loop_event = TakeMsg bool | Tick bool | DoneClosed

fun writeLoop :: "loop_event \<Rightarrow> 'b Session \<Rightarrow> 'b Session" where
  "writeLoop (TakeMsg ok) s =
     (if \<not> ss_loop s then s
      else case ss_SendQueue s of
        [] \<Rightarrow> s
      | msg # q \<Rightarrow>
          if ok then s\<lparr>ss_SendQueue := q, ss_frames := ss_frames s @ [msg]\<rparr>
          else (Session_Close (s\<lparr>ss_SendQueue := q\<rparr>))\<lparr>ss_loop := False\<rparr>)"
| "writeLoop (Tick ok) s = (if \<not> ss_loop s \<or> ok then s else (Session_Close s)\<lparr>ss_loop := False\<rparr>)"
| "writeLoop DoneClosed s = (if ss_loop s \<and> ss_closed s then (Session_Close s)\<lparr>ss_loop := False\<rparr> else s)"

section \<open>A session as a state machine\<close>

datatype 'b ws_op =
    OpBuffer "'b envelope" 'b
  | OpFlush
  | OpSend 'b
  | OpClose int string
  | OpLoop loop_event

fun ws_exec :: "'b event_sort \<Rightarrow> 'b codec \<Rightarrow> 'b ws_op \<Rightarrow> 'b Session \<Rightarrow> 'b Session" where
  "ws_exec srt cd (OpBuffer env payload) s = snd (Buffer env payload s)"
| "ws_exec srt cd OpFlush s = FlushBufferSorted srt cd s"
| "ws_exec srt cd (OpSend payload) s = snd (TrySend payload s)"
| "ws_exec srt cd (OpClose code reason) s = CloseWithReason code reason s"
| "ws_exec srt cd (OpLoop ev) s = writeLoop ev s"

text \<open>What an operation puts into the send queue.\<close>

fun accepted_flush :: "'b bufferedEvent list \<Rightarrow> 'b Session \<Rightarrow> 'b list" where
  "accepted_flush [] s = []"
| "accepted_flush (b # bs) s =
     (if fst (TrySend (be_payload b) s) then [be_payload b] else []) @ accepted_flush bs (snd (TrySend (be_payload b) s))"

fun accepted :: "'b event_sort \<Rightarrow> 'b codec \<Rightarrow> 'b ws_op \<Rightarrow> 'b Session \<Rightarrow> 'b list" where
  "accepted srt cd (OpSend payload) s = (if fst (TrySend payload s) then [payload] else [])"
| "accepted srt cd OpFlush s =
     (if ss_ready s then []
      else accepted_flush (srt (event_less cd) (ss_resumeBuffer s))
             (s\<lparr>ss_resumeBuffer := srt (event_less cd) (ss_resumeBuffer s), ss_ready := True\<rparr>))"
| "accepted srt cd op s = []"

fun ws_run :: "'b event_sort \<Rightarrow> 'b codec \<Rightarrow> 'b ws_op list \<Rightarrow> 'b Session \<Rightarrow> 'b Session \<times> 'b list" where
  "ws_run srt cd [] s = (s, [])"
| "ws_run srt cd (op # ops) s =
     (case ws_run srt cd ops (ws_exec srt cd op s) of (s', acc) \<Rightarrow> (s', accepted srt cd op s @ acc))"

section \<open>Invariant\<close>

definition session_inv :: "'b Session \<Rightarrow> bool" where
  "session_inv s \<longleftrightarrow>
     length (ss_SendQueue s) \<le> SendQueueSize
     \<and> ss_done s = (if ss_closed s then 1 else 0)
     \<and> (ss_close_frame s \<noteq> None \<longrightarrow> ss_closed s)
     \<and> (ss_ready s \<longrightarrow> ss_resumeBuffer s = [])"

lemma session_inv_new: "session_inv (NewSession i u d c)"
  by (simp add: session_inv_def NewSession_def)

lemma CloseWithReason_inv: "session_inv s \<Longrightarrow> session_inv (CloseWithReason c r s)"
  by (auto simp: session_inv_def CloseWithReason_def)

lemma TrySend_inv: "session_inv s \<Longrightarrow> session_inv (snd (TrySend m s))"
  by (auto simp: TrySend_def session_inv_def CloseWithReason_def)

lemma TrySend_fields [simp]:
  "ss_ready (snd (TrySend m s)) = ss_ready s" "ss_resumeBuffer (snd (TrySend m s)) = ss_resumeBuffer s"
  "ss_frames (snd (TrySend m s)) = ss_frames s" "ss_loop (snd (TrySend m s)) = ss_loop s"
  "ss_UserID (snd (TrySend m s)) = ss_UserID s" "ss_DeviceID (snd (TrySend m s)) = ss_DeviceID s"
  "ss_ID (snd (TrySend m s)) = ss_ID s"
  by (auto simp: TrySend_def CloseWithReason_def)

lemma TrySend_queue:
  "ss_SendQueue (snd (TrySend m s)) = ss_SendQueue s @ (if fst (TrySend m s) then [m] else [])"
  by (auto simp: TrySend_def CloseWithReason_def)

lemma flush_events_queue:
  "ss_SendQueue (flush_events bs s) = ss_SendQueue s @ accepted_flush bs s
   \<and> ss_frames (flush_events bs s) = ss_frames s \<and> ss_loop (flush_events bs s) = ss_loop s"
proof (induction bs arbitrary: s)
  case (Cons b bs)
  show ?case using Cons.IH [of "snd (TrySend (be_payload b) s)"] TrySend_queue [of "be_payload b" s] by simp
qed simp

definition queue_ok :: "'b Session \<Rightarrow> bool" where
  "queue_ok s \<longleftrightarrow> length (ss_SendQueue s) \<le> SendQueueSize \<and> ss_done s = (if ss_closed s then 1 else 0)
     \<and> (ss_close_frame s \<noteq> None \<longrightarrow> ss_closed s)"

lemma session_inv_iff: "session_inv s \<longleftrightarrow> queue_ok s \<and> (ss_ready s \<longrightarrow> ss_resumeBuffer s = [])"
  by (auto simp: session_inv_def queue_ok_def)

lemma flush_events_ok: "queue_ok s \<Longrightarrow> queue_ok (flush_events bs s)"
proof (induction bs arbitrary: s)
  case (Cons b bs)
  have "queue_ok (snd (TrySend (be_payload b) s))"
    using Cons.prems by (auto simp: queue_ok_def TrySend_def CloseWithReason_def)
  with Cons.IH show ?case by simp
qed simp

lemma ws_exec_inv:
  assumes "session_inv s"
  shows "session_inv (ws_exec srt cd op s)"
proof (cases op)
  case OpFlush
  have "queue_ok (s\<lparr>ss_resumeBuffer := buf, ss_ready := True\<rparr>)" for buf
    using assms by (simp add: session_inv_iff) (simp add: queue_ok_def)
  moreover have "queue_ok t \<Longrightarrow> queue_ok (t\<lparr>ss_resumeBuffer := []\<rparr>)" for t :: "'a Session" by (simp add: queue_ok_def)
  ultimately show ?thesis using flush_events_ok assms OpFlush
    by (auto simp: FlushBufferSorted_def Let_def session_inv_iff)
next
  case (OpLoop ev)
  with assms show ?thesis
    by (cases ev) (auto simp: session_inv_def Session_Close_def CloseWithReason_def split: list.splits)
next
  case (OpBuffer env payload)
  with assms show ?thesis by (auto simp: Buffer_def session_inv_def)
qed (simp_all add: assms TrySend_inv CloseWithReason_inv)

text \<open>Frames and queue together grow by what is accepted; a failed write loses its message and ends the loop.\<close>

definition ws_order :: "'b Session \<Rightarrow> 'b list \<Rightarrow> bool" where
  "ws_order s sent \<longleftrightarrow> (if ss_loop s then ss_frames s @ ss_SendQueue s = sent else prefix (ss_frames s) sent)"

lemma ws_exec_order:
  assumes "ws_order s sent" and "ss_loop s"
  shows "ws_order (ws_exec srt cd op s) (sent @ accepted srt cd op s)"
proof (cases op)
  case OpFlush
  let ?buf = "srt (event_less cd) (ss_resumeBuffer s)"
  from flush_events_queue [of ?buf "s\<lparr>ss_resumeBuffer := ?buf, ss_ready := True\<rparr>"] assms OpFlush
  show ?thesis by (auto simp: ws_order_def FlushBufferSorted_def Let_def)
next
  case (OpLoop ev)
  with assms show ?thesis
    by (cases ev) (auto simp: ws_order_def Session_Close_def CloseWithReason_def prefix_def split: list.splits)
qed (use assms in \<open>auto simp: ws_order_def Buffer_def TrySend_queue CloseWithReason_def\<close>)

lemma ws_exec_stopped:
  assumes "\<not> ss_loop s"
  shows "ss_frames (ws_exec srt cd op s) = ss_frames s \<and> \<not> ss_loop (ws_exec srt cd op s)"
proof (cases op)
  case OpFlush
  let ?buf = "srt (event_less cd) (ss_resumeBuffer s)"
  from flush_events_queue [of ?buf "s\<lparr>ss_resumeBuffer := ?buf, ss_ready := True\<rparr>"] assms OpFlush
  show ?thesis by (auto simp: FlushBufferSorted_def Let_def)
next
  case (OpLoop ev)
  with assms show ?thesis by (cases ev) auto
qed (use assms in \<open>auto simp: Buffer_def CloseWithReason_def\<close>)

lemma ws_order_run:
  assumes "ws_run srt cd ops s = (s', acc)" and "ws_order s sent"
  shows "prefix (ss_frames s') (sent @ acc)"
  using assms
proof (induction ops arbitrary: s sent acc)
  case Nil
  then show ?case by (auto simp: ws_order_def split: if_splits)
next
  case (Cons op ops)
  obtain acc' where run: "ws_run srt cd ops (ws_exec srt cd op s) = (s', acc')" and acc: "acc = accepted srt cd op s @ acc'"
    using Cons.prems(1) by (auto split: prod.splits)
  have "ws_order (ws_exec srt cd op s) (sent @ accepted srt cd op s)"
  proof (cases "ss_loop s")
    case True
    with Cons.prems(2) show ?thesis by (rule ws_exec_order)
  next
    case False
    from ws_exec_stopped [OF this, of srt cd op] Cons.prems(2) False show ?thesis
      by (simp add: ws_order_def prefix_prefix)
  qed
  from Cons.IH [OF run this] acc show ?case by simp
qed

lemma ws_run_inv:
  assumes "session_inv s"
  shows "session_inv (fst (ws_run srt cd ops s))"
  using assms
proof (induction ops arbitrary: s)
  case (Cons op ops)
  have "fst (ws_run srt cd (op # ops) s) = fst (ws_run srt cd ops (ws_exec srt cd op s))"
    by (simp split: prod.splits)
  with Cons.IH [OF ws_exec_inv [OF Cons.prems, of srt cd op]] show ?case by simp
qed simp

section \<open>The order of a flush\<close>

text \<open>When every buffered event carries a sequence, or none does, the comparison orders them.\<close>

lemma event_less_strict_weak:
  assumes "(\<forall>b \<in> A. getSequence cd (be_env b) \<noteq> 0) \<and> inj_on (\<lambda>b. getSequence cd (be_env b)) A
    \<or> (\<forall>b \<in> A. getSequence cd (be_env b) = 0)"
  shows "strict_weak (event_less cd) A"
  using assms
proof
  assume a: "(\<forall>b \<in> A. getSequence cd (be_env b) \<noteq> 0) \<and> inj_on (\<lambda>b. getSequence cd (be_env b)) A"
  then have "event_less cd x y \<longleftrightarrow> getSequence cd (be_env x) < getSequence cd (be_env y)" if "x \<in> A" "y \<in> A" for x y
    using that by (auto simp: event_less_def Let_def dest: inj_onD)
  then show ?thesis unfolding strict_weak_def by (smt (verit))
next
  assume "\<forall>b \<in> A. getSequence cd (be_env b) = 0"
  then have "event_less cd x y \<longleftrightarrow> OccurredAt (be_env x) < OccurredAt (be_env y)" if "x \<in> A" "y \<in> A" for x y
    using that by (auto simp: event_less_def Let_def)
  then show ?thesis unfolding strict_weak_def by (smt (verit))
qed

text \<open>Into an open session with room, a flush puts everything, in the order of the sort.\<close>

lemma accepted_flush_all:
  assumes "\<not> ss_closed s" and "length (ss_SendQueue s) + length bs \<le> SendQueueSize"
  shows "accepted_flush bs s = map be_payload bs"
  using assms by (induction bs arbitrary: s) (auto simp: TrySend_def)

end
