(* ===== verification/Membership.thy ===== *)
theory Membership
  imports Prelude
begin

text \<open>
  \<^verbatim>\<open>services/delivery/internal/membership/cache.go\<close>: who belongs to which conversation, indexed both
  ways. A \<open>map[string]map[string]struct{}\<close> is an association list of lists of keys: an entry with an
  empty list is an empty inner map, a missing entry a nil one. Every method holds the mutex.
\<close>

type_synonym index = "(string \<times> string list) list"

record Cache =
  mc_data :: index
  mc_userToConvs :: index

definition Cache_New :: Cache where
  "Cache_New = \<lparr>mc_data = [], mc_userToConvs = []\<rparr>"

text \<open>\<open>m[k]\<close> on a possibly nil inner map, \<open>m[k][x] = struct{}{}\<close> and \<open>delete(m[k], x)\<close>.\<close>

definition inner :: "index \<Rightarrow> string \<Rightarrow> string list" where
  "inner m k = (case map_of m k of None \<Rightarrow> [] | Some xs \<Rightarrow> xs)"

definition inner_put :: "string \<Rightarrow> string \<Rightarrow> index \<Rightarrow> index" where
  "inner_put k x m = map_put k (if x \<in> set (inner m k) then inner m k else inner m k @ [x]) m"

definition inner_del :: "string \<Rightarrow> string \<Rightarrow> index \<Rightarrow> index" where
  "inner_del k x m =
     (case map_of m k of None \<Rightarrow> m | Some xs \<Rightarrow> map_put k (filter (\<lambda>y. y \<noteq> x) xs) m)"

definition Cache_Add :: "string \<Rightarrow> string \<Rightarrow> Cache \<Rightarrow> Cache" where
  "Cache_Add conv user c =
     c\<lparr>mc_data := inner_put conv user (mc_data c), mc_userToConvs := inner_put user conv (mc_userToConvs c)\<rparr>"

definition Cache_Remove :: "string \<Rightarrow> string \<Rightarrow> Cache \<Rightarrow> Cache" where
  "Cache_Remove conv user c =
     c\<lparr>mc_data := inner_del conv user (mc_data c), mc_userToConvs := inner_del user conv (mc_userToConvs c)\<rparr>"

definition Cache_Members :: "string \<Rightarrow> Cache \<Rightarrow> string list" where
  "Cache_Members conv c = inner (mc_data c) conv"

definition Cache_UserConvs :: "string \<Rightarrow> Cache \<Rightarrow> string list" where
  "Cache_UserConvs userID c = inner (mc_userToConvs c) userID"

definition Cache_SetMembers :: "string \<Rightarrow> string list \<Rightarrow> Cache \<Rightarrow> Cache" where
  "Cache_SetMembers conv users c =
     (let uc1 = fold (\<lambda>u. inner_del u conv) (inner (mc_data c) conv) (mc_userToConvs c);
          uc2 = fold (\<lambda>u. inner_put u conv) users uc1
      in c\<lparr>mc_data := map_put conv (remdups users) (mc_data c), mc_userToConvs := uc2\<rparr>)"

section \<open>The indexes as a relation\<close>

text \<open>What the cache stands for: the set of pairs of a conversation and a member.\<close>

definition abs_cache :: "Cache \<Rightarrow> (string \<times> string) set" where
  "abs_cache c = {(conv, u). u \<in> set (Cache_Members conv c)}"

definition cache_wf :: "Cache \<Rightarrow> bool" where
  "cache_wf c \<longleftrightarrow>
     (\<forall>conv u. u \<in> set (inner (mc_data c) conv) \<longleftrightarrow> conv \<in> set (inner (mc_userToConvs c) u))
     \<and> (\<forall>conv. distinct (inner (mc_data c) conv)) \<and> (\<forall>u. distinct (inner (mc_userToConvs c) u))"

lemma inner_map_put [simp]: "inner (map_put k xs m) k' = (if k' = k then xs else inner m k')"
  by (simp add: inner_def)

lemma inner_put_inner:
  "inner (inner_put k x m) k' = (if k' = k \<and> x \<notin> set (inner m k) then inner m k @ [x] else inner m k')"
  by (simp add: inner_put_def)

lemma inner_del_inner: "inner (inner_del k x m) k' = (if k' = k then filter (\<lambda>y. y \<noteq> x) (inner m k') else inner m k')"
proof (cases "map_of m k")
  case None
  then show ?thesis by (simp add: inner_del_def inner_def)
next
  case (Some xs)
  then have "inner m k = xs" by (simp add: inner_def)
  with Some show ?thesis by (simp add: inner_del_def)
qed

lemma fold_inner_del:
  "inner (fold (\<lambda>u. inner_del u x) us m) k = (if k \<in> set us then filter (\<lambda>y. y \<noteq> x) (inner m k) else inner m k)"
proof (induction us arbitrary: m)
  case (Cons u us)
  show ?case using Cons.IH [of "inner_del u x m"] by (auto simp: inner_del_inner)
qed simp

lemma fold_inner_put:
  "inner (fold (\<lambda>u. inner_put u x) us m) k =
     (if k \<in> set us \<and> x \<notin> set (inner m k) then inner m k @ [x] else inner m k)"
proof (induction us arbitrary: m)
  case (Cons u us)
  show ?case using Cons.IH [of "inner_put u x m"] by (auto simp: inner_put_inner)
qed simp

lemma cache_wf_New: "cache_wf Cache_New"
  by (simp add: cache_wf_def Cache_New_def inner_def)

lemma cache_wf_Add: "cache_wf c \<Longrightarrow> cache_wf (Cache_Add conv u c)"
  by (auto simp: cache_wf_def Cache_Add_def inner_put_inner)

lemma cache_wf_Remove: "cache_wf c \<Longrightarrow> cache_wf (Cache_Remove conv u c)"
  by (auto simp: cache_wf_def Cache_Remove_def inner_del_inner)

lemma SetMembers_fields:
  "inner (mc_data (Cache_SetMembers conv us c)) k = (if k = conv then remdups us else inner (mc_data c) k)"
  "inner (mc_userToConvs (Cache_SetMembers conv us c)) u =
     (let old = (if u \<in> set (inner (mc_data c) conv) then filter (\<lambda>y. y \<noteq> conv) (inner (mc_userToConvs c) u)
        else inner (mc_userToConvs c) u)
      in if u \<in> set us \<and> conv \<notin> set old then old @ [conv] else old)"
  by (simp_all add: Cache_SetMembers_def Let_def fold_inner_del fold_inner_put)

lemma cache_wf_SetMembers: "cache_wf c \<Longrightarrow> cache_wf (Cache_SetMembers conv us c)"
  unfolding cache_wf_def SetMembers_fields Let_def by auto

lemma Members_Add [simp]: "set (Cache_Members k (Cache_Add conv u c)) =
    (if k = conv then insert u (set (Cache_Members k c)) else set (Cache_Members k c))"
  by (auto simp: Cache_Members_def Cache_Add_def inner_put_inner)

lemma Members_Remove [simp]: "set (Cache_Members k (Cache_Remove conv u c)) =
    (if k = conv then set (Cache_Members k c) - {u} else set (Cache_Members k c))"
  by (auto simp: Cache_Members_def Cache_Remove_def inner_del_inner)

lemma Members_SetMembers [simp]: "Cache_Members k (Cache_SetMembers conv us c) =
    (if k = conv then remdups us else Cache_Members k c)"
  by (simp add: Cache_Members_def SetMembers_fields)

lemma UserConvs_iff: "cache_wf c \<Longrightarrow> k \<in> set (Cache_UserConvs u c) \<longleftrightarrow> (k, u) \<in> abs_cache c"
  by (simp add: cache_wf_def abs_cache_def Cache_UserConvs_def Cache_Members_def)

text \<open>Any sequence of updates.\<close>

datatype cache_op = CAdd string string | CRemove string string | CSet string "string list"

fun cache_exec :: "cache_op \<Rightarrow> Cache \<Rightarrow> Cache" where
  "cache_exec (CAdd conv u) = Cache_Add conv u"
| "cache_exec (CRemove conv u) = Cache_Remove conv u"
| "cache_exec (CSet conv us) = Cache_SetMembers conv us"

fun rel_exec :: "cache_op \<Rightarrow> (string \<times> string) set \<Rightarrow> (string \<times> string) set" where
  "rel_exec (CAdd conv u) R = insert (conv, u) R"
| "rel_exec (CRemove conv u) R = R - {(conv, u)}"
| "rel_exec (CSet conv us) R = {p \<in> R. fst p \<noteq> conv} \<union> {conv} \<times> set us"

lemma cache_exec_wf: "cache_wf c \<Longrightarrow> cache_wf (cache_exec op c)"
  by (cases op) (simp_all add: cache_wf_Add cache_wf_Remove cache_wf_SetMembers)

lemma cache_exec_abs: "abs_cache (cache_exec op c) = rel_exec op (abs_cache c)"
  by (cases op) (auto simp: abs_cache_def split: if_splits)

lemma cache_run:
  "cache_wf (fold cache_exec ops Cache_New) \<and> abs_cache (fold cache_exec ops Cache_New) = fold rel_exec ops {}"
proof -
  have "cache_wf (fold cache_exec ops c) \<and> abs_cache (fold cache_exec ops c) = fold rel_exec ops (abs_cache c)"
    if "cache_wf c" for c
    using that by (induction ops arbitrary: c) (simp_all add: cache_exec_wf cache_exec_abs)
  from this [OF cache_wf_New] show ?thesis by (simp add: abs_cache_def Cache_Members_def Cache_New_def inner_def)
qed

end
