(* ===== verification/Dispatcher.thy ===== *)
theory Dispatcher
  imports WsSession Membership
begin

text \<open>
  \<^verbatim>\<open>services/delivery/internal/websocket/registry.go\<close> and \<^verbatim>\<open>internal/dispatcher/dispatcher.go\<close>. A delivery
  instance holds its sessions, which the registry and the read loops share: \<open>dv_heap\<close> maps the id of a
  session to its state and the registry refers to sessions by id. The dispatcher calls the presence and
  conversation services and publishes to other instances through Redis; these are the fields of
  \<open>disp_deps\<close> and act on the world \<open>'w\<close>. The goroutines that deliver to the members of a conversation
  touch disjoint sessions; they run here in the order of the list of members.
\<close>

record 'b delivery =
  dv_heap :: "(string \<times> 'b Session) list"
  dv_reg :: "(string \<times> (string \<times> string) list) list"
  dv_members :: Cache

definition upd_session :: "string \<Rightarrow> ('b Session \<Rightarrow> 'b Session) \<Rightarrow> 'b delivery \<Rightarrow> 'b delivery" where
  "upd_session sid f d =
     (case map_of (dv_heap d) sid of None \<Rightarrow> d | Some s \<Rightarrow> d\<lparr>dv_heap := map_put sid (f s) (dv_heap d)\<rparr>)"

section \<open>Registry\<close>

definition reg_devices :: "string \<Rightarrow> 'b delivery \<Rightarrow> (string \<times> string) list" where
  "reg_devices userID d = (case map_of (dv_reg d) userID of None \<Rightarrow> [] | Some devices \<Rightarrow> devices)"

definition Registry_Add :: "'b Session \<Rightarrow> 'b delivery \<Rightarrow> 'b delivery" where
  "Registry_Add s d =
     (let devices = reg_devices (ss_UserID s) d;
          d1 = (case map_of devices (ss_DeviceID s) of
                  None \<Rightarrow> d
                | Some old \<Rightarrow> upd_session old (CloseWithReason 4000 ''session_replaced'') d)
      in d1\<lparr>dv_heap := map_put (ss_ID s) s (dv_heap d1),
            dv_reg := map_put (ss_UserID s) (map_put (ss_DeviceID s) (ss_ID s) devices) (dv_reg d1)\<rparr>)"

definition Registry_Remove :: "'b Session \<Rightarrow> 'b delivery \<Rightarrow> 'b delivery" where
  "Registry_Remove s d =
     (case map_of (dv_reg d) (ss_UserID s) of
        None \<Rightarrow> d
      | Some devices \<Rightarrow>
          (case map_of devices (ss_DeviceID s) of
             None \<Rightarrow> d
           | Some current \<Rightarrow>
               if current = ss_ID s
               then (let devices1 = map_del (ss_DeviceID s) devices in
                     if devices1 = [] then d\<lparr>dv_reg := map_del (ss_UserID s) (dv_reg d)\<rparr>
                     else d\<lparr>dv_reg := map_put (ss_UserID s) devices1 (dv_reg d)\<rparr>)
               else d))"

definition GetUserSessions :: "string \<Rightarrow> 'b delivery \<Rightarrow> string list" where
  "GetUserSessions userID d = map snd (reg_devices userID d)"

definition Registry_CloseAll :: "'b delivery \<Rightarrow> 'b delivery" where
  "Registry_CloseAll d = fold (\<lambda>(u, devices). fold (\<lambda>(dev, sid). upd_session sid Session_Close) devices) (dv_reg d) d"

section \<open>Dispatcher\<close>

record ('w, 'b) disp_deps =
  dd_instanceID :: string
  dd_codec :: "'b codec"
  dd_GetUserDevices :: "string \<Rightarrow> 'w \<Rightarrow> (string + (string \<times> string) list) \<times> 'w"  \<comment> \<open>device and instance\<close>
  dd_GetConversation :: "string \<Rightarrow> 'w \<Rightarrow> (string + string list) \<times> 'w"             \<comment> \<open>\<open>ParticipantUserIds\<close>\<close>
  dd_RedisPublish :: "string \<Rightarrow> 'b \<Rightarrow> 'w \<Rightarrow> (string + unit) \<times> 'w"

type_synonym ('w, 'b) dstate = "'b delivery \<times> 'w"

text \<open>\<^verbatim>\<open>internal/router/pubsub.go\<close>\<close>

definition channel :: "string \<Rightarrow> string" where
  "channel i = ''delivery:'' @ i"

definition Router_Publish :: "('w, 'b) disp_deps \<Rightarrow> string \<Rightarrow> 'b \<Rightarrow> 'w \<Rightarrow> (string + unit) \<times> 'w" where
  "Router_Publish dd target payload = dd_RedisPublish dd (channel target) payload"

definition getConversationID :: "'b codec \<Rightarrow> 'b envelope \<Rightarrow> string + string" where
  "getConversationID cd env =
     (case EventType env of
        EVENT_TYPE_MESSAGE_SENT \<Rightarrow>
          (case dec_sent cd (Payload env) of
             Inl err \<Rightarrow> Inl err
           | Inr m \<Rightarrow> Inr (case m of None \<Rightarrow> [] | Some msg \<Rightarrow> pm_ConversationId msg))
      | EVENT_TYPE_MESSAGE_DELETED \<Rightarrow>
          (case dec_deleted cd (Payload env) of Inl err \<Rightarrow> Inl err | Inr (c, i) \<Rightarrow> Inr c)
      | EVENT_TYPE_READ_RECEIPT_UPDATED \<Rightarrow>
          (case dec_receipt cd (Payload env) of Inl err \<Rightarrow> Inl err | Inr (c, u, n) \<Rightarrow> Inr c)
      | EVENT_TYPE_MEMBERSHIP_CHANGED \<Rightarrow>
          (case dec_membership cd (Payload env) of Inl err \<Rightarrow> Inl err | Inr (c, u, a) \<Rightarrow> Inr c)
      | EVENT_TYPE_CONVERSATION_CREATED \<Rightarrow>
          (case dec_created cd (Payload env) of
             Inl err \<Rightarrow> Inl err
           | Inr (c, us) \<Rightarrow> Inr (case c of None \<Rightarrow> [] | Some conv \<Rightarrow> pc_ConversationId conv))
      | _ \<Rightarrow> Inl ''unsupported event type'')"

definition handleConversationCreated :: "'b codec \<Rightarrow> 'b envelope \<Rightarrow> Cache \<Rightarrow> Cache" where
  "handleConversationCreated cd env c =
     (case dec_created cd (Payload env) of
        Inl _ \<Rightarrow> c
      | Inr (conv, us) \<Rightarrow> Cache_SetMembers (case conv of None \<Rightarrow> [] | Some cv \<Rightarrow> pc_ConversationId cv) us c)"

definition handleMembershipPreRoute :: "'b codec \<Rightarrow> 'b envelope \<Rightarrow> Cache \<Rightarrow> Cache" where
  "handleMembershipPreRoute cd env c =
     (case dec_membership cd (Payload env) of
        Inl _ \<Rightarrow> c
      | Inr (conv, u, added) \<Rightarrow> if added then Cache_Add conv u c else c)"

definition handleMembershipPostRoute :: "'b codec \<Rightarrow> 'b envelope \<Rightarrow> Cache \<Rightarrow> Cache" where
  "handleMembershipPostRoute cd env c =
     (case dec_membership cd (Payload env) of
        Inl _ \<Rightarrow> c
      | Inr (conv, u, added) \<Rightarrow> if \<not> added then Cache_Remove conv u c else c)"

definition resolveMembers :: "('w, 'b) disp_deps \<Rightarrow> string \<Rightarrow> ('w, 'b) dstate \<Rightarrow> (string + string list) \<times> ('w, 'b) dstate" where
  "resolveMembers dd conversationID st =
     (case st of (d, w) \<Rightarrow>
       let members = Cache_Members conversationID (dv_members d) in
       if members \<noteq> [] then (Inr members, st)
       else case dd_GetConversation dd conversationID w of
         (Inl err, w') \<Rightarrow> (Inl err, (d, w'))
       | (Inr us, w') \<Rightarrow> (Inr us, (d\<lparr>dv_members := Cache_SetMembers conversationID us (dv_members d)\<rparr>, w')))"

text \<open>One event for one session: buffered while the session catches up, sent otherwise.\<close>

definition offer :: "'b envelope \<Rightarrow> 'b \<Rightarrow> 'b Session \<Rightarrow> 'b Session" where
  "offer env payload s =
     (case Buffer env payload s of (buffered, s1) \<Rightarrow> if buffered then s1 else snd (TrySend payload s1))"

definition deliverDevice ::
  "string \<Rightarrow> 'b envelope \<Rightarrow> 'b \<Rightarrow> string \<times> string \<Rightarrow> 'b delivery \<times> string list \<Rightarrow> 'b delivery \<times> string list" where
  "deliverDevice userID env payload device st =
     (case (device, st) of ((deviceID, _), (d, remote)) \<Rightarrow>
       (fold (\<lambda>sid d. case map_of (dv_heap d) sid of
                None \<Rightarrow> d
              | Some s \<Rightarrow> if ss_DeviceID s = deviceID then upd_session sid (offer env payload) d else d)
          (GetUserSessions userID d) d, remote))"

definition deliverToUser ::
  "('w, 'b) disp_deps \<Rightarrow> 'b envelope \<Rightarrow> 'b \<Rightarrow> string \<Rightarrow> ('w, 'b) dstate \<times> string list \<Rightarrow> ('w, 'b) dstate \<times> string list" where
  "deliverToUser dd env payload userID st =
     (case st of ((d, w), remote) \<Rightarrow>
       case dd_GetUserDevices dd userID w of
         (Inl _, w') \<Rightarrow> ((d, w'), remote)
       | (Inr devices, w') \<Rightarrow>
           (case fold (\<lambda>device (d, remote).
                   if snd device = dd_instanceID dd then deliverDevice userID env payload device (d, remote)
                   else (d, List.insert (snd device) remote)) devices (d, remote) of
              (d', remote') \<Rightarrow> ((d', w'), remote')))"

fun publishRemote :: "('w, 'b) disp_deps \<Rightarrow> 'b \<Rightarrow> string list \<Rightarrow> 'w \<Rightarrow> 'w" where
  "publishRemote dd payload [] w = w"
| "publishRemote dd payload (i # is) w = publishRemote dd payload is (snd (Router_Publish dd i payload w))"

definition handleEvent :: "('w, 'b) disp_deps \<Rightarrow> 'b envelope \<Rightarrow> 'b \<Rightarrow> ('w, 'b) dstate \<Rightarrow> ('w, 'b) dstate" where
  "handleEvent dd env rawPayload st =
     (let cd = dd_codec dd;
          upd = (\<lambda>f (d, w). (d\<lparr>dv_members := f (dv_members d)\<rparr>, w));
          st1 = (if EventType env = EVENT_TYPE_CONVERSATION_CREATED then upd (handleConversationCreated cd env) st else st);
          st2 = (if EventType env = EVENT_TYPE_MEMBERSHIP_CHANGED then upd (handleMembershipPreRoute cd env) st1 else st1)
      in case getConversationID cd env of
           Inl _ \<Rightarrow> st2
         | Inr conversationID \<Rightarrow>
             (case resolveMembers dd conversationID st2 of
                (Inl _, st3) \<Rightarrow> st3
              | (Inr members, st3) \<Rightarrow>
                  (case fold (deliverToUser dd env rawPayload) members (st3, []) of
                     ((d4, w4), remote) \<Rightarrow>
                       let st5 = (d4, publishRemote dd rawPayload remote w4) in
                       if EventType env = EVENT_TYPE_MEMBERSHIP_CHANGED
                       then upd (handleMembershipPostRoute cd env) st5 else st5)))"

definition Handle :: "('w, 'b) disp_deps \<Rightarrow> 'b \<Rightarrow> ('w, 'b) dstate \<Rightarrow> ('w, 'b) dstate" where
  "Handle dd record st =
     (case dec_env (dd_codec dd) record of
        Inl _ \<Rightarrow> st
      | Inr env \<Rightarrow>
          if EventType env \<in> {EVENT_TYPE_MESSAGE_SENT, EVENT_TYPE_MESSAGE_DELETED, EVENT_TYPE_READ_RECEIPT_UPDATED,
               EVENT_TYPE_MEMBERSHIP_CHANGED, EVENT_TYPE_CONVERSATION_CREATED}
          then handleEvent dd env record st else st)"

definition DeliverRemote :: "('w, 'b) disp_deps \<Rightarrow> 'b \<Rightarrow> ('w, 'b) dstate \<Rightarrow> ('w, 'b) dstate" where
  "DeliverRemote dd payload st =
     (case dec_env (dd_codec dd) payload of
        Inl _ \<Rightarrow> st
      | Inr env \<Rightarrow>
          (case getConversationID (dd_codec dd) env of
             Inl _ \<Rightarrow> st
           | Inr conversationID \<Rightarrow>
               (case resolveMembers dd conversationID st of
                  (Inl _, st1) \<Rightarrow> st1
                | (Inr members, (d, w)) \<Rightarrow>
                    (fold (\<lambda>u d. fold (\<lambda>sid. upd_session sid (offer env payload)) (GetUserSessions u d) d) members d, w))))"

end
