(* ===== verification/WsHandler.thy ===== *)
theory WsHandler
  imports Dispatcher
begin

text \<open>
  \<^verbatim>\<open>services/delivery/internal/websocket/handler.go\<close>, \<^verbatim>\<open>heartbeat.go\<close> and
  \<^verbatim>\<open>internal/presencewatcher/watcher.go\<close>: the life of a connection (registered when it is accepted,
  caught up from the message service, removed when its read loop ends) and the presence updates sent to
  the sessions of other members. The clients of the other services, the decoding of the resume request
  and \<open>sort.Slice\<close> are the fields of \<open>ws_deps\<close>.
\<close>

record ('w, 'b) ws_deps =
  wd_instanceID :: string
  wd_codec :: "'b codec"
  wd_sort :: "'b event_sort"
  wd_RegisterSession :: "string \<Rightarrow> string \<Rightarrow> string \<Rightarrow> 'w \<Rightarrow> (string + unit) \<times> 'w"
  wd_UnregisterSession :: "string \<Rightarrow> string \<Rightarrow> 'w \<Rightarrow> (string + unit) \<times> 'w"
  wd_RefreshSession :: "string \<Rightarrow> string \<Rightarrow> 'w \<Rightarrow> (string + unit) \<times> 'w"
  wd_ListConversations :: "string \<Rightarrow> 'w \<Rightarrow> (string + string list) \<times> 'w"
  wd_SyncMessages :: "string \<Rightarrow> string \<Rightarrow> int \<Rightarrow> int \<Rightarrow> 'w \<Rightarrow> (string + pb_message list) \<times> 'w"
  wd_resume :: "'b \<Rightarrow> string + (string \<times> int) list"

section \<open>Connecting and disconnecting\<close>

datatype http_outcome = HttpError nat | UpgradeFailed | Upgraded

definition ServeHTTP ::
  "('w, 'b) ws_deps \<Rightarrow> string \<Rightarrow> string \<Rightarrow> bool \<Rightarrow> string \<Rightarrow> ('w, 'b) dstate \<Rightarrow> http_outcome \<times> ('w, 'b) dstate" where
  "ServeHTTP wd userID deviceID upgradeOk sessionID st =
     (if userID = [] \<or> deviceID = [] then (HttpError 400, st)
      else if \<not> upgradeOk then (UpgradeFailed, st)
      else case st of (d, w) \<Rightarrow>
        let s = NewSession sessionID userID deviceID True;
            d1 = Registry_Add s d;
            w1 = snd (wd_RegisterSession wd userID deviceID (wd_instanceID wd) w)
        in (Upgraded, (upd_session sessionID Session_Start d1, w1)))"

text \<open>The deferred function of \<open>readLoop\<close>.\<close>

definition readLoop_exit :: "('w, 'b) ws_deps \<Rightarrow> string \<Rightarrow> ('w, 'b) dstate \<Rightarrow> ('w, 'b) dstate" where
  "readLoop_exit wd sessionID st =
     (case st of (d, w) \<Rightarrow>
       case map_of (dv_heap d) sessionID of
         None \<Rightarrow> st
       | Some s \<Rightarrow>
           (upd_session sessionID Session_Close (Registry_Remove s d),
            snd (wd_UnregisterSession wd (ss_UserID s) (ss_DeviceID s) w)))"

text \<open>One tick of the heartbeat.\<close>

definition StartHeartbeat :: "('w, 'b) ws_deps \<Rightarrow> string \<Rightarrow> string \<Rightarrow> 'w \<Rightarrow> 'w" where
  "StartHeartbeat wd userID deviceID w = snd (wd_RefreshSession wd userID deviceID w)"

section \<open>Catching up\<close>

definition msg_event :: "'b codec \<Rightarrow> pb_message \<Rightarrow> string + 'b" where
  "msg_event cd m =
     (case enc_event cd (MessageSentEvent (Some m)) of
        Inl err \<Rightarrow> Inl err
      | Inr eventPayload \<Rightarrow> enc_env cd (EventEnvelope EVENT_TYPE_MESSAGE_SENT 1 (pm_SentAt m) eventPayload))"

definition sendMsgAsEvent :: "('w, 'b) ws_deps \<Rightarrow> string \<Rightarrow> pb_message \<Rightarrow> 'b delivery \<Rightarrow> 'b delivery" where
  "sendMsgAsEvent wd sessionID m d =
     (case msg_event (wd_codec wd) m of
        Inl _ \<Rightarrow> d
      | Inr payload \<Rightarrow> upd_session sessionID (\<lambda>s. snd (TrySend payload s)) d)"

text \<open>The loop over the pages, with fuel; \<open>None\<close> when the fuel is used up.\<close>

fun syncConversation ::
  "nat \<Rightarrow> ('w, 'b) ws_deps \<Rightarrow> string \<Rightarrow> string \<Rightarrow> string \<Rightarrow> int \<Rightarrow> ('w, 'b) dstate \<Rightarrow> ('w, 'b) dstate option" where
  "syncConversation 0 wd userID sessionID convID currentSeq st = None"
| "syncConversation (Suc n) wd userID sessionID convID currentSeq st =
     (case st of (d, w) \<Rightarrow>
       case wd_SyncMessages wd userID convID currentSeq 100 w of
         (Inl _, w') \<Rightarrow> Some (d, w')
       | (Inr msgs, w') \<Rightarrow>
           if msgs = [] then Some (d, w')
           else
             let d' = fold (sendMsgAsEvent wd sessionID) msgs d;
                 currentSeq' = fold (\<lambda>m c. if pm_Sequence m > c then pm_Sequence m else c) msgs currentSeq
             in if length msgs < 100 then Some (d', w')
                else syncConversation n wd userID sessionID convID currentSeq' (d', w'))"

fun syncAll ::
  "nat \<Rightarrow> ('w, 'b) ws_deps \<Rightarrow> string \<Rightarrow> string \<Rightarrow> (string \<times> int) list \<Rightarrow> ('w, 'b) dstate \<Rightarrow> ('w, 'b) dstate option" where
  "syncAll fuel wd userID sessionID [] st = Some st"
| "syncAll fuel wd userID sessionID ((convID, lastSeq) # rest) st =
     (case syncConversation fuel wd userID sessionID convID lastSeq st of
        None \<Rightarrow> None
      | Some st' \<Rightarrow> syncAll fuel wd userID sessionID rest st')"

text \<open>\<open>toSync\<close>: what the client names, and the conversations it does not know yet from the start.\<close>

definition conversations_to_sync :: "(string \<times> int) list \<Rightarrow> string list \<Rightarrow> (string \<times> int) list" where
  "conversations_to_sync lastSequences listed =
     fold (\<lambda>c m. if map_of m c = None then map_put c 0 m else m) listed
       (fold (\<lambda>(c, n). map_put c n) lastSequences [])"

definition handleResume ::
  "nat \<Rightarrow> ('w, 'b) ws_deps \<Rightarrow> string \<Rightarrow> string + 'b \<Rightarrow> ('w, 'b) dstate \<Rightarrow> ('w, 'b) dstate option" where
  "handleResume fuel wd sessionID read st =
     (case st of (d, w) \<Rightarrow>
       case read of
         Inl _ \<Rightarrow> Some (upd_session sessionID Session_Close d, w)
       | Inr msg \<Rightarrow>
           (case wd_resume wd msg of
              Inl _ \<Rightarrow> Some (upd_session sessionID Session_Close d, w)
            | Inr lastSequences \<Rightarrow>
                (case map_of (dv_heap d) sessionID of
                   None \<Rightarrow> Some (d, w)
                 | Some s \<Rightarrow>
                     (case wd_ListConversations wd (ss_UserID s) w of (listed, w1) \<Rightarrow>
                       (case syncAll fuel wd (ss_UserID s) sessionID
                               (conversations_to_sync lastSequences (case listed of Inl _ \<Rightarrow> [] | Inr cs \<Rightarrow> cs)) (d, w1) of
                          None \<Rightarrow> None
                        | Some (d2, w2) \<Rightarrow>
                            Some (upd_session sessionID (FlushBufferSorted (wd_sort wd) (wd_codec wd)) d2, w2))))))"

text \<open>
  The read loop: the first frame is the resume request, later ones are thrown away until a read fails,
  also because the deadline that pongs put off has passed. Before that, the loop still waits.
\<close>

definition readLoop ::
  "nat \<Rightarrow> ('w, 'b) ws_deps \<Rightarrow> string \<Rightarrow> string + 'b \<Rightarrow> (string + 'b) list \<Rightarrow> ('w, 'b) dstate \<Rightarrow> ('w, 'b) dstate option" where
  "readLoop fuel wd sessionID first rest st =
     (case handleResume fuel wd sessionID first st of
        None \<Rightarrow> None
      | Some st1 \<Rightarrow> Some (if list_ex isl rest then readLoop_exit wd sessionID st1 else st1))"

section \<open>Presence updates\<close>

text \<open>The inner loop marks a member as notified once it had a session.\<close>

definition notify_member :: "'b \<Rightarrow> string \<Rightarrow> 'b delivery \<times> string list \<Rightarrow> 'b delivery \<times> string list" where
  "notify_member payload memberID st =
     (case st of (d, notified) \<Rightarrow>
       if memberID \<in> set notified then st
       else
         let sessions = GetUserSessions memberID d in
         (fold (\<lambda>sid. upd_session sid (\<lambda>s. snd (TrySend payload s))) sessions d,
          if sessions \<noteq> [] then notified @ [memberID] else notified))"

definition notifySubscribers :: "string \<Rightarrow> string list \<Rightarrow> 'b \<Rightarrow> 'b delivery \<Rightarrow> 'b delivery" where
  "notifySubscribers userID convIDs envPayload d =
     fst (fold (\<lambda>convID st. fold (notify_member envPayload) (Cache_Members convID (dv_members d)) st) convIDs (d, [userID]))"

definition handlePresenceUpdate :: "'b codec \<Rightarrow> string \<Rightarrow> presence_status \<Rightarrow> int \<Rightarrow> 'b delivery \<Rightarrow> 'b delivery" where
  "handlePresenceUpdate cd userID status occurredAt d =
     (let convIDs = Cache_UserConvs userID (dv_members d) in
      if convIDs = [] then d
      else case enc_event cd (PresenceUpdateEvent userID status occurredAt) of
        Inl _ \<Rightarrow> d
      | Inr eventPayload \<Rightarrow>
          (case enc_env cd (EventEnvelope EVENT_TYPE_PRESENCE_UPDATED 1 occurredAt eventPayload) of
             Inl _ \<Rightarrow> d
           | Inr envPayload \<Rightarrow> notifySubscribers userID convIDs envPayload d))"

end
