(* ===== verification/DelivLemmas.thy ===== *)
theory DelivLemmas
  imports WsHandler
begin

text \<open>
  The registry as a map from users and devices to sessions, what a dispatched event does to the
  sessions of an instance, who is told of a presence update, and the catching up of a client.
\<close>

section \<open>Sessions by id\<close>

lemma upd_session_simps [simp]:
  "dv_reg (upd_session sid f d) = dv_reg d" "dv_members (upd_session sid f d) = dv_members d"
  by (simp_all add: upd_session_def split: option.splits)

lemma map_of_upd_session:
  "map_of (dv_heap (upd_session sid f d)) k = (if k = sid then map_option f (map_of (dv_heap d) k) else map_of (dv_heap d) k)"
  by (auto simp: upd_session_def split: option.splits)

lemma reg_devices_upd [simp]: "reg_devices u (upd_session sid f d) = reg_devices u d"
  by (simp add: reg_devices_def)

lemma fold_upd_session:
  assumes "distinct sids"
  shows "map_of (dv_heap (fold (\<lambda>sid. upd_session sid f) sids d)) k =
      (if k \<in> set sids then map_option f (map_of (dv_heap d) k) else map_of (dv_heap d) k)
    \<and> dv_reg (fold (\<lambda>sid. upd_session sid f) sids d) = dv_reg d
    \<and> dv_members (fold (\<lambda>sid. upd_session sid f) sids d) = dv_members d"
  using assms
proof (induction sids arbitrary: d)
  case (Cons sid sids)
  from Cons.IH [of "upd_session sid f d"] Cons.prems show ?case by (auto simp: map_of_upd_session)
qed simp

section \<open>The registry\<close>

definition lookup_session :: "string \<Rightarrow> string \<Rightarrow> 'b delivery \<Rightarrow> string option" where
  "lookup_session u dev d = map_of (reg_devices u d) dev"

lemma reg_devices_Add: "reg_devices u (Registry_Add s d) =
    (if u = ss_UserID s then map_put (ss_DeviceID s) (ss_ID s) (reg_devices u d) else reg_devices u d)"
  by (auto simp: Registry_Add_def reg_devices_def Let_def split: option.splits)

lemma reg_devices_Remove: "reg_devices u (Registry_Remove s d) =
    (if u = ss_UserID s \<and> lookup_session u (ss_DeviceID s) d = Some (ss_ID s)
     then map_del (ss_DeviceID s) (reg_devices u d) else reg_devices u d)"
  by (auto simp: Registry_Remove_def reg_devices_def lookup_session_def Let_def split: option.splits)

lemma lookup_Add: "lookup_session u dev (Registry_Add s d) =
    (if u = ss_UserID s \<and> dev = ss_DeviceID s then Some (ss_ID s) else lookup_session u dev d)"
  by (simp add: lookup_session_def reg_devices_Add)

lemma lookup_Remove: "lookup_session u dev (Registry_Remove s d) =
    (if u = ss_UserID s \<and> dev = ss_DeviceID s \<and> lookup_session u dev d = Some (ss_ID s) then None
     else lookup_session u dev d)"
  by (auto simp: lookup_session_def reg_devices_Remove)

lemma lookup_upd [simp]: "lookup_session u dev (upd_session sid f d) = lookup_session u dev d"
  by (simp add: lookup_session_def)

lemma heap_Add:
  "map_of (dv_heap (Registry_Add s d)) k =
     (if k = ss_ID s then Some s
      else if lookup_session (ss_UserID s) (ss_DeviceID s) d = Some k
      then map_option (CloseWithReason 4000 ''session_replaced'') (map_of (dv_heap d) k)
      else map_of (dv_heap d) k)"
  by (auto simp: Registry_Add_def Let_def lookup_session_def map_of_upd_session split: option.splits)

lemma heap_Remove [simp]: "dv_heap (Registry_Remove s d) = dv_heap d"
  by (simp add: Registry_Remove_def Let_def split: option.splits)

text \<open>
  Registered sessions exist under their own id, user and device; a session is open exactly when it is
  registered.
\<close>

definition reg_ok :: "'b delivery \<Rightarrow> bool" where
  "reg_ok d \<longleftrightarrow>
     (\<forall>u. distinct (map fst (reg_devices u d)))
     \<and> (\<forall>sid s. map_of (dv_heap d) sid = Some s \<longrightarrow> ss_ID s = sid)
     \<and> (\<forall>u dev sid. lookup_session u dev d = Some sid \<longrightarrow>
          (\<exists>s. map_of (dv_heap d) sid = Some s \<and> ss_UserID s = u \<and> ss_DeviceID s = dev))"

lemma reg_okD:
  assumes "reg_ok d" and "lookup_session u dev d = Some sid"
  obtains s where "map_of (dv_heap d) sid = Some s" "ss_UserID s = u" "ss_DeviceID s = dev"
  using assms unfolding reg_ok_def by blast

lemma reg_ok_id: "reg_ok d \<Longrightarrow> map_of (dv_heap d) sid = Some s \<Longrightarrow> ss_ID s = sid"
  unfolding reg_ok_def by blast

lemma reg_ok_distinct: "reg_ok d \<Longrightarrow> distinct (map fst (reg_devices u d))"
  unfolding reg_ok_def by blast

definition open_registered :: "'b delivery \<Rightarrow> bool" where
  "open_registered d \<longleftrightarrow>
     (\<forall>sid s. map_of (dv_heap d) sid = Some s \<longrightarrow>
        (ss_closed s \<longleftrightarrow> lookup_session (ss_UserID s) (ss_DeviceID s) d \<noteq> Some sid))"

lemma Close_fields [simp]:
  "ss_ID (CloseWithReason c r s) = ss_ID s" "ss_UserID (CloseWithReason c r s) = ss_UserID s"
  "ss_DeviceID (CloseWithReason c r s) = ss_DeviceID s" "ss_closed (CloseWithReason c r s) = True"
  by (simp_all add: CloseWithReason_def)

lemma reg_ok_Add:
  assumes "reg_ok d" and fresh: "map_of (dv_heap d) (ss_ID s) = None"
  shows "reg_ok (Registry_Add s d)"
  unfolding reg_ok_def
proof (intro conjI allI impI)
  show "distinct (map fst (reg_devices u (Registry_Add s d)))" for u
    using assms(1) by (simp add: reg_devices_Add reg_ok_def)
  show "ss_ID s' = sid" if "map_of (dv_heap (Registry_Add s d)) sid = Some s'" for sid s'
    using that assms(1) by (auto simp: heap_Add reg_ok_def split: if_splits)
  fix u dev sid assume l: "lookup_session u dev (Registry_Add s d) = Some sid"
  show "\<exists>s'. map_of (dv_heap (Registry_Add s d)) sid = Some s' \<and> ss_UserID s' = u \<and> ss_DeviceID s' = dev"
  proof (cases "u = ss_UserID s \<and> dev = ss_DeviceID s")
    case True
    with l show ?thesis by (simp add: lookup_Add heap_Add)
  next
    case False
    with l have l': "lookup_session u dev d = Some sid" by (auto simp: lookup_Add split: if_splits)
    with assms(1) obtain s' where s': "map_of (dv_heap d) sid = Some s'" "ss_UserID s' = u" "ss_DeviceID s' = dev"
      unfolding reg_ok_def by blast
    with fresh have "sid \<noteq> ss_ID s" by auto
    with s' show ?thesis by (auto simp: heap_Add)
  qed
qed

lemma reg_ok_Remove:
  assumes "reg_ok d"
  shows "reg_ok (Registry_Remove s d)"
  using assms unfolding reg_ok_def heap_Remove
  by (auto simp: reg_devices_Remove lookup_Remove split: if_splits)

lemma reg_ok_upd:
  assumes "reg_ok d" and "\<And>s. ss_ID (f s) = ss_ID s \<and> ss_UserID (f s) = ss_UserID s \<and> ss_DeviceID (f s) = ss_DeviceID s"
  shows "reg_ok (upd_session sid f d)"
  unfolding reg_ok_def lookup_upd reg_devices_upd
proof (intro conjI allI impI)
  show "distinct (map fst (reg_devices u d))" for u using assms(1) by (rule reg_ok_distinct)
  show "ss_ID s = k" if "map_of (dv_heap (upd_session sid f d)) k = Some s" for k s
    using that reg_ok_id [OF assms(1)] assms(2) by (auto simp: map_of_upd_session split: if_splits)
  fix u dev k assume "lookup_session u dev d = Some k"
  with assms(1) obtain s where "map_of (dv_heap d) k = Some s" "ss_UserID s = u" "ss_DeviceID s = dev" by (rule reg_okD)
  with assms(2) show "\<exists>s. map_of (dv_heap (upd_session sid f d)) k = Some s \<and> ss_UserID s = u \<and> ss_DeviceID s = dev"
    by (auto simp: map_of_upd_session)
qed

text \<open>Connections come and go.\<close>

datatype conn_event = Connect string string string | Disconnect string

fun conn_exec :: "('w, 'b) ws_deps \<Rightarrow> conn_event \<Rightarrow> ('w, 'b) dstate \<Rightarrow> ('w, 'b) dstate" where
  "conn_exec wd (Connect sid u dev) st = snd (ServeHTTP wd u dev True sid st)"
| "conn_exec wd (Disconnect sid) st = readLoop_exit wd sid st"

text \<open>The latest connection of a device that has not ended.\<close>

fun latest :: "conn_event \<Rightarrow> (string \<times> string \<rightharpoonup> string) \<Rightarrow> (string \<times> string \<rightharpoonup> string)" where
  "latest (Connect sid u dev) m = (if u = [] \<or> dev = [] then m else m((u, dev) \<mapsto> sid))"
| "latest (Disconnect sid) m = (\<lambda>k. if m k = Some sid then None else m k)"

fun connect_ids :: "conn_event list \<Rightarrow> string list" where
  "connect_ids [] = []"
| "connect_ids (Connect sid u dev # evs) = sid # connect_ids evs"
| "connect_ids (Disconnect sid # evs) = connect_ids evs"

definition conn_inv :: "'b delivery \<Rightarrow> (string \<times> string \<rightharpoonup> string) \<Rightarrow> bool" where
  "conn_inv d m \<longleftrightarrow> reg_ok d \<and> open_registered d \<and> (\<forall>u dev. lookup_session u dev d = m (u, dev))"

lemma Session_Start_fields [simp]:
  "ss_ID (Session_Start s) = ss_ID s" "ss_UserID (Session_Start s) = ss_UserID s"
  "ss_DeviceID (Session_Start s) = ss_DeviceID s" "ss_closed (Session_Start s) = ss_closed s"
  by (simp_all add: Session_Start_def)

lemma NewSession_fields [simp]:
  "ss_ID (NewSession i u dev c) = i" "ss_UserID (NewSession i u dev c) = u" "ss_DeviceID (NewSession i u dev c) = dev"
  "ss_closed (NewSession i u dev c) = False"
  by (simp_all add: NewSession_def)

lemma conn_inv_connect:
  assumes inv: "conn_inv d m" and fresh: "map_of (dv_heap d) sid = None" and ne: "u \<noteq> []" "dev \<noteq> []"
  shows "conn_inv (upd_session sid Session_Start (Registry_Add (NewSession sid u dev True) d)) (m((u, dev) \<mapsto> sid))"
proof -
  let ?s = "NewSession sid u dev True :: 'a Session" and ?d = "Registry_Add (NewSession sid u dev True) d"
  have reg: "reg_ok d" using inv by (simp add: conn_inv_def)
  then have ok: "reg_ok ?d" using fresh by (intro reg_ok_Add) simp_all
  have l: "lookup_session u' dev' ?d = (m((u, dev) \<mapsto> sid)) (u', dev')" for u' dev'
    using inv by (simp add: lookup_Add conn_inv_def)
  have "ss_closed s' \<longleftrightarrow> lookup_session (ss_UserID s') (ss_DeviceID s') ?d \<noteq> Some k"
    if s': "map_of (dv_heap ?d) k = Some s'" for k s'
  proof (cases "k = sid")
    case True
    with s' show ?thesis by (auto simp: heap_Add lookup_Add)
  next
    case False
    with s' obtain s0 where s0: "map_of (dv_heap d) k = Some s0"
      "s' = (if lookup_session u dev d = Some k then CloseWithReason 4000 ''session_replaced'' s0 else s0)"
      by (auto simp: heap_Add split: if_splits)
    have c: "ss_closed s0 \<longleftrightarrow> lookup_session (ss_UserID s0) (ss_DeviceID s0) d \<noteq> Some k"
      using inv s0(1) by (simp add: conn_inv_def open_registered_def)
    show ?thesis
    proof (cases "lookup_session u dev d = Some k")
      case True
      with reg s0(1) have "ss_UserID s0 = u" "ss_DeviceID s0 = dev" by (metis option.inject reg_okD)+
      with True s0(2) False show ?thesis by (simp add: lookup_Add)
    next
      case no: False
      with s0(2) c False show ?thesis by (auto simp: lookup_Add)
    qed
  qed
  then have "open_registered (upd_session sid Session_Start ?d)"
    unfolding open_registered_def map_of_upd_session lookup_upd by (auto split: if_splits)
  with reg_ok_upd [OF ok] l show ?thesis by (simp add: conn_inv_def)
qed

lemma conn_inv_disconnect:
  assumes inv: "conn_inv d m" and s: "map_of (dv_heap d) sid = Some s"
  shows "conn_inv (upd_session sid Session_Close (Registry_Remove s d)) (latest (Disconnect sid) m)"
proof -
  let ?d = "Registry_Remove s d"
  have reg: "reg_ok d" using inv by (simp add: conn_inv_def)
  then have id: "ss_ID s = sid" and ok: "reg_ok ?d" using s by (simp_all add: reg_ok_id reg_ok_Remove)
  have only: "u = ss_UserID s \<and> dev = ss_DeviceID s" if "lookup_session u dev d = Some sid" for u dev
    using reg that s by (metis option.inject reg_okD)
  have l: "lookup_session u dev ?d = latest (Disconnect sid) m (u, dev)" for u dev
    using inv only [of u dev] id by (auto simp: lookup_Remove conn_inv_def)
  have "ss_closed s' \<longleftrightarrow> lookup_session (ss_UserID s') (ss_DeviceID s') ?d \<noteq> Some k"
    if s': "map_of (dv_heap (upd_session sid Session_Close ?d)) k = Some s'" for k s'
  proof (cases "k = sid")
    case True
    with s' s have "s' = Session_Close s" by (simp add: map_of_upd_session)
    with True id show ?thesis by (simp add: Session_Close_def lookup_Remove)
  next
    case False
    with s' have "map_of (dv_heap d) k = Some s'" by (simp add: map_of_upd_session)
    with inv False id show ?thesis by (auto simp: conn_inv_def open_registered_def lookup_Remove)
  qed
  then have "open_registered (upd_session sid Session_Close ?d)" unfolding open_registered_def lookup_upd by blast
  with reg_ok_upd [OF ok, of Session_Close sid] l show ?thesis by (simp add: conn_inv_def Session_Close_def)
qed

lemma latest_absent:
  assumes "conn_inv d m" and "map_of (dv_heap d) sid = None"
  shows "latest (Disconnect sid) m = m"
proof
  fix k :: "string \<times> string"
  have "m k \<noteq> Some sid"
  proof
    assume "m k = Some sid"
    with assms(1) have "lookup_session (fst k) (snd k) d = Some sid" by (simp add: conn_inv_def)
    with assms show False unfolding conn_inv_def by (metis option.distinct(1) reg_okD)
  qed
  then show "latest (Disconnect sid) m k = m k" by simp
qed

lemma heap_keys:
  "dom (map_of (dv_heap (Registry_Add s d))) = insert (ss_ID s) (dom (map_of (dv_heap d)))"
  "dom (map_of (dv_heap (upd_session sid f d))) = dom (map_of (dv_heap d))"
  by (auto simp: heap_Add map_of_upd_session dom_def split: if_splits)

lemma conn_run:
  assumes "conn_inv d m" and "distinct (connect_ids evs)" and "set (connect_ids evs) \<inter> dom (map_of (dv_heap d)) = {}"
  shows "conn_inv (fst (fold (conn_exec wd) evs (d, w))) (fold latest evs m)"
  using assms
proof (induction evs arbitrary: d m w)
  case (Cons ev evs)
  show ?case
  proof (cases ev)
    case (Connect sid u dev)
    show ?thesis
    proof (cases "u = [] \<or> dev = []")
      case True
      with Cons Connect show ?thesis by (auto simp: ServeHTTP_def)
    next
      case False
      let ?d = "upd_session sid Session_Start (Registry_Add (NewSession sid u dev True) d)"
      have "map_of (dv_heap d) sid = None" using Cons.prems Connect by auto
      with conn_inv_connect [OF Cons.prems(1)] False have "conn_inv ?d (m((u, dev) \<mapsto> sid))" by simp
      moreover have "set (connect_ids evs) \<inter> dom (map_of (dv_heap ?d)) = {}"
        using Cons.prems Connect by (auto simp: heap_keys)
      ultimately show ?thesis using Cons.IH Cons.prems(2) Connect False by (simp add: ServeHTTP_def Let_def)
    qed
  next
    case (Disconnect sid)
    show ?thesis
    proof (cases "map_of (dv_heap d) sid")
      case None
      with latest_absent [OF Cons.prems(1) None] Cons Disconnect show ?thesis by (simp add: readLoop_exit_def)
    next
      case (Some s)
      let ?d = "upd_session sid Session_Close (Registry_Remove s d)"
      from conn_inv_disconnect [OF Cons.prems(1) Some] Cons.IH [of ?d] Cons.prems(2,3) Some Disconnect
      show ?thesis by (simp add: readLoop_exit_def heap_keys)
    qed
  qed
qed simp

end
