(* ===== verification/DelivDispatch.thy ===== *)
theory DelivDispatch
  imports DelivLemmas
begin

text \<open>
  What a dispatched event does to the sessions of an instance: the sessions it is for are each offered
  the event once, all others and the registry are left alone, and every other instance that holds a
  device of a member gets the event once.
\<close>

section \<open>Updates of a set of sessions\<close>

definition sessions_upd :: "string set \<Rightarrow> ('b Session \<Rightarrow> 'b Session) \<Rightarrow> 'b delivery \<Rightarrow> 'b delivery \<Rightarrow> bool" where
  "sessions_upd S f d d' \<longleftrightarrow>
     dv_reg d' = dv_reg d \<and> dv_members d' = dv_members d
     \<and> (\<forall>k. map_of (dv_heap d') k = (if k \<in> S then map_option f (map_of (dv_heap d) k) else map_of (dv_heap d) k))"

definition keeps_device :: "('b Session \<Rightarrow> 'b Session) \<Rightarrow> bool" where
  "keeps_device f \<longleftrightarrow> (\<forall>s. ss_ID (f s) = ss_ID s \<and> ss_UserID (f s) = ss_UserID s \<and> ss_DeviceID (f s) = ss_DeviceID s)"

lemma sessions_upd_empty: "sessions_upd {} f d d"
  by (simp add: sessions_upd_def)

lemma sessions_upd_one: "sessions_upd {sid} f d (upd_session sid f d)"
  by (simp add: sessions_upd_def map_of_upd_session)

lemma sessions_upd_trans:
  assumes "sessions_upd S f d d1" and "sessions_upd T f d1 d2" and "S \<inter> T = {}"
  shows "sessions_upd (S \<union> T) f d d2"
  using assms by (auto simp: sessions_upd_def)

lemma sessions_upd_lookup: "sessions_upd S f d d' \<Longrightarrow> lookup_session u dev d' = lookup_session u dev d"
  by (simp add: sessions_upd_def lookup_session_def reg_devices_def)

lemma sessions_upd_reg_ok:
  assumes "sessions_upd S f d d'" and "keeps_device f" and ok: "reg_ok d"
  shows "reg_ok d'"
  unfolding reg_ok_def sessions_upd_lookup [OF assms(1)]
proof (intro conjI allI impI)
  show "distinct (map fst (reg_devices u d'))" for u
    using assms(1) reg_ok_distinct [OF ok, of u] by (simp add: sessions_upd_def reg_devices_def)
  show "ss_ID s = k" if "map_of (dv_heap d') k = Some s" for k s
    using that assms(1,2) reg_ok_id [OF ok] by (auto simp: sessions_upd_def keeps_device_def split: if_splits)
  fix u dev k assume "lookup_session u dev d = Some k"
  with ok obtain s where "map_of (dv_heap d) k = Some s" "ss_UserID s = u" "ss_DeviceID s = dev" by (rule reg_okD)
  with assms(1,2) show "\<exists>s. map_of (dv_heap d') k = Some s \<and> ss_UserID s = u \<and> ss_DeviceID s = dev"
    by (auto simp: sessions_upd_def keeps_device_def)
qed

lemma offer_keeps_device: "keeps_device (offer env payload)"
  by (auto simp: keeps_device_def offer_def Buffer_def)

lemma TrySend_keeps_device: "keeps_device (\<lambda>s. snd (TrySend payload s))"
  by (simp add: keeps_device_def)

text \<open>A loop over sessions that updates the ones on a device.\<close>

lemma fold_sessions_upd:
  assumes "distinct sids" and "keeps_device f"
  shows "sessions_upd {sid \<in> set sids. \<exists>s. map_of (dv_heap d) sid = Some s \<and> ss_DeviceID s = dev} f d
     (fold (\<lambda>sid d. case map_of (dv_heap d) sid of
              None \<Rightarrow> d | Some s \<Rightarrow> if ss_DeviceID s = dev then upd_session sid f d else d) sids d)"
  using assms(1)
proof (induction sids arbitrary: d)
  case (Cons sid sids)
  let ?step = "\<lambda>sid d. case map_of (dv_heap d) sid of
              None \<Rightarrow> d | Some s \<Rightarrow> if ss_DeviceID s = dev then upd_session sid f d else d"
  let ?S = "{k \<in> {sid}. \<exists>s. map_of (dv_heap d) k = Some s \<and> ss_DeviceID s = dev}"
  let ?T = "\<lambda>d. {k \<in> set sids. \<exists>s. map_of (dv_heap d) k = Some s \<and> ss_DeviceID s = dev}"
  have one: "sessions_upd ?S f d (?step sid d)"
  proof (cases "\<exists>s. map_of (dv_heap d) sid = Some s \<and> ss_DeviceID s = dev")
    case True
    then obtain s where s: "map_of (dv_heap d) sid = Some s" "ss_DeviceID s = dev" by blast
    then have "?S = {sid}" by auto
    moreover have "?step sid d = upd_session sid f d" using s by simp
    ultimately show ?thesis using sessions_upd_one by metis
  next
    case False
    then have "?S = {}" by auto
    moreover have "?step sid d = d" using False by (auto split: option.splits)
    ultimately show ?thesis using sessions_upd_empty by metis
  qed
  have "map_of (dv_heap (?step sid d)) k = map_of (dv_heap d) k" if "k \<in> set sids" for k
    using one that Cons.prems by (auto simp: sessions_upd_def)
  then have T: "?T (?step sid d) = ?T d" by auto
  from Cons.IH [of "?step sid d"] Cons.prems T have "sessions_upd (?T d) f (?step sid d) (fold ?step sids (?step sid d))" by simp
  from sessions_upd_trans [OF one this] Cons.prems have "sessions_upd (?S \<union> ?T d) f d (fold ?step (sid # sids) d)" by auto
  moreover have "?S \<union> ?T d = {k \<in> set (sid # sids). \<exists>s. map_of (dv_heap d) k = Some s \<and> ss_DeviceID s = dev}" by auto
  ultimately show ?case by simp
qed (simp add: sessions_upd_empty)

section \<open>The sessions of a user\<close>

lemma lookup_iff: "reg_ok d \<Longrightarrow> lookup_session u dev d = Some sid \<longleftrightarrow> (dev, sid) \<in> set (reg_devices u d)"
  by (simp add: lookup_session_def reg_ok_distinct)

lemma lookup_inj:
  assumes "reg_ok d" and "lookup_session u dev d = Some sid" and "lookup_session u' dev' d = Some sid"
  shows "u = u' \<and> dev = dev'"
  using assms by (metis option.inject reg_okD)

lemma GetUserSessions_distinct:
  assumes "reg_ok d"
  shows "distinct (GetUserSessions u d)"
proof -
  let ?ds = "reg_devices u d"
  have "inj_on snd (set ?ds)"
    using lookup_inj [OF assms] lookup_iff [OF assms, of u] by (auto intro!: inj_onI) blast+
  moreover have "distinct ?ds" using reg_ok_distinct [OF assms, of u] by (simp add: distinct_map)
  ultimately show ?thesis by (simp add: GetUserSessions_def distinct_map)
qed

lemma GetUserSessions_iff: "reg_ok d \<Longrightarrow> sid \<in> set (GetUserSessions u d) \<longleftrightarrow> (\<exists>dev. lookup_session u dev d = Some sid)"
  by (force simp: GetUserSessions_def lookup_iff)

definition device_sessions :: "string \<Rightarrow> string set \<Rightarrow> 'b delivery \<Rightarrow> string set" where
  "device_sessions u devs d = {sid. \<exists>dev \<in> devs. lookup_session u dev d = Some sid}"

lemma device_sessions_mono: "sessions_upd S f d d' \<Longrightarrow> device_sessions u devs d' = device_sessions u devs d"
  by (simp add: device_sessions_def sessions_upd_lookup)

lemma deliverDevice_sessions:
  assumes ok: "reg_ok d"
  shows "\<exists>d'. deliverDevice u env payload (dev, i) (d, remote) = (d', remote)
    \<and> sessions_upd (device_sessions u {dev} d) (offer env payload) d d'"
proof -
  have "{sid \<in> set (GetUserSessions u d). \<exists>s. map_of (dv_heap d) sid = Some s \<and> ss_DeviceID s = dev}
      = device_sessions u {dev} d"
  proof (intro set_eqI iffI)
    fix sid assume "sid \<in> {sid \<in> set (GetUserSessions u d). \<exists>s. map_of (dv_heap d) sid = Some s \<and> ss_DeviceID s = dev}"
    then obtain dev' s where l: "lookup_session u dev' d = Some sid" and s: "map_of (dv_heap d) sid = Some s" "ss_DeviceID s = dev"
      by (auto simp: GetUserSessions_iff [OF ok])
    from reg_okD [OF ok l] s have "dev' = dev" by (metis option.inject)
    with l show "sid \<in> device_sessions u {dev} d" by (simp add: device_sessions_def)
  next
    fix sid assume "sid \<in> device_sessions u {dev} d"
    then have l: "lookup_session u dev d = Some sid" by (simp add: device_sessions_def)
    from reg_okD [OF ok l] l show
      "sid \<in> {sid \<in> set (GetUserSessions u d). \<exists>s. map_of (dv_heap d) sid = Some s \<and> ss_DeviceID s = dev}"
      by (auto simp: GetUserSessions_iff [OF ok])
  qed
  with fold_sessions_upd [OF GetUserSessions_distinct [OF ok] offer_keeps_device, of u d dev env payload] show ?thesis
    by (simp add: deliverDevice_def)
qed

section \<open>Delivery to the members\<close>

text \<open>The devices of a list of devices on an instance, and the other instances.\<close>

definition local_devices :: "string \<Rightarrow> (string \<times> string) list \<Rightarrow> string set" where
  "local_devices i devices = {dev. (dev, i) \<in> set devices}"

definition other_instances :: "string \<Rightarrow> (string \<times> string) list \<Rightarrow> string set" where
  "other_instances i devices = snd ` set devices - {i}"

lemma device_sessions_disjoint:
  assumes "reg_ok d" and "u \<noteq> u' \<or> A \<inter> B = {}"
  shows "device_sessions u A d \<inter> device_sessions u' B d = {}"
  using assms lookup_inj [OF assms(1)] by (auto simp: device_sessions_def) blast+

lemma device_sessions_Un: "device_sessions u A d \<union> device_sessions u B d = device_sessions u (A \<union> B) d"
  by (auto simp: device_sessions_def)

lemma deliver_devices:
  assumes "reg_ok d" and "distinct (map fst devices)" and "distinct remote"
  shows "\<exists>d' remote'. fold (\<lambda>device (d, remote).
        if snd device = i then deliverDevice u env payload device (d, remote)
        else (d, List.insert (snd device) remote)) devices (d, remote) = (d', remote')
    \<and> sessions_upd (device_sessions u (local_devices i devices) d) (offer env payload) d d'
    \<and> distinct remote' \<and> set remote' = set remote \<union> other_instances i devices"
  using assms
proof (induction devices arbitrary: d remote)
  case Nil
  then show ?case by (simp add: local_devices_def other_instances_def device_sessions_def sessions_upd_empty)
next
  case (Cons device devices)
  obtain dev j where device: "device = (dev, j)" by fastforce
  show ?case
  proof (cases "j = i")
    case True
    obtain d1 where d1: "deliverDevice u env payload (dev, j) (d, remote) = (d1, remote)"
      and u1: "sessions_upd (device_sessions u {dev} d) (offer env payload) d d1"
      using deliverDevice_sessions [OF Cons.prems(1)] by blast
    from Cons.IH [OF sessions_upd_reg_ok [OF u1 offer_keeps_device Cons.prems(1)] _ Cons.prems(3)] Cons.prems(2)
    obtain d' remote' where f: "fold (\<lambda>device (d, remote).
        if snd device = i then deliverDevice u env payload device (d, remote)
        else (d, List.insert (snd device) remote)) devices (d1, remote) = (d', remote')"
      and u2: "sessions_upd (device_sessions u (local_devices i devices) d1) (offer env payload) d1 d'"
      and r: "distinct remote'" "set remote' = set remote \<union> other_instances i devices" by auto
    have "dev \<notin> local_devices i devices" using Cons.prems(2) device by (force simp: local_devices_def)
    then have "device_sessions u {dev} d \<inter> device_sessions u (local_devices i devices) d = {}"
      by (intro device_sessions_disjoint [OF Cons.prems(1)]) simp
    from sessions_upd_trans [OF u1 u2 [unfolded device_sessions_mono [OF u1]] this]
    have "sessions_upd (device_sessions u ({dev} \<union> local_devices i devices) d) (offer env payload) d d'"
      unfolding device_sessions_Un .
    moreover have "{dev} \<union> local_devices i devices = local_devices i (device # devices)"
      using True device by (auto simp: local_devices_def)
    moreover have "other_instances i (device # devices) = other_instances i devices"
      using True device by (auto simp: other_instances_def)
    moreover have "fold (\<lambda>device (d, remote).
        if snd device = i then deliverDevice u env payload device (d, remote)
        else (d, List.insert (snd device) remote)) (device # devices) (d, remote) = (d', remote')"
      using f d1 True device by simp
    ultimately show ?thesis using r by auto
  next
    case False
    have "local_devices i (device # devices) = local_devices i devices"
      "set (List.insert j remote) \<union> other_instances i devices = set remote \<union> other_instances i (device # devices)"
      using False device by (auto simp: local_devices_def other_instances_def)
    with Cons.IH [OF Cons.prems(1), of "List.insert j remote"] Cons.prems(2,3) False device show ?thesis by simp
  qed
qed

definition member_sessions :: "string \<Rightarrow> (string \<Rightarrow> (string \<times> string) list) \<Rightarrow> string list \<Rightarrow> 'b delivery \<Rightarrow> string set" where
  "member_sessions i devs ms d = (\<Union>u \<in> set ms. device_sessions u (local_devices i (devs u)) d)"

definition member_instances :: "string \<Rightarrow> (string \<Rightarrow> (string \<times> string) list) \<Rightarrow> string list \<Rightarrow> string set" where
  "member_instances i devs ms = (\<Union>u \<in> set ms. other_instances i (devs u))"

text \<open>Resolving the members leaves the sessions alone.\<close>

lemma resolveMembers_sessions:
  assumes "resolveMembers dd c (d, w) = (r, (d', w'))"
  shows "dv_heap d' = dv_heap d \<and> dv_reg d' = dv_reg d"
  using assms by (auto simp: resolveMembers_def Let_def split: if_splits prod.splits sum.splits)

lemma same_registry:
  assumes "dv_heap d' = dv_heap d" and "dv_reg d' = dv_reg d"
  shows "lookup_session u dev d' = lookup_session u dev d" "reg_ok d' = reg_ok d"
    "member_sessions i devs ms d' = member_sessions i devs ms d"
proof -
  have "reg_devices u d' = reg_devices u d" for u using assms by (simp add: reg_devices_def)
  then have "lookup_session u dev d' = lookup_session u dev d" for u dev by (simp add: lookup_session_def)
  with \<open>\<And>u. reg_devices u d' = reg_devices u d\<close> assms show "lookup_session u dev d' = lookup_session u dev d"
      "reg_ok d' = reg_ok d" "member_sessions i devs ms d' = member_sessions i devs ms d"
    by (simp_all add: reg_ok_def member_sessions_def device_sessions_def)
qed

definition plain_event :: "event_type \<Rightarrow> bool" where
  "plain_event t \<longleftrightarrow> t \<in> {EVENT_TYPE_MESSAGE_SENT, EVENT_TYPE_MESSAGE_DELETED, EVENT_TYPE_READ_RECEIPT_UPDATED}"

lemma plain_event_cases:
  assumes "plain_event t"
  obtains "t = EVENT_TYPE_MESSAGE_SENT" | "t = EVENT_TYPE_MESSAGE_DELETED" | "t = EVENT_TYPE_READ_RECEIPT_UPDATED"
  using assms unfolding plain_event_def by blast

text \<open>
  What the dispatcher relies on while nothing fails (\<open>good\<close>): the presence service knows the devices of
  every user, Redis takes what is published to it, and nothing else the dispatcher calls publishes there.
\<close>

locale directory =
  fixes dd :: "('w, 'b) disp_deps" and good :: "'w \<Rightarrow> bool"
    and devs :: "string \<Rightarrow> (string \<times> string) list" and log :: "'w \<Rightarrow> (string \<times> 'b) list"
  assumes devices: "good w \<Longrightarrow> \<exists>w'. dd_GetUserDevices dd u w = (Inr (devs u), w') \<and> good w' \<and> log w' = log w"
    and devices_distinct: "good w \<Longrightarrow> distinct (map fst (devs u))"
    and conversation: "good w \<Longrightarrow> dd_GetConversation dd c w = (r, w') \<Longrightarrow> good w' \<and> log w' = log w"
    and publish: "good w \<Longrightarrow> \<exists>w'. dd_RedisPublish dd ch p w = (Inr (), w') \<and> good w' \<and> log w' = log w @ [(ch, p)]"
begin

lemma publishRemote_log:
  assumes "good w"
  shows "good (publishRemote dd payload is w)
    \<and> log (publishRemote dd payload is w) = log w @ map (\<lambda>i. (channel i, payload)) is"
  using assms
proof (induction "is" arbitrary: w)
  case (Cons i "is")
  from publish [OF Cons.prems, of "channel i" payload] obtain w' where
    "dd_RedisPublish dd (channel i) payload w = (Inr (), w')" "good w'" "log w' = log w @ [(channel i, payload)]" by blast
  with Cons.IH [of w'] show ?case by (simp add: Router_Publish_def)
qed simp

lemma deliverToUser_sessions:
  assumes good: "good w" and "reg_ok d" and "distinct remote"
  shows "\<exists>d' w' remote'. deliverToUser dd env payload u ((d, w), remote) = ((d', w'), remote')
    \<and> sessions_upd (device_sessions u (local_devices (dd_instanceID dd) (devs u)) d) (offer env payload) d d'
    \<and> distinct remote' \<and> set remote' = set remote \<union> other_instances (dd_instanceID dd) (devs u) \<and> good w' \<and> log w' = log w"
proof -
  from devices [OF good, of u] obtain w' where
    g: "dd_GetUserDevices dd u w = (Inr (devs u), w')" "good w'" "log w' = log w" by blast
  with deliver_devices [OF assms(2) devices_distinct [OF good, of u] assms(3), of "dd_instanceID dd" u env payload] show ?thesis
    by (auto simp: deliverToUser_def)
qed

lemma deliver_members:
  assumes "good w" and "reg_ok d" and "distinct ms" and "distinct remote"
  shows "\<exists>d' w' remote'. fold (deliverToUser dd env payload) ms ((d, w), remote) = ((d', w'), remote')
    \<and> sessions_upd (member_sessions (dd_instanceID dd) devs ms d) (offer env payload) d d'
    \<and> distinct remote' \<and> set remote' = set remote \<union> member_instances (dd_instanceID dd) devs ms \<and> good w' \<and> log w' = log w"
  using assms
proof (induction ms arbitrary: d w remote)
  case Nil
  then show ?case by (simp add: member_sessions_def member_instances_def sessions_upd_empty)
next
  case (Cons u ms)
  let ?i = "dd_instanceID dd"
  let ?S = "device_sessions u (local_devices ?i (devs u)) d"
  from deliverToUser_sessions [OF Cons.prems(1,2,4)] obtain d1 w1 r1 where
      one: "deliverToUser dd env payload u ((d, w), remote) = ((d1, w1), r1)"
    and u1: "sessions_upd ?S (offer env payload) d d1"
    and r1: "distinct r1" "set r1 = set remote \<union> other_instances ?i (devs u)" "good w1" "log w1 = log w" by blast
  from Cons.IH [OF r1(3) sessions_upd_reg_ok [OF u1 offer_keeps_device Cons.prems(2)] _ r1(1)] Cons.prems(3)
  obtain d' w' r' where rest: "fold (deliverToUser dd env payload) ms ((d1, w1), r1) = ((d', w'), r')"
    and u2: "sessions_upd (member_sessions ?i devs ms d1) (offer env payload) d1 d'"
    and r': "distinct r'" "set r' = set r1 \<union> member_instances ?i devs ms" "good w'" "log w' = log w1" by auto
  have same: "member_sessions ?i devs ms d1 = member_sessions ?i devs ms d"
    by (simp add: member_sessions_def device_sessions_mono [OF u1])
  have "?S \<inter> device_sessions u' A d = {}" if "u' \<in> set ms" for u' A
    using device_sessions_disjoint [OF Cons.prems(2)] that Cons.prems(3) by (metis distinct.simps(2))
  then have "?S \<inter> member_sessions ?i devs ms d = {}" by (auto simp: member_sessions_def)
  from sessions_upd_trans [OF u1 u2 [unfolded same] this]
  have "sessions_upd (member_sessions ?i devs (u # ms) d) (offer env payload) d d'" by (simp add: member_sessions_def)
  moreover have "set r' = set remote \<union> member_instances ?i devs (u # ms)" using r1 r' by (auto simp: member_instances_def)
  moreover have "fold (deliverToUser dd env payload) (u # ms) ((d, w), remote) = ((d', w'), r')" using one rest by simp
  ultimately show ?case using r1(4) r' by auto
qed

lemma resolveMembers_world:
  assumes "good w" and "resolveMembers dd c (d, w) = (r, (d', w'))"
  shows "good w' \<and> log w' = log w"
proof -
  obtain q w1 where q: "dd_GetConversation dd c w = (q, w1)" by fastforce
  with assms conversation [OF assms(1) q] show ?thesis
    by (auto simp: resolveMembers_def Let_def split: if_splits sum.splits)
qed

lemma Handle_plain:
  assumes good: "good w" and ok: "reg_ok d"
    and env: "dec_env (dd_codec dd) rec = Inr env" "plain_event (EventType env)"
    and conv: "getConversationID (dd_codec dd) env = Inr c"
    and ms: "resolveMembers dd c (d, w) = (Inr ms, (d1, w1))" "distinct ms"
  shows "\<exists>d' w' remote. Handle dd rec (d, w) = (d', w')
    \<and> sessions_upd (member_sessions (dd_instanceID dd) devs ms d) (offer env rec) d1 d'
    \<and> distinct remote \<and> set remote = member_instances (dd_instanceID dd) devs ms
    \<and> log w' = log w @ map (\<lambda>i. (channel i, rec)) remote \<and> good w'"
proof -
  from resolveMembers_sessions [OF ms(1)] resolveMembers_world [OF good ms(1)]
  have same: "dv_heap d1 = dv_heap d" "dv_reg d1 = dv_reg d" "good w1" "log w1 = log w" by auto
  have "reg_ok d1" using ok unfolding same_registry(2) [OF same(1,2)] .
  from deliver_members [OF same(3) this ms(2) distinct.simps(1) [THEN iffD2, OF TrueI], of env rec] obtain d' w' remote where
      f: "fold (deliverToUser dd env rec) ms ((d1, w1), []) = ((d', w'), remote)"
    and u: "sessions_upd (member_sessions (dd_instanceID dd) devs ms d1) (offer env rec) d1 d'"
    and r: "distinct remote" "set remote = member_instances (dd_instanceID dd) devs ms" "good w'" "log w' = log w1" by auto
  have run: "Handle dd rec (d, w) = (d', publishRemote dd rec remote w')"
    using env(2) by (cases rule: plain_event_cases) (simp_all add: Handle_def handleEvent_def env(1) conv ms(1) f)
  from u have "sessions_upd (member_sessions (dd_instanceID dd) devs ms d) (offer env rec) d1 d'"
    unfolding same_registry(3) [OF same(1,2)] .
  moreover have "good (publishRemote dd rec remote w')
      \<and> log (publishRemote dd rec remote w') = log w @ map (\<lambda>i. (channel i, rec)) remote"
    using publishRemote_log [OF r(3)] r(4) same(4) by simp
  ultimately show ?thesis using run r(1,2) by blast
qed

end

text \<open>All sessions of the members, on whatever device.\<close>

definition user_sessions :: "string list \<Rightarrow> 'b delivery \<Rightarrow> string set" where
  "user_sessions ms d = {sid. \<exists>u \<in> set ms. \<exists>dev. lookup_session u dev d = Some sid}"

lemma fold_users_upd:
  assumes "reg_ok d" and "distinct ms" and f: "keeps_device f"
  shows "sessions_upd (user_sessions ms d) f d
     (fold (\<lambda>u d. fold (\<lambda>sid. upd_session sid f) (GetUserSessions u d) d) ms d)"
  using assms(1,2)
proof (induction ms arbitrary: d)
  case Nil
  then show ?case by (simp add: user_sessions_def sessions_upd_empty)
next
  case (Cons u ms)
  let ?d = "fold (\<lambda>sid. upd_session sid f) (GetUserSessions u d) d"
  have one: "sessions_upd (set (GetUserSessions u d)) f d ?d"
    using fold_upd_session [OF GetUserSessions_distinct [OF Cons.prems(1)]] unfolding sessions_upd_def by blast
  from Cons.IH [OF sessions_upd_reg_ok [OF one f Cons.prems(1)]] Cons.prems(2)
  have "sessions_upd (user_sessions ms ?d) f ?d (fold (\<lambda>u d. fold (\<lambda>sid. upd_session sid f) (GetUserSessions u d) d) ms ?d)"
    by simp
  moreover have "user_sessions ms ?d = user_sessions ms d"
    unfolding user_sessions_def sessions_upd_lookup [OF one] ..
  moreover have "set (GetUserSessions u d) \<inter> user_sessions ms d = {}"
    using Cons.prems(2)
    by (auto simp: user_sessions_def GetUserSessions_iff [OF Cons.prems(1)] dest: lookup_inj [OF Cons.prems(1)])
  moreover have "set (GetUserSessions u d) \<union> user_sessions ms d = user_sessions (u # ms) d"
    by (auto simp: user_sessions_def GetUserSessions_iff [OF Cons.prems(1)])
  ultimately have "sessions_upd (user_sessions (u # ms) d) f d
      (fold (\<lambda>u d. fold (\<lambda>sid. upd_session sid f) (GetUserSessions u d) d) ms ?d)"
    using sessions_upd_trans [OF one, of "user_sessions ms d"] by simp
  then show ?case by simp
qed

lemma DeliverRemote_sessions:
  assumes ok: "reg_ok d" and env: "dec_env (dd_codec dd) payload = Inr env"
    and conv: "getConversationID (dd_codec dd) env = Inr c"
    and ms: "resolveMembers dd c (d, w) = (Inr ms, (d1, w1))" "distinct ms"
  shows "\<exists>d'. DeliverRemote dd payload (d, w) = (d', w1) \<and> sessions_upd (user_sessions ms d) (offer env payload) d1 d'"
proof -
  from resolveMembers_sessions [OF ms(1)] have same: "dv_heap d1 = dv_heap d" "dv_reg d1 = dv_reg d" by auto
  have "reg_ok d1" using ok unfolding same_registry(2) [OF same] .
  from fold_users_upd [OF this ms(2) offer_keeps_device] env conv ms(1) show ?thesis
    by (simp add: DeliverRemote_def user_sessions_def same_registry(1) [OF same])
qed

section \<open>Presence updates\<close>

text \<open>Every member of the conversations other than the user, once.\<close>

lemma notify_members:
  assumes "reg_ok d0" and "sessions_upd (user_sessions ns d0) f d0 d" and f: "f = (\<lambda>s. snd (TrySend payload s))"
    and "\<forall>n \<in> set ns. x \<noteq> n" and "set notified = insert x {n \<in> set ns. GetUserSessions n d0 \<noteq> []}"
  shows "case fold (notify_member payload) ms (d, notified) of (d', notified') \<Rightarrow>
     \<exists>ns'. set ns' = set ns \<union> (set ms - {x}) \<and> sessions_upd (user_sessions ns' d0) f d0 d'
       \<and> set notified' = insert x {n \<in> set ns'. GetUserSessions n d0 \<noteq> []}"
  using assms(2-)
proof (induction ms arbitrary: ns d notified)
  case Nil
  then show ?case by auto
next
  case (Cons m ms)
  have gus: "GetUserSessions u d = GetUserSessions u d0" for u
    using Cons.prems(1) by (simp add: GetUserSessions_def reg_devices_def sessions_upd_def)
  have empty: "user_sessions [m] d0 = {}" if "GetUserSessions m d0 = []"
    using that GetUserSessions_iff [OF assms(1), of _ m] by (auto simp: user_sessions_def)
  have Un: "user_sessions (ns @ [m]) d0 = user_sessions ns d0 \<union> user_sessions [m] d0" by (auto simp: user_sessions_def)
  show ?case
  proof (cases "m \<in> set notified")
    case True
    then have "set ns \<union> (set ms - {x}) = set ns \<union> (set (m # ms) - {x})" using Cons.prems(4) by auto
    with Cons.IH [OF Cons.prems] True show ?thesis by (simp add: notify_member_def)
  next
    case False
    then have m: "m \<noteq> x" using Cons.prems(4) by auto
    let ?d = "fold (\<lambda>sid. upd_session sid f) (GetUserSessions m d) d"
    let ?n = "if GetUserSessions m d \<noteq> [] then notified @ [m] else notified"
    have step: "notify_member payload m (d, notified) = (?d, ?n)" using False by (simp add: notify_member_def f Let_def)
    have fresh: "m \<notin> set ns \<or> GetUserSessions m d0 = []" using False Cons.prems(4) by auto
    have "set (GetUserSessions m d) = user_sessions [m] d0"
      by (auto simp: gus user_sessions_def GetUserSessions_iff [OF assms(1)])
    moreover have "distinct (GetUserSessions m d)" using GetUserSessions_distinct [OF assms(1)] gus by metis
    ultimately have one: "sessions_upd (user_sessions [m] d0) f d ?d"
      using fold_upd_session [of "GetUserSessions m d" f d] unfolding sessions_upd_def by metis
    have "user_sessions ns d0 \<inter> user_sessions [m] d0 = {}"
      using fresh empty by (auto simp: user_sessions_def dest: lookup_inj [OF assms(1)])
    from sessions_upd_trans [OF Cons.prems(1) one this] have "sessions_upd (user_sessions (ns @ [m]) d0) f d0 ?d" by (simp add: Un)
    moreover have "set ?n = insert x {n \<in> set (ns @ [m]). GetUserSessions n d0 \<noteq> []}" using Cons.prems(4) gus by auto
    moreover have "\<forall>n \<in> set (ns @ [m]). x \<noteq> n" using Cons.prems(3) m by auto
    moreover have "set (ns @ [m]) \<union> (set ms - {x}) = set ns \<union> (set (m # ms) - {x})" using m by auto
    ultimately show ?thesis using Cons.IH [of "ns @ [m]" ?d ?n, OF _ f] step by simp
  qed
qed

lemma fold_nested: "fold (\<lambda>c. fold g (h c)) cs st = fold g (concat (map h cs)) st"
  by (induction cs arbitrary: st) simp_all

lemma notifySubscribers_sessions:
  assumes "reg_ok d"
  shows "\<exists>ns. set ns = (\<Union>c \<in> set convIDs. set (Cache_Members c (dv_members d))) - {userID}
    \<and> sessions_upd (user_sessions ns d) (\<lambda>s. snd (TrySend payload s)) d (notifySubscribers userID convIDs payload d)"
proof -
  let ?ms = "concat (map (\<lambda>c. Cache_Members c (dv_members d)) convIDs)"
  obtain d' n' where f: "fold (notify_member payload) ?ms (d, [userID]) = (d', n')" by fastforce
  have "sessions_upd (user_sessions [] d) (\<lambda>s. snd (TrySend payload s)) d d"
    by (simp add: user_sessions_def sessions_upd_empty)
  from notify_members [OF assms this refl, where x = userID and notified = "[userID]" and ms = ?ms] f
  obtain ns where ns: "set ns = set ?ms - {userID}" "sessions_upd (user_sessions ns d) (\<lambda>s. snd (TrySend payload s)) d d'"
    by auto
  moreover have "notifySubscribers userID convIDs payload d = d'" using f by (simp add: notifySubscribers_def fold_nested)
  ultimately show ?thesis by (intro exI [of _ ns]) auto
qed

end
