(* ===== verification/DelivSync.thy ===== *)
theory DelivSync
  imports DelivDispatch MsgConv MsgSync
begin

text \<open>
  A client that reconnects is sent what it missed: the paging loop of the delivery service against the
  message service. The contract of the message service is the locale \<open>paged_source\<close>: a member gets the
  next hundred messages above a sequence, or an error when something failed; others get an error.
\<close>

section \<open>Pages of a sorted history\<close>

lemma fold_max_last:
  fixes f :: "'a \<Rightarrow> int"
  assumes "sorted_wrt (<) (map f xs)" and "\<forall>x \<in> set xs. a < f x"
  shows "fold (\<lambda>x c. if f x > c then f x else c) xs a = (if xs = [] then a else f (last xs))"
  using assms
proof (induction xs arbitrary: a)
  case (Cons x xs)
  then have "\<forall>y \<in> set xs. f x < f y" "sorted_wrt (<) (map f xs)" by auto
  with Cons.IH [of "f x"] Cons.prems show ?case by simp
qed simp

lemma filter_after_page:
  fixes f :: "'a \<Rightarrow> int"
  assumes "sorted_wrt (<) (map f h)" and "xs = filter (\<lambda>x. a < f x) h" and "take n xs \<noteq> []"
  shows "filter (\<lambda>x. f (last (take n xs)) < f x) h = drop n xs"
proof -
  define k where "k = length (take n xs) - 1"
  have k: "k < length xs" "Suc k = min n (length xs)" "last (take n xs) = xs ! k"
    using assms(3) by (auto simp: k_def last_conv_nth min_def)
  have "xs ! k \<in> set xs" using k(1) by simp
  then have "a < f (xs ! k)" using assms(2) by simp
  then have "filter (\<lambda>x. f (xs ! k) < f x) h = filter (\<lambda>x. f (xs ! k) < f x) xs"
    unfolding assms(2) filter_filter by (intro filter_cong) auto
  moreover have "sorted_wrt (<) (map f xs)" using assms(1) unfolding assms(2) sorted_wrt_map by (rule sorted_wrt_filter)
  ultimately have "filter (\<lambda>x. f (xs ! k) < f x) h = drop (Suc k) xs" using filter_above_drop k(1) by metis
  with k(2,3) show ?thesis by (simp add: drop_all min_def split: if_splits)
qed

section \<open>The contract and the loop\<close>

locale paged_source =
  fixes wd :: "('w, 'b) ws_deps" and user :: string
    and good :: "'w \<Rightarrow> bool" and calm :: "'w \<Rightarrow> bool"
    and hist :: "'w \<Rightarrow> string \<Rightarrow> pb_message list" and mem :: "string \<Rightarrow> bool"
  assumes ordered: "good w \<Longrightarrow> sorted_wrt (<) (map pm_Sequence (hist w c))"
    and keeps: "good w \<Longrightarrow> wd_SyncMessages wd user c a 100 w = (r, w') \<Longrightarrow>
          good w' \<and> hist w' = hist w \<and> (calm w \<longrightarrow> calm w')"
    and page: "good w \<Longrightarrow> wd_SyncMessages wd user c a 100 w = (Inr ms, w') \<Longrightarrow>
          mem c \<and> ms = take 100 (filter (\<lambda>m. a < pm_Sequence m) (hist w c))"
    and answers: "good w \<Longrightarrow> calm w \<Longrightarrow> mem c \<Longrightarrow> \<exists>ms w'. wd_SyncMessages wd user c a 100 w = (Inr ms, w')"
begin

definition due :: "'w \<Rightarrow> string \<Rightarrow> int \<Rightarrow> pb_message list" where
  "due w c a = (if mem c then filter (\<lambda>m. a < pm_Sequence m) (hist w c) else [])"

lemma syncConversation_due:
  assumes "good w" and "length (due w c a) div 100 < n"
  shows "\<exists>p w'. syncConversation n wd user sid c a (d, w) = Some (fold (sendMsgAsEvent wd sid) p d, w')
    \<and> good w' \<and> hist w' = hist w \<and> prefix p (due w c a) \<and> (calm w \<longrightarrow> calm w' \<and> p = due w c a)"
  using assms
proof (induction n arbitrary: w a d)
  case (Suc n)
  obtain r w1 where call: "wd_SyncMessages wd user c a 100 w = (r, w1)" by fastforce
  note k = keeps [OF Suc.prems(1) call]
  show ?case
  proof (cases r)
    case (Inl e)
    have "due w c a = []" if "calm w"
      using that answers [OF Suc.prems(1) that, of c a] call Inl by (auto simp: due_def)
    moreover have "syncConversation (Suc n) wd user sid c a (d, w) = Some (fold (sendMsgAsEvent wd sid) [] d, w1)"
      using call Inl by simp
    ultimately show ?thesis using k by (intro exI [of _ "[]"] exI [of _ w1]) simp
  next
    case (Inr ms)
    from page [OF Suc.prems(1)] call Inr have m: "mem c" "ms = take 100 (due w c a)" by (auto simp: due_def)
    let ?d = "fold (sendMsgAsEvent wd sid) ms d"
    show ?thesis
    proof (cases "length ms < 100")
      case True
      then have "ms = due w c a" using m(2) by auto
      moreover have "syncConversation (Suc n) wd user sid c a (d, w) = Some (?d, w1)" using call Inr True by simp
      ultimately show ?thesis using k by (intro exI [of _ ms] exI [of _ w1]) simp
    next
      case False
      then have ne: "ms \<noteq> []" and len: "100 \<le> length (due w c a)" using m(2) by auto
      let ?a = "pm_Sequence (last ms)"
      have sorted: "sorted_wrt (<) (map pm_Sequence (due w c a))"
        using ordered [OF Suc.prems(1), of c] m(1) unfolding due_def sorted_wrt_map by (simp add: sorted_wrt_filter)
      then have "sorted_wrt (<) (map pm_Sequence ms)"
        unfolding m(2) take_map [symmetric] by (rule sorted_wrt_take)
      moreover have "\<forall>x \<in> set ms. a < pm_Sequence x" using m by (auto simp: due_def dest: in_set_takeD)
      ultimately have cur: "fold (\<lambda>m c. if pm_Sequence m > c then pm_Sequence m else c) ms a = ?a"
        using ne by (simp add: fold_max_last)
      have rest: "due w1 c ?a = drop 100 (due w c a)"
        using filter_after_page [OF ordered [OF Suc.prems(1), of c] refl, of 100 a] m ne k by (simp add: due_def)
      have "length (due w1 c ?a) div 100 < n" using Suc.prems(2) len rest by simp
      from Suc.IH [OF _ this, of ?d] k obtain p w' where
          loop: "syncConversation n wd user sid c ?a (?d, w1) = Some (fold (sendMsgAsEvent wd sid) p ?d, w')"
        and p: "good w'" "hist w' = hist w" "prefix p (due w1 c ?a)" "calm w1 \<longrightarrow> calm w' \<and> p = due w1 c ?a" by auto
      have "syncConversation (Suc n) wd user sid c a (d, w) = Some (fold (sendMsgAsEvent wd sid) (ms @ p) d, w')"
        using call Inr False ne cur loop by simp
      moreover have split: "due w c a = ms @ due w1 c ?a" unfolding rest using m(2) by simp
      have "prefix (ms @ p) (due w c a)" using p(3) by (simp add: split)
      moreover have "calm w \<longrightarrow> calm w' \<and> ms @ p = due w c a" using p(4) k by (simp add: split)
      ultimately show ?thesis using p(1,2) by blast
    qed
  qed
qed simp

definition due_all :: "'w \<Rightarrow> (string \<times> int) list \<Rightarrow> pb_message list" where
  "due_all w cs = concat (map (\<lambda>(c, a). due w c a) cs)"

lemma due_same: "hist w' = hist w \<Longrightarrow> due w' = due w"
  by (simp add: due_def fun_eq_iff)

lemma syncAll_due:
  assumes "good w" and "calm w" and "\<forall>(c, a) \<in> set cs. length (due w c a) div 100 < n"
  shows "\<exists>w'. syncAll n wd user sid cs (d, w) = Some (fold (sendMsgAsEvent wd sid) (due_all w cs) d, w')
    \<and> good w' \<and> calm w' \<and> hist w' = hist w"
  using assms
proof (induction cs arbitrary: w d)
  case (Cons ca cs)
  obtain c a where ca: "ca = (c, a)" by fastforce
  from syncConversation_due [OF Cons.prems(1), of c a n sid d] Cons.prems(2,3) ca obtain w1 where
      one: "syncConversation n wd user sid c a (d, w) = Some (fold (sendMsgAsEvent wd sid) (due w c a) d, w1)"
    and w1: "good w1" "calm w1" "hist w1 = hist w" by auto
  from Cons.IH [OF w1(1,2), of "fold (sendMsgAsEvent wd sid) (due w c a) d"] Cons.prems(3) ca one due_same [OF w1(3)] w1(3)
  show ?case by (auto simp: due_all_def)
qed (simp add: due_all_def)

lemma handleResume_due:
  assumes "good w1" and "calm w1" and s: "map_of (dv_heap d) sid = Some s" "ss_UserID s = user"
    and req: "wd_resume wd msg = Inr lastSequences"
    and listed: "wd_ListConversations wd user w = (Inr cs, w1)"
    and fuel: "\<forall>(c, a) \<in> set (conversations_to_sync lastSequences cs). length (due w1 c a) div 100 < n"
  shows "\<exists>w'. handleResume n wd sid (Inr msg) (d, w) =
    Some (upd_session sid (FlushBufferSorted (wd_sort wd) (wd_codec wd))
        (fold (sendMsgAsEvent wd sid) (due_all w1 (conversations_to_sync lastSequences cs)) d), w')"
  using syncAll_due [OF assms(1,2) fuel, of sid d] s req listed by (auto simp: handleResume_def)

end

text \<open>Which conversations are caught up, and from where.\<close>

lemma fold_put: "map_of (fold (\<lambda>(c, n). map_put c n) ls m) c = (case map_of (rev ls) c of None \<Rightarrow> map_of m c | Some n \<Rightarrow> Some n)"
  by (induction ls arbitrary: m) (auto split: option.splits)

lemma fold_discover:
  "map_of (fold (\<lambda>c m. if map_of m c = None then map_put c n m else m) cs m) c =
     (case map_of m c of Some x \<Rightarrow> Some x | None \<Rightarrow> if c \<in> set cs then Some n else None)"
  by (induction cs arbitrary: m) (auto split: option.splits)

lemma conversations_to_sync_lookup:
  "map_of (conversations_to_sync ls cs) c =
     (case map_of (rev ls) c of Some n \<Rightarrow> Some n | None \<Rightarrow> if c \<in> set cs then Some 0 else None)"
  unfolding conversations_to_sync_def fold_discover fold_put by (simp split: option.splits)

section \<open>The message service behind the loop\<close>

text \<open>
  A call of the delivery service to the message service carries the user of the session in the metadata.
  \<open>mb_feed\<close> are the failures and the times its next calls meet.
\<close>

record ('w, 'j, 'b) msg_backend =
  mb_db :: "('j, 'b) msg_db"
  mb_world :: 'w
  mb_feed :: "(outcome list \<times> int) list"

definition msg_sync ::
  "(msg_err go_error \<Rightarrow> bool) \<Rightarrow> ('w, 'j, 'b) msg_deps \<Rightarrow> string \<Rightarrow> string \<Rightarrow> int \<Rightarrow> int \<Rightarrow> ('w, 'j, 'b) msg_backend
    \<Rightarrow> (string + pb_message list) \<times> ('w, 'j, 'b) msg_backend" where
  "msg_sync is_status md user c a n w =
     (case next_feed (mb_feed w) of (script, now) \<Rightarrow>
       (case msg_serve is_status md False (Some (md_get [(HeaderUserID, user)])) (SyncMessagesRequest c a n)
               (session (mb_db w) (mb_world w) script now) of
          (r, t) \<Rightarrow>
            (case r of
               Inr (SyncMessagesResponse ms) \<Rightarrow> Inr ms
             | Inr _ \<Rightarrow> Inl []
             | Inl e \<Rightarrow> Inl (err_text msg_err_text e),
             w\<lparr>mb_db := s_db t, mb_world := s_world t, mb_feed := tl (mb_feed w)\<rparr>)))"

text \<open>Who is a member, as the conversation service tells the message service.\<close>

definition tells_members :: "('w, 'j, 'b) msg_deps \<Rightarrow> string \<Rightarrow> (string \<Rightarrow> bool) \<Rightarrow> bool" where
  "tells_members md user mem \<longleftrightarrow>
     (\<forall>c w. mem c \<longrightarrow> (\<exists>resp w'. md_GetConversation md c w = (Inr resp, w') \<and> user \<in> set (gr_ParticipantUserIds resp)))
     \<and> (\<forall>c w resp w'. md_GetConversation md c w = (Inr resp, w') \<longrightarrow> user \<in> set (gr_ParticipantUserIds resp) \<longrightarrow> mem c)"

definition stored_history :: "('w, 'j, 'b) msg_backend \<Rightarrow> string \<Rightarrow> pb_message list" where
  "stored_history w c =
     map (\<lambda>r. synced_pb (msg_of_row r)) (sort_key w_seq (filter (\<lambda>r. w_conv r = c) (messages (mb_db w))))"

lemma synced_pb_seq [simp]: "pm_Sequence (synced_pb (msg_of_row r)) = w_seq r"
  by (simp add: synced_pb_def sent_pb_def msg_of_row_def)

lemma history_stored:
  "map (\<lambda>r. synced_pb (msg_of_row r)) (history c a (mb_db w)) = filter (\<lambda>m. a < pm_Sequence m) (stored_history w c)"
  by (simp add: history_def stored_history_def filter_map o_def filter_sort conj_commute)

lemma stored_history_strict:
  assumes "rows_ok (mb_db w)"
  shows "sorted_wrt (<) (map pm_Sequence (stored_history w c))"
proof -
  let ?rows = "filter (\<lambda>r. w_conv r = c) (messages (mb_db w))"
  have "distinct (map w_seq (filter (\<lambda>r. w_conv r = c) rows))" if "distinct (map (\<lambda>r. (w_conv r, w_seq r)) rows)" for rows
    using that by (induction rows) (auto simp: image_iff)
  then have "distinct (map w_seq ?rows)" using assms unfolding rows_ok_def by blast
  moreover have "mset (map w_seq (sort_key w_seq ?rows)) = mset (map w_seq ?rows)" by simp
  ultimately have "distinct (map w_seq (sort_key w_seq ?rows))" by (metis mset_eq_imp_distinct_iff)
  then have "sorted_wrt (<) (map w_seq (sort_key w_seq ?rows))" by (intro sorted_wrt_less_of_distinct) simp
  then show ?thesis by (simp add: stored_history_def o_def)
qed

lemma msg_serve_sync:
  assumes "user \<noteq> []"
  shows "msg_serve is_status md False (Some (md_get [(HeaderUserID, user)])) (SyncMessagesRequest c a n) s =
    (case SyncMessages md c user a n s of
       (Inl e, t) \<Rightarrow> (Inl (msg_MapError is_status e), t)
     | (Inr ms, t) \<Rightarrow> (Inr (SyncMessagesResponse (map synced_pb ms)), t))"
  using assms
  by (auto simp: msg_serve_def msg_Interceptor_def md_get_def rpc_SyncMessages_def with_user_def GetUserID_def no_ctx_def
      mapping_errors_def bindE_def ret_def
      Let_def split: prod.splits sum.splits)

lemma SyncMessages_calm:
  assumes "s_script s = []" and "\<not> s_aborted s" and "md_GetConversation md c (s_world s) = (Inr resp, w)"
    and "user \<in> set (gr_ParticipantUserIds resp)"
  shows "\<exists>ms t. SyncMessages md c user a n s = (Inr ms, t)"
  using assms by (auto simp: SyncMessages_def FetchMessages_def bindE_def on_world_def query_ok ret_def throw_def)

definition msg_backend_ok ::
  "('w, 'j, 'b) msg_deps \<Rightarrow> string \<Rightarrow> (string \<Rightarrow> bool) \<Rightarrow> ('w, 'j, 'b) msg_backend \<Rightarrow> bool" where
  "msg_backend_ok md user mem w \<longleftrightarrow> rows_ok (mb_db w) \<and> tells_members md user mem \<and> user \<noteq> []"

lemma msg_sync_cases:
  assumes "msg_backend_ok md user mem w" and "msg_sync is_status md user c a n w = (r, w')"
  shows "\<exists>s q t. s = session (mb_db w) (mb_world w) (fst (next_feed (mb_feed w))) (snd (next_feed (mb_feed w)))
    \<and> SyncMessages md c user a n s = (q, t)
    \<and> r = (case q of Inl e \<Rightarrow> Inl (err_text msg_err_text (msg_MapError is_status e)) | Inr ms \<Rightarrow> Inr (map synced_pb ms))
    \<and> w' = w\<lparr>mb_db := mb_db w, mb_world := s_world t, mb_feed := tl (mb_feed w)\<rparr>"
proof -
  let ?s = "session (mb_db w) (mb_world w) (fst (next_feed (mb_feed w))) (snd (next_feed (mb_feed w)))"
  obtain q t where q: "SyncMessages md c user a n ?s = (q, t)" by fastforce
  have "s_db t = mb_db w" using SyncMessages_db [of md c user a n ?s] q by simp
  with assms q show ?thesis
    by (cases q) (auto simp: msg_backend_ok_def msg_sync_def msg_serve_sync split: prod.splits)
qed

interpretation ms: paged_source "wd\<lparr>wd_SyncMessages := msg_sync is_status md\<rparr>" user
  "msg_backend_ok md user mem" "\<lambda>w. mb_feed w = []" stored_history mem
  for wd :: "(('w, 'j, 'b) msg_backend, 'b) ws_deps" and is_status md user mem
proof unfold_locales
  show "sorted_wrt (<) (map pm_Sequence (stored_history w c))" if "msg_backend_ok md user mem w" for w c
    using that by (intro stored_history_strict) (simp add: msg_backend_ok_def)
next
  fix w c a r w' assume ok: "msg_backend_ok md user mem w"
    and call: "wd_SyncMessages (wd\<lparr>wd_SyncMessages := msg_sync is_status md\<rparr>) user c a 100 w = (r, w')"
  from msg_sync_cases [OF ok, of is_status c a 100 r w'] call have
    w': "mb_db w' = mb_db w" "mb_feed w' = tl (mb_feed w)" by auto
  with ok show "msg_backend_ok md user mem w' \<and> stored_history w' = stored_history w \<and> (mb_feed w = [] \<longrightarrow> mb_feed w' = [])"
    by (simp add: msg_backend_ok_def stored_history_def fun_eq_iff)
next
  fix w c a ms w' assume ok: "msg_backend_ok md user mem w"
    and call: "wd_SyncMessages (wd\<lparr>wd_SyncMessages := msg_sync is_status md\<rparr>) user c a 100 w = (Inr ms, w')"
  from call have "msg_sync is_status md user c a 100 w = (Inr ms, w')" by simp
  from msg_sync_cases [OF ok this] obtain s q t where
      s: "s = session (mb_db w) (mb_world w) (fst (next_feed (mb_feed w))) (snd (next_feed (mb_feed w)))"
      and q: "SyncMessages md c user a 100 s = (q, t)"
      "Inr ms = (case q of Inl e \<Rightarrow> Inl (err_text msg_err_text (msg_MapError is_status e)) | Inr ms \<Rightarrow> Inr (map synced_pb ms))"
    by blast
  then obtain ms0 where run: "SyncMessages md c user a 100 s = (Inr ms0, t)" and ms: "ms = map synced_pb ms0" by (cases q) auto
  from SyncMessages_success [OF run] s have m: "ms0 = map msg_of_row (take 100 (history c a (mb_db w)))"
    and g: "\<exists>w resp w'. md_GetConversation md c w = (Inr resp, w') \<and> user \<in> set (gr_ParticipantUserIds resp)"
    by (auto simp: page_size_def)
  have "ms = take 100 (filter (\<lambda>m. a < pm_Sequence m) (stored_history w c))"
    unfolding history_stored [symmetric] ms m by (simp add: take_map o_def)
  moreover have "mem c" using g ok unfolding msg_backend_ok_def tells_members_def by blast
  ultimately show "mem c \<and> ms = take 100 (filter (\<lambda>m. a < pm_Sequence m) (stored_history w c))" by simp
next
  fix w c a assume ok: "msg_backend_ok md user mem w" and "mb_feed w = []" and "mem c"
  then obtain resp w1 where "md_GetConversation md c (mb_world w) = (Inr resp, w1)" "user \<in> set (gr_ParticipantUserIds resp)"
    unfolding msg_backend_ok_def tells_members_def by blast
  with SyncMessages_calm [of "session (mb_db w) (mb_world w) [] 0" md c resp w1 user a 100] obtain ms t where
    run: "SyncMessages md c user a 100 (session (mb_db w) (mb_world w) [] 0) = (Inr ms, t)" by auto
  obtain r w' where call: "msg_sync is_status md user c a 100 w = (r, w')" by fastforce
  from msg_sync_cases [OF ok call] \<open>mb_feed w = []\<close> run call
  show "\<exists>ms w'. wd_SyncMessages (wd\<lparr>wd_SyncMessages := msg_sync is_status md\<rparr>) user c a 100 w = (Inr ms, w')" by auto
qed

end
