(* ===== verification/Presence.thy ===== *)
theory Presence
  imports Contracts
begin

text \<open>
  \<^verbatim>\<open>services/presence/internal/presence\<close>: which devices of a user are connected, and to which instance of
  the delivery service. The state is in Redis: \<open>redis\<close> has the string keys and the sets the service
  uses, with their times of expiry, the messages it published, and the failures the next round trips
  will meet (\<open>rd_script\<close>, empty when nothing fails any more). The commands mean what Redis documents: an
  expired key reads as missing, \<open>EXPIRE\<close> does nothing on a missing key, \<open>SADD\<close> keeps the expiry of an
  existing set, a set without members does not exist. A transaction pipeline runs whole or not at all.
  Times are in seconds.
\<close>

record 'b redis =
  rd_strings :: "(string \<times> string \<times> int) list"
  rd_sets :: "(string \<times> string list \<times> int option) list"
  rd_published :: "(string \<times> 'b) list"
  rd_script :: "bool list"

definition str_get :: "int \<Rightarrow> string \<Rightarrow> 'b redis \<Rightarrow> string option" where
  "str_get now k r = (case map_of (rd_strings r) k of None \<Rightarrow> None | Some (v, e) \<Rightarrow> if now < e then Some v else None)"

definition set_live :: "int \<Rightarrow> int option \<Rightarrow> bool" where
  "set_live now e = (case e of None \<Rightarrow> True | Some t \<Rightarrow> now < t)"

definition set_get :: "int \<Rightarrow> string \<Rightarrow> 'b redis \<Rightarrow> string list" where
  "set_get now k r = (case map_of (rd_sets r) k of None \<Rightarrow> [] | Some (xs, e) \<Rightarrow> if set_live now e then xs else [])"

definition redis_SET :: "int \<Rightarrow> string \<Rightarrow> string \<Rightarrow> int \<Rightarrow> 'b redis \<Rightarrow> 'b redis" where
  "redis_SET now k v ttl r = r\<lparr>rd_strings := map_put k (v, now + ttl) (rd_strings r)\<rparr>"

definition redis_DEL :: "string \<Rightarrow> 'b redis \<Rightarrow> 'b redis" where
  "redis_DEL k r = r\<lparr>rd_strings := map_del k (rd_strings r)\<rparr>"

definition redis_SADD :: "int \<Rightarrow> string \<Rightarrow> string \<Rightarrow> 'b redis \<Rightarrow> 'b redis" where
  "redis_SADD now k x r =
     r\<lparr>rd_sets := map_put k
        (case map_of (rd_sets r) k of
           None \<Rightarrow> ([x], None)
         | Some (xs, e) \<Rightarrow> if set_live now e then (List.insert x xs, e) else ([x], None)) (rd_sets r)\<rparr>"

definition redis_SREM :: "string \<Rightarrow> string list \<Rightarrow> 'b redis \<Rightarrow> 'b redis" where
  "redis_SREM k xs r =
     (case map_of (rd_sets r) k of
        None \<Rightarrow> r
      | Some (ys, e) \<Rightarrow>
          let zs = filter (\<lambda>y. y \<notin> set xs) ys in
          if zs = [] then r\<lparr>rd_sets := map_del k (rd_sets r)\<rparr> else r\<lparr>rd_sets := map_put k (zs, e) (rd_sets r)\<rparr>)"

definition redis_EXPIRE_str :: "int \<Rightarrow> string \<Rightarrow> int \<Rightarrow> 'b redis \<Rightarrow> 'b redis" where
  "redis_EXPIRE_str now k ttl r =
     (case str_get now k r of None \<Rightarrow> r | Some v \<Rightarrow> r\<lparr>rd_strings := map_put k (v, now + ttl) (rd_strings r)\<rparr>)"

definition redis_EXPIRE_set :: "int \<Rightarrow> string \<Rightarrow> int \<Rightarrow> 'b redis \<Rightarrow> 'b redis" where
  "redis_EXPIRE_set now k ttl r =
     (case map_of (rd_sets r) k of
        None \<Rightarrow> r
      | Some (xs, e) \<Rightarrow> if set_live now e then r\<lparr>rd_sets := map_put k (xs, Some (now + ttl)) (rd_sets r)\<rparr> else r)"

text \<open>One round trip: the effect of its commands, or a failure without effect.\<close>

definition round_trip :: "('b redis \<Rightarrow> 'a \<times> 'b redis) \<Rightarrow> 'b redis \<Rightarrow> (string + 'a) \<times> 'b redis" where
  "round_trip f r =
     (case rd_script r of
        [] \<Rightarrow> (case f r of (a, r') \<Rightarrow> (Inr a, r'))
      | failed # rest \<Rightarrow>
          if failed then (Inl ''redis: connection error'', r\<lparr>rd_script := rest\<rparr>)
          else (case f (r\<lparr>rd_script := rest\<rparr>) of (a, r') \<Rightarrow> (Inr a, r')))"

section \<open>The service\<close>

definition TTL :: int where
  "TTL = 60"

definition sessionKey :: "string \<Rightarrow> string \<Rightarrow> string" where
  "sessionKey userID deviceID = ''session:'' @ userID @ '':'' @ deviceID"

definition userSessionsSetKey :: "string \<Rightarrow> string" where
  "userSessionsSetKey userID = ''presence:user:'' @ userID @ '':devices''"

definition PublishUpdate ::
  "'b codec \<Rightarrow> int \<Rightarrow> string \<Rightarrow> presence_status \<Rightarrow> 'b redis \<Rightarrow> (string + unit) \<times> 'b redis" where
  "PublishUpdate cd now userID status r =
     (case enc_event cd (PresenceUpdateEvent userID status now) of
        Inl err \<Rightarrow> (Inl err, r)
      | Inr payload \<Rightarrow>
          round_trip (\<lambda>r. ((), r\<lparr>rd_published := rd_published r @ [(''presence:updates'', payload)]\<rparr>)) r)"

definition Register ::
  "'b codec \<Rightarrow> int \<Rightarrow> string \<Rightarrow> string \<Rightarrow> string \<Rightarrow> 'b redis \<Rightarrow> (string + unit) \<times> 'b redis" where
  "Register cd now userID deviceID instanceID r =
     (case round_trip (\<lambda>r. ((),
             redis_EXPIRE_set now (userSessionsSetKey userID) (TTL + 60 * 60)
               (redis_SADD now (userSessionsSetKey userID) deviceID
                 (redis_SET now (sessionKey userID deviceID) instanceID TTL r)))) r of
        (Inl err, r1) \<Rightarrow> (Inl err, r1)
      | (Inr _, r1) \<Rightarrow> PublishUpdate cd now userID PRESENCE_STATUS_ONLINE r1)"

definition live_devices :: "int \<Rightarrow> string \<Rightarrow> string list \<Rightarrow> 'b redis \<Rightarrow> (string \<times> string) list" where
  "live_devices now userID ds r =
     List.map_filter (\<lambda>d. map_option (Pair d) (str_get now (sessionKey userID d) r)) ds"

definition stale_devices :: "int \<Rightarrow> string \<Rightarrow> string list \<Rightarrow> 'b redis \<Rightarrow> string list" where
  "stale_devices now userID ds r = filter (\<lambda>d. str_get now (sessionKey userID d) r = None) ds"

text \<open>
  The clean-up of stale devices runs in the background; here it has run before the call returns, and
  its failure is only logged.
\<close>

definition GetUserDevices ::
  "int \<Rightarrow> string \<Rightarrow> 'b redis \<Rightarrow> (string + (string \<times> string) list) \<times> 'b redis" where
  "GetUserDevices now userID r =
     (case round_trip (\<lambda>r. (set_get now (userSessionsSetKey userID) r, r)) r of
        (Inl err, r1) \<Rightarrow> (Inl err, r1)
      | (Inr deviceIDs, r1) \<Rightarrow>
          if deviceIDs = [] then (Inr [], r1)
          else
            (case round_trip (\<lambda>r. ((live_devices now userID deviceIDs r, stale_devices now userID deviceIDs r), r)) r1 of
               (Inl err, r2) \<Rightarrow> (Inl err, r2)
             | (Inr (result, staleDevices), r2) \<Rightarrow>
                 if staleDevices = [] then (Inr result, r2)
                 else (Inr result, snd (round_trip (\<lambda>r. ((), redis_SREM (userSessionsSetKey userID) staleDevices r)) r2))))"

definition Unregister ::
  "'b codec \<Rightarrow> int \<Rightarrow> string \<Rightarrow> string \<Rightarrow> 'b redis \<Rightarrow> (string + unit) \<times> 'b redis" where
  "Unregister cd now userID deviceID r =
     (case round_trip (\<lambda>r. ((), redis_SREM (userSessionsSetKey userID) [deviceID]
             (redis_DEL (sessionKey userID deviceID) r))) r of
        (Inl err, r1) \<Rightarrow> (Inl err, r1)
      | (Inr _, r1) \<Rightarrow>
          (case GetUserDevices now userID r1 of
             (Inl _, r2) \<Rightarrow> PublishUpdate cd now userID PRESENCE_STATUS_OFFLINE r2
           | (Inr devices, r2) \<Rightarrow>
               if devices = [] then PublishUpdate cd now userID PRESENCE_STATUS_OFFLINE r2 else (Inr (), r2)))"

definition Refresh :: "int \<Rightarrow> string \<Rightarrow> string \<Rightarrow> 'b redis \<Rightarrow> (string + unit) \<times> 'b redis" where
  "Refresh now userID deviceID r =
     round_trip (\<lambda>r. ((), redis_EXPIRE_set now (userSessionsSetKey userID) (TTL + 60 * 60)
       (redis_EXPIRE_str now (sessionKey userID deviceID) TTL r))) r"

section \<open>The gRPC handler\<close>

record UserPresence =
  up_UserId :: string
  up_Online :: bool
  up_DeviceIds :: "string list"

fun GetPresence :: "int \<Rightarrow> string list \<Rightarrow> 'b redis \<Rightarrow> UserPresence list \<times> 'b redis" where
  "GetPresence now [] r = ([], r)"
| "GetPresence now (uid # uids) r =
     (case GetUserDevices now uid r of (res, r1) \<Rightarrow>
       (let p = (case res of
              Inl _ \<Rightarrow> \<lparr>up_UserId = uid, up_Online = False, up_DeviceIds = []\<rparr>
            | Inr devices \<Rightarrow> \<lparr>up_UserId = uid, up_Online = (devices \<noteq> []), up_DeviceIds = map fst devices\<rparr>)
        in case GetPresence now uids r1 of (ps, r2) \<Rightarrow> (p # ps, r2)))"

section \<open>What is connected\<close>

text \<open>The abstract state: the instance a device of a user is connected to at a time.\<close>

definition connected :: "int \<Rightarrow> 'b redis \<Rightarrow> string \<Rightarrow> string \<Rightarrow> string option" where
  "connected now r u d =
     (if d \<in> set (set_get now (userSessionsSetKey u) r) then str_get now (sessionKey u d) r else None)"

text \<open>User ids have no colon, so that the keys of different users differ.\<close>

abbreviation plain_id :: "string \<Rightarrow> bool" where
  "plain_id u \<equiv> CHR '':'' \<notin> set u"

lemma sessionKey_eq_iff:
  assumes "plain_id u" and "plain_id u'"
  shows "sessionKey u d = sessionKey u' d' \<longleftrightarrow> u = u' \<and> d = d'"
proof
  assume "sessionKey u d = sessionKey u' d'"
  then have "u @ CHR '':'' # d = u' @ CHR '':'' # d'" by (simp add: sessionKey_def)
  from split_at_first [OF this assms] show "u = u' \<and> d = d'" .
qed simp

lemma userSessionsSetKey_eq_iff [simp]: "userSessionsSetKey u = userSessionsSetKey u' \<longleftrightarrow> u = u'"
  by (simp add: userSessionsSetKey_def)

section \<open>Commands and reads\<close>

lemma str_get_simps [simp]:
  "str_get t k (redis_SET now k' v ttl r) = (if k = k' then (if t < now + ttl then Some v else None) else str_get t k r)"
  "str_get t k (redis_DEL k' r) = (if k = k' then None else str_get t k r)"
  "str_get t k (redis_SADD now k' x r) = str_get t k r"
  "str_get t k (redis_EXPIRE_set now k' ttl r) = str_get t k r"
  "str_get t k (r\<lparr>rd_published := pb\<rparr>) = str_get t k r"
  by (simp_all add: str_get_def redis_SET_def redis_DEL_def redis_SADD_def redis_EXPIRE_set_def split: option.splits)

lemma str_get_SREM [simp]: "str_get t k (redis_SREM k' xs r) = str_get t k r"
  by (simp add: str_get_def redis_SREM_def Let_def split: option.splits prod.splits)

lemma str_get_EXPIRE [simp]:
  "str_get t k (redis_EXPIRE_str now k' ttl r) =
     (if k = k' \<and> str_get now k r \<noteq> None then (if t < now + ttl then str_get now k r else None) else str_get t k r)"
  by (auto simp: str_get_def redis_EXPIRE_str_def split: option.splits)

lemma set_get_simps [simp]:
  "set_get t k (redis_SET now k' v ttl r) = set_get t k r"
  "set_get t k (redis_DEL k' r) = set_get t k r"
  "set_get t k (r\<lparr>rd_published := pb\<rparr>) = set_get t k r"
  by (simp_all add: set_get_def redis_SET_def redis_DEL_def)

lemma set_get_EXPIRE_str [simp]: "set_get t k (redis_EXPIRE_str now k' ttl r) = set_get t k r"
  by (simp add: set_get_def redis_EXPIRE_str_def split: option.splits)

lemma set_get_SREM [simp]:
  "set_get t k (redis_SREM k' xs r) = (if k = k' then filter (\<lambda>y. y \<notin> set xs) (set_get t k r) else set_get t k r)"
  by (auto simp: set_get_def redis_SREM_def Let_def filter_empty_conv split: option.splits prod.splits)

lemma set_get_EXPIRE_set:
  assumes "now \<le> t"
  shows "set_get t k (redis_EXPIRE_set now k' ttl r) =
    (if k = k' \<and> set_get now k r \<noteq> [] then (if t < now + ttl then set_get now k r else []) else set_get t k r)"
proof -
  have dead: "\<not> set_live now e \<Longrightarrow> \<not> set_live t e" for e using assms by (auto simp: set_live_def split: option.splits)
  show ?thesis
    by (auto simp: set_get_def redis_EXPIRE_set_def set_live_def [of _ "Some (now + ttl)"] dead
        split: option.splits prod.splits)
qed

lemma set_get_SADD_now:
  "set_get now k (redis_SADD now k x r) = List.insert x (set_get now k r)"
  "k' \<noteq> k \<Longrightarrow> set_get t k' (redis_SADD now k x r) = set_get t k' r"
  by (auto simp: set_get_def redis_SADD_def set_live_def List.insert_def split: option.splits prod.splits)

lemma set_get_SADD:
  assumes "now \<le> t"
  shows "set_get t k (redis_EXPIRE_set now k ttl (redis_SADD now k x r)) =
      (if t < now + ttl then List.insert x (set_get now k r) else [])"
    and "k' \<noteq> k \<Longrightarrow> set_get t k' (redis_EXPIRE_set now k ttl (redis_SADD now k x r)) = set_get t k' r"
proof -
  have "List.insert x (set_get now k r) \<noteq> []" by (auto simp: List.insert_def)
  with assms show "set_get t k (redis_EXPIRE_set now k ttl (redis_SADD now k x r)) =
      (if t < now + ttl then List.insert x (set_get now k r) else [])"
    by (simp add: set_get_EXPIRE_set set_get_SADD_now)
  show "k' \<noteq> k \<Longrightarrow> set_get t k' (redis_EXPIRE_set now k ttl (redis_SADD now k x r)) = set_get t k' r"
    using assms by (simp add: set_get_EXPIRE_set set_get_SADD_now)
qed

lemma str_get_later: "str_get now k r = None \<Longrightarrow> now \<le> t \<Longrightarrow> str_get t k r = None"
  by (auto simp: str_get_def split: option.splits if_splits)

lemma round_trip_calm: "rd_script r = [] \<Longrightarrow> round_trip f r = (case f r of (a, r') \<Rightarrow> (Inr a, r'))"
  by (simp add: round_trip_def)

lemma script_commands [simp]:
  "rd_script (redis_SET now k v ttl r) = rd_script r" "rd_script (redis_DEL k r) = rd_script r"
  "rd_script (redis_SADD now k x r) = rd_script r"
  by (simp_all add: redis_SET_def redis_DEL_def redis_SADD_def)

lemma script_commands2 [simp]:
  "rd_script (redis_SREM k xs r) = rd_script r" "rd_script (redis_EXPIRE_str now k ttl r) = rd_script r"
  "rd_script (redis_EXPIRE_set now k ttl r) = rd_script r"
  by (simp_all add: redis_SREM_def redis_EXPIRE_str_def redis_EXPIRE_set_def Let_def split: option.splits prod.splits)

definition publishes :: "'b codec \<Rightarrow> bool" where
  "publishes cd \<longleftrightarrow> (\<forall>e. \<exists>b. enc_event cd e = Inr b)"

lemma PublishUpdate_calm:
  assumes "publishes cd" and "rd_script r = []"
  shows "\<exists>b. enc_event cd (PresenceUpdateEvent u st now) = Inr b
    \<and> PublishUpdate cd now u st r = (Inr (), r\<lparr>rd_published := rd_published r @ [(''presence:updates'', b)]\<rparr>)"
proof -
  from assms(1) obtain b where "enc_event cd (PresenceUpdateEvent u st now) = Inr b" by (auto simp: publishes_def)
  with assms(2) show ?thesis by (simp add: PublishUpdate_def round_trip_calm)
qed

lemma connected_published [simp]: "connected t (r\<lparr>rd_published := pb\<rparr>) u d = connected t r u d"
  by (simp add: connected_def)

section \<open>The operations\<close>

text \<open>Sets have no duplicates.\<close>

definition sets_ok :: "'b redis \<Rightarrow> bool" where
  "sets_ok r \<longleftrightarrow> (\<forall>p \<in> ran (map_of (rd_sets r)). distinct (fst p))"

lemma sets_okD: "sets_ok r \<Longrightarrow> map_of (rd_sets r) k = Some p \<Longrightarrow> distinct (fst p)"
  unfolding sets_ok_def by (blast intro: ranI)

lemma sets_ok_get:
  assumes "sets_ok r"
  shows "distinct (set_get t k r)"
proof (cases "map_of (rd_sets r) k")
  case (Some p)
  with sets_okD [OF assms Some] show ?thesis by (cases p) (simp add: set_get_def)
qed (simp add: set_get_def)

lemma sets_ok_put:
  assumes "sets_ok r" and "distinct (fst p)"
  shows "sets_ok (r\<lparr>rd_sets := map_put k p (rd_sets r)\<rparr>)"
proof -
  have "ran ((map_of (rd_sets r))(k \<mapsto> p)) \<subseteq> insert p (ran (map_of (rd_sets r)))" by (auto simp: ran_def)
  with assms show ?thesis unfolding sets_ok_def by auto
qed

lemma sets_ok_same: "sets_ok r \<Longrightarrow> rd_sets r' = rd_sets r \<Longrightarrow> sets_ok r'"
  by (simp add: sets_ok_def)

lemma sets_ok_SADD:
  assumes "sets_ok r"
  shows "sets_ok (redis_SADD now k x r)"
proof (cases "map_of (rd_sets r) k")
  case (Some p)
  with sets_okD [OF assms Some] show ?thesis
    unfolding redis_SADD_def by (intro sets_ok_put [OF assms]) (auto split: prod.splits)
qed (auto simp: redis_SADD_def intro!: sets_ok_put assms)

lemma sets_ok_EXPIRE_set:
  assumes "sets_ok r"
  shows "sets_ok (redis_EXPIRE_set now k ttl r)"
proof (cases "map_of (rd_sets r) k")
  case (Some p)
  with sets_okD [OF assms Some] assms show ?thesis
    by (cases p) (auto simp: redis_EXPIRE_set_def intro!: sets_ok_put)
qed (simp add: redis_EXPIRE_set_def assms)

lemma sets_ok_SREM:
  assumes "sets_ok r"
  shows "sets_ok (redis_SREM k ys r)"
proof (cases "map_of (rd_sets r) k")
  case (Some p)
  have "ran ((map_of (rd_sets r))(k := None)) \<subseteq> ran (map_of (rd_sets r))" by (auto simp: ran_def)
  with assms have del: "sets_ok (r\<lparr>rd_sets := map_del k (rd_sets r)\<rparr>)" unfolding sets_ok_def by auto
  from Some sets_okD [OF assms Some] del show ?thesis
    by (cases p) (auto simp: redis_SREM_def Let_def intro!: sets_ok_put assms)
qed (simp add: redis_SREM_def assms)

lemma sets_ok_SET: "sets_ok r \<Longrightarrow> sets_ok (redis_SET now k v ttl r)"
  and sets_ok_DEL: "sets_ok r \<Longrightarrow> sets_ok (redis_DEL k r)"
  and sets_ok_publish: "sets_ok r \<Longrightarrow> sets_ok (r\<lparr>rd_published := pb\<rparr>)"
  by (erule sets_ok_same, simp add: redis_SET_def redis_DEL_def)+

lemmas sets_ok_commands = sets_ok_SADD sets_ok_EXPIRE_set sets_ok_SREM sets_ok_SET sets_ok_DEL sets_ok_publish

lemma Register_calm:
  assumes cd: "publishes cd" and calm: "rd_script r = []" and u: "plain_id u"
  shows "\<exists>r'. Register cd now u d i r = (Inr (), r') \<and> rd_script r' = [] \<and> (sets_ok r \<longrightarrow> sets_ok r')
    \<and> (\<forall>t \<ge> now. connected t r' u d = (if t < now + TTL then Some i else None))
    \<and> (\<forall>u' d'. plain_id u' \<longrightarrow> (u', d') \<noteq> (u, d) \<longrightarrow> connected now r' u' d' = connected now r u' d')"
proof -
  let ?r = "redis_EXPIRE_set now (userSessionsSetKey u) (TTL + 60 * 60)
      (redis_SADD now (userSessionsSetKey u) d (redis_SET now (sessionKey u d) i TTL r))"
  from PublishUpdate_calm [OF cd, of ?r u PRESENCE_STATUS_ONLINE now] calm obtain b where
    p: "PublishUpdate cd now u PRESENCE_STATUS_ONLINE ?r = (Inr (), ?r\<lparr>rd_published := rd_published ?r @ [(''presence:updates'', b)]\<rparr>)"
    by auto
  let ?r' = "?r\<lparr>rd_published := rd_published ?r @ [(''presence:updates'', b)]\<rparr>"
  have "Register cd now u d i r = (Inr (), ?r')" using p calm by (simp add: Register_def round_trip_calm)
  moreover have "connected t ?r' u d = (if t < now + TTL then Some i else None)" if "t \<ge> now" for t
    using that by (auto simp: connected_def set_get_SADD(1) TTL_def)
  moreover have "connected now ?r' u' d' = connected now r u' d'" if "plain_id u'" "(u', d') \<noteq> (u, d)" for u' d'
    using that u by (cases "u' = u") (auto simp: connected_def set_get_SADD sessionKey_eq_iff TTL_def)
  ultimately show ?thesis using calm by (intro exI [of _ ?r']) (simp add: sets_ok_commands)
qed

lemma live_devices_map: "distinct ds \<Longrightarrow> map_of (live_devices now u ds r) d = (if d \<in> set ds then str_get now (sessionKey u d) r else None)"
  by (induction ds) (auto simp: live_devices_def map_filter_simps split: option.splits)

lemma live_devices_keys: "fst ` set (live_devices now u ds r) \<subseteq> set ds"
  by (induction ds) (auto simp: live_devices_def map_filter_simps split: option.splits)

lemma live_devices_distinct: "distinct ds \<Longrightarrow> distinct (map fst (live_devices now u ds r))"
proof (induction ds)
  case (Cons d ds)
  with live_devices_keys [of now u ds r] show ?case by (auto simp: live_devices_def map_filter_simps split: option.splits)
qed (simp add: live_devices_def map_filter_simps)

lemma GetUserDevices_calm:
  assumes calm: "rd_script r = []" and ok: "sets_ok r"
  shows "\<exists>ds r'. GetUserDevices now u r = (Inr ds, r') \<and> rd_script r' = [] \<and> map_of ds = connected now r u
    \<and> distinct (map fst ds) \<and> (\<forall>u' d'. connected now r' u' d' = connected now r u' d')"
proof (cases "set_get now (userSessionsSetKey u) r = []")
  case True
  then have "GetUserDevices now u r = (Inr [], r)" using calm by (simp add: GetUserDevices_def round_trip_calm)
  moreover have "connected now r u = Map.empty" using True by (auto simp: connected_def)
  ultimately show ?thesis using calm by auto
next
  case False
  let ?ds = "set_get now (userSessionsSetKey u) r"
  let ?st = "stale_devices now u ?ds r"
  let ?r' = "if ?st = [] then r else redis_SREM (userSessionsSetKey u) ?st r"
  have "GetUserDevices now u r = (Inr (live_devices now u ?ds r), ?r')"
    using False calm by (simp add: GetUserDevices_def round_trip_calm)
  moreover have "map_of (live_devices now u ?ds r) = connected now r u"
    using ok by (auto simp: live_devices_map sets_ok_get connected_def)
  moreover have "connected now ?r' u' d' = connected now r u' d'" for u' d'
    by (auto simp: connected_def stale_devices_def)
  moreover have "distinct (map fst (live_devices now u ?ds r))" using ok by (simp add: live_devices_distinct sets_ok_get)
  ultimately show ?thesis using calm by (intro exI [of _ "live_devices now u ?ds r"] exI [of _ ?r']) auto
qed

lemma Unregister_calm:
  assumes cd: "publishes cd" and calm: "rd_script r = []" and ok: "sets_ok r" and u: "plain_id u"
  shows "\<exists>r'. Unregister cd now u d r = (Inr (), r') \<and> rd_script r' = [] \<and> connected now r' u d = None
    \<and> (\<forall>u' d'. plain_id u' \<longrightarrow> (u', d') \<noteq> (u, d) \<longrightarrow> connected now r' u' d' = connected now r u' d')"
proof -
  let ?r = "redis_SREM (userSessionsSetKey u) [d] (redis_DEL (sessionKey u d) r)"
  have ok1: "sets_ok ?r" using ok by (simp add: sets_ok_commands)
  have "connected now ?r u d = None" by (simp add: connected_def)
  moreover have "connected now ?r u' d' = connected now r u' d'" if "plain_id u'" "(u', d') \<noteq> (u, d)" for u' d'
    using that u by (auto simp: connected_def sessionKey_eq_iff)
  ultimately have c: "connected now ?r u d = None"
    "\<forall>u' d'. plain_id u' \<longrightarrow> (u', d') \<noteq> (u, d) \<longrightarrow> connected now ?r u' d' = connected now r u' d'" by blast+
  from GetUserDevices_calm [OF _ ok1, of now u] calm obtain ds r2 where
      g: "GetUserDevices now u ?r = (Inr ds, r2)" "rd_script r2 = []"
    and g3: "\<forall>u' d'. connected now r2 u' d' = connected now ?r u' d'" by auto
  from PublishUpdate_calm [OF cd g(2), of u PRESENCE_STATUS_OFFLINE now] obtain b where
    p: "PublishUpdate cd now u PRESENCE_STATUS_OFFLINE r2 = (Inr (), r2\<lparr>rd_published := rd_published r2 @ [(''presence:updates'', b)]\<rparr>)"
    by auto
  have "Unregister cd now u d r = (if ds = [] then (Inr (), r2\<lparr>rd_published := rd_published r2 @ [(''presence:updates'', b)]\<rparr>)
      else (Inr (), r2))"
    using calm g(1) p by (simp add: Unregister_def round_trip_calm)
  with g(2) g3 c show ?thesis by (cases "ds = []") auto
qed

lemma Refresh_calm:
  assumes calm: "rd_script r = []" and u: "plain_id u"
  shows "\<exists>r'. Refresh now u d r = (Inr (), r') \<and> rd_script r' = []
    \<and> (\<forall>u' d'. plain_id u' \<longrightarrow> connected now r' u' d' = connected now r u' d')
    \<and> (\<forall>t \<ge> now. t < now + TTL \<longrightarrow> connected now r u d \<noteq> None \<longrightarrow> connected t r' u d = connected now r u d)
    \<and> (\<forall>t \<ge> now. str_get now (sessionKey u d) r = None \<longrightarrow> connected t r' u d = None)"
proof -
  let ?r = "redis_EXPIRE_set now (userSessionsSetKey u) (TTL + 60 * 60) (redis_EXPIRE_str now (sessionKey u d) TTL r)"
  have "Refresh now u d r = (Inr (), ?r)" using calm by (simp add: Refresh_def round_trip_calm)
  moreover have "connected now ?r u' d' = connected now r u' d'" if "plain_id u'" for u' d'
    by (auto simp: connected_def set_get_EXPIRE_set TTL_def)
  moreover have "connected t ?r u d = connected now r u d" if "t \<ge> now" "t < now + TTL" "connected now r u d \<noteq> None" for t
    using that by (auto simp: connected_def set_get_EXPIRE_set TTL_def split: if_splits)
  moreover have "connected t ?r u d = None" if "t \<ge> now" "str_get now (sessionKey u d) r = None" for t
    using that by (simp add: connected_def str_get_later)
  ultimately show ?thesis using calm by (intro exI [of _ ?r]) simp
qed

end
