(* ===== verification/DelivPresence.thy ===== *)
theory DelivPresence
  imports DelivDispatch Presence
begin

text \<open>
  The dispatcher with the presence service behind it: both use Redis, the presence service for the
  devices that are connected and the dispatcher to hand events to other instances. The conversation
  service answers \<open>convs\<close>.
\<close>

definition redis_deps ::
  "'b codec \<Rightarrow> int \<Rightarrow> string \<Rightarrow> (string \<Rightarrow> string + string list) \<Rightarrow> ('b redis, 'b) disp_deps" where
  "redis_deps cd now inst convs =
     \<lparr>dd_instanceID = inst, dd_codec = cd, dd_GetUserDevices = GetUserDevices now,
      dd_GetConversation = (\<lambda>c r. (convs c, r)),
      dd_RedisPublish = (\<lambda>ch p. round_trip (\<lambda>r. ((), r\<lparr>rd_published := rd_published r @ [(ch, p)]\<rparr>)))\<rparr>"

definition known_devices :: "int \<Rightarrow> 'b redis \<Rightarrow> string \<Rightarrow> (string \<times> string) list" where
  "known_devices now r u = live_devices now u (set_get now (userSessionsSetKey u) r) r"

definition redis_calm :: "int \<Rightarrow> (string \<Rightarrow> (string \<times> string) list) \<Rightarrow> 'b redis \<Rightarrow> bool" where
  "redis_calm now devs r \<longleftrightarrow> rd_script r = [] \<and> sets_ok r \<and> known_devices now r = devs"

lemma known_devices_connected:
  assumes "sets_ok r"
  shows "map_of (known_devices now r u) = connected now r u" "distinct (map fst (known_devices now r u))"
  using assms by (auto simp: known_devices_def live_devices_map sets_ok_get connected_def live_devices_distinct)

lemma live_devices_stale:
  "live_devices now u (filter (\<lambda>d. d \<notin> set (stale_devices now u ds' r)) ds) r = live_devices now u ds r"
  if "set ds \<subseteq> set ds'"
  using that by (induction ds) (auto simp: live_devices_def stale_devices_def map_filter_simps split: option.splits)

lemma live_devices_SREM: "live_devices now u ds (redis_SREM k xs r) = live_devices now u ds r"
  by (simp add: live_devices_def)

lemma known_devices_SREM:
  "known_devices now (redis_SREM (userSessionsSetKey u)
      (stale_devices now u (set_get now (userSessionsSetKey u) r) r) r) = known_devices now r"
proof
  fix u'
  show "known_devices now (redis_SREM (userSessionsSetKey u)
      (stale_devices now u (set_get now (userSessionsSetKey u) r) r) r) u' = known_devices now r u'"
    by (cases "u' = u") (simp_all add: known_devices_def live_devices_SREM live_devices_stale)
qed

lemma SREM_published: "rd_published (redis_SREM k xs r) = rd_published r"
  by (simp add: redis_SREM_def Let_def split: option.splits prod.splits)

lemma GetUserDevices_known:
  assumes "redis_calm now devs r"
  shows "\<exists>r'. GetUserDevices now u r = (Inr (devs u), r') \<and> redis_calm now devs r' \<and> rd_published r' = rd_published r"
proof -
  let ?ds = "set_get now (userSessionsSetKey u) r" let ?st = "stale_devices now u ?ds r"
  have calm: "rd_script r = []" "sets_ok r" and devs: "known_devices now r = devs"
    using assms by (simp_all add: redis_calm_def)
  from devs have u: "devs u = live_devices now u ?ds r" by (auto simp: known_devices_def)
  show ?thesis
  proof (cases "?ds = [] \<or> ?st = []")
    case True
    have "live_devices now u [] r = []" by (simp add: live_devices_def map_filter_simps)
    with True calm u have "GetUserDevices now u r = (Inr (devs u), r)" by (auto simp: GetUserDevices_def round_trip_calm)
    with assms show ?thesis by blast
  next
    case False
    let ?r = "redis_SREM (userSessionsSetKey u) ?st r"
    have "GetUserDevices now u r = (Inr (devs u), ?r)" using False calm u by (simp add: GetUserDevices_def round_trip_calm)
    moreover have "redis_calm now devs ?r"
      using calm devs known_devices_SREM [of now u r] by (simp add: redis_calm_def sets_ok_SREM)
    ultimately show ?thesis using SREM_published by blast
  qed
qed

interpretation rp: directory "redis_deps cd now inst convs" "redis_calm now devs" devs rd_published
  for cd now inst convs devs
proof unfold_locales
  fix r :: "'a redis" and u assume "redis_calm now devs r"
  then show "\<exists>r'. dd_GetUserDevices (redis_deps cd now inst convs) u r = (Inr (devs u), r') \<and> redis_calm now devs r'
      \<and> rd_published r' = rd_published r"
    unfolding redis_deps_def by (simp add: GetUserDevices_known)
next
  fix r :: "'a redis" and u assume "redis_calm now devs r"
  then show "distinct (map fst (devs u))" using known_devices_connected(2) [of r now u] by (auto simp: redis_calm_def)
next
  fix r r' :: "'a redis" and c q assume "redis_calm now devs r" "dd_GetConversation (redis_deps cd now inst convs) c r = (q, r')"
  then show "redis_calm now devs r' \<and> rd_published r' = rd_published r" by (simp add: redis_deps_def)
next
  fix r :: "'a redis" and ch p assume "redis_calm now devs r"
  moreover have "known_devices now (r\<lparr>rd_published := pb\<rparr>) = known_devices now r" for pb
    by (simp add: known_devices_def live_devices_def fun_eq_iff)
  ultimately show "\<exists>r'. dd_RedisPublish (redis_deps cd now inst convs) ch p r = (Inr (), r') \<and> redis_calm now devs r'
      \<and> rd_published r' = rd_published r @ [(ch, p)]"
    by (simp add: redis_deps_def redis_calm_def round_trip_calm sets_ok_publish)
qed

text \<open>The sessions and instances an event goes to, by what is connected.\<close>

lemma connected_sessions:
  assumes "sets_ok r"
  shows "member_sessions i (known_devices now r) ms d =
      {sid. \<exists>u \<in> set ms. \<exists>dev. connected now r u dev = Some i \<and> lookup_session u dev d = Some sid}"
    and "member_instances i (known_devices now r) ms =
      {j. j \<noteq> i \<and> (\<exists>u \<in> set ms. \<exists>dev. connected now r u dev = Some j)}"
proof -
  have "(dev, j) \<in> set (known_devices now r u) \<longleftrightarrow> connected now r u dev = Some j" for u dev j
    using known_devices_connected [OF assms, of now u] by (metis map_of_eq_Some_iff)
  then show "member_sessions i (known_devices now r) ms d =
      {sid. \<exists>u \<in> set ms. \<exists>dev. connected now r u dev = Some i \<and> lookup_session u dev d = Some sid}"
    "member_instances i (known_devices now r) ms =
      {j. j \<noteq> i \<and> (\<exists>u \<in> set ms. \<exists>dev. connected now r u dev = Some j)}"
    by (auto simp: member_sessions_def member_instances_def device_sessions_def local_devices_def other_instances_def) force+
qed

end
