(* ===== verification/PresenceRun.thy ===== *)
theory PresenceRun
  imports Presence
begin

text \<open>
  The presence service over a run: what it stores in Redis implements a map from users and devices to
  the instance they are connected to and the time until which that holds.
\<close>

datatype pres_op =
    PRegister string string string
  | PUnregister string string
  | PRefresh string string
  | PDevices string

fun pres_exec :: "'b codec \<Rightarrow> pres_op \<times> int \<Rightarrow> 'b redis \<Rightarrow> 'b redis" where
  "pres_exec cd (PRegister u d i, now) r = snd (Register cd now u d i r)"
| "pres_exec cd (PUnregister u d, now) r = snd (Unregister cd now u d r)"
| "pres_exec cd (PRefresh u d, now) r = snd (Refresh now u d r)"
| "pres_exec cd (PDevices u, now) r = snd (GetUserDevices now u r)"

type_synonym presence_map = "string \<times> string \<rightharpoonup> string \<times> int"

definition spec_at :: "int \<Rightarrow> presence_map \<Rightarrow> string \<Rightarrow> string \<Rightarrow> string option" where
  "spec_at t m u d = (case m (u, d) of None \<Rightarrow> None | Some (i, e) \<Rightarrow> if t < e then Some i else None)"

fun spec_exec :: "pres_op \<times> int \<Rightarrow> presence_map \<Rightarrow> presence_map" where
  "spec_exec (PRegister u d i, now) m = m((u, d) \<mapsto> (i, now + 60))"
| "spec_exec (PUnregister u d, now) m = m((u, d) := None)"
| "spec_exec (PRefresh u d, now) m =
     (case spec_at now m u d of None \<Rightarrow> m | Some i \<Rightarrow> m((u, d) \<mapsto> (i, now + 60)))"
| "spec_exec (PDevices u, now) m = m"

fun op_user :: "pres_op \<Rightarrow> string" where
  "op_user (PRegister u d i) = u"
| "op_user (PUnregister u d) = u"
| "op_user (PRefresh u d) = u"
| "op_user (PDevices u) = u"

text \<open>
  The relation between the two: keys agree now and later, a device that is connected is in the set of
  its user, and nothing outlives the time to live.
\<close>

definition pres_rel :: "int \<Rightarrow> 'b redis \<Rightarrow> presence_map \<Rightarrow> bool" where
  "pres_rel now r m \<longleftrightarrow> rd_script r = [] \<and> sets_ok r
     \<and> (\<forall>u d t. plain_id u \<longrightarrow> now \<le> t \<longrightarrow> str_get t (sessionKey u d) r = spec_at t m u d)
     \<and> (\<forall>u d t. plain_id u \<longrightarrow> now \<le> t \<longrightarrow> spec_at t m u d \<noteq> None \<longrightarrow> d \<in> set (set_get t (userSessionsSetKey u) r))
     \<and> (\<forall>u d t. now + TTL \<le> t \<longrightarrow> spec_at t m u d = None)"

lemma pres_relD:
  assumes "pres_rel now r m"
  shows "rd_script r = []" "sets_ok r"
    "plain_id u \<Longrightarrow> now \<le> t \<Longrightarrow> str_get t (sessionKey u d) r = spec_at t m u d"
    "plain_id u \<Longrightarrow> now \<le> t \<Longrightarrow> spec_at t m u d \<noteq> None \<Longrightarrow> d \<in> set (set_get t (userSessionsSetKey u) r)"
    "spec_at t m u d \<noteq> None \<Longrightarrow> t < now + TTL"
    "now + TTL \<le> t \<Longrightarrow> spec_at t m u d = None"
  using assms unfolding pres_rel_def by (blast, blast, blast, blast, meson not_le, blast)

lemma spec_at_earlier: "spec_at t m u d \<noteq> None \<Longrightarrow> now \<le> t \<Longrightarrow> spec_at now m u d \<noteq> None"
  by (auto simp: spec_at_def split: option.splits if_splits)

lemma spec_at_upd:
  "spec_at t (m((u', d') \<mapsto> (i, e))) u d = (if (u, d) = (u', d') then (if t < e then Some i else None) else spec_at t m u d)"
  "spec_at t (m((u', d') := None)) u d = (if (u, d) = (u', d') then None else spec_at t m u d)"
  by (simp_all add: spec_at_def)

lemma pres_rel_connected:
  assumes "pres_rel now r m" and "plain_id u" and "now \<le> t"
  shows "connected t r u d = spec_at t m u d"
proof (cases "spec_at t m u d")
  case None
  with pres_relD(3) [OF assms] show ?thesis by (simp add: connected_def)
next
  case (Some i)
  with pres_relD(4) [OF assms, of d] pres_relD(3) [OF assms, of d] show ?thesis by (simp add: connected_def)
qed

lemma pres_rel_later: "pres_rel now r m \<Longrightarrow> now \<le> now' \<Longrightarrow> pres_rel now' r m"
  unfolding pres_rel_def by (meson add_mono order_trans order_refl)

lemma pres_rel_published: "pres_rel now r m \<Longrightarrow> pres_rel now (r\<lparr>rd_published := pb\<rparr>) m"
  by (simp add: pres_rel_def sets_ok_publish)

lemma pres_rel_PublishUpdate:
  assumes "publishes cd" and "pres_rel now r m"
  shows "pres_rel now (snd (PublishUpdate cd now u st r)) m"
proof -
  from PublishUpdate_calm [OF assms(1) pres_relD(1) [OF assms(2)]] obtain b where
    "PublishUpdate cd now u st r = (Inr (), r\<lparr>rd_published := rd_published r @ [(''presence:updates'', b)]\<rparr>)" by blast
  with pres_rel_published [OF assms(2)] show ?thesis by simp
qed

lemma pres_rel_Register:
  assumes cd: "publishes cd" and rel: "pres_rel now r m" and u: "plain_id u"
  shows "pres_rel now (snd (Register cd now u d i r)) (m((u, d) \<mapsto> (i, now + 60)))"
proof -
  let ?r = "redis_EXPIRE_set now (userSessionsSetKey u) (TTL + 60 * 60)
      (redis_SADD now (userSessionsSetKey u) d (redis_SET now (sessionKey u d) i TTL r))"
  let ?m = "m((u, d) \<mapsto> (i, now + 60))"
  have "d' \<in> set (set_get t (userSessionsSetKey u') ?r)"
    if u': "plain_id u'" and t: "now \<le> t" and s: "spec_at t ?m u' d' \<noteq> None" for u' d' t
  proof (cases "u' = u")
    case True
    have "t < now + TTL" using s pres_relD(5) [OF rel, of t u' d'] by (auto simp: spec_at_upd TTL_def split: if_splits)
    moreover have "d' = d \<or> d' \<in> set (set_get now (userSessionsSetKey u) r)"
      using s True pres_relD(4) [OF rel u', of now d'] spec_at_earlier [of t m u' d' now] t by (auto simp: spec_at_upd split: if_splits)
    ultimately show ?thesis using True t by (auto simp: set_get_SADD TTL_def)
  next
    case False
    with s have "spec_at t m u' d' \<noteq> None" by (simp add: spec_at_upd)
    with pres_relD(4) [OF rel u' t] False t show ?thesis by (simp add: set_get_SADD)
  qed
  moreover have "str_get t (sessionKey u' d') ?r = spec_at t ?m u' d'" if "plain_id u'" "now \<le> t" for u' d' t
    using pres_relD(3) [OF rel that] that u by (simp add: spec_at_upd sessionKey_eq_iff TTL_def)
  moreover have "spec_at t ?m u' d' = None" if "now + TTL \<le> t" for u' d' t
    using pres_relD(6) [OF rel that] that by (simp add: spec_at_upd TTL_def)
  ultimately have "pres_rel now ?r ?m"
    using pres_relD(1,2) [OF rel] unfolding pres_rel_def by (simp add: sets_ok_commands)
  from pres_rel_PublishUpdate [OF cd this] pres_relD(1) [OF rel] show ?thesis by (simp add: Register_def round_trip_calm)
qed

lemma pres_rel_devices:
  assumes rel: "pres_rel now r m" and u: "plain_id u"
  shows "pres_rel now (snd (GetUserDevices now u r)) m"
proof -
  let ?ds = "set_get now (userSessionsSetKey u) r" let ?st = "stale_devices now u ?ds r"
  let ?r = "redis_SREM (userSessionsSetKey u) ?st r"
  have "d \<in> set (set_get t (userSessionsSetKey u') ?r)"
    if "plain_id u'" "now \<le> t" and s: "spec_at t m u' d \<noteq> None" for u' d t
  proof -
    have "d \<notin> set ?st" if "u' = u"
      using spec_at_earlier [OF s \<open>now \<le> t\<close>] pres_relD(3) [OF rel u order_refl, of d] that by (auto simp: stale_devices_def)
    with pres_relD(4) [OF rel that] show ?thesis by (cases "u' = u") auto
  qed
  then have "pres_rel now ?r m" using rel unfolding pres_rel_def by (simp add: sets_ok_SREM)
  with rel pres_relD(1) [OF rel] show ?thesis by (simp add: GetUserDevices_def round_trip_calm)
qed

lemma pres_rel_Unregister:
  assumes cd: "publishes cd" and rel: "pres_rel now r m" and u: "plain_id u"
  shows "pres_rel now (snd (Unregister cd now u d r)) (m((u, d) := None))"
proof -
  let ?r = "redis_SREM (userSessionsSetKey u) [d] (redis_DEL (sessionKey u d) r)" and ?m = "m((u, d) := None)"
  have "pres_rel now ?r ?m"
    using pres_relD(1-4) [OF rel] pres_relD(6) [OF rel] u unfolding pres_rel_def
    by (simp add: sets_ok_commands spec_at_upd sessionKey_eq_iff)
  note r2 = pres_rel_devices [OF this u]
  from r2 pres_rel_PublishUpdate [OF cd r2] pres_relD(1) [OF rel] show ?thesis
    by (auto simp: Unregister_def round_trip_calm split: prod.splits sum.splits)
qed

lemma pres_rel_Refresh:
  assumes rel: "pres_rel now r m" and u: "plain_id u"
  shows "pres_rel now (snd (Refresh now u d r)) (spec_exec (PRefresh u d, now) m)"
proof -
  let ?r1 = "redis_EXPIRE_str now (sessionKey u d) TTL r"
  let ?r = "redis_EXPIRE_set now (userSessionsSetKey u) (TTL + 60 * 60) ?r1"
  define m' where "m' = spec_exec (PRefresh u d, now) m"
  have key: "str_get now (sessionKey u d) r = spec_at now m u d" using pres_relD(3) [OF rel u] by simp
  have at: "spec_at t m' u' d' = (if (u', d') = (u, d) \<and> spec_at now m u d \<noteq> None
      then (if t < now + 60 then spec_at now m u d else None) else spec_at t m u' d')" for t u' d'
    by (auto simp: m'_def spec_at_upd split: option.splits)
  have "str_get t (sessionKey u' d') ?r = spec_at t m' u' d'" if "plain_id u'" "now \<le> t" for u' d' t
    using pres_relD(3) [OF rel that] that u key by (auto simp: at sessionKey_eq_iff TTL_def)
  moreover have none: "spec_at t m' u' d' = None" if "now + TTL \<le> t" for u' d' t
    using pres_relD(6) [OF rel that] that by (simp add: at TTL_def)
  moreover have "d' \<in> set (set_get t (userSessionsSetKey u') ?r)"
    if u': "plain_id u'" and t: "now \<le> t" and s: "spec_at t m' u' d' \<noteq> None" for u' d' t
  proof (cases "u' = u")
    case True
    have lt: "t < now + TTL" using s none [of t u' d'] by force
    have "spec_at now m u' d' \<noteq> None" using s spec_at_earlier [of t m u' d' now] t by (auto simp: at split: if_splits)
    with pres_relD(4) [OF rel u' order_refl] have "d' \<in> set (set_get now (userSessionsSetKey u') r)" by blast
    with True lt t show ?thesis by (auto simp: set_get_EXPIRE_set TTL_def)
  next
    case False
    with s have "spec_at t m u' d' \<noteq> None" by (simp add: at)
    with pres_relD(4) [OF rel u' t] False t show ?thesis by (simp add: set_get_EXPIRE_set)
  qed
  ultimately have "pres_rel now ?r m'"
    using pres_relD(1,2) [OF rel] unfolding pres_rel_def by (simp add: sets_ok_EXPIRE_set sets_ok_same redis_EXPIRE_str_def split: option.splits)
  with pres_relD(1) [OF rel] show ?thesis unfolding m'_def [symmetric] by (simp add: Refresh_def round_trip_calm)
qed

lemma pres_rel_exec:
  assumes "publishes cd" and "pres_rel now r m" and "plain_id (op_user op)"
  shows "pres_rel now (pres_exec cd (op, now) r) (spec_exec (op, now) m)"
  using pres_rel_Register [OF assms(1,2)] pres_rel_Unregister [OF assms(1,2)] pres_rel_Refresh [OF assms(2)]
    pres_rel_devices [OF assms(2)] assms(3)
  by (cases op) (simp_all del: spec_exec.simps(3))

lemma pres_rel_run:
  assumes "publishes cd" and "pres_rel now r m" and "sorted (now # map snd ops)" and "\<forall>(op, t) \<in> set ops. plain_id (op_user op)"
  shows "pres_rel (last (now # map snd ops)) (fold (pres_exec cd) ops r) (fold spec_exec ops m)"
  using assms(2-)
proof (induction ops arbitrary: now r m)
  case (Cons op ops)
  obtain o1 t where op: "op = (o1, t)" by fastforce
  from Cons.prems op have "pres_rel t r m" using pres_rel_later by auto
  from pres_rel_exec [OF assms(1) this] Cons.prems op
  have "pres_rel t (pres_exec cd op r) (spec_exec op m)" by auto
  from Cons.IH [OF this] Cons.prems op show ?case by simp
qed simp

end
