(* ===== verification/DelivProps.thy ===== *)
theory DelivProps
  imports DelivSync DelivPresence PresenceRun MsgProps
begin

text \<open>
  The properties of the delivery and presence services, each with a run of the model where it has
  hypotheses.
\<close>

section \<open>Sessions\<close>

text \<open>Payloads offered to the send queue one after the other.\<close>

definition sends :: "'b list \<Rightarrow> 'b Session \<Rightarrow> 'b Session" where
  "sends ps s = fold (\<lambda>p s. snd (TrySend p s)) ps s"

lemma sends_room:
  assumes "\<not> ss_closed s" and "length (ss_SendQueue s) + length ps \<le> SendQueueSize"
  shows "sends ps s = s\<lparr>ss_SendQueue := ss_SendQueue s @ ps\<rparr>"
  using assms
proof (induction ps arbitrary: s)
  case (Cons p ps)
  from Cons.prems have "snd (TrySend p s) = s\<lparr>ss_SendQueue := ss_SendQueue s @ [p]\<rparr>" by (simp add: TrySend_def)
  with Cons.IH [of "s\<lparr>ss_SendQueue := ss_SendQueue s @ [p]\<rparr>"] Cons.prems show ?case by (simp add: sends_def)
qed (simp add: sends_def)

definition event_payloads :: "'b codec \<Rightarrow> pb_message list \<Rightarrow> 'b list" where
  "event_payloads cd ms = List.map_filter (\<lambda>m. case msg_event cd m of Inl _ \<Rightarrow> None | Inr p \<Rightarrow> Some p) ms"

lemma event_payloads_Cons: "event_payloads cd (m # ms) = event_payloads cd [m] @ event_payloads cd ms"
  by (simp add: event_payloads_def map_filter_simps split: sum.splits)

lemma sends_append: "sends (ps @ qs) s = sends qs (sends ps s)"
  by (simp add: sends_def)

lemma sendMsgAsEvent_session:
  "map_of (dv_heap (sendMsgAsEvent wd sid m d)) k =
     (if k = sid then map_option (sends (event_payloads (wd_codec wd) [m])) (map_of (dv_heap d) k) else map_of (dv_heap d) k)"
  by (cases "map_of (dv_heap d) k")
    (auto simp: sendMsgAsEvent_def map_of_upd_session event_payloads_def map_filter_simps sends_def split: sum.splits)

lemma sendMsgs_session:
  "map_of (dv_heap (fold (sendMsgAsEvent wd sid) ms d)) k =
     (if k = sid then map_option (sends (event_payloads (wd_codec wd) ms)) (map_of (dv_heap d) k) else map_of (dv_heap d) k)"
proof (induction ms arbitrary: d)
  case Nil
  then show ?case by (cases "map_of (dv_heap d) k") (auto simp: event_payloads_def map_filter_simps sends_def)
next
  case (Cons m ms)
  have "map_of (dv_heap (fold (sendMsgAsEvent wd sid) (m # ms) d)) k
      = map_of (dv_heap (fold (sendMsgAsEvent wd sid) ms (sendMsgAsEvent wd sid m d))) k" by simp
  then show ?case
    unfolding Cons.IH sendMsgAsEvent_session event_payloads_Cons [of _ m ms]
    by (cases "map_of (dv_heap d) k") (auto simp: sends_append)
qed

lemma flush_queue_prefix: "prefix (ss_SendQueue s) (ss_SendQueue (FlushBufferSorted srt cd s))"
  by (auto simp: FlushBufferSorted_def Let_def flush_events_queue)

text \<open>C28: A session never holds more than its queue size, its \<open>done\<close> channel is closed exactly once, with the
  session, it never buffers after it became ready, and the frames written to the connection are a
  prefix of the payloads that were accepted, in the order they were accepted: whatever operations
  arrive in whatever order, a client sees no accepted payload twice, out of order, or with a gap
  before it.\<close>

theorem session_frames_in_order:
  assumes "ws_run srt cd ops (Session_Start (NewSession i u dev conn)) = (s, acc)"
  shows "length (ss_SendQueue s) \<le> 128 \<and> ss_done s = (if ss_closed s then 1 else 0)
    \<and> (ss_ready s \<longrightarrow> ss_resumeBuffer s = []) \<and> prefix (ss_frames s) acc"
proof -
  have "session_inv (Session_Start (NewSession i u dev conn))"
    by (simp add: session_inv_def Session_Start_def NewSession_def)
  with ws_run_inv [of "Session_Start (NewSession i u dev conn)" srt cd ops] assms have "session_inv s" by simp
  moreover have "ws_order (Session_Start (NewSession i u dev conn)) []"
    by (simp add: ws_order_def Session_Start_def NewSession_def)
  from ws_order_run [OF assms this] have "prefix (ss_frames s) acc" by simp
  ultimately show ?thesis by (simp add: session_inv_def SendQueueSize_def)
qed

definition demo_env :: "int \<Rightarrow> string envelope" where
  "demo_env t = EventEnvelope EVENT_TYPE_READ_RECEIPT_UPDATED 1 t ''p''"

definition plain_codec :: "string codec" where
  "plain_codec = \<lparr>enc_event = (\<lambda>e. Inr []), enc_env = (\<lambda>e. Inr []), dec_env = (\<lambda>b. Inl b), dec_sent = (\<lambda>b. Inl b),
     dec_deleted = (\<lambda>b. Inl b), dec_receipt = (\<lambda>b. Inl b), dec_membership = (\<lambda>b. Inl b), dec_created = (\<lambda>b. Inl b),
     dec_presence = (\<lambda>b. Inl b)\<rparr>"

definition insertion :: "('a \<Rightarrow> 'a \<Rightarrow> bool) \<Rightarrow> 'a list \<Rightarrow> 'a list" where
  "insertion lt xs = foldr (\<lambda>x ys. takeWhile (\<lambda>y. lt y x) ys @ x # dropWhile (\<lambda>y. lt y x) ys) xs []"

lemma insertion_Cons:
  "insertion lt (x # xs) = takeWhile (\<lambda>y. lt y x) (insertion lt xs) @ x # dropWhile (\<lambda>y. lt y x) (insertion lt xs)"
  by (simp add: insertion_def)

lemma mset_insertion: "mset (insertion lt xs) = mset xs"
proof (induction xs)
  case (Cons x xs)
  have "mset (takeWhile (\<lambda>y. lt y x) (insertion lt xs)) + mset (dropWhile (\<lambda>y. lt y x) (insertion lt xs)) = mset xs"
    by (metis Cons.IH mset_append takeWhile_dropWhile_id)
  then show ?case by (simp add: insertion_Cons)
qed (simp add: insertion_def)

lemma insertion_sorted:
  assumes "strict_weak lt (set xs)"
  shows "sorted_wrt (\<lambda>x y. \<not> lt y x) (insertion lt xs)"
  using assms
proof (induction xs)
  case (Cons x xs)
  let ?ys = "insertion lt xs" and ?A = "set (x # xs)"
  have set: "set ?ys = set xs" by (metis mset_insertion set_mset_mset)
  have irrefl: "\<not> lt a a" if "a \<in> ?A" for a using Cons.prems that unfolding strict_weak_def by blast
  have trans: "lt a b \<Longrightarrow> lt b c \<Longrightarrow> lt a c" if "a \<in> ?A" "b \<in> ?A" "c \<in> ?A" for a b c
    using Cons.prems that unfolding strict_weak_def by blast
  have neg: "\<not> lt a b \<Longrightarrow> \<not> lt b c \<Longrightarrow> \<not> lt a c" if "a \<in> ?A" "b \<in> ?A" "c \<in> ?A" for a b c
    using Cons.prems that unfolding strict_weak_def by blast
  have "strict_weak lt (set xs)" using Cons.prems unfolding strict_weak_def by (meson set_subset_Cons subsetD)
  then have s: "sorted_wrt (\<lambda>x y. \<not> lt y x) ?ys" by (rule Cons.IH)
  then have tw: "sorted_wrt (\<lambda>x y. \<not> lt y x) (takeWhile (\<lambda>y. lt y x) ?ys)" "sorted_wrt (\<lambda>x y. \<not> lt y x) (dropWhile (\<lambda>y. lt y x) ?ys)"
    "\<forall>a \<in> set (takeWhile (\<lambda>y. lt y x) ?ys). \<forall>b \<in> set (dropWhile (\<lambda>y. lt y x) ?ys). \<not> lt b a"
    by (metis sorted_wrt_append takeWhile_dropWhile_id)+
  have before: "\<not> lt x y" if "y \<in> set (takeWhile (\<lambda>y. lt y x) ?ys)" for y
    using that trans [of x y x] irrefl [of x] set by (auto dest: set_takeWhileD)
  have after: "\<not> lt z x" if z: "z \<in> set (dropWhile (\<lambda>y. lt y x) ?ys)" for z
  proof -
    obtain h t where ht: "dropWhile (\<lambda>y. lt y x) ?ys = h # t" using z by (cases "dropWhile (\<lambda>y. lt y x) ?ys") auto
    then have "\<not> lt h x" by (metis hd_dropWhile list.distinct(1) list.sel(1))
    moreover have "z = h \<or> \<not> lt z h" using tw(2) z unfolding ht by auto
    moreover have "h \<in> set xs" "z \<in> set xs" using z ht set set_dropWhileD by (metis list.set_intros(1))+
    ultimately show ?thesis using neg [of z h x] by auto
  qed
  show ?case unfolding insertion_Cons sorted_wrt_append sorted_wrt.simps list.set
    using tw before after by blast
qed (simp add: insertion_def)

lemma insertion_ok: "sort_slice_ok insertion"
  by (simp add: sort_slice_ok_def mset_insertion insertion_sorted)

definition demo_ops :: "string ws_op list" where
  "demo_ops = [OpBuffer (demo_env 5) ''late'', OpSend ''h1'', OpBuffer (demo_env 3) ''early'', OpLoop (TakeMsg True),
     OpFlush, OpSend ''h2'', OpLoop (TakeMsg True), OpLoop (TakeMsg True), OpClose 1000 ''bye'', OpSend ''h3'']"

lemma demo_ops_run:
  "map (\<lambda>(s, acc). (ss_frames s, ss_SendQueue s, ss_closed s, acc))
     [ws_run insertion plain_codec demo_ops (Session_Start (NewSession ''s'' ''ann'' ''phone'' True))]
   = [([''h1'', ''early'', ''late''], [''h2''], True, [''h1'', ''early'', ''late'', ''h2''])]"
  by code_simp

theorem session_frames_in_order_witness:
  "prefix (ss_frames (fst (ws_run insertion plain_codec demo_ops (Session_Start (NewSession ''s'' ''ann'' ''phone'' True)))))
     [''h1'', ''early'', ''late'', ''h2'']"
proof -
  let ?r = "ws_run insertion plain_codec demo_ops (Session_Start (NewSession ''s'' ''ann'' ''phone'' True))"
  have acc: "snd ?r = [''h1'', ''early'', ''late'', ''h2'']" using demo_ops_run by (auto split: prod.splits)
  have "?r = (fst ?r, snd ?r)" by simp
  from session_frames_in_order [OF this] show ?thesis unfolding acc by blast
qed

text \<open>When a client has caught up, the events buffered meanwhile are sent in order: into an open session with
  room for them, all of them go out, sorted by the sequence of their messages when all of them are
  new messages with different sequences, and by their time when none is. A mix of both kinds gives
  no such order, because the comparison is not transitive then.\<close>

theorem flush_sends_buffer_in_order:
  assumes srt: "sort_slice_ok srt" and s: "\<not> ss_ready s" "\<not> ss_closed s"
    and room: "length (ss_SendQueue s) + length (ss_resumeBuffer s) \<le> SendQueueSize"
    and kind: "(\<forall>b \<in> set (ss_resumeBuffer s). getSequence cd (be_env b) \<noteq> 0)
        \<and> inj_on (\<lambda>b. getSequence cd (be_env b)) (set (ss_resumeBuffer s))
      \<or> (\<forall>b \<in> set (ss_resumeBuffer s). getSequence cd (be_env b) = 0)"
  shows "\<exists>buf. mset buf = mset (ss_resumeBuffer s)
    \<and> FlushBufferSorted srt cd s = s\<lparr>ss_SendQueue := ss_SendQueue s @ map be_payload buf, ss_resumeBuffer := [], ss_ready := True\<rparr>
    \<and> (if \<forall>b \<in> set (ss_resumeBuffer s). getSequence cd (be_env b) = 0
       then sorted (map (\<lambda>b. OccurredAt (be_env b)) buf)
       else sorted (map (\<lambda>b. getSequence cd (be_env b)) buf))"
proof -
  let ?buf = "srt (event_less cd) (ss_resumeBuffer s)"
  have m: "mset ?buf = mset (ss_resumeBuffer s)" using srt by (simp add: sort_slice_ok_def)
  then have set: "set ?buf = set (ss_resumeBuffer s)" and len: "length ?buf = length (ss_resumeBuffer s)"
    by (metis set_mset_mset, metis size_mset)
  from event_less_strict_weak [OF kind] srt
  have sorted: "sorted_wrt (\<lambda>x y. \<not> event_less cd y x) ?buf" by (simp add: sort_slice_ok_def)
  have fl: "flush_events bs t = sends (map be_payload bs) t" for bs and t :: "'a Session"
    by (induction bs arbitrary: t) (simp_all add: sends_def)
  from sends_room [of "s\<lparr>ss_resumeBuffer := ?buf, ss_ready := True\<rparr>" "map be_payload ?buf"] s room len
  have "FlushBufferSorted srt cd s = s\<lparr>ss_SendQueue := ss_SendQueue s @ map be_payload ?buf, ss_resumeBuffer := [], ss_ready := True\<rparr>"
    by (simp add: FlushBufferSorted_def Let_def fl)
  moreover have "if \<forall>b \<in> set (ss_resumeBuffer s). getSequence cd (be_env b) = 0
       then sorted (map (\<lambda>b. OccurredAt (be_env b)) ?buf) else sorted (map (\<lambda>b. getSequence cd (be_env b)) ?buf)"
  proof (cases "\<forall>b \<in> set (ss_resumeBuffer s). getSequence cd (be_env b) = 0")
    case True
    then have "sorted_wrt (\<lambda>x y. OccurredAt (be_env x) \<le> OccurredAt (be_env y)) ?buf"
      using set by (intro sorted_wrt_mono_rel [OF _ sorted]) (auto simp: event_less_def Let_def)
    with True show ?thesis by (simp add: sorted_wrt_map)
  next
    case False
    with kind have k: "\<forall>b \<in> set ?buf. getSequence cd (be_env b) \<noteq> 0" "inj_on (\<lambda>b. getSequence cd (be_env b)) (set ?buf)"
      unfolding set by blast+
    then have "sorted_wrt (\<lambda>x y. getSequence cd (be_env x) \<le> getSequence cd (be_env y)) ?buf"
      by (intro sorted_wrt_mono_rel [OF _ sorted]) (auto simp: event_less_def Let_def split: if_splits)
    then have "sorted (map (\<lambda>b. getSequence cd (be_env b)) ?buf)" by (simp add: sorted_wrt_map)
    with False show ?thesis by presburger
  qed
  ultimately show ?thesis using m by blast
qed

definition demo_catching_up :: "string Session" where
  "demo_catching_up = (NewSession ''s'' ''ann'' ''phone'' True)\<lparr>ss_resumeBuffer :=
     [\<lparr>be_env = demo_env 5, be_payload = ''late''\<rparr>, \<lparr>be_env = demo_env 3, be_payload = ''early''\<rparr>]\<rparr>"

theorem flush_sends_buffer_in_order_witness:
  "ss_ready (FlushBufferSorted insertion plain_codec demo_catching_up)
    \<and> ss_SendQueue (FlushBufferSorted insertion plain_codec demo_catching_up) = [''early'', ''late'']"
proof -
  have "\<not> ss_ready demo_catching_up" "\<not> ss_closed demo_catching_up"
    "length (ss_SendQueue demo_catching_up) + length (ss_resumeBuffer demo_catching_up) \<le> SendQueueSize"
    "\<forall>b \<in> set (ss_resumeBuffer demo_catching_up). getSequence plain_codec (be_env b) = 0"
    by (simp_all add: demo_catching_up_def NewSession_def SendQueueSize_def getSequence_def demo_env_def)
  from flush_sends_buffer_in_order [OF insertion_ok this(1-3) disjI2 [OF this(4)]]
  have "ss_ready (FlushBufferSorted insertion plain_codec demo_catching_up)" by auto
  moreover have "ss_SendQueue (FlushBufferSorted insertion plain_codec demo_catching_up) = [''early'', ''late'']" by code_simp
  ultimately show ?thesis ..
qed

text \<open>The comparison that orders the buffered events is not an order once messages and other events are mixed:
  two messages are compared by sequence, although sequences of different conversations are unrelated,
  and an event without a sequence by time. A message, a later event without sequence and an even later
  message with a smaller sequence come before each other in a cycle, and no arrangement of the three
  agrees with the comparison.\<close>

theorem mixed_events_have_no_order:
  assumes seq: "0 < getSequence cd (be_env y)" "getSequence cd (be_env y) < getSequence cd (be_env x)"
      "getSequence cd (be_env b) = 0"
    and time: "OccurredAt (be_env x) < OccurredAt (be_env b)" "OccurredAt (be_env b) < OccurredAt (be_env y)"
    and perm: "mset bs = {#x, b, y#}"
  shows "\<not> sorted_wrt (\<lambda>p q. \<not> event_less cd q p) bs"
proof
  assume sorted: "sorted_wrt (\<lambda>p q. \<not> event_less cd q p) bs"
  have cycle: "event_less cd x b" "event_less cd b y" "event_less cd y x" and irrefl: "\<not> event_less cd z z" for z
    using seq time by (auto simp: event_less_def Let_def)
  have set: "set bs = {x, b, y}" using perm by (metis set_mset_add_mset_insert set_mset_empty set_mset_mset)
  then obtain ys r where bs: "bs = ys @ [r]" by (cases bs rule: rev_cases) auto
  with set have "r \<in> {x, b, y}" by auto
  with cycle obtain z where "z \<in> {x, b, y}" and z: "event_less cd r z" by blast
  with set have "z \<in> set bs" by simp
  with irrefl [of r] z bs have "z \<in> set ys" by auto
  with sorted bs z show False by (auto simp: sorted_wrt_append)
qed

definition demo_buffered :: "event_type \<Rightarrow> int \<Rightarrow> int \<Rightarrow> wire bufferedEvent" where
  "demo_buffered t n at = \<lparr>be_env = EventEnvelope t 1 at (WEvent (MessageSentEvent (Some
     \<lparr>pm_MessageId = ''m'', pm_ConversationId = ''g'', pm_SenderUserId = ''bob'', pm_Sequence = n, pm_MessageType = ''text'',
      pm_Content = ''hi'', pm_MetadataJson = [], pm_SentAt = at, pm_DeletedAt = None\<rparr>))), be_payload = WEvent (MessageSentEvent None)\<rparr>"

theorem mixed_events_have_no_order_witness:
  "\<not> sorted_wrt (\<lambda>p q. \<not> event_less wire_codec q p)
      [demo_buffered EVENT_TYPE_MESSAGE_SENT 5 1, demo_buffered EVENT_TYPE_MEMBERSHIP_CHANGED 0 2,
       demo_buffered EVENT_TYPE_MESSAGE_SENT 3 3]"
  by (rule mixed_events_have_no_order [where x = "demo_buffered EVENT_TYPE_MESSAGE_SENT 5 1"
        and b = "demo_buffered EVENT_TYPE_MEMBERSHIP_CHANGED 0 2" and y = "demo_buffered EVENT_TYPE_MESSAGE_SENT 3 3"])
    (simp_all add: getSequence_def demo_buffered_def wire_codec_def wire_case_def)

section \<open>Registry and membership\<close>

text \<open>C33: The membership cache implements a relation between conversations and users: after any sequence of
  additions, removals and replacements, starting from the empty cache, its two indexes agree with
  each other, list no one twice, and hold exactly the pairs that the sequence leaves in the relation.\<close>

theorem membership_cache_refines_relation:
  "let c = fold cache_exec ops Cache_New; R = fold rel_exec ops {} in
     (\<forall>conv. distinct (Cache_Members conv c) \<and> set (Cache_Members conv c) = {u. (conv, u) \<in> R})
     \<and> (\<forall>u. distinct (Cache_UserConvs u c) \<and> set (Cache_UserConvs u c) = {conv. (conv, u) \<in> R})"
proof -
  let ?c = "fold cache_exec ops Cache_New" and ?R = "fold rel_exec ops {}"
  have wf: "cache_wf ?c" and abs: "abs_cache ?c = ?R" using cache_run by blast+
  have "set (Cache_Members conv ?c) = {u. (conv, u) \<in> ?R}" for conv using abs by (auto simp: abs_cache_def)
  moreover have "set (Cache_UserConvs u ?c) = {conv. (conv, u) \<in> ?R}" for u using UserConvs_iff [OF wf] abs by auto
  ultimately show ?thesis
    using wf by (auto simp: Let_def cache_wf_def Cache_Members_def Cache_UserConvs_def)
qed


definition idle_deps :: "(unit, 'b) ws_deps" where
  "idle_deps = \<lparr>wd_instanceID = ''i1'', wd_codec = undefined, wd_sort = (\<lambda>_ xs. xs), wd_RegisterSession = (\<lambda>_ _ _ w. (Inr (), w)),
     wd_UnregisterSession = (\<lambda>_ _ w. (Inr (), w)), wd_RefreshSession = (\<lambda>_ _ w. (Inr (), w)),
     wd_ListConversations = (\<lambda>_ w. (Inr [], w)), wd_SyncMessages = (\<lambda>_ _ _ _ w. (Inr [], w)), wd_resume = (\<lambda>_. Inr [])\<rparr>"




section \<open>Dispatching\<close>


definition empty_redis :: "'b redis" where
  "empty_redis = \<lparr>rd_strings = [], rd_sets = [], rd_published = [], rd_script = []\<rparr>"

definition demo_redis :: "wire redis" where
  "demo_redis = snd (Register wire_codec 0 ''bob'' ''web'' ''i2'' (snd (Register wire_codec 0 ''ann'' ''phone'' ''i1'' empty_redis)))"

definition demo_hub :: "wire delivery" where
  "demo_hub = fst (conn_exec idle_deps (Connect ''s1'' ''ann'' ''phone'') (\<lparr>dv_heap = [], dv_reg = [], dv_members = Cache_New\<rparr>, ()))"


lemma demo_hub_ok: "reg_ok demo_hub"
proof -
  have "conn_inv (\<lparr>dv_heap = [], dv_reg = [], dv_members = Cache_New\<rparr> :: wire delivery) Map.empty"
    by (simp add: conn_inv_def reg_ok_def open_registered_def lookup_session_def reg_devices_def)
  from conn_run [OF this, of "[Connect ''s1'' ''ann'' ''phone'']" idle_deps "()"] show ?thesis
    by (simp add: demo_hub_def conn_inv_def)
qed




section \<open>What goes wrong with the cached members\<close>

lemma fold_upd_members: "dv_members (fold (\<lambda>sid. upd_session sid f) sids d) = dv_members d"
  by (induction sids arbitrary: d) simp_all

lemma deliverDevice_members: "dv_members (fst (deliverDevice u env p device (d, remote))) = dv_members d"
proof -
  have "dv_members (fold (\<lambda>sid d. case map_of (dv_heap d) sid of
      None \<Rightarrow> d | Some s \<Rightarrow> if ss_DeviceID s = dev then upd_session sid (offer env p) d else d) sids d) = dv_members d"
    for sids dev and d :: "'a delivery"
    by (induction sids arbitrary: d) (auto split: option.splits)
  then show ?thesis by (cases device) (simp add: deliverDevice_def)
qed

lemma deliverToUser_members: "dv_members (fst (fst (deliverToUser dd env p u ((d, w), remote)))) = dv_members d"
proof -
  have loop: "dv_members (fst (fold (\<lambda>device (d, remote).
        if snd device = i then deliverDevice u env p device (d, remote)
        else (d, List.insert (snd device) remote)) devices (d, remote))) = dv_members d" for devices i remote and d :: "'a delivery"
  proof (induction devices arbitrary: d remote)
    case (Cons device devices)
    obtain d1 r1 where "deliverDevice u env p device (d, remote) = (d1, r1)" by fastforce
    with deliverDevice_members [of u env p device d remote] Cons.IH show ?case by simp
  qed simp
  obtain q w' where q: "dd_GetUserDevices dd u w = (q, w')" by fastforce
  show ?thesis
  proof (cases q)
    case (Inr devices)
    obtain d' remote' where f: "fold (\<lambda>device (d, remote).
        if snd device = dd_instanceID dd then deliverDevice u env p device (d, remote)
        else (d, List.insert (snd device) remote)) devices (d, remote) = (d', remote')" by fastforce
    have "dv_members d' = dv_members d" using loop [of "dd_instanceID dd" devices d remote] unfolding f by simp
    then show ?thesis unfolding deliverToUser_def by (simp add: q Inr f)
  qed (simp add: deliverToUser_def q)
qed

lemma deliver_all_members: "dv_members (fst (fst (fold (deliverToUser dd env p) us ((d, w), remote)))) = dv_members d"
proof (induction us arbitrary: d w remote)
  case (Cons u us)
  obtain d1 w1 r1 where "deliverToUser dd env p u ((d, w), remote) = ((d1, w1), r1)" by (metis prod.exhaust)
  with deliverToUser_members [of dd env p u d w remote] Cons.IH show ?case by simp
qed simp

text \<open>C34: A member that is added to a conversation the cache does not hold yet hides all the others. The
  dispatcher adds the new member to the empty entry before it looks the members up, takes the
  one-element entry for the members, and so delivers the event, and every later event of the
  conversation until the cache is replaced, to the new member alone, without asking the conversation
  service.\<close>

theorem new_member_hides_the_others:
  assumes "dec_env (dd_codec dd) rec = Inr env" and "EventType env = EVENT_TYPE_MEMBERSHIP_CHANGED"
    and "dec_membership (dd_codec dd) (Payload env) = Inr (c, u, True)" and "Cache_Members c (dv_members d) = []"
    and "Handle dd rec (d, w) = (d', w')"
  shows "resolveMembers dd c (d', w'') = (Inr [u], (d', w''))"
proof -
  let ?d = "d\<lparr>dv_members := Cache_Add c u (dv_members d)\<rparr>"
  have add: "Cache_Members c (Cache_Add c u (dv_members d)) = [u]"
    using assms(4) by (simp add: Cache_Members_def Cache_Add_def inner_put_inner)
  obtain d4 w4 remote where f: "fold (deliverToUser dd env rec) [u] ((?d, w), []) = ((d4, w4), remote)" by (metis prod.exhaust)
  have "dv_members d4 = Cache_Add c u (dv_members d)" using deliver_all_members [of dd env rec "[u]" ?d w "[]"] unfolding f by simp
  moreover have "d' = d4\<lparr>dv_members := dv_members d4\<rparr>"
    using assms f add by (simp add: Handle_def handleEvent_def getConversationID_def handleMembershipPreRoute_def
        handleMembershipPostRoute_def resolveMembers_def)
  ultimately show ?thesis using add by (simp add: resolveMembers_def)
qed

definition demo_joined :: "wire" where
  "demo_joined = WEnv (EventEnvelope EVENT_TYPE_MEMBERSHIP_CHANGED 1 0 (WEvent (MembershipChangedEvent ''g'' ''cat'' True)))"

definition demo_directory :: "(wire redis, wire) disp_deps" where
  "demo_directory = redis_deps wire_codec 1 ''i1'' (\<lambda>_. Inr [''ann'', ''bob'', ''cat''])"

theorem new_member_hides_the_others_witness:
  "fst (resolveMembers demo_directory ''g'' (fst (Handle demo_directory demo_joined (demo_hub, demo_redis)), demo_redis)) = Inr [''cat'']"
proof -
  have "Handle demo_directory demo_joined (demo_hub, demo_redis) = (fst (Handle demo_directory demo_joined (demo_hub, demo_redis)),
      snd (Handle demo_directory demo_joined (demo_hub, demo_redis)))" by (rule prod.collapse [symmetric])
  from new_member_hides_the_others [OF _ _ _ _ this, of "EventEnvelope EVENT_TYPE_MEMBERSHIP_CHANGED 1 0 (WEvent (MembershipChangedEvent ''g'' ''cat'' True))"
      "''g''" "''cat''" demo_redis]
  show ?thesis
    by (simp add: demo_directory_def redis_deps_def demo_joined_def wire_codec_def wire_case_def demo_hub_def ServeHTTP_def
        Registry_Add_def Let_def Cache_Members_def Cache_New_def inner_def reg_devices_def)
qed

text \<open>A member who leaves is forgotten only by the instance that reads the event from the log. There the
  dispatcher removes the member after it has delivered the event; an instance that gets the same event
  relayed keeps the member in its cache, and goes on delivering the conversation to it.\<close>

theorem relayed_removal_is_not_applied:
  assumes "dec_env (dd_codec dd) rec = Inr env" and "EventType env = EVENT_TYPE_MEMBERSHIP_CHANGED"
    and "dec_membership (dd_codec dd) (Payload env) = Inr (c, u, False)" and u: "u \<in> set (Cache_Members c (dv_members d))"
  shows "u \<notin> set (Cache_Members c (dv_members (fst (Handle dd rec (d, w)))))
    \<and> u \<in> set (Cache_Members c (dv_members (fst (DeliverRemote dd rec (d, w)))))"
proof
  let ?ms = "Cache_Members c (dv_members d)"
  have "?ms \<noteq> []" using u by auto
  then have ms: "resolveMembers dd c (d, w) = (Inr ?ms, (d, w))" by (simp add: resolveMembers_def Let_def)
  obtain d4 w4 remote where f: "fold (deliverToUser dd env rec) ?ms ((d, w), []) = ((d4, w4), remote)" by (metis prod.exhaust)
  have "dv_members d4 = dv_members d" using deliver_all_members [of dd env rec ?ms d w "[]"] unfolding f by simp
  then show "u \<notin> set (Cache_Members c (dv_members (fst (Handle dd rec (d, w)))))"
    using assms f ms by (simp add: Handle_def handleEvent_def getConversationID_def handleMembershipPreRoute_def handleMembershipPostRoute_def)
  have "dv_members (fold (\<lambda>u d. fold (\<lambda>sid. upd_session sid g) (GetUserSessions u d) d) us d) = dv_members d"
    for us g and d :: "'a delivery"
    by (induction us arbitrary: d) (simp_all add: fold_upd_members)
  then show "u \<in> set (Cache_Members c (dv_members (fst (DeliverRemote dd rec (d, w)))))"
    using assms ms by (simp add: DeliverRemote_def getConversationID_def)
qed

definition demo_left :: "wire" where
  "demo_left = WEnv (EventEnvelope EVENT_TYPE_MEMBERSHIP_CHANGED 1 0 (WEvent (MembershipChangedEvent ''g'' ''bob'' False)))"

theorem relayed_removal_is_not_applied_witness:
  "''bob'' \<in> set (Cache_Members ''g'' (dv_members (fst (DeliverRemote demo_directory demo_left
      (demo_hub\<lparr>dv_members := Cache_SetMembers ''g'' [''ann'', ''bob''] Cache_New\<rparr>, demo_redis)))))"
proof -
  let ?env = "EventEnvelope EVENT_TYPE_MEMBERSHIP_CHANGED 1 0 (WEvent (MembershipChangedEvent ''g'' ''bob'' False))"
  have "dec_env (dd_codec demo_directory) demo_left = Inr ?env" "EventType ?env = EVENT_TYPE_MEMBERSHIP_CHANGED"
    "dec_membership (dd_codec demo_directory) (Payload ?env) = Inr (''g'', ''bob'', False)"
    "''bob'' \<in> set (Cache_Members ''g'' (dv_members (demo_hub\<lparr>dv_members := Cache_SetMembers ''g'' [''ann'', ''bob''] Cache_New\<rparr>)))"
    by (simp_all add: demo_directory_def redis_deps_def demo_left_def wire_codec_def wire_case_def)
  from relayed_removal_is_not_applied [OF this] show ?thesis by blast
qed

section \<open>Presence\<close>

text \<open>C39: A presence update reaches everyone who shares a conversation with the user. On an instance whose cache is
  consistent, the sessions that are sent the update are exactly the registered sessions of the other
  users that the cache lists in a conversation of the user, each of them once however many
  conversations they share; the user's own sessions and the rest are left alone.\<close>

theorem presence_update_reaches_contacts:
  assumes ok: "reg_ok d" and wf: "cache_wf (dv_members d)"
    and enc: "enc_event cd (PresenceUpdateEvent u status at) = Inr ev"
      "enc_env cd (EventEnvelope EVENT_TYPE_PRESENCE_UPDATED 1 at ev) = Inr payload"
  shows "map_of (dv_heap (handlePresenceUpdate cd u status at d)) sid =
    (if \<exists>c v dev. v \<noteq> u \<and> {(c, u), (c, v)} \<subseteq> abs_cache (dv_members d) \<and> lookup_session v dev d = Some sid
     then map_option (\<lambda>s. snd (TrySend payload s)) (map_of (dv_heap d) sid) else map_of (dv_heap d) sid)"
proof -
  let ?cs = "Cache_UserConvs u (dv_members d)"
  have cs: "set ?cs = {c. (c, u) \<in> abs_cache (dv_members d)}" using UserConvs_iff [OF wf] by blast
  from notifySubscribers_sessions [OF ok, of ?cs u payload] obtain ns where
      ns: "set ns = (\<Union>c \<in> set ?cs. set (Cache_Members c (dv_members d))) - {u}"
    and upd: "sessions_upd (user_sessions ns d) (\<lambda>s. snd (TrySend payload s)) d (notifySubscribers u ?cs payload d)" by blast
  have who: "sid \<in> user_sessions ns d \<longleftrightarrow>
      (\<exists>c v dev. v \<noteq> u \<and> {(c, u), (c, v)} \<subseteq> abs_cache (dv_members d) \<and> lookup_session v dev d = Some sid)"
    unfolding user_sessions_def ns cs by (auto simp: abs_cache_def)
  have "map_of (dv_heap (handlePresenceUpdate cd u status at d)) sid = (if sid \<in> user_sessions ns d
     then map_option (\<lambda>s. snd (TrySend payload s)) (map_of (dv_heap d) sid) else map_of (dv_heap d) sid)"
  proof (cases "?cs = []")
    case True
    then have "ns = []" using ns by simp
    then have "sid \<notin> user_sessions ns d" by (simp add: user_sessions_def)
    with True show ?thesis by (simp add: handlePresenceUpdate_def)
  next
    case False
    then have "handlePresenceUpdate cd u status at d = notifySubscribers u ?cs payload d"
      using enc by (simp add: handlePresenceUpdate_def Let_def)
    with upd show ?thesis by (simp add: sessions_upd_def)
  qed
  then show ?thesis by (simp only: who)
qed

theorem presence_update_reaches_contacts_witness:
  "map_of (dv_heap (handlePresenceUpdate wire_codec ''bob'' PRESENCE_STATUS_ONLINE 7
      (demo_hub\<lparr>dv_members := Cache_SetMembers ''g'' [''ann'', ''bob''] Cache_New\<rparr>))) ''s1''
   = map_option (\<lambda>s. snd (TrySend (WEnv (EventEnvelope EVENT_TYPE_PRESENCE_UPDATED 1 7
        (WEvent (PresenceUpdateEvent ''bob'' PRESENCE_STATUS_ONLINE 7)))) s)) (map_of (dv_heap demo_hub) ''s1'')"
proof -
  let ?d = "demo_hub\<lparr>dv_members := Cache_SetMembers ''g'' [''ann'', ''bob''] Cache_New\<rparr>"
  have "reg_ok ?d" using demo_hub_ok by (simp add: reg_ok_def lookup_session_def reg_devices_def)
  moreover have "cache_wf (dv_members ?d)" by (simp add: cache_wf_SetMembers cache_wf_New)
  moreover have "enc_event wire_codec (PresenceUpdateEvent ''bob'' PRESENCE_STATUS_ONLINE 7)
      = Inr (WEvent (PresenceUpdateEvent ''bob'' PRESENCE_STATUS_ONLINE 7))" by (simp add: wire_codec_def)
  moreover have "enc_env wire_codec (EventEnvelope EVENT_TYPE_PRESENCE_UPDATED 1 7 (WEvent (PresenceUpdateEvent ''bob'' PRESENCE_STATUS_ONLINE 7)))
      = Inr (WEnv (EventEnvelope EVENT_TYPE_PRESENCE_UPDATED 1 7 (WEvent (PresenceUpdateEvent ''bob'' PRESENCE_STATUS_ONLINE 7))))"
    by (simp add: wire_codec_def)
  moreover have "{(''g'', ''bob''), (''g'', ''ann'')} \<subseteq> abs_cache (dv_members ?d)" by (simp add: abs_cache_def)
  moreover have "lookup_session ''ann'' ''phone'' ?d = Some ''s1''"
    by (simp add: demo_hub_def ServeHTTP_def Let_def lookup_session_def Registry_Add_def reg_devices_def)
  ultimately show ?thesis
    using presence_update_reaches_contacts [of ?d wire_codec "''bob''" PRESENCE_STATUS_ONLINE 7 _ _ "''s1''"] by fastforce
qed



text \<open>The handler of the delivery service with the presence service behind it, at a time.\<close>

definition presence_ws :: "'b codec \<Rightarrow> int \<Rightarrow> ('b redis, 'b) ws_deps \<Rightarrow> ('b redis, 'b) ws_deps" where
  "presence_ws cd now wd = wd\<lparr>wd_RegisterSession := Register cd now, wd_UnregisterSession := Unregister cd now,
     wd_RefreshSession := Refresh now\<rparr>"

text \<open>C32: A device that reconnects goes dark. When a second connection of a device replaces the first, the registry
  keeps the second, open, session; but the read loop of the first one then ends and unregisters the
  device from presence. From then on presence does not know the device, the heartbeat of the live
  session does not bring it back, and since the dispatcher asks presence for the devices of a member,
  no event is delivered to it until the client connects again.\<close>

theorem replaced_session_loses_presence:
  assumes cd: "publishes cd" and r: "rd_script r = []" "pres_rel t1 r m" and times: "t1 \<le> t2" "t2 \<le> t3" "t3 \<le> t4" "t4 \<le> t"
    and u: "u \<noteq> []" "dev \<noteq> []" "plain_id u" and ids: "sid1 \<noteq> sid2"
    and run: "ServeHTTP (presence_ws cd t1 wd) u dev True sid1 (d, r) = (o1, st1)"
      "ServeHTTP (presence_ws cd t2 wd) u dev True sid2 st1 = (o2, st2)"
      "readLoop_exit (presence_ws cd t3 wd) sid1 st2 = (d', r')"
  shows "lookup_session u dev d' = Some sid2 \<and> (\<exists>s. map_of (dv_heap d') sid2 = Some s \<and> \<not> ss_closed s)
    \<and> connected t (StartHeartbeat (presence_ws cd t4 wd) u dev r') u dev = None"
proof -
  let ?s1 = "NewSession sid1 u dev True :: 'a Session" and ?s2 = "NewSession sid2 u dev True :: 'a Session"
  let ?d1 = "upd_session sid1 Session_Start (Registry_Add ?s1 d)" and ?r1 = "snd (Register cd t1 u dev (wd_instanceID wd) r)"
  let ?d2 = "upd_session sid2 Session_Start (Registry_Add ?s2 ?d1)" and ?r2 = "snd (Register cd t2 u dev (wd_instanceID wd) ?r1)"
  have "st1 = (?d1, ?r1)" using run(1) u by (simp add: ServeHTTP_def presence_ws_def Let_def)
  with run(2) u have st2: "st2 = (?d2, ?r2)" by (simp add: ServeHTTP_def presence_ws_def Let_def)
  have look: "lookup_session u dev ?d2 = Some sid2" by (simp add: lookup_Add)
  have "map_of (dv_heap ?d1) sid1 = Some (Session_Start ?s1)" by (simp add: map_of_upd_session heap_Add)
  with look ids obtain s where s: "map_of (dv_heap ?d2) sid1 = Some s" "ss_ID s = sid1" "ss_UserID s = u" "ss_DeviceID s = dev"
    by (auto simp: map_of_upd_session heap_Add lookup_Add)
  have "map_of (dv_heap ?d2) sid2 = Some (Session_Start ?s2)" by (simp add: map_of_upd_session heap_Add)
  moreover from run(3) st2 s have d': "d' = upd_session sid1 Session_Close (Registry_Remove s ?d2)"
    and r': "r' = snd (Unregister cd t3 u dev ?r2)" by (simp_all add: readLoop_exit_def presence_ws_def)
  ultimately have "lookup_session u dev d' = Some sid2" "map_of (dv_heap d') sid2 = Some (Session_Start ?s2)"
    using s look ids by (simp_all add: lookup_Remove map_of_upd_session)
  moreover have "connected t (StartHeartbeat (presence_ws cd t4 wd) u dev r') u dev = None"
  proof -
    let ?i = "wd_instanceID wd"
    have "pres_rel t1 ?r1 (m((u, dev) \<mapsto> (?i, t1 + 60)))" using pres_rel_Register [OF cd r(2) u(3)] .
    from pres_rel_Register [OF cd pres_rel_later [OF this times(1)] u(3)]
    have "pres_rel t2 ?r2 (m((u, dev) \<mapsto> (?i, t1 + 60), (u, dev) \<mapsto> (?i, t2 + 60)))" .
    from pres_rel_Unregister [OF cd pres_rel_later [OF this times(2)] u(3), of dev]
    have gone: "pres_rel t3 r' (m((u, dev) := None))" unfolding r' by simp
    have none: "spec_exec (PRefresh u dev, t4) (m((u, dev) := None)) = m((u, dev) := None)" by (simp add: spec_at_def)
    from pres_rel_Refresh [OF pres_rel_later [OF gone times(3)] u(3), of dev]
    have "pres_rel t4 (StartHeartbeat (presence_ws cd t4 wd) u dev r') (m((u, dev) := None))"
      unfolding none by (simp add: StartHeartbeat_def presence_ws_def)
    from pres_rel_connected [OF this u(3) times(4), of dev] show ?thesis by (simp add: spec_at_def)
  qed
  ultimately show ?thesis by simp
qed

definition demo_ws :: "(wire redis, wire) ws_deps" where
  "demo_ws = \<lparr>wd_instanceID = ''i1'', wd_codec = wire_codec, wd_sort = insertion, wd_RegisterSession = (\<lambda>_ _ _ w. (Inr (), w)),
     wd_UnregisterSession = (\<lambda>_ _ w. (Inr (), w)), wd_RefreshSession = (\<lambda>_ _ w. (Inr (), w)),
     wd_ListConversations = (\<lambda>_ w. (Inr [], w)), wd_SyncMessages = (\<lambda>_ _ _ _ w. (Inr [], w)), wd_resume = (\<lambda>_. Inr [])\<rparr>"

theorem replaced_session_loses_presence_witness:
  "let (o1, st1) = ServeHTTP (presence_ws wire_codec 0 demo_ws) ''ann'' ''phone'' True ''s1''
           (\<lparr>dv_heap = [], dv_reg = [], dv_members = Cache_New\<rparr>, empty_redis);
       (o2, st2) = ServeHTTP (presence_ws wire_codec 5 demo_ws) ''ann'' ''phone'' True ''s2'' st1;
       (d, r) = readLoop_exit (presence_ws wire_codec 6 demo_ws) ''s1'' st2
   in lookup_session ''ann'' ''phone'' d = Some ''s2''
      \<and> connected 9 (StartHeartbeat (presence_ws wire_codec 8 demo_ws) ''ann'' ''phone'' r) ''ann'' ''phone'' = None"
proof -
  let ?start = "(\<lparr>dv_heap = [], dv_reg = [], dv_members = Cache_New\<rparr>, empty_redis) :: (wire redis, wire) dstate"
  have "publishes wire_codec" by (simp add: publishes_def wire_codec_def)
  moreover have "rd_script (empty_redis :: wire redis) = []" "pres_rel 0 (empty_redis :: wire redis) Map.empty"
    by (simp_all add: pres_rel_def empty_redis_def sets_ok_def str_get_def spec_at_def)
  ultimately have "lookup_session ''ann'' ''phone'' d = Some ''s2''
      \<and> connected 9 (StartHeartbeat (presence_ws wire_codec 8 demo_ws) ''ann'' ''phone'' r) ''ann'' ''phone'' = None"
    if "ServeHTTP (presence_ws wire_codec 0 demo_ws) ''ann'' ''phone'' True ''s1'' ?start = (o1, st1)"
      "ServeHTTP (presence_ws wire_codec 5 demo_ws) ''ann'' ''phone'' True ''s2'' st1 = (o2, st2)"
      "readLoop_exit (presence_ws wire_codec 6 demo_ws) ''s1'' st2 = (d, r)" for o1 st1 o2 st2 d r
    using replaced_session_loses_presence [OF _ _ _ _ _ _ _ _ _ _ _ that, of Map.empty 8 9] by simp
  then show ?thesis by (simp add: Let_def split: prod.splits)
qed

section \<open>Catching up\<close>

text \<open>C16: A client that reconnects is sent what it missed. With the message service behind the handler and nothing
  failing, handling a resume request ends, and sends to the session, in order, the messages above the
  sequence the client names of every conversation it is to catch up with and is a member of, nothing
  of a conversation it is not a member of, and then the events buffered meanwhile; other sessions are
  left alone. When the queue has room for the missed messages, all of them are queued.\<close>

theorem resume_sends_missed_messages:
  fixes wd :: "(('w, 'j, 'b) msg_backend, 'b) ws_deps"
  assumes ok: "msg_backend_ok md u mem w1" and calm: "mb_feed w1 = []"
    and s: "map_of (dv_heap d) sid = Some s" "ss_UserID s = u"
    and req: "wd_resume wd msg = Inr ls" "wd_ListConversations wd u w = (Inr cs, w1)"
    and fuel: "length (messages (mb_db w1)) div 100 < n"
    and missed: "missed = event_payloads (wd_codec wd) (concat (map (\<lambda>(c, a).
        if mem c then filter (\<lambda>m. a < pm_Sequence m) (stored_history w1 c) else []) (conversations_to_sync ls cs)))"
  shows "\<exists>d' w'. handleResume n (wd\<lparr>wd_SyncMessages := msg_sync is_status md\<rparr>) sid (Inr msg) (d, w) = Some (d', w')
    \<and> map_of (dv_heap d') sid = Some (FlushBufferSorted (wd_sort wd) (wd_codec wd) (sends missed s))
    \<and> (\<forall>k. k \<noteq> sid \<longrightarrow> map_of (dv_heap d') k = map_of (dv_heap d) k)
    \<and> (\<not> ss_closed s \<and> length (ss_SendQueue s) + length missed \<le> SendQueueSize \<longrightarrow>
         prefix (ss_SendQueue s @ missed) (ss_SendQueue (FlushBufferSorted (wd_sort wd) (wd_codec wd) (sends missed s))))"
proof -
  let ?wd = "wd\<lparr>wd_SyncMessages := msg_sync is_status md\<rparr>"
  have "length (stored_history w1 c) \<le> length (messages (mb_db w1))" for c by (simp add: stored_history_def)
  moreover have "length (ms.due mem w1 c a) \<le> length (stored_history w1 c)" for c a by (simp add: ms.due_def)
  ultimately have short: "length (ms.due mem w1 c a) \<le> length (messages (mb_db w1))" for c a by (meson order_trans)
  then have enough: "length (ms.due mem w1 c a) div 100 < n" for c a
    using fuel by (meson div_le_mono le_less_trans)
  have due: "ms.due_all mem w1 (conversations_to_sync ls cs) = concat (map (\<lambda>(c, a).
        if mem c then filter (\<lambda>m. a < pm_Sequence m) (stored_history w1 c) else []) (conversations_to_sync ls cs))"
    by (simp add: ms.due_all_def ms.due_def)
  from ms.handleResume_due [OF ok calm s, where wd = wd and msg = msg and lastSequences = ls and w = w and cs = cs
      and n = n and is_status = is_status] req enough obtain w' where
    run: "handleResume n ?wd sid (Inr msg) (d, w) = Some (upd_session sid (FlushBufferSorted (wd_sort wd) (wd_codec wd))
        (fold (sendMsgAsEvent ?wd sid) (ms.due_all mem w1 (conversations_to_sync ls cs)) d), w')" by auto
  have heap: "map_of (dv_heap (upd_session sid (FlushBufferSorted (wd_sort wd) (wd_codec wd))
        (fold (sendMsgAsEvent ?wd sid) (ms.due_all mem w1 (conversations_to_sync ls cs)) d))) k =
      (if k = sid then Some (FlushBufferSorted (wd_sort wd) (wd_codec wd) (sends missed s)) else map_of (dv_heap d) k)" for k
    unfolding due map_of_upd_session sendMsgs_session using s(1) by (simp add: missed)
  have "prefix (ss_SendQueue s @ missed) (ss_SendQueue (FlushBufferSorted (wd_sort wd) (wd_codec wd) (sends missed s)))"
    if "\<not> ss_closed s \<and> length (ss_SendQueue s) + length missed \<le> SendQueueSize"
    using flush_queue_prefix [of "sends missed s" "wd_sort wd" "wd_codec wd"] sends_room [of s missed] that by simp
  with run heap show ?thesis by auto
qed

type_synonym demo_backend = "(demo_world, Message, wire) msg_backend"

definition demo_backend :: demo_backend where
  "demo_backend = \<lparr>mb_db = fst (snd demo_msg_end), mb_world = snd (snd demo_msg_end), mb_feed = []\<rparr>"

definition demo_resume_ws :: "(demo_backend, wire) ws_deps" where
  "demo_resume_ws = \<lparr>wd_instanceID = ''i1'', wd_codec = wire_codec, wd_sort = insertion, wd_RegisterSession = (\<lambda>_ _ _ w. (Inr (), w)),
     wd_UnregisterSession = (\<lambda>_ _ w. (Inr (), w)), wd_RefreshSession = (\<lambda>_ _ w. (Inr (), w)),
     wd_ListConversations = (\<lambda>_ w. (Inr [''g''], w)), wd_SyncMessages = (\<lambda>_ _ _ _ w. (Inr [], w)), wd_resume = (\<lambda>_. Inr [])\<rparr>"

definition demo_missed :: "wire list" where
  "demo_missed = event_payloads wire_codec (concat (map (\<lambda>(c, a).
     if c \<noteq> [] then filter (\<lambda>m. a < pm_Sequence m) (stored_history demo_backend c) else []) (conversations_to_sync [] [''g''])))"

definition demo_ann :: "wire Session" where
  "demo_ann = Session_Start (NewSession ''s1'' ''ann'' ''phone'' True)"

lemma demo_missed_two: "length demo_missed = 2"
  by code_simp

theorem resume_sends_missed_messages_witness:
  "\<exists>d' w'. handleResume 1 (demo_resume_ws\<lparr>wd_SyncMessages := msg_sync (\<lambda>_. False) demo_md\<rparr>) ''s1'' (Inr (WEvent (MessageSentEvent None)))
      (\<lparr>dv_heap = [(''s1'', demo_ann)], dv_reg = [], dv_members = Cache_New\<rparr>, demo_backend) = Some (d', w')
    \<and> map_of (dv_heap d') ''s1'' = Some (FlushBufferSorted insertion wire_codec (sends demo_missed demo_ann))"
proof -
  have "msg_inv demo_md (fst (snd demo_msg_end))"
    using msg_run_inv_grows [OF demo_msg_run demo_json_ok] by (simp add: msg_inv_empty)
  then have "rows_ok (mb_db demo_backend)" by (simp add: msg_inv_def demo_backend_def)
  moreover have "tells_members demo_md ''ann'' (\<lambda>_. True)"
    by (simp add: tells_members_def demo_md_def demo_conv_resp_def)
  ultimately have ok: "msg_backend_ok demo_md ''ann'' (\<lambda>_. True) demo_backend" by (simp add: msg_backend_ok_def)
  have len: "length (messages (mb_db demo_backend)) div 100 < 1" by code_simp
  have ids: "conversations_to_sync [] [''g''] = [(''g'', 0)]" by code_simp
  let ?d = "\<lparr>dv_heap = [(''s1'', demo_ann)], dv_reg = [], dv_members = Cache_New\<rparr> :: wire delivery"
  have "map_of (dv_heap ?d) ''s1'' = Some demo_ann" "ss_UserID demo_ann = ''ann''" by (simp_all add: demo_ann_def)
  moreover have "mb_feed demo_backend = []" by (simp add: demo_backend_def)
  moreover have "wd_resume demo_resume_ws (WEvent (MessageSentEvent None)) = Inr []"
    "wd_ListConversations demo_resume_ws ''ann'' demo_backend = (Inr [''g''], demo_backend)" by (simp_all add: demo_resume_ws_def)
  moreover have "demo_missed = event_payloads (wd_codec demo_resume_ws) (concat (map (\<lambda>(c, a).
     if True then filter (\<lambda>m. a < pm_Sequence m) (stored_history demo_backend c) else []) (conversations_to_sync [] [''g''])))"
    by (simp add: demo_missed_def ids demo_resume_ws_def)
  ultimately show ?thesis
    using resume_sends_missed_messages [OF ok, of ?d "''s1''" demo_ann demo_resume_ws "WEvent (MessageSentEvent None)" "[]" demo_backend
        "[''g'']" 1 demo_missed "\<lambda>_. False"] len by (auto simp: demo_resume_ws_def)
qed

end
