(* ===== verification/Encoding.thy ===== *)
theory Encoding
  imports Prelude
begin

text \<open>
  The two encodings of the Go standard library that the auth service applies to bytes:
  \<^verbatim>\<open>encoding/hex\<close> and \<^verbatim>\<open>base64.RawURLEncoding\<close>. A byte is a \<open>char\<close>, as everywhere. Both are
  injective, so that no randomness and no digest bit is lost on the way to the database.
\<close>

abbreviation byte :: "char \<Rightarrow> nat" where
  "byte c \<equiv> of_char c"

section \<open>Hexadecimal\<close>

definition hex_alphabet :: string where
  "hex_alphabet = ''0123456789abcdef''"

definition hex_EncodeToString :: "string \<Rightarrow> string" where
  "hex_EncodeToString s = concat (map (\<lambda>c. [hex_alphabet ! (byte c div 16), hex_alphabet ! (byte c mod 16)]) s)"

section \<open>Base 64 without padding, in the alphabet for URLs\<close>

definition url_alphabet :: string where
  "url_alphabet = ''ABCDEFGHIJKLMNOPQRSTUVWXYZabcdefghijklmnopqrstuvwxyz0123456789-_''"

definition sextet :: "nat \<Rightarrow> char" where
  "sextet n = url_alphabet ! n"

fun base64_RawURL :: "string \<Rightarrow> string" where
  "base64_RawURL [] = []"
| "base64_RawURL [a] = [sextet (byte a div 4), sextet (byte a mod 4 * 16)]"
| "base64_RawURL [a, b] =
     [sextet (byte a div 4), sextet (byte a mod 4 * 16 + byte b div 16), sextet (byte b mod 16 * 4)]"
| "base64_RawURL (a # b # c # s) =
     sextet (byte a div 4) # sextet (byte a mod 4 * 16 + byte b div 16)
       # sextet (byte b mod 16 * 4 + byte c div 64) # sextet (byte c mod 64) # base64_RawURL s"

section \<open>Injectivity\<close>

lemma byte_less [simp]: "byte c < 256"
  by (rule nat_of_char_less_256)

lemma byte_inject: "byte a = byte b \<longleftrightarrow> a = b"
  by (metis of_char_eq_iff)

lemma distinct_nth_eq: "distinct xs \<Longrightarrow> i < length xs \<Longrightarrow> j < length xs \<Longrightarrow> xs ! i = xs ! j \<longleftrightarrow> i = j"
  by (rule nth_eq_iff_index_eq)

lemma hex_digit_inject:
  "i < 16 \<Longrightarrow> j < 16 \<Longrightarrow> hex_alphabet ! i = hex_alphabet ! j \<longleftrightarrow> i = j"
  by (rule distinct_nth_eq) (simp_all add: hex_alphabet_def)

lemma sextet_inject: "i < 64 \<Longrightarrow> j < 64 \<Longrightarrow> sextet i = sextet j \<longleftrightarrow> i = j"
  unfolding sextet_def by (rule distinct_nth_eq) (simp_all add: url_alphabet_def)

lemma div_mod_inject:
  fixes x y n :: nat
  assumes "x div n = y div n" and "x mod n = y mod n"
  shows "x = y"
  using assms by (metis div_mult_mod_eq)

lemma hex_EncodeToString_inject: "hex_EncodeToString s = hex_EncodeToString t \<longleftrightarrow> s = t"
proof
  assume "hex_EncodeToString s = hex_EncodeToString t"
  then show "s = t"
  proof (induction s arbitrary: t)
    case Nil
    then show ?case by (cases t) (simp_all add: hex_EncodeToString_def)
  next
    case (Cons a s)
    then obtain b t' where t: "t = b # t'" by (cases t) (simp_all add: hex_EncodeToString_def)
    from Cons.prems have eqs: "hex_EncodeToString s = hex_EncodeToString t'"
      "byte a div 16 = byte b div 16" "byte a mod 16 = byte b mod 16"
      by (simp_all add: hex_EncodeToString_def t hex_digit_inject less_mult_imp_div_less)
    from Cons.IH [OF eqs(1)] div_mod_inject [OF eqs(2,3)] t show ?case by (simp add: byte_inject)
  qed
qed simp

text \<open>Two bytes share the sextet between them; three of its readings recover both.\<close>

lemma pair_inject:
  fixes a b a' b' m n :: nat
  assumes "a * n + b = a' * n + b'" and "b < n" and "b' < n"
  shows "a = a' \<and> b = b'"
proof -
  from assms have "(a * n + b) div n = (a' * n + b') div n" "(a * n + b) mod n = (a' * n + b') mod n" by simp_all
  with assms(2,3) show ?thesis by simp
qed

lemma byte_halves [simp]:
  "byte a div 4 < 64" "byte b div 16 < 16" "byte c div 64 < 4" "byte c mod 64 < 64"
  using byte_less [of a] byte_less [of b] byte_less [of c] by (simp_all add: less_mult_imp_div_less del: byte_less)

lemma mod_shift:
  fixes m n k x :: nat
  assumes "x < k" and "0 < n"
  shows "m mod n * k + x < n * k"
proof -
  have "m mod n + 1 \<le> n" using assms(2) by (simp add: Suc_le_eq)
  then have "(m mod n + 1) * k \<le> n * k" by (rule mult_le_mono1)
  with assms(1) show ?thesis by simp
qed

lemma byte_parts [simp]:
  "byte a mod 4 * 16 < 64" "byte a mod 4 * 16 + byte b div 16 < 64"
  "byte b mod 16 * 4 < 64" "byte b mod 16 * 4 + byte c div 64 < 64"
  using mod_shift [of 0 16 4 "byte a"] mod_shift [of "byte b div 16" 16 4 "byte a"]
    mod_shift [of 0 4 16 "byte b"] mod_shift [of "byte c div 64" 4 16 "byte b"] by simp_all

lemma first_byte:
  assumes "byte a div 4 = byte a' div 4" and "byte a mod 4 * 16 + x = byte a' mod 4 * 16 + x'" and "x < 16" and "x' < 16"
  shows "a = a' \<and> x = x'"
  using pair_inject [OF assms(2,3,4)] div_mod_inject [OF assms(1)] by (simp add: byte_inject)

lemma second_byte:
  assumes "byte b div 16 = byte b' div 16" and "byte b mod 16 * 4 + x = byte b' mod 16 * 4 + x'" and "x < 4" and "x' < 4"
  shows "b = b' \<and> x = x'"
  using pair_inject [OF assms(2,3,4)] div_mod_inject [OF assms(1)] by (simp add: byte_inject)

lemma third_byte: "byte c div 64 = byte c' div 64 \<Longrightarrow> byte c mod 64 = byte c' mod 64 \<Longrightarrow> c = c'"
  using div_mod_inject byte_inject by blast

lemma one_block:
  "base64_RawURL [a] = base64_RawURL [a'] \<Longrightarrow> a = a'"
  using first_byte [of a a' 0 0] by (simp add: sextet_inject)

lemma two_block:
  assumes "base64_RawURL [a, b] = base64_RawURL [a', b']"
  shows "a = a' \<and> b = b'"
proof -
  from assms have "byte a div 4 = byte a' div 4" "byte a mod 4 * 16 + byte b div 16 = byte a' mod 4 * 16 + byte b' div 16"
    "byte b mod 16 * 4 = byte b' mod 16 * 4"
    by (simp_all only: base64_RawURL.simps list.inject sextet_inject byte_parts byte_halves)
  with first_byte [of a a' "byte b div 16" "byte b' div 16"] second_byte [of b b' 0 0] show ?thesis by simp
qed

lemma three_block:
  assumes "base64_RawURL (a # b # c # s) = base64_RawURL (a' # b' # c' # s')"
  shows "a = a' \<and> b = b' \<and> c = c' \<and> base64_RawURL s = base64_RawURL s'"
proof -
  from assms have "byte a div 4 = byte a' div 4" "byte a mod 4 * 16 + byte b div 16 = byte a' mod 4 * 16 + byte b' div 16"
    "byte b mod 16 * 4 + byte c div 64 = byte b' mod 16 * 4 + byte c' div 64" "byte c mod 64 = byte c' mod 64"
    "base64_RawURL s = base64_RawURL s'"
    by (simp_all only: base64_RawURL.simps list.inject sextet_inject byte_parts byte_halves)
  with first_byte [of a a' "byte b div 16" "byte b' div 16"]
    second_byte [of b b' "byte c div 64" "byte c' div 64"] third_byte [of c c'] show ?thesis by simp
qed

text \<open>The length of the text tells how many bytes its last block holds.\<close>

lemma length_base64: "length (base64_RawURL s) = (4 * length s + 2) div 3"
proof (induction s rule: base64_RawURL.induct)
  case (4 a b c s)
  have "(4 * (length s + 3) + 2) div 3 = 4 + (4 * length s + 2) div 3" by presburger
  with 4 show ?case by (simp del: One_nat_def)
qed simp_all

lemma div_three_less:
  assumes "n < m"
  shows "(4 * n + 2) div 3 < (4 * m + 2) div (3 :: nat)"
proof -
  have "(4 * n + 2) div 3 + 1 = (4 * n + 2 + 3) div 3" by simp
  also have "\<dots> \<le> (4 * m + 2) div 3" using assms by (intro div_le_mono) simp
  finally show ?thesis by simp
qed

lemma length_base64_inject:
  assumes "base64_RawURL s = base64_RawURL t"
  shows "length s = length t"
proof -
  from assms length_base64 [of s] length_base64 [of t]
  have "(4 * length s + 2) div 3 = (4 * length t + 2) div 3" by simp
  with div_three_less [of "length s" "length t"] div_three_less [of "length t" "length s"] show ?thesis
    by (metis less_irrefl linorder_neqE_nat)
qed

lemma base64_RawURL_inject: "base64_RawURL s = base64_RawURL t \<longleftrightarrow> s = t"
proof
  assume "base64_RawURL s = base64_RawURL t"
  with length_base64_inject have "length s = length t" by blast
  with \<open>base64_RawURL s = base64_RawURL t\<close> show "s = t"
  proof (induction s arbitrary: t rule: base64_RawURL.induct)
    case (2 a)
    then obtain a' where "t = [a']" by (cases t rule: base64_RawURL.cases) simp_all
    with one_block 2(1) show ?case by blast
  next
    case (3 a b)
    then obtain a' b' where "t = [a', b']" by (cases t rule: base64_RawURL.cases) simp_all
    with two_block 3(1) show ?case by blast
  next
    case (4 a b c s)
    then obtain a' b' c' s' where t: "t = a' # b' # c' # s'" by (cases t rule: base64_RawURL.cases) simp_all
    with three_block 4(2) have "a = a' \<and> b = b' \<and> c = c' \<and> base64_RawURL s = base64_RawURL s'" by blast
    with 4 t show ?case by simp
  qed simp
qed simp

end
