(* ===== verification/GoText.thy ===== *)
theory GoText
  imports Prelude
begin

text \<open>
  The routines of \<^verbatim>\<open>strings\<close>, \<^verbatim>\<open>strconv\<close> and \<^verbatim>\<open>fmt\<close> that the HTTP handlers use. Strings are lists of
  bytes, so a white space character beyond ASCII is the sequence of its bytes in UTF-8.
\<close>

section \<open>\<open>strings.Split\<close> at a single byte\<close>

fun strings_Split :: "char \<Rightarrow> string \<Rightarrow> string list" where
  "strings_Split sep [] = [[]]"
| "strings_Split sep (c # cs) =
     (if c = sep then [] # strings_Split sep cs
      else (case strings_Split sep cs of p # ps \<Rightarrow> (c # p) # ps | [] \<Rightarrow> [[c]]))"

lemma strings_Split_nonempty [simp]: "strings_Split sep s \<noteq> []"
  by (cases s) (auto split: list.splits)

lemma strings_Split_plain: "sep \<notin> set s \<Longrightarrow> strings_Split sep s = [s]"
  by (induction s) auto

lemma strings_Split_app: "sep \<notin> set a \<Longrightarrow> strings_Split sep (a @ sep # b) = a # strings_Split sep b"
  by (induction a) auto

lemma strings_Split_parts: "p \<in> set (strings_Split sep s) \<Longrightarrow> sep \<notin> set p"
proof (induction s arbitrary: p)
  case (Cons c s)
  obtain q ps where "strings_Split sep s = q # ps" by (cases "strings_Split sep s") simp_all
  with Cons show ?case by (auto split: if_splits)
qed simp

section \<open>\<open>strings.TrimSpace\<close>\<close>

text \<open>The white space of Unicode, in UTF-8.\<close>

definition utf8_spaces :: "string list" where
  "utf8_spaces = map (map char_of)
     ([[9], [10], [11], [12], [13], [32], [194, 133], [194, 160], [225, 154, 128]]
      @ map (\<lambda>n. [226, 128, n]) [128, 129, 130, 131, 132, 133, 134, 135, 136, 137, 138, 168, 169, 175]
      @ [[226, 129, 159], [227, 128, 128 :: nat]])"

fun drop_seqs :: "nat \<Rightarrow> string list \<Rightarrow> string \<Rightarrow> string" where
  "drop_seqs 0 sps s = s"
| "drop_seqs (Suc n) sps s =
     (case find (has_prefix s) sps of None \<Rightarrow> s | Some sp \<Rightarrow> drop_seqs n sps (drop (length sp) s))"

text \<open>Every turn drops a byte at least, so the length of the string is fuel enough.\<close>

definition strings_TrimSpace :: "string \<Rightarrow> string" where
  "strings_TrimSpace s =
     (let l = drop_seqs (length s) utf8_spaces s
      in rev (drop_seqs (length l) (map rev utf8_spaces) (rev l)))"

text \<open>The result neither starts nor ends with white space.\<close>

definition no_lead :: "string list \<Rightarrow> string \<Rightarrow> bool" where
  "no_lead sps s \<longleftrightarrow> (\<forall>sp \<in> set sps. \<not> has_prefix s sp)"

lemma drop_seqs_no_lead:
  assumes "[] \<notin> set sps" and "length s \<le> n"
  shows "no_lead sps (drop_seqs n sps s)"
  using assms(2)
proof (induction n arbitrary: s)
  case 0
  have "\<not> has_prefix [] sp" if "sp \<in> set sps" for sp
    using that assms(1) by (metis has_prefix.simps(2) neq_Nil_conv)
  with 0 show ?case by (simp add: no_lead_def)
next
  case (Suc n)
  show ?case
  proof (cases "find (has_prefix s) sps")
    case None
    then have "drop_seqs (Suc n) sps s = s" by simp
    with None show ?thesis by (simp add: no_lead_def find_None_conv)
  next
    case (Some sp)
    then have "sp \<in> set sps" "has_prefix s sp" by (auto dest: find_SomeD)
    with assms(1) obtain k where "length sp = Suc k" by (cases sp) auto
    with Suc.prems have "length (drop (length sp) s) \<le> n" by simp
    from Suc.IH [OF this] Some show ?thesis by simp
  qed
qed

lemma utf8_spaces_nonempty: "[] \<notin> set utf8_spaces"
  by (auto simp: utf8_spaces_def)

section \<open>\<open>strings.ToLower\<close>\<close>

text \<open>
  Only ASCII letters are lowered: no other character becomes one of the letters that the callers
  compare with (the exceptions of Unicode become \<open>i\<close> and \<open>k\<close>).
\<close>

definition ascii_lower :: "char \<Rightarrow> char" where
  "ascii_lower c = (let n = (of_char c :: nat) in if 65 \<le> n \<and> n \<le> 90 then char_of (n + 32) else c)"

definition strings_ToLower :: "string \<Rightarrow> string" where
  "strings_ToLower = map ascii_lower"

section \<open>Numbers\<close>

definition is_digit :: "char \<Rightarrow> bool" where
  "is_digit c \<longleftrightarrow> CHR ''0'' \<le> c \<and> c \<le> CHR ''9''"

fun digits_val :: "int \<Rightarrow> string \<Rightarrow> int" where
  "digits_val acc [] = acc"
| "digits_val acc (c # cs) = digits_val (acc * 10 + (of_char c - 48)) cs"

text \<open>An optional sign before the rest.\<close>

fun take_sign :: "string \<Rightarrow> bool \<times> string" where
  "take_sign [] = (False, [])"
| "take_sign (c # cs) = (if c = CHR ''-'' then (True, cs) else if c = CHR ''+'' then (False, cs) else (False, c # cs))"

definition in_width :: "nat \<Rightarrow> int \<Rightarrow> bool" where
  "in_width bits n \<longleftrightarrow> - (2 ^ (bits - 1)) \<le> n \<and> n < 2 ^ (bits - 1)"

definition signed_number :: "nat \<Rightarrow> bool \<Rightarrow> string \<Rightarrow> int option" where
  "signed_number bits neg ds =
     (if ds = [] then None
      else let n = (if neg then - digits_val 0 ds else digits_val 0 ds) in if in_width bits n then Some n else None)"

text \<open>\<open>strconv.Atoi\<close>: the whole string is a number of 64 bits.\<close>

definition strconv_Atoi :: "string \<Rightarrow> int option" where
  "strconv_Atoi s =
     (case take_sign s of (neg, ds) \<Rightarrow> if list_all is_digit ds then signed_number 64 neg ds else None)"

text \<open>
  \<open>fmt.Sscanf(s, "%d", &n)\<close>: white space, an optional sign and digits, and what follows is not looked
  at. A line feed among the white space is an error (a carriage return before it is skipped).
\<close>

definition scan_space :: "string \<Rightarrow> string option" where
  "scan_space s =
     (let rest = drop_seqs (length s) (filter (\<lambda>sp. sp \<noteq> [CHR 0x0A]) utf8_spaces) s
      in if has_prefix rest [CHR 0x0A] then None else Some rest)"

definition fmt_Sscanf_d :: "nat \<Rightarrow> string \<Rightarrow> int option" where
  "fmt_Sscanf_d bits s =
     (case scan_space s of
        None \<Rightarrow> None
      | Some rest \<Rightarrow> (case take_sign rest of (neg, ds) \<Rightarrow> signed_number bits neg (takeWhile is_digit ds)))"

lemma signed_number_bounds: "signed_number bits neg ds = Some n \<Longrightarrow> in_width bits n"
  by (auto simp: signed_number_def Let_def split: if_splits)

lemma fmt_Sscanf_d_bounds: "fmt_Sscanf_d bits s = Some n \<Longrightarrow> in_width bits n"
  by (auto simp: fmt_Sscanf_d_def signed_number_bounds split: option.splits prod.splits)

lemma strconv_Atoi_bounds: "strconv_Atoi s = Some n \<Longrightarrow> in_width 64 n"
  by (auto simp: strconv_Atoi_def signed_number_bounds split: prod.splits if_splits)

end
