(* ===== verification/Http.thy ===== *)
theory Http
  imports SqlTx GoText
begin

text \<open>
  What the HTTP handlers of the services and of the gateway share: answers, JSON Web Tokens and the
  Bearer header. \<open>encoding/json\<close> and the JWT library are not modelled. A handler gets the outcome of
  decoding its request body; \<open>jwt_parse\<close> is a parameter that gives the claims of a token which the
  library accepts at that time (signature, expiry, and issuer and audience when they are asked for).
\<close>

datatype 'r http_body =
    NoBody
  | TextBody string                         \<comment> \<open>\<open>http.Error\<close>, \<open>Write\<close>\<close>
  | MapBody "(string \<times> string) list"        \<comment> \<open>a JSON object of strings\<close>
  | RespBody 'r                             \<comment> \<open>a JSON value of another type\<close>

record 'r http_reply =
  h_status :: nat
  h_body :: "'r http_body"

abbreviation reply :: "nat \<Rightarrow> 'r http_body \<Rightarrow> 'r http_reply" where
  "reply st b \<equiv> \<lparr>h_status = st, h_body = b\<rparr>"

definition json_error :: "nat \<Rightarrow> string \<Rightarrow> 'r http_reply" where
  "json_error st msg = reply st (MapBody [(''error'', msg)])"

text \<open>A handler on the database of its service; it always answers.\<close>

type_synonym ('d, 'w, 'e, 'r) http_prog = "('d, 'w, 'e, 'r http_reply) prog"

section \<open>Tokens\<close>

datatype claim = ClaimString string | ClaimOther

type_synonym claims = "string \<Rightarrow> claim option"

record jwt_claims =
  jc_sub :: string
  jc_iss :: string
  jc_aud :: string
  jc_iat :: int
  jc_exp :: int

text \<open>The claims that the auth service puts in a token, as a reader finds them.\<close>

definition claims_of :: "jwt_claims \<Rightarrow> claims" where
  "claims_of c = [''sub'' \<mapsto> ClaimString (jc_sub c), ''iss'' \<mapsto> ClaimString (jc_iss c),
     ''aud'' \<mapsto> ClaimString (jc_aud c), ''iat'' \<mapsto> ClaimOther, ''exp'' \<mapsto> ClaimOther]"

text \<open>Secret, issuer and audience asked for, time, token.\<close>

type_synonym jwt_parse = "string \<Rightarrow> string option \<Rightarrow> string option \<Rightarrow> int \<Rightarrow> string \<Rightarrow> string + claims"

definition claim_string :: "claims \<Rightarrow> string \<Rightarrow> string option" where
  "claim_string cl k = (case cl k of Some (ClaimString t) \<Rightarrow> Some t | _ \<Rightarrow> None)"

text \<open>
  What is relied on: a token signed with a secret is accepted with that secret until it expires, with
  the claims that were signed. A compact token has two dots and so more than ten bytes, which the code
  takes for granted when it logs its prefix.
\<close>

definition jwt_ok :: "(string \<Rightarrow> jwt_claims \<Rightarrow> string + string) \<Rightarrow> jwt_parse \<Rightarrow> bool" where
  "jwt_ok sign parse \<longleftrightarrow>
     (\<forall>secret c tok now. sign secret c = Inr tok \<longrightarrow>
        10 \<le> length tok \<and> CHR '' '' \<notin> set tok
        \<and> (now < jc_exp c \<longrightarrow> parse secret None None now tok = Inr (claims_of c)))"

text \<open>A middleware passes the user on, answers 401 with a text, or panics.\<close>

datatype 'a jwt_outcome = Authorized 'a | Unauthorized string | JwtPanic

lemma claims_of_strings [simp]:
  "claim_string (claims_of c) ''sub'' = Some (jc_sub c)"
  "claim_string (claims_of c) ''iss'' = Some (jc_iss c)"
  "claim_string (claims_of c) ''aud'' = Some (jc_aud c)"
  by (simp_all add: claim_string_def claims_of_def)

end
