(* ===== verification/AuthRepo.thy ===== *)
theory AuthRepo
  imports SqlTx Encoding Http
begin

text \<open>
  The auth service's sentinels (\<^verbatim>\<open>services/auth/internal/domain\<close>), its tables (\<^verbatim>\<open>migrations\<close>), what
  \<^verbatim>\<open>internal/security\<close> computes, and \<^verbatim>\<open>internal/repository/repository.go\<close>. Bcrypt, the SHA-256 digest,
  the source of random bytes, the JWT library and the JSON encoder are the parameters \<open>auth_deps\<close>;
  hexadecimal and base 64 are \<open>Encoding\<close>. A statement sent on the pool instead of a transaction is
  \<open>stmt False\<close>: it takes effect on its own. Times are instants (the databases run in UTC).
\<close>

datatype auth_err = ErrInvalidCredentials | ErrUserNotFound | ErrEmailConflict | ErrInvalidToken

fun auth_err_text :: "auth_err \<Rightarrow> string" where
  "auth_err_text ErrInvalidCredentials = ''invalid credentials''"
| "auth_err_text ErrUserNotFound = ''user not found''"
| "auth_err_text ErrEmailConflict = ''email already in use''"
| "auth_err_text ErrInvalidToken = ''invalid or expired token''"

section \<open>Tables\<close>

record user_row =
  u_id :: string
  u_email :: string
  u_password_hash :: string
  u_created_at :: int

record token_row =
  t_id :: string
  t_user :: string
  t_hash :: string
  t_expires_at :: int
  t_revoked_at :: "int option"
  t_created_at :: int

record 'b auth_outbox_row =
  a_id :: nat
  a_aggregate_type :: string
  a_aggregate_id :: string
  a_event_type :: string
  a_payload :: 'b
  a_processed_at :: "int option"
  a_created_at :: int

record 'b auth_db =
  users :: "user_row list"
  refresh_tokens :: "token_row list"
  auth_outbox :: "'b auth_outbox_row list"
  auth_outbox_serial :: nat

definition empty_auth_db :: "'b auth_db" where
  "empty_auth_db = \<lparr>users = [], refresh_tokens = [], auth_outbox = [], auth_outbox_serial = 0\<rparr>"

type_synonym ('w, 'b, 'a) auth_prog = "('b auth_db, 'w, auth_err, 'a) prog"

section \<open>Security\<close>

record auth_cfg =
  cf_JWTSecret :: string
  cf_JWTIssuer :: string
  cf_JWTAudience :: string
  cf_AccessTokenTTL :: int
  cf_RefreshTokenTTL :: int

record ('w, 'b) auth_deps =
  ad_bcrypt :: "string \<Rightarrow> 'w \<Rightarrow> (string + string) \<times> 'w"      \<comment> \<open>\<open>GenerateFromPassword\<close> at cost 12\<close>
  ad_bcrypt_compare :: "string \<Rightarrow> string \<Rightarrow> string option"  \<comment> \<open>hash, password; \<open>None\<close> is no error\<close>
  ad_sha256 :: "string \<Rightarrow> string"                         \<comment> \<open>the bytes of the digest\<close>
  ad_rand :: "nat \<Rightarrow> 'w \<Rightarrow> (string + string) \<times> 'w"         \<comment> \<open>\<open>rand.Read\<close> of that many bytes\<close>
  ad_uuid :: "'w \<Rightarrow> string \<times> 'w"
  ad_sign :: "string \<Rightarrow> jwt_claims \<Rightarrow> string + string"     \<comment> \<open>\<open>SignedString\<close> with HS256\<close>
  ad_json :: "(string \<times> string) list \<Rightarrow> string + 'b"       \<comment> \<open>\<open>json.Marshal\<close> of a map of strings\<close>
  ad_cfg :: auth_cfg

definition HashPassword :: "('w, 'b) auth_deps \<Rightarrow> string \<Rightarrow> ('w, 'b, string) auth_prog" where
  "HashPassword ad pw = on_world (\<lambda>w. case ad_bcrypt ad pw w of
     (Inl t, w') \<Rightarrow> (Inl (Plain t), w') | (Inr h, w') \<Rightarrow> (Inr h, w'))"

definition ComparePassword :: "('w, 'b) auth_deps \<Rightarrow> string \<Rightarrow> string \<Rightarrow> string option" where
  "ComparePassword ad hash pw = ad_bcrypt_compare ad hash pw"

definition auth_SHA256 :: "('w, 'b) auth_deps \<Rightarrow> string \<Rightarrow> string" where
  "auth_SHA256 ad s = hex_EncodeToString (ad_sha256 ad s)"

definition RandomToken :: "('w, 'b) auth_deps \<Rightarrow> nat \<Rightarrow> ('w, 'b, string) auth_prog" where
  "RandomToken ad n = on_world (\<lambda>w. case ad_rand ad n w of
     (Inl t, w') \<Rightarrow> (Inl (Wrapf ''crypto/rand'' (Plain t)), w') | (Inr b, w') \<Rightarrow> (Inr (base64_RawURL b), w'))"

definition access_claims :: "string \<Rightarrow> string \<Rightarrow> string \<Rightarrow> int \<Rightarrow> int \<Rightarrow> jwt_claims" where
  "access_claims userID issuer audience ttl now =
     \<lparr>jc_sub = userID, jc_iss = issuer, jc_aud = audience, jc_iat = now, jc_exp = now + ttl\<rparr>"

definition GenerateAccess ::
  "('w, 'b) auth_deps \<Rightarrow> string \<Rightarrow> string \<Rightarrow> string \<Rightarrow> string \<Rightarrow> int \<Rightarrow> ('w, 'b, string) auth_prog" where
  "GenerateAccess ad secret userID issuer audience ttl =
     bindE get_now (\<lambda>now. lift_res (ad_sign ad secret (access_claims userID issuer audience ttl now)))"

definition new_uuid :: "('w, 'b) auth_deps \<Rightarrow> ('w, 'b, string) auth_prog" where
  "new_uuid ad = on_world (\<lambda>w. case ad_uuid ad w of (u, w') \<Rightarrow> (Inr u, w'))"

section \<open>Users\<close>

abbreviation err_unique :: string where
  "err_unique \<equiv> ''pq: duplicate key value violates unique constraint''"

text \<open>Code 23505 is the one whose message starts like this.\<close>

definition is_unique_violation :: "'e go_error \<Rightarrow> bool" where
  "is_unique_violation err = (case err of Plain t \<Rightarrow> has_prefix t err_unique | _ \<Rightarrow> False)"

definition sql_insert_user :: "int \<Rightarrow> string \<Rightarrow> string \<Rightarrow> string \<Rightarrow> 'b auth_db \<Rightarrow> string + 'b auth_db \<times> unit" where
  "sql_insert_user now i email hash d =
     (if \<exists>r \<in> set (users d). u_id r = i \<or> u_email r = email then Inl err_unique
      else Inr (d\<lparr>users := users d @ [\<lparr>u_id = i, u_email = email, u_password_hash = hash, u_created_at = now\<rparr>]\<rparr>, ()))"

definition CreateUser :: "bool \<Rightarrow> string \<Rightarrow> string \<Rightarrow> string \<Rightarrow> ('w, 'b, unit) auth_prog" where
  "CreateUser tx i email hash =
     bindE get_now (\<lambda>now.
     attempt (stmt tx (sql_insert_user now i email hash)) (\<lambda>r. case r of
       Inl err \<Rightarrow> if is_unique_violation err then throw (Domain ErrEmailConflict) else throw err
     | Inr _ \<Rightarrow> ret ()))"

definition GetUserByEmail :: "string \<Rightarrow> ('w, 'b, string \<times> string) auth_prog" where
  "GetUserByEmail email =
     bindE (query False (\<lambda>d. find (\<lambda>r. u_email r = email) (users d))) (\<lambda>row. case row of
       None \<Rightarrow> throw (Domain ErrUserNotFound)
     | Some r \<Rightarrow> ret (u_id r, u_password_hash r))"

section \<open>Refresh tokens\<close>

abbreviation err_fk :: string where
  "err_fk \<equiv> ''pq: insert or update on table violates foreign key constraint''"

definition sql_insert_token ::
  "int \<Rightarrow> string \<Rightarrow> string \<Rightarrow> string \<Rightarrow> int \<Rightarrow> 'b auth_db \<Rightarrow> string + 'b auth_db \<times> unit" where
  "sql_insert_token now i userID tokenHash expiry d =
     (if \<exists>r \<in> set (refresh_tokens d). t_id r = i then Inl err_unique
      else if userID \<notin> u_id ` set (users d) then Inl err_fk
      else Inr (d\<lparr>refresh_tokens := refresh_tokens d @
             [\<lparr>t_id = i, t_user = userID, t_hash = tokenHash, t_expires_at = expiry, t_revoked_at = None,
               t_created_at = now\<rparr>]\<rparr>, ()))"

definition SaveRefresh :: "string \<Rightarrow> string \<Rightarrow> string \<Rightarrow> int \<Rightarrow> ('w, 'b, unit) auth_prog" where
  "SaveRefresh i userID tokenHash expiry =
     bindE get_now (\<lambda>now. stmt False (sql_insert_token now i userID tokenHash expiry))"

text \<open>\<open>token_hash\<close> is not unique: the query may match several rows, of which \<open>QueryRow\<close> reads the first.\<close>

definition live_token :: "string \<Rightarrow> token_row \<Rightarrow> bool" where
  "live_token tokenHash r \<longleftrightarrow> t_hash r = tokenHash \<and> t_revoked_at r = None"

definition GetRefresh :: "string \<Rightarrow> ('w, 'b, string \<times> int) auth_prog" where
  "GetRefresh tokenHash =
     bindE (query False (\<lambda>d. find (live_token tokenHash) (refresh_tokens d))) (\<lambda>row. case row of
       None \<Rightarrow> throw (Domain ErrInvalidToken)
     | Some r \<Rightarrow> ret (t_user r, t_expires_at r))"

definition sql_revoke :: "int \<Rightarrow> string \<Rightarrow> 'b auth_db \<Rightarrow> 'b auth_db" where
  "sql_revoke now tokenHash d =
     d\<lparr>refresh_tokens := map (\<lambda>r. if t_hash r = tokenHash then r\<lparr>t_revoked_at := Some now\<rparr> else r) (refresh_tokens d)\<rparr>"

definition RevokeRefresh :: "string \<Rightarrow> ('w, 'b, unit) auth_prog" where
  "RevokeRefresh tokenHash = bindE get_now (\<lambda>now. stmt False (\<lambda>d. Inr (sql_revoke now tokenHash d, ())))"

section \<open>Outbox\<close>

definition sql_insert_auth_outbox :: "int \<Rightarrow> string \<Rightarrow> string \<Rightarrow> string \<Rightarrow> 'b \<Rightarrow> 'b auth_db \<Rightarrow> 'b auth_db" where
  "sql_insert_auth_outbox now aggregateType aggregateID eventType payload d =
     d\<lparr>auth_outbox := auth_outbox d @
         [\<lparr>a_id = auth_outbox_serial d + 1, a_aggregate_type = aggregateType, a_aggregate_id = aggregateID,
           a_event_type = eventType, a_payload = payload, a_processed_at = None, a_created_at = now\<rparr>],
       auth_outbox_serial := auth_outbox_serial d + 1\<rparr>"

definition auth_InsertOutbox :: "bool \<Rightarrow> string \<Rightarrow> string \<Rightarrow> string \<Rightarrow> 'b \<Rightarrow> ('w, 'b, unit) auth_prog" where
  "auth_InsertOutbox tx aggregateType aggregateID eventType payload =
     bindE get_now (\<lambda>now. stmt tx (\<lambda>d.
       Inr (sql_insert_auth_outbox now aggregateType aggregateID eventType payload d, ())))"

end
