(* ===== verification/AuthApp.thy ===== *)
theory AuthApp
  imports AuthRepo
begin

text \<open>
  \<^verbatim>\<open>services/auth/internal/service/auth_service.go\<close>. Only \<open>Register\<close> runs in a transaction; the
  statements of the other operations take effect one by one. \<open>Refresh\<close> is cut in two at the point
  where another request can come between its look-up and its revocation.
\<close>

text \<open>\<^verbatim>\<open>internal/tx/manager.go\<close> is the manager of the other services, at the level read committed.\<close>

definition auth_WithTx :: "('w, 'b, 'a) auth_prog \<Rightarrow> ('w, 'b, 'a) auth_prog" where
  "auth_WithTx = WithTx auth_err_text"

definition register_tx ::
  "('w, 'b) auth_deps \<Rightarrow> string \<Rightarrow> string \<Rightarrow> string \<Rightarrow> ('w, 'b, unit) auth_prog" where
  "register_tx ad userID email hash =
     bindE (wrap_err ''failed to create user'' (CreateUser True userID email hash)) (\<lambda>_.
     bindE (wrap_err ''failed to marshal user created event'' (lift_res (ad_json ad [(''user_id'', userID)])))
       (\<lambda>payload.
     wrap_err ''failed to save outbox event''
       (auth_InsertOutbox True ''auth'' userID ''USER_CREATED'' payload)))"

definition auth_Register :: "('w, 'b) auth_deps \<Rightarrow> string \<Rightarrow> string \<Rightarrow> ('w, 'b, string) auth_prog" where
  "auth_Register ad email password =
     bindE (HashPassword ad password) (\<lambda>hash.
     bindE (new_uuid ad) (\<lambda>userID.
     bindE (wrap_err ''registration failed'' (auth_WithTx (register_tx ad userID email hash))) (\<lambda>_.
       ret userID)))"

text \<open>The common end of \<open>Login\<close> and \<open>Refresh\<close>: sign an access token, draw and store a refresh token.\<close>

definition issue_tokens :: "('w, 'b) auth_deps \<Rightarrow> string \<Rightarrow> ('w, 'b, string \<times> string) auth_prog" where
  "issue_tokens ad uid =
     (let cfg = ad_cfg ad in
      bindE (GenerateAccess ad (cf_JWTSecret cfg) uid (cf_JWTIssuer cfg) (cf_JWTAudience cfg)
               (cf_AccessTokenTTL cfg)) (\<lambda>access.
      bindE (RandomToken ad 32) (\<lambda>refresh.
      bindE (new_uuid ad) (\<lambda>i.
      bindE get_now (\<lambda>now.
      bindE (SaveRefresh i uid (auth_SHA256 ad refresh) (now + cf_RefreshTokenTTL cfg)) (\<lambda>_.
        ret (access, refresh)))))))"

definition auth_Login :: "('w, 'b) auth_deps \<Rightarrow> string \<Rightarrow> string \<Rightarrow> ('w, 'b, string \<times> string) auth_prog" where
  "auth_Login ad email password =
     attempt (GetUserByEmail email) (\<lambda>r. case r of
       Inl err \<Rightarrow> if errors_Is err ErrUserNotFound then throw (Domain ErrInvalidCredentials) else throw err
     | Inr (uid, hash) \<Rightarrow>
         if ComparePassword ad hash password \<noteq> None then throw (Domain ErrInvalidCredentials)
         else issue_tokens ad uid)"

definition refresh_check :: "('w, 'b) auth_deps \<Rightarrow> string \<Rightarrow> ('w, 'b, string) auth_prog" where
  "refresh_check ad refresh =
     bindE (GetRefresh (auth_SHA256 ad refresh)) (\<lambda>(uid, expiry).
     bindE get_now (\<lambda>now. if now > expiry then throw (Domain ErrInvalidToken) else ret uid))"

definition refresh_rotate :: "('w, 'b) auth_deps \<Rightarrow> string \<Rightarrow> string \<Rightarrow> ('w, 'b, string \<times> string) auth_prog" where
  "refresh_rotate ad refresh uid =
     attempt (RevokeRefresh (auth_SHA256 ad refresh)) (\<lambda>_. issue_tokens ad uid)"

definition auth_Refresh :: "('w, 'b) auth_deps \<Rightarrow> string \<Rightarrow> ('w, 'b, string \<times> string) auth_prog" where
  "auth_Refresh ad refresh = bindE (refresh_check ad refresh) (refresh_rotate ad refresh)"

definition auth_Logout :: "('w, 'b) auth_deps \<Rightarrow> string \<Rightarrow> ('w, 'b, unit) auth_prog" where
  "auth_Logout ad refresh = RevokeRefresh (auth_SHA256 ad refresh)"

end
