(* ===== verification/AuthWorker.thy ===== *)
theory AuthWorker
  imports AuthApp Kafka
begin

text \<open>
  \<^verbatim>\<open>services/auth/internal/outbox/worker.go\<close> and \<^verbatim>\<open>internal/kafka/producer.go\<close>: one poll of the outbox.
  The writer of the client library is a parameter that sends one message and reports an error or
  none; \<open>writer_ok\<close> is what its acknowledgement promises.
\<close>

type_synonym ('w, 'b) writer = "'b kafka_msg \<Rightarrow> 'w \<Rightarrow> string option \<times> 'w"

definition topic_msg :: "string \<Rightarrow> string \<Rightarrow> 'b \<Rightarrow> 'b kafka_msg" where
  "topic_msg topic key v = \<lparr>k_topic = topic, k_key = key, k_value = v, k_headers = []\<rparr>"

definition auth_Publish ::
  "('w, 'b) writer \<Rightarrow> string \<Rightarrow> string \<Rightarrow> 'b \<Rightarrow> 'w \<Rightarrow> (auth_err go_error + unit) \<times> 'w" where
  "auth_Publish wr topic key v w =
     (case wr (topic_msg topic key v) w of
        (Some err, w') \<Rightarrow> (Inl (Plain err), w')
      | (None, w') \<Rightarrow> (Inr (), w'))"

definition writer_ok :: "('w \<Rightarrow> 'b kafka_msg list) \<Rightarrow> ('w, 'b) writer \<Rightarrow> bool" where
  "writer_ok klog wr \<longleftrightarrow>
     (\<forall>m w r w'. wr m w = (r, w') \<longrightarrow> (\<exists>ext. klog w' = klog w @ ext \<and> (r = None \<longrightarrow> m \<in> set ext)))"

definition auth_pending :: "'b auth_db \<Rightarrow> 'b auth_outbox_row list" where
  "auth_pending d = sort_key a_id (filter (\<lambda>e. a_processed_at e = None) (auth_outbox d))"

definition auth_mark :: "int \<Rightarrow> nat \<Rightarrow> 'b auth_db \<Rightarrow> 'b auth_db" where
  "auth_mark now i d =
     d\<lparr>auth_outbox := map (\<lambda>e. if a_id e = i then e\<lparr>a_processed_at := Some now\<rparr> else e) (auth_outbox d)\<rparr>"

text \<open>The topic of an event; an unknown type has none and is left in the outbox.\<close>

definition event_topic :: "string \<Rightarrow> string option" where
  "event_topic ty = (if ty = ''USER_CREATED'' then Some ''auth.user.created'' else None)"

fun auth_publish_events :: "('w, 'b) writer \<Rightarrow> 'b auth_outbox_row list \<Rightarrow> ('w, 'b, unit) auth_prog" where
  "auth_publish_events wr [] = ret ()"
| "auth_publish_events wr (e # es) =
     (case event_topic (a_event_type e) of
        None \<Rightarrow> auth_publish_events wr es
      | Some topic \<Rightarrow>
          bindE (on_world (auth_Publish wr topic (a_aggregate_id e) (a_payload e))) (\<lambda>_.
          bindE get_now (\<lambda>now.
          bindE (stmt True (\<lambda>d. Inr (auth_mark now (a_id e) d, ()))) (\<lambda>_.
            auth_publish_events wr es))))"

definition auth_batch_body :: "nat \<Rightarrow> ('w, 'b) writer \<Rightarrow> ('w, 'b, bool) auth_prog" where
  "auth_batch_body batchSize wr =
     bindE (query True (\<lambda>d. take batchSize (auth_pending d))) (\<lambda>events.
       if events = [] then ret False
       else bindE (auth_publish_events wr events) (\<lambda>_. ret True))"

definition auth_processBatch :: "nat \<Rightarrow> ('w, 'b) writer \<Rightarrow> ('w, 'b, unit) auth_prog" where
  "auth_processBatch batchSize wr s =
     (case take_outcome s of (oc, s0) \<Rightarrow>
       (case oc of
          Fails t \<Rightarrow> (Inl (Plain t), s0)
        | Lost \<Rightarrow> (Inl (Plain err_bad_conn), s0)
        | Proceed \<Rightarrow>
            (case auth_batch_body batchSize wr (s0\<lparr>s_aborted := False\<rparr>) of
               (Inl err, s1) \<Rightarrow> (Inl err, rollback s0 s1)
             | (Inr False, s1) \<Rightarrow> (Inr (), rollback s0 s1)
             | (Inr True, s1) \<Rightarrow>
                 (case commit s0 s1 of
                    (Some err, s2) \<Rightarrow> (Inl err, s2)
                  | (None, s2) \<Rightarrow> (Inr (), s2)))))"

section \<open>What a poll did\<close>

definition event_msg :: "'b auth_outbox_row \<Rightarrow> 'b kafka_msg" where
  "event_msg e = topic_msg ''auth.user.created'' (a_aggregate_id e) (a_payload e)"

text \<open>The rows of a batch that the loop handles, and their marks.\<close>

definition known_events :: "'b auth_outbox_row list \<Rightarrow> 'b auth_outbox_row list" where
  "known_events = filter (\<lambda>e. event_topic (a_event_type e) \<noteq> None)"

definition auth_marks :: "int \<Rightarrow> 'b auth_outbox_row list \<Rightarrow> 'b auth_db \<Rightarrow> 'b auth_db" where
  "auth_marks now es d =
     d\<lparr>auth_outbox := map (\<lambda>e. if a_id e \<in> a_id ` set es then e\<lparr>a_processed_at := Some now\<rparr> else e) (auth_outbox d)\<rparr>"

lemma auth_marks_Nil [simp]: "auth_marks now [] d = d"
  by (simp add: auth_marks_def)

lemma auth_marks_Cons: "auth_marks now es (auth_mark now (a_id e) d) = auth_marks now (e # es) d"
  by (auto simp: auth_marks_def auth_mark_def)

lemma event_topic_SomeD: "event_topic ty = Some topic \<Longrightarrow> topic = ''auth.user.created''"
  by (auto simp: event_topic_def split: if_splits)

lemma auth_Publish_log:
  assumes "writer_ok klog wr" and "auth_Publish wr topic key v w = (r, w')"
  shows "\<exists>ext. klog w' = klog w @ ext \<and> ((\<exists>u. r = Inr u) \<longrightarrow> topic_msg topic key v \<in> set ext)"
proof -
  obtain q where q: "wr (topic_msg topic key v) w = (q, w')" and r: "(\<exists>u. r = Inr u) \<longrightarrow> q = None"
    using assms(2) by (auto simp: auth_Publish_def split: prod.splits option.splits)
  from assms(1) q have "\<exists>ext. klog w' = klog w @ ext \<and> (q = None \<longrightarrow> topic_msg topic key v \<in> set ext)"
    unfolding writer_ok_def by blast
  with r show ?thesis by auto
qed

text \<open>A loop that succeeded has published and marked every event of a known type.\<close>

lemma auth_publish_events_run:
  fixes s :: "('b auth_db, 'w) sess"
  assumes broker: "writer_ok klog wr" and "auth_publish_events wr es s = (r, t)"
  shows "\<exists>ext. klog (s_world t) = klog (s_world s) @ ext
    \<and> ((\<exists>u. r = Inr u) \<longrightarrow> subseq (map event_msg (known_events es)) ext
        \<and> s_db t = auth_marks (s_now s) (known_events es) (s_db s))"
  using assms(2)
proof (induction es arbitrary: s)
  case (Cons e es)
  show ?case
  proof (cases "event_topic (a_event_type e)")
    case None
    with Cons.prems have "auth_publish_events wr es s = (r, t)" by simp
    from Cons.IH [OF this] None show ?thesis by (simp add: known_events_def)
  next
    case (Some topic)
    then have topic: "topic = ''auth.user.created''" by (rule event_topic_SomeD)
    obtain q :: "auth_err go_error + unit" and s1 where
      pub: "on_world (auth_Publish wr topic (a_aggregate_id e) (a_payload e)) s = (q, s1)" by fastforce
    then have pw: "auth_Publish wr topic (a_aggregate_id e) (a_payload e) (s_world s) = (q, s_world s1)"
      and s1: "s_db s1 = s_db s" "s_now s1 = s_now s"
      by (auto simp: on_world_def split: prod.splits)
    from auth_Publish_log [OF broker pw] obtain ext where
      ext: "klog (s_world s1) = klog (s_world s) @ ext" "(\<exists>u. q = Inr u) \<longrightarrow> event_msg e \<in> set ext"
      by (auto simp: event_msg_def topic)
    show ?thesis
    proof (cases q)
      case (Inl err)
      with Cons.prems Some pub ext show ?thesis by auto
    next
      case (Inr u)
      let ?m = "stmt True (\<lambda>d. Inr (auth_mark (s_now s1) (a_id e) d, ())) :: ('w, 'b, unit) auth_prog"
      obtain q2 s2 where mk: "?m s1 = (q2, s2)" by fastforce
      have w2: "s_world s2 = s_world s1" "s_now s2 = s_now s1"
        using mk by (cases q2; auto dest: stmt_InlD stmt_InrD)+
      show ?thesis
      proof (cases q2)
        case (Inl err)
        with Cons.prems Some pub Inr mk w2 ext show ?thesis by auto
      next
        case (Inr u2)
        with Cons.prems Some pub \<open>q = Inr u\<close> mk have "auth_publish_events wr es s2 = (r, t)" by simp
        from Cons.IH [OF this] obtain ext2 where e2: "klog (s_world t) = klog (s_world s2) @ ext2"
          "(\<exists>u. r = Inr u) \<longrightarrow> subseq (map event_msg (known_events es)) ext2
            \<and> s_db t = auth_marks (s_now s2) (known_events es) (s_db s2)" by blast
        from stmt_total_InrD [OF mk [unfolded Inr]] s1
        have d2: "s_db s2 = auth_mark (s_now s) (a_id e) (s_db s)" by simp
        have known: "known_events (e # es) = e # known_events es" using Some by (simp add: known_events_def)
        from ext \<open>q = Inr u\<close> have "subseq [event_msg e] ext" by (simp add: subseq_singleton_left)
        with e2(2) have "(\<exists>u. r = Inr u) \<longrightarrow> subseq ([event_msg e] @ map event_msg (known_events es)) (ext @ ext2)"
          using list_emb_append_mono by blast
        moreover have "(\<exists>u. r = Inr u) \<longrightarrow> s_db t = auth_marks (s_now s) (known_events (e # es)) (s_db s)"
          unfolding known auth_marks_Cons [symmetric] using e2(2) d2 w2 s1 by simp
        ultimately show ?thesis
          using e2(1) ext(1) w2 known by (intro exI [of _ "ext @ ext2"]) simp
      qed
    qed
  qed
qed (auto simp: known_events_def)

lemma auth_batch_body_run:
  fixes s :: "('b auth_db, 'w) sess"
  assumes broker: "writer_ok klog wr" and body: "auth_batch_body n wr s = (q, s1)"
  shows "\<exists>ext. klog (s_world s1) = klog (s_world s) @ ext
    \<and> (q = Inr True \<longrightarrow>
        s_db s1 = auth_marks (s_now s) (known_events (take n (auth_pending (s_db s)))) (s_db s)
        \<and> subseq (map event_msg (known_events (take n (auth_pending (s_db s))))) ext)"
proof -
  let ?q = "query True (\<lambda>d. take n (auth_pending d)) :: ('w, 'b, 'b auth_outbox_row list) auth_prog"
  obtain qr sq where qu: "?q s = (qr, sq)" by fastforce
  have w: "s_world sq = s_world s" "s_db sq = s_db s" "s_now sq = s_now s"
    using qu by (cases qr; auto dest!: query_InlD query_InrD)+
  have qv: "qr = Inr es \<Longrightarrow> es = take n (auth_pending (s_db s))" for es
    using qu by (auto dest!: query_InrD)
  show ?thesis
  proof (cases "(\<exists>e. qr = Inl e) \<or> qr = Inr []")
    case True
    with body qu w show ?thesis
      by (intro exI [of _ "[]"]) (auto simp: auth_batch_body_def bindE_def attempt_def)
  next
    case False
    then obtain es where es: "qr = Inr es" "es \<noteq> []" by (cases qr) auto
    obtain pr sp where pe: "auth_publish_events wr es sq = (pr, sp)" by fastforce
    with body qu es have q: "q = (case pr of Inl e \<Rightarrow> Inl e | Inr _ \<Rightarrow> Inr True)" "s1 = sp"
      by (auto simp: auth_batch_body_def bindE_def attempt_def split: sum.splits)
    from auth_publish_events_run [OF broker pe] q w qv [OF es(1)] show ?thesis by (cases pr) auto
  qed
qed

text \<open>A poll leaves the tables as they were, or has published and marked the known events of its batch.\<close>

lemma auth_processBatch_run:
  fixes s :: "('b auth_db, 'w) sess"
  assumes broker: "writer_ok klog wr" and "auth_processBatch n wr s = (r, t)"
  shows "\<exists>ext. klog (s_world t) = klog (s_world s) @ ext
    \<and> (s_db t = s_db s
       \<or> (\<exists>now. s_db t = auth_marks now (known_events (take n (auth_pending (s_db s)))) (s_db s)
           \<and> subseq (map event_msg (known_events (take n (auth_pending (s_db s))))) ext))"
proof -
  obtain oc s0 where oc: "take_outcome s = (oc, s0)" by fastforce
  note eq = take_outcome_eqD [OF oc]
  show ?thesis
  proof (cases oc)
    case Proceed
    obtain q s1 where body: "auth_batch_body n wr (s0\<lparr>s_aborted := False\<rparr>) = (q, s1)" by fastforce
    from auth_batch_body_run [OF broker body] eq obtain ext where
        ext: "klog (s_world s1) = klog (s_world s) @ ext"
      and pub: "q = Inr True \<longrightarrow>
          s_db s1 = auth_marks (s_now s) (known_events (take n (auth_pending (s_db s)))) (s_db s)
          \<and> subseq (map event_msg (known_events (take n (auth_pending (s_db s))))) ext" by auto
    obtain err :: "auth_err go_error option" and s2 where cm: "commit s0 s1 = (err, s2)" by fastforce
    from assms(2) oc Proceed body cm
    have "(q = Inr True \<and> t = s2) \<or> t = rollback s0 s1"
      by (cases q; cases "q = Inr True"; cases err) (auto simp: auth_processBatch_def split: bool.splits)
    then show ?thesis
      using ext pub commit_cases [OF cm] eq by (intro exI [of _ ext]) auto
  qed (use assms(2) oc eq in \<open>auto simp: auth_processBatch_def\<close>)
qed

end
