(* ===== verification/AuthExec.thy ===== *)
theory AuthExec
  imports AuthWorker Monotone
begin

text \<open>
  The auth service as a state machine, and the abstract machine it refines. \<open>auth_step\<close> is what can
  happen to the tables at once: an account with its event, a refresh token, a revocation, the mark of a
  published event. Every operation, under every script of failures, is a sequence of such steps, which is how
  the invariants and the facts about revoked tokens are proved. The calls include the two halves of
  \<open>Refresh\<close>, so that runs cover requests that come between them.
\<close>

definition token_hashes :: "('w, 'b) auth_deps \<Rightarrow> 'w set \<Rightarrow> string set" where
  "token_hashes ad W = {auth_SHA256 ad (base64_RawURL b) |b. \<exists>w \<in> W. \<exists>w'. ad_rand ad 32 w = (Inr b, w')}"

inductive auth_step :: "('w, 'b) auth_deps \<Rightarrow> string set \<Rightarrow> 'b auth_db \<Rightarrow> 'b auth_db \<Rightarrow> bool" for ad H where
  as_register: "sql_insert_user now i email hash d = Inr (d1, ()) \<Longrightarrow> ad_json ad [(''user_id'', i)] = Inr b \<Longrightarrow>
    auth_step ad H d (sql_insert_auth_outbox now ''auth'' i ''USER_CREATED'' b d1)"
| as_token: "sql_insert_token now i u h expiry d = Inr (d1, ()) \<Longrightarrow> h \<in> H \<Longrightarrow> auth_step ad H d d1"
| as_revoke: "auth_step ad H d (sql_revoke now h d)"
| as_mark: "auth_step ad H d (auth_mark now i d)"

text \<open>Worlds that every operation stays in.\<close>

definition auth_closed :: "('w, 'b) auth_deps \<Rightarrow> ('w, 'b) writer \<Rightarrow> 'w set \<Rightarrow> bool" where
  "auth_closed ad wr W \<longleftrightarrow>
     (\<forall>w \<in> W. (\<forall>pw. snd (ad_bcrypt ad pw w) \<in> W) \<and> (\<forall>n. snd (ad_rand ad n w) \<in> W) \<and> snd (ad_uuid ad w) \<in> W
        \<and> (\<forall>m. snd (wr m w) \<in> W))"

lemma auth_closed_UNIV [simp]: "auth_closed ad wr UNIV"
  by (simp add: auth_closed_def)

lemma auth_closedD:
  assumes "auth_closed ad wr W" and "w \<in> W"
  shows "ad_bcrypt ad pw w = (r, w') \<Longrightarrow> w' \<in> W"
    and "ad_rand ad n w = (r, w') \<Longrightarrow> w' \<in> W"
    and "ad_uuid ad w = (u, w') \<Longrightarrow> w' \<in> W"
    and "wr m w = (e, w') \<Longrightarrow> w' \<in> W"
  using assms unfolding auth_closed_def by (metis snd_conv)+

definition auth_moves :: "('w, 'b) auth_deps \<Rightarrow> 'w set \<Rightarrow> ('w, 'b, 'a) auth_prog \<Rightarrow> bool" where
  "auth_moves ad W m \<longleftrightarrow>
     (\<forall>s r t. s_world s \<in> W \<longrightarrow> m s = (r, t) \<longrightarrow>
        s_world t \<in> W \<and> (auth_step ad (token_hashes ad W))\<^sup>*\<^sup>* (s_db s) (s_db t))"

lemma auth_movesI:
  assumes "\<And>s r t. s_world s \<in> W \<Longrightarrow> m s = (r, t) \<Longrightarrow>
      s_world t \<in> W \<and> (auth_step ad (token_hashes ad W))\<^sup>*\<^sup>* (s_db s) (s_db t)"
  shows "auth_moves ad W m"
  using assms unfolding auth_moves_def by blast

lemma auth_movesD:
  assumes "auth_moves ad W m" and "s_world s \<in> W" and "m s = (r, t)"
  shows "s_world t \<in> W" and "(auth_step ad (token_hashes ad W))\<^sup>*\<^sup>* (s_db s) (s_db t)"
  using assms unfolding auth_moves_def by blast+

section \<open>Composition\<close>

lemma auth_moves_ret [intro]: "auth_moves ad W (ret a)"
  and auth_moves_throw [intro]: "auth_moves ad W (throw e)"
  and auth_moves_now [intro]: "auth_moves ad W get_now"
  by (rule auth_movesI, simp)+

lemma auth_moves_attempt:
  assumes "auth_moves ad W m" and "\<And>r. auth_moves ad W (k r)"
  shows "auth_moves ad W (attempt m k)"
proof (rule auth_movesI)
  fix s r t assume s: "s_world s \<in> W" and run: "attempt m k s = (r, t)"
  obtain q s1 where m: "m s = (q, s1)" by fastforce
  with run have k: "k q s1 = (r, t)" by simp
  from auth_movesD [OF assms(1) s m] auth_movesD [OF assms(2) _ k]
  show "s_world t \<in> W \<and> (auth_step ad (token_hashes ad W))\<^sup>*\<^sup>* (s_db s) (s_db t)"
    by (meson rtranclp_trans)
qed

lemma auth_moves_sum:
  "(\<And>a. auth_moves ad W (f a)) \<Longrightarrow> (\<And>b. auth_moves ad W (g b)) \<Longrightarrow>
    auth_moves ad W (case r of Inl a \<Rightarrow> f a | Inr b \<Rightarrow> g b)"
  by (cases r) auto

lemma auth_moves_option:
  "auth_moves ad W f \<Longrightarrow> (\<And>b. auth_moves ad W (g b)) \<Longrightarrow> auth_moves ad W (case r of None \<Rightarrow> f | Some b \<Rightarrow> g b)"
  by (cases r) auto

lemma auth_moves_if: "auth_moves ad W f \<Longrightarrow> auth_moves ad W g \<Longrightarrow> auth_moves ad W (if c then f else g)"
  by simp

lemma auth_moves_bindE:
  assumes "auth_moves ad W m" and "\<And>a. auth_moves ad W (k a)"
  shows "auth_moves ad W (bindE m k)"
  unfolding bindE_def using assms by (intro auth_moves_attempt auth_moves_sum auth_moves_throw)

lemma auth_moves_wrap:
  assumes "auth_moves ad W m"
  shows "auth_moves ad W (wrap_err p m)"
  unfolding wrap_err_def using assms by (intro auth_moves_attempt auth_moves_sum auth_moves_throw auth_moves_ret)

lemma auth_moves_lift: "auth_moves ad W (lift_res r)"
  unfolding lift_res_def by (intro auth_moves_sum auth_moves_throw auth_moves_ret)

lemma auth_moves_world:
  fixes ad :: "('w, 'b) auth_deps"
  assumes "\<And>w. w \<in> W \<Longrightarrow> snd (f w) \<in> W"
  shows "auth_moves ad W (on_world f)"
proof (rule auth_movesI)
  fix s t :: "('b auth_db, 'w) sess" and r assume s: "s_world s \<in> W" and run: "on_world f s = (r, t)"
  from assms [OF s] run show "s_world t \<in> W \<and> (auth_step ad (token_hashes ad W))\<^sup>*\<^sup>* (s_db s) (s_db t)"
    by (auto simp: on_world_def split: prod.splits)
qed

lemma auth_moves_stmt:
  fixes f :: "'b auth_db \<Rightarrow> string + 'b auth_db \<times> 'a" and ad :: "('w, 'b) auth_deps"
  assumes "\<And>d d1 a. f d = Inr (d1, a) \<Longrightarrow> d1 = d \<or> auth_step ad (token_hashes ad W) d d1"
  shows "auth_moves ad W (stmt tx f)"
proof (rule auth_movesI)
  fix s t and r :: "auth_err go_error + 'a" assume s: "s_world s \<in> W" and run: "stmt tx f s = (r, t)"
  show "s_world t \<in> W \<and> (auth_step ad (token_hashes ad W))\<^sup>*\<^sup>* (s_db s) (s_db t)"
  proof (cases r)
    case (Inl e)
    with stmt_InlD [of tx f s e t] run s show ?thesis by simp
  next
    case (Inr a)
    with run have st: "stmt tx f s = (Inr a :: auth_err go_error + 'a, t)" by simp
    from stmt_InrD [OF st] have f: "f (s_db s) = Inr (s_db t, a)" "s_world t = s_world s" by auto
    from assms [OF f(1)] f(2) s show ?thesis by auto
  qed
qed

lemma auth_moves_query: "auth_moves ad W (query tx f)"
  unfolding query_def by (rule auth_moves_stmt) simp

lemmas auth_moves_rules = auth_moves_ret auth_moves_throw auth_moves_now auth_moves_attempt auth_moves_sum
  auth_moves_option auth_moves_if auth_moves_bindE auth_moves_wrap auth_moves_lift auth_moves_query

section \<open>The operations\<close>

lemma register_tx_InrD:
  assumes "register_tx ad i email hash s = (Inr u, t)"
  shows "\<exists>d1 b. sql_insert_user (s_now s) i email hash (s_db s) = Inr (d1, ())
    \<and> ad_json ad [(''user_id'', i)] = Inr b
    \<and> s_db t = sql_insert_auth_outbox (s_now s) ''auth'' i ''USER_CREATED'' b d1 \<and> s_world t = s_world s"
proof -
  from assms obtain s1 s2 b where cu: "CreateUser True i email hash s = (Inr (), s1)"
    and b: "ad_json ad [(''user_id'', i)] = Inr b" and s2: "s2 = s1"
    and ob: "auth_InsertOutbox True ''auth'' i ''USER_CREATED'' b s2 = (Inr u, t)"
    by (auto simp: register_tx_def bindE_Inr_iff)
  from cu have "stmt True (sql_insert_user (s_now s) i email hash) s = (Inr () :: auth_err go_error + unit, s1)"
    by (auto simp: CreateUser_def bindE_Inr_iff attempt_def split: prod.splits sum.splits if_splits)
  note ins = stmt_InrD [OF this]
  from ob have "stmt True (\<lambda>d. Inr (sql_insert_auth_outbox (s_now s2) ''auth'' i ''USER_CREATED'' b d, ())) s2
      = (Inr u :: auth_err go_error + unit, t)"
    by (simp add: auth_InsertOutbox_def bindE_Inr_iff)
  note out = stmt_total_InrD [OF this]
  from ins out b s2 show ?thesis by auto
qed

interpretation same_world: world_order "(=)"
  by unfold_locales simp_all

lemma register_tx_world: "world_rel (=) (register_tx ad i email hash)"
  unfolding register_tx_def CreateUser_def auth_InsertOutbox_def by (intro same_world.world_rules)

lemma register_moves: "auth_moves ad W (auth_WithTx (register_tx ad i email hash))"
proof (rule auth_movesI)
  fix s t and r :: "auth_err go_error + unit"
  assume s: "s_world s \<in> W" and run: "auth_WithTx (register_tx ad i email hash) s = (r, t)"
  have "s_world t = s_world s"
    using world_relD [OF register_tx_world [THEN same_world.WithTx_rel] run [unfolded auth_WithTx_def]] by simp
  moreover from txm.withtx_result [OF run [unfolded auth_WithTx_def]]
  have "s_db t = s_db s \<or> (\<exists>a. committed (register_tx ad i email hash) s a t)" by blast
  then have "(auth_step ad (token_hashes ad W))\<^sup>*\<^sup>* (s_db s) (s_db t)"
  proof
    assume "\<exists>a. committed (register_tx ad i email hash) s a t"
    then obtain a s1 s2 where "s_db s1 = s_db s" "register_tx ad i email hash s1 = (Inr a, s2)" "s_db t = s_db s2"
      unfolding committed_def by blast
    with register_tx_InrD [of ad i email hash s1 a s2] show ?thesis by (auto intro!: r_into_rtranclp as_register)
  qed simp
  ultimately show "s_world t \<in> W \<and> (auth_step ad (token_hashes ad W))\<^sup>*\<^sup>* (s_db s) (s_db t)" using s by simp
qed

lemma sql_insert_token_step:
  "sql_insert_token now i u h expiry d = Inr (d1, a) \<Longrightarrow> h \<in> H \<Longrightarrow> auth_step ad H d d1"
  using as_token by (metis (full_types) old.unit.exhaust)

lemma new_uuid_moves: "auth_closed ad wr W \<Longrightarrow> auth_moves ad W (new_uuid ad)"
  unfolding new_uuid_def by (rule auth_moves_world) (auto dest: auth_closedD split: prod.splits)

lemma HashPassword_moves: "auth_closed ad wr W \<Longrightarrow> auth_moves ad W (HashPassword ad pw)"
  unfolding HashPassword_def by (rule auth_moves_world) (auto dest: auth_closedD split: prod.splits sum.splits)

text \<open>The end of \<open>Login\<close> and \<open>Refresh\<close>, read off a successful run.\<close>

lemma issue_tokens_moves:
  fixes ad :: "('w, 'b) auth_deps"
  assumes "auth_closed ad wr W"
  shows "auth_moves ad W (issue_tokens ad uid)"
proof -
  let ?cfg = "ad_cfg ad"
  have save: "auth_moves ad W (SaveRefresh i uid (auth_SHA256 ad refresh) e)"
    if "auth_SHA256 ad refresh \<in> token_hashes ad W" for i refresh e
    unfolding SaveRefresh_def
    by (intro auth_moves_bindE auth_moves_now auth_moves_stmt) (blast intro: sql_insert_token_step that)
  note uuid = new_uuid_moves [OF assms]
  have draw: "auth_moves ad W (bindE (RandomToken ad 32) k)"
    if k: "\<And>refresh. auth_SHA256 ad refresh \<in> token_hashes ad W \<Longrightarrow> auth_moves ad W (k refresh)"
    for k :: "string \<Rightarrow> ('w, 'b, string \<times> string) auth_prog"
  proof (rule auth_movesI)
    fix s t :: "('b auth_db, 'w) sess" and r
    assume s: "s_world s \<in> W" and run: "bindE (RandomToken ad 32) k s = (r, t)"
    obtain q w1 where rand: "ad_rand ad 32 (s_world s) = (q, w1)" by fastforce
    with assms s have w1: "w1 \<in> W" unfolding auth_closed_def by (metis snd_conv)
    show "s_world t \<in> W \<and> (auth_step ad (token_hashes ad W))\<^sup>*\<^sup>* (s_db s) (s_db t)"
    proof (cases q)
      case (Inl e)
      with run rand w1 show ?thesis by (auto simp: RandomToken_def on_world_def bindE_def attempt_def)
    next
      case (Inr b)
      with rand s have "auth_SHA256 ad (base64_RawURL b) \<in> token_hashes ad W" unfolding token_hashes_def by blast
      from k [OF this] have "auth_moves ad W (k (base64_RawURL b))" .
      moreover have "k (base64_RawURL b) (s\<lparr>s_world := w1\<rparr>) = (r, t)"
        using run rand Inr by (simp add: RandomToken_def on_world_def bindE_def attempt_def)
      ultimately show ?thesis using auth_movesD [of ad W "k (base64_RawURL b)" "s\<lparr>s_world := w1\<rparr>" r t] w1 by simp
    qed
  qed
  show ?thesis
    unfolding issue_tokens_def Let_def GenerateAccess_def
    by (intro auth_moves_rules draw) (blast intro: save uuid auth_moves_rules)+
qed

lemma RevokeRefresh_moves: "auth_moves ad W (RevokeRefresh h)"
  unfolding RevokeRefresh_def
  by (intro auth_moves_bindE auth_moves_now auth_moves_stmt) (auto intro: as_revoke)

lemma refresh_check_moves: "auth_moves ad W (refresh_check ad refresh)"
  unfolding refresh_check_def GetRefresh_def by (intro auth_moves_rules) (auto intro: auth_moves_rules)

lemma auth_publish_events_moves:
  assumes "auth_closed ad wr W"
  shows "auth_moves ad W (auth_publish_events wr es)"
proof (induction es)
  case (Cons e es)
  have pub: "auth_moves ad W (on_world (auth_Publish wr topic key v))" for topic key v
    by (rule auth_moves_world)
      (use assms in \<open>auto simp: auth_Publish_def dest: auth_closedD split: prod.splits option.splits\<close>)
  have mark: "auth_moves ad W (stmt True (\<lambda>d. Inr (auth_mark now i d, ())))" for now i
    by (rule auth_moves_stmt) (auto intro: as_mark)
  show ?case
    unfolding auth_publish_events.simps by (intro auth_moves_option Cons.IH auth_moves_bindE pub mark auth_moves_now)
qed (simp only: auth_publish_events.simps auth_moves_ret)

lemma auth_processBatch_moves:
  fixes ad :: "('w, 'b) auth_deps"
  assumes "auth_closed ad wr W"
  shows "auth_moves ad W (auth_processBatch n wr)"
proof (rule auth_movesI)
  fix s t :: "('b auth_db, 'w) sess" and r
  assume s: "s_world s \<in> W" and run: "auth_processBatch n wr s = (r, t)"
  obtain oc s0 where oc: "take_outcome s = (oc, s0)" by fastforce
  note eq = take_outcome_eqD [OF oc]
  show "s_world t \<in> W \<and> (auth_step ad (token_hashes ad W))\<^sup>*\<^sup>* (s_db s) (s_db t)"
  proof (cases oc)
    case Proceed
    obtain q s1 where body: "auth_batch_body n wr (s0\<lparr>s_aborted := False\<rparr>) = (q, s1)" by fastforce
    have "auth_moves ad W (auth_batch_body n wr)"
      unfolding auth_batch_body_def
      by (intro auth_moves_rules auth_publish_events_moves [OF assms])
    from auth_movesD [OF this _ body] s eq
    have b: "s_world s1 \<in> W" "(auth_step ad (token_hashes ad W))\<^sup>*\<^sup>* (s_db s) (s_db s1)" by simp_all
    obtain err :: "auth_err go_error option" and s2 where cm: "commit s0 s1 = (err, s2)" by fastforce
    from run oc Proceed body cm have "t = s2 \<or> t = rollback s0 s1"
      by (cases q; cases "q = Inr True"; cases err) (auto simp: auth_processBatch_def split: bool.splits)
    then show ?thesis using b commit_cases [OF cm] eq by auto
  qed (use run oc eq s in \<open>auto simp: auth_processBatch_def\<close>)
qed

section \<open>Runs\<close>

datatype auth_call =
    CallRegister string string
  | CallLogin string string
  | CallRefresh string
  | CallRefreshCheck string         \<comment> \<open>the first half of a \<open>Refresh\<close>\<close>
  | CallRefreshRotate string string \<comment> \<open>the second half, for the user that the first one found\<close>
  | CallLogout string
  | CallAuthPublish

datatype auth_answer = AnsUser string | AnsTokens string string | AnsOk

fun auth_exec ::
  "('w, 'b) auth_deps \<Rightarrow> nat \<Rightarrow> ('w, 'b) writer \<Rightarrow> auth_call \<Rightarrow> ('w, 'b, auth_answer) auth_prog" where
  "auth_exec ad n wr (CallRegister email pw) = answer AnsUser (auth_Register ad email pw)"
| "auth_exec ad n wr (CallLogin email pw) = answer (\<lambda>(a, b). AnsTokens a b) (auth_Login ad email pw)"
| "auth_exec ad n wr (CallRefresh tok) = answer (\<lambda>(a, b). AnsTokens a b) (auth_Refresh ad tok)"
| "auth_exec ad n wr (CallRefreshCheck tok) = answer AnsUser (refresh_check ad tok)"
| "auth_exec ad n wr (CallRefreshRotate tok uid) = answer (\<lambda>(a, b). AnsTokens a b) (refresh_rotate ad tok uid)"
| "auth_exec ad n wr (CallLogout tok) = answer (\<lambda>_. AnsOk) (auth_Logout ad tok)"
| "auth_exec ad n wr CallAuthPublish = answer (\<lambda>_. AnsOk) (auth_processBatch n wr)"

type_synonym auth_result = "auth_err go_error + auth_answer"

text \<open>Between two calls the world may move as \<open>env\<close> allows.\<close>

inductive auth_run ::
  "('w, 'b) auth_deps \<Rightarrow> nat \<Rightarrow> ('w, 'b) writer \<Rightarrow> ('w \<Rightarrow> 'w \<Rightarrow> bool) \<Rightarrow> 'b auth_db \<times> 'w
    \<Rightarrow> (auth_call \<times> auth_result) list \<Rightarrow> 'b auth_db \<times> 'w \<Rightarrow> bool"
  for ad n wr env where
  arun_nil: "env w w' \<Longrightarrow> auth_run ad n wr env (d, w) [] (d, w')"
| arun_cons: "env w w1 \<Longrightarrow> auth_exec ad n wr call (session d w1 script now) = (r, t) \<Longrightarrow>
    auth_run ad n wr env (s_db t, s_world t) tr st' \<Longrightarrow>
    auth_run ad n wr env (d, w) ((call, r) # tr) st'"

inductive_cases auth_run_nilE [elim!]: "auth_run ad n wr env st [] st'"
inductive_cases auth_run_consE: "auth_run ad n wr env st (e # tr) st'"

fun auth_calls ::
  "('w, 'b) auth_deps \<Rightarrow> nat \<Rightarrow> ('w, 'b) writer \<Rightarrow> (auth_call \<times> outcome list \<times> int) list
    \<Rightarrow> 'b auth_db \<times> 'w \<Rightarrow> (auth_call \<times> auth_result) list \<times> ('b auth_db \<times> 'w)" where
  "auth_calls ad n wr [] st = ([], st)"
| "auth_calls ad n wr ((call, script, now) # cs) st =
     (case auth_exec ad n wr call (session (fst st) (snd st) script now) of (r, t) \<Rightarrow>
       (case auth_calls ad n wr cs (s_db t, s_world t) of (tr, st') \<Rightarrow> ((call, r) # tr, st')))"

lemma auth_calls_run:
  assumes "\<And>w. env w w"
  shows "auth_calls ad n wr cs st = (tr, st') \<Longrightarrow> auth_run ad n wr env st tr st'"
proof (induction cs arbitrary: st tr)
  case Nil
  with assms show ?case by (cases st') (auto intro: arun_nil)
next
  case (Cons c cs)
  obtain d w where st: "st = (d, w)" by fastforce
  obtain call script now where c: "c = (call, script, now)" by (cases c) auto
  obtain r t where ex: "auth_exec ad n wr call (session d w script now) = (r, t)" by fastforce
  obtain tr1 where run: "auth_calls ad n wr cs (s_db t, s_world t) = (tr1, st')" and tr: "tr = (call, r) # tr1"
    using Cons.prems by (auto simp: c st ex split: prod.splits)
  from arun_cons [OF assms ex Cons.IH [OF run]] show ?case by (simp add: st tr)
qed

lemma answer_moves: "auth_moves ad W m \<Longrightarrow> auth_moves ad W (answer f m)"
  unfolding answer_def by (intro auth_moves_bindE auth_moves_ret)

lemma refresh_rotate_moves:
  assumes "auth_closed ad wr W"
  shows "auth_moves ad W (refresh_rotate ad refresh uid)"
  unfolding refresh_rotate_def
  by (intro auth_moves_attempt RevokeRefresh_moves issue_tokens_moves [OF assms])

lemma auth_Register_moves: "auth_closed ad wr W \<Longrightarrow> auth_moves ad W (auth_Register ad email pw)"
  unfolding auth_Register_def
  by (intro auth_moves_bindE auth_moves_wrap register_moves auth_moves_ret HashPassword_moves new_uuid_moves)

lemma GetUserByEmail_moves: "auth_moves ad W (GetUserByEmail email)"
  unfolding GetUserByEmail_def by (intro auth_moves_rules)

lemma auth_Login_moves:
  assumes "auth_closed ad wr W"
  shows "auth_moves ad W (auth_Login ad email pw)"
  unfolding auth_Login_def
  by (intro auth_moves_attempt auth_moves_sum GetUserByEmail_moves)
    (auto intro!: auth_moves_throw issue_tokens_moves [OF assms] split: prod.splits)

theorem auth_exec_refines:
  assumes "auth_closed ad wr W"
  shows "auth_moves ad W (auth_exec ad n wr call)"
  by (cases call)
    (auto simp: auth_Refresh_def auth_Logout_def
      intro!: answer_moves auth_Register_moves auth_Login_moves refresh_check_moves refresh_rotate_moves auth_moves_bindE
        RevokeRefresh_moves auth_processBatch_moves assms)

lemma auth_run_refines:
  assumes "auth_run ad n wr env st tr st'" and closed: "auth_closed ad wr W"
    and env: "\<And>w w'. w \<in> W \<Longrightarrow> env w w' \<Longrightarrow> w' \<in> W" and "snd st \<in> W"
  shows "snd st' \<in> W \<and> (auth_step ad (token_hashes ad W))\<^sup>*\<^sup>* (fst st) (fst st')"
  using assms(1,4)
proof (induction rule: auth_run.induct)
  case (arun_cons w w1 call d script now r t tr st')
  from env arun_cons have "s_world (session d w1 script now) \<in> W" by simp
  from auth_movesD [OF auth_exec_refines [OF closed] this arun_cons.hyps(2)] arun_cons.IH
  show ?case by (auto intro: rtranclp_trans)
qed (auto dest: env)

end
