(* ===== verification/AuthInv.thy ===== *)
theory AuthInv
  imports AuthExec
begin

text \<open>
  What holds of the auth tables in every reachable state, proved step by step of the abstract machine:
  unique accounts, owned tokens, one event per account; accounts never change; a hash whose tokens are
  revoked stays revoked. The second part reads the results of the operations.
\<close>

definition account_event :: "('w, 'b) auth_deps \<Rightarrow> 'b auth_outbox_row \<Rightarrow> bool" where
  "account_event ad e \<longleftrightarrow> a_aggregate_type e = ''auth'' \<and> a_event_type e = ''USER_CREATED''
     \<and> ad_json ad [(''user_id'', a_aggregate_id e)] = Inr (a_payload e)"

definition auth_inv :: "('w, 'b) auth_deps \<Rightarrow> 'b auth_db \<Rightarrow> bool" where
  "auth_inv ad d \<longleftrightarrow>
     distinct (map u_id (users d)) \<and> distinct (map u_email (users d))
     \<and> distinct (map t_id (refresh_tokens d)) \<and> t_user ` set (refresh_tokens d) \<subseteq> u_id ` set (users d)
     \<and> map a_aggregate_id (auth_outbox d) = map u_id (users d)
     \<and> (\<forall>e \<in> set (auth_outbox d). account_event ad e \<and> a_id e \<le> auth_outbox_serial d)
     \<and> sorted_wrt (<) (map a_id (auth_outbox d))"

lemma auth_inv_empty: "auth_inv ad empty_auth_db"
  by (simp add: auth_inv_def empty_auth_db_def)

lemma sql_insert_user_InrD:
  assumes "sql_insert_user now i email hash d = Inr (d1, a)"
  shows "d1 = d\<lparr>users := users d @ [\<lparr>u_id = i, u_email = email, u_password_hash = hash, u_created_at = now\<rparr>]\<rparr>
    \<and> i \<notin> u_id ` set (users d) \<and> email \<notin> u_email ` set (users d)"
  using assms by (auto simp: sql_insert_user_def split: if_splits)

lemma sql_insert_token_InrD:
  assumes "sql_insert_token now i u h expiry d = Inr (d1, a)"
  shows "d1 = d\<lparr>refresh_tokens := refresh_tokens d @ [\<lparr>t_id = i, t_user = u, t_hash = h, t_expires_at = expiry,
      t_revoked_at = None, t_created_at = now\<rparr>]\<rparr>
    \<and> i \<notin> t_id ` set (refresh_tokens d) \<and> u \<in> u_id ` set (users d)"
  using assms by (auto simp: sql_insert_token_def split: if_splits)

lemma map_keep: "(\<And>x. f (g x) = f x) \<Longrightarrow> map f (map g xs) = map f xs"
  by simp

lemma auth_step_inv:
  assumes "auth_step ad H d d'" and inv: "auth_inv ad d"
  shows "auth_inv ad d'"
  using assms(1)
proof cases
  case (as_register now i email hash d1 b)
  note ins = sql_insert_user_InrD [OF as_register(2)]
  from inv have "\<forall>e \<in> set (auth_outbox d). a_id e < auth_outbox_serial d + 1"
    by (simp add: auth_inv_def less_Suc_eq_le)
  with ins inv as_register(1,3) show ?thesis
    by (auto simp: auth_inv_def account_event_def sql_insert_auth_outbox_def sorted_wrt_append)
next
  case (as_token now i u h expiry)
  from sql_insert_token_InrD [OF as_token(1)] inv show ?thesis by (auto simp: auth_inv_def)
next
  case (as_revoke now h)
  have ids: "map t_id (refresh_tokens d') = map t_id (refresh_tokens d)"
    and owners: "map t_user (refresh_tokens d') = map t_user (refresh_tokens d)"
    unfolding as_revoke(1) sql_revoke_def by simp_all
  from owners have own: "t_user ` set (refresh_tokens d') = t_user ` set (refresh_tokens d)"
    by (metis list.set_map)
  have rest: "users d' = users d" "auth_outbox d' = auth_outbox d" "auth_outbox_serial d' = auth_outbox_serial d"
    unfolding as_revoke(1) sql_revoke_def by simp_all
  show ?thesis using inv unfolding auth_inv_def ids own rest .
next
  case (as_mark now i)
  have ids: "map a_id (auth_outbox d') = map a_id (auth_outbox d)"
    and accounts: "map a_aggregate_id (auth_outbox d') = map a_aggregate_id (auth_outbox d)"
    unfolding as_mark(1) auth_mark_def by simp_all
  have rest: "users d' = users d" "refresh_tokens d' = refresh_tokens d" "auth_outbox_serial d' = auth_outbox_serial d"
    unfolding as_mark(1) auth_mark_def by simp_all
  have "account_event ad e \<and> a_id e \<le> auth_outbox_serial d" if "e \<in> set (auth_outbox d')" for e
  proof -
    from that obtain e0 where "e0 \<in> set (auth_outbox d)" "e = (if a_id e0 = i then e0\<lparr>a_processed_at := Some now\<rparr> else e0)"
      unfolding as_mark(1) auth_mark_def by auto
    with inv show ?thesis by (cases "a_id e0 = i") (auto simp: auth_inv_def account_event_def)
  qed
  then show ?thesis using inv unfolding auth_inv_def ids accounts rest by blast
qed

lemma auth_steps_inv: "(auth_step ad H)\<^sup>*\<^sup>* d d' \<Longrightarrow> auth_inv ad d \<Longrightarrow> auth_inv ad d'"
  by (induction rule: rtranclp_induct) (auto intro: auth_step_inv)

text \<open>Accounts are only added.\<close>

lemma auth_step_users: "auth_step ad H d d' \<Longrightarrow> prefix (users d) (users d')"
  by (induction rule: auth_step.induct)
    (auto dest!: sql_insert_user_InrD sql_insert_token_InrD simp: sql_insert_auth_outbox_def sql_revoke_def auth_mark_def)

lemma auth_steps_users: "(auth_step ad H)\<^sup>*\<^sup>* d d' \<Longrightarrow> prefix (users d) (users d')"
  by (induction rule: rtranclp_induct) (auto dest: auth_step_users intro: prefix_order.trans)

text \<open>A hash whose tokens are all revoked stays so while no token with that hash is drawn.\<close>

definition all_revoked :: "string \<Rightarrow> 'b auth_db \<Rightarrow> bool" where
  "all_revoked h d \<longleftrightarrow> (\<forall>r \<in> set (refresh_tokens d). \<not> live_token h r)"

lemma live_sql_revoke:
  assumes "r \<in> set (refresh_tokens (sql_revoke now h d))" and "live_token k r"
  shows "r \<in> set (refresh_tokens d) \<and> t_hash r \<noteq> h"
proof -
  from assms(1) obtain r0 where "r0 \<in> set (refresh_tokens d)"
    "r = (if t_hash r0 = h then r0\<lparr>t_revoked_at := Some now\<rparr> else r0)"
    by (auto simp: sql_revoke_def simp del: if_image_distrib)
  with assms(2) show ?thesis by (cases "t_hash r0 = h") (simp_all add: live_token_def)
qed

lemma all_revoked_sql_revoke [simp]: "all_revoked h (sql_revoke now h d)"
  using live_sql_revoke by (fastforce simp: all_revoked_def live_token_def)

lemma auth_step_revoked:
  assumes "auth_step ad H d d'" and "all_revoked h d" and "h \<notin> H"
  shows "all_revoked h d'"
  using assms(1)
proof cases
  case (as_register now i email hash d1 b)
  from sql_insert_user_InrD [OF as_register(2)] as_register(1) assms(2) show ?thesis
    by (simp add: all_revoked_def sql_insert_auth_outbox_def)
next
  case (as_token now i u h' expiry)
  from sql_insert_token_InrD [OF as_token(1)] as_token(2) assms(2,3) show ?thesis
    by (auto simp: all_revoked_def live_token_def)
next
  case (as_revoke now h')
  with assms(2) live_sql_revoke show ?thesis unfolding all_revoked_def by blast
next
  case (as_mark now i)
  with assms(2) show ?thesis by (simp add: all_revoked_def auth_mark_def)
qed

lemma auth_steps_revoked: "(auth_step ad H)\<^sup>*\<^sup>* d d' \<Longrightarrow> h \<notin> H \<Longrightarrow> all_revoked h d \<Longrightarrow> all_revoked h d'"
  by (induction rule: rtranclp_induct) (auto intro: auth_step_revoked)

section \<open>Results\<close>

text \<open>A token none of whose rows is live is refused, whatever fails.\<close>

lemma refresh_check_revoked:
  assumes "all_revoked (auth_SHA256 ad tok) (s_db s)"
  shows "\<exists>e. fst (refresh_check ad tok s) = Inl e"
proof -
  have none: "find (live_token (auth_SHA256 ad tok)) (refresh_tokens (s_db s)) = None"
    using assms by (auto simp: all_revoked_def find_None_conv)
  have False if "refresh_check ad tok s = (Inr u, t)" for u t
    using that none by (auto simp: refresh_check_def GetRefresh_def bindE_Inr_iff dest!: query_InrD split: option.splits)
  then show ?thesis by (metis old.sum.exhaust prod.collapse)
qed

lemma auth_Refresh_revoked:
  assumes "all_revoked (auth_SHA256 ad tok) (s_db s)"
  shows "\<exists>e. fst (auth_Refresh ad tok s) = Inl e"
proof -
  obtain e t where "refresh_check ad tok s = (Inl e, t)"
    using refresh_check_revoked [OF assms] by (metis prod.collapse)
  then show ?thesis by (simp add: auth_Refresh_def)
qed

lemma RevokeRefresh_InrD:
  "RevokeRefresh h s = (Inr u, t) \<Longrightarrow> s_db t = sql_revoke (s_now s) h (s_db s) \<and> s_world t = s_world s \<and> s_now t = s_now s"
  by (auto simp: RevokeRefresh_def bindE_Inr_iff dest!: stmt_total_InrD)

lemma refresh_check_InrD:
  assumes "refresh_check ad tok s = (Inr uid, t)"
  shows "\<exists>r \<in> set (refresh_tokens (s_db s)). live_token (auth_SHA256 ad tok) r \<and> t_user r = uid
    \<and> s_now s \<le> t_expires_at r"
    and "s_db t = s_db s" and "s_world t = s_world s" and "s_now t = s_now s"
  using assms
  by (auto simp: refresh_check_def GetRefresh_def bindE_Inr_iff dest!: query_InrD find_SomeD
      split: option.splits if_splits)

text \<open>What tokens were issued: the access token carries the user, the refresh token is a new live row.\<close>

definition token_added ::
  "('w, 'b) auth_deps \<Rightarrow> string \<Rightarrow> string \<Rightarrow> int \<Rightarrow> 'b auth_db \<Rightarrow> 'b auth_db \<Rightarrow> bool" where
  "token_added ad uid refresh now d d' \<longleftrightarrow>
     (\<exists>i. d' = d\<lparr>refresh_tokens := refresh_tokens d @ [\<lparr>t_id = i, t_user = uid, t_hash = auth_SHA256 ad refresh,
        t_expires_at = now + cf_RefreshTokenTTL (ad_cfg ad), t_revoked_at = None, t_created_at = now\<rparr>]\<rparr>
      \<and> i \<notin> t_id ` set (refresh_tokens d) \<and> uid \<in> u_id ` set (users d))"

definition access_for :: "('w, 'b) auth_deps \<Rightarrow> string \<Rightarrow> int \<Rightarrow> string \<Rightarrow> bool" where
  "access_for ad uid now access \<longleftrightarrow>
     ad_sign ad (cf_JWTSecret (ad_cfg ad)) (access_claims uid (cf_JWTIssuer (ad_cfg ad)) (cf_JWTAudience (ad_cfg ad))
       (cf_AccessTokenTTL (ad_cfg ad)) now) = Inr access"

lemma issue_tokens_InrD:
  assumes "issue_tokens ad uid s = (Inr (access, refresh), t)"
  shows "access_for ad uid (s_now s) access \<and> token_added ad uid refresh (s_now s) (s_db s) (s_db t)
    \<and> (\<exists>b w w'. ad_rand ad 32 w = (Inr b, w') \<and> refresh = base64_RawURL b \<and> w = s_world s)"
proof -
  from assms obtain s1 s2 i where
      acc: "access_for ad uid (s_now s) access"
    and rnd: "RandomToken ad 32 s = (Inr refresh, s1)"
    and uu: "new_uuid ad s1 = (Inr i, s2)"
    and save: "SaveRefresh i uid (auth_SHA256 ad refresh) (s_now s2 + cf_RefreshTokenTTL (ad_cfg ad)) s2 = (Inr (), t)"
    by (auto simp: issue_tokens_def Let_def GenerateAccess_def access_for_def bindE_Inr_iff)
  from rnd have r: "\<exists>b w'. ad_rand ad 32 (s_world s) = (Inr b, w') \<and> refresh = base64_RawURL b"
    "s_db s1 = s_db s" "s_now s1 = s_now s"
    by (auto simp: RandomToken_def on_world_def split: prod.splits sum.splits)
  from uu have "s_db s2 = s_db s1" "s_now s2 = s_now s1"
    by (auto simp: new_uuid_def on_world_def split: prod.splits)
  moreover from save have "sql_insert_token (s_now s2) i uid (auth_SHA256 ad refresh)
      (s_now s2 + cf_RefreshTokenTTL (ad_cfg ad)) (s_db s2) = Inr (s_db t, ())"
    by (auto simp: SaveRefresh_def bindE_Inr_iff dest!: stmt_InrD)
  note sql_insert_token_InrD [OF this]
  ultimately show ?thesis using acc r by (auto simp: token_added_def)
qed

lemma auth_Login_cases:
  assumes "s_script s = []"
  shows "auth_Login ad email pw s =
    (case find (\<lambda>r. u_email r = email) (users (s_db s)) of
       None \<Rightarrow> (Inl (Domain ErrInvalidCredentials), s)
     | Some r \<Rightarrow> if ad_bcrypt_compare ad (u_password_hash r) pw = None then issue_tokens ad (u_id r) s
         else (Inl (Domain ErrInvalidCredentials), s))"
  by (simp add: query_ok assms auth_Login_def GetUserByEmail_def ComparePassword_def attempt_def bindE_def split: option.splits)

lemma auth_Register_InrD:
  assumes "auth_Register ad email pw s = (Inr uid, t)"
  shows "\<exists>r \<in> set (users (s_db t)). u_id r = uid \<and> u_email r = email
    \<and> (\<exists>w w'. ad_bcrypt ad pw w = (Inr (u_password_hash r), w'))"
proof -
  from assms obtain hash s1 s2 s3 where hash: "HashPassword ad pw s = (Inr hash, s1)"
    and run: "auth_WithTx (register_tx ad uid email hash) s2 = (Inr (), t)"
    by (auto simp: auth_Register_def bindE_Inr_iff)
  from hash have "\<exists>w'. ad_bcrypt ad pw (s_world s) = (Inr hash, w')"
    by (auto simp: HashPassword_def on_world_def split: prod.splits sum.splits)
  moreover from txm.success [OF run [unfolded auth_WithTx_def]] obtain s4 s5 where
    "register_tx ad uid email hash s4 = (Inr (), s5)" "s_db t = s_db s5" unfolding committed_def by blast
  with register_tx_InrD [of ad uid email hash s4 "()" s5] obtain d1 b now where
    "sql_insert_user now uid email hash (s_db s4) = Inr (d1, ())"
    "s_db t = sql_insert_auth_outbox now ''auth'' uid ''USER_CREATED'' b d1" by auto
  with sql_insert_user_InrD [of now uid email hash "s_db s4" d1 "()"] have
    "\<lparr>u_id = uid, u_email = email, u_password_hash = hash, u_created_at = now\<rparr> \<in> set (users (s_db t))"
    by (simp add: sql_insert_auth_outbox_def)
  ultimately show ?thesis by force
qed

end
