(* ===== verification/AuthGrpc.thy ===== *)
theory AuthGrpc
  imports AuthInv Grpc
begin

text \<open>
  The two servers of the auth service: gRPC (\<^verbatim>\<open>internal/transport/grpc\<close>), behind the gateway, and HTTP
  (\<^verbatim>\<open>internal/handler\<close>). Neither asks for an identity: they are what hands identities out.
\<close>

section \<open>gRPC\<close>

definition auth_MapError :: "(auth_err go_error \<Rightarrow> bool) \<Rightarrow> auth_err go_error \<Rightarrow> auth_err go_error" where
  "auth_MapError is_status err =
     (if is_status err then err
      else if errors_Is_any err [ErrInvalidCredentials, ErrInvalidToken]
      then Status Unauthenticated (err_text auth_err_text err)
      else if errors_Is err ErrUserNotFound then Status NotFound (err_text auth_err_text err)
      else if errors_Is err ErrEmailConflict then Status AlreadyExists (err_text auth_err_text err)
      else Status Internal ''internal server error'')"

datatype auth_request =
    RegisterRequest string string
  | LoginRequest string string
  | RefreshRequest string
  | LogoutRequest string

datatype auth_response =
    RegisterResponse string
  | LoginResponse string string
  | RefreshResponse string string
  | LogoutResponse

fun auth_serve ::
  "(auth_err go_error \<Rightarrow> bool) \<Rightarrow> ('w, 'b) auth_deps \<Rightarrow> auth_request \<Rightarrow> ('w, 'b, auth_response) auth_prog" where
  "auth_serve is_status ad (RegisterRequest email pw) =
     bindE (mapping_errors (auth_MapError is_status) (auth_Register ad email pw)) (\<lambda>uid. ret (RegisterResponse uid))"
| "auth_serve is_status ad (LoginRequest email pw) =
     bindE (mapping_errors (auth_MapError is_status) (auth_Login ad email pw)) (\<lambda>(a, r). ret (LoginResponse a r))"
| "auth_serve is_status ad (RefreshRequest tok) =
     bindE (mapping_errors (auth_MapError is_status) (auth_Refresh ad tok)) (\<lambda>(a, r). ret (RefreshResponse a r))"
| "auth_serve is_status ad (LogoutRequest tok) =
     bindE (mapping_errors (auth_MapError is_status) (auth_Logout ad tok)) (\<lambda>_. ret LogoutResponse)"

text \<open>The error mapper as a table.\<close>

fun auth_code :: "auth_err \<Rightarrow> code" where
  "auth_code ErrInvalidCredentials = Unauthenticated"
| "auth_code ErrInvalidToken = Unauthenticated"
| "auth_code ErrUserNotFound = NotFound"
| "auth_code ErrEmailConflict = AlreadyExists"

lemma auth_MapError_table:
  assumes "\<not> is_status err"
  shows "auth_MapError is_status err =
    (case sentinel err of
       None \<Rightarrow> Status Internal ''internal server error''
     | Some d \<Rightarrow> Status (auth_code d) (err_text auth_err_text err))"
proof (cases "sentinel err")
  case None
  with assms show ?thesis by (simp add: auth_MapError_def errors_Is_any_def errors_Is_sentinel)
next
  case (Some d)
  with assms show ?thesis by (cases d) (simp_all add: auth_MapError_def errors_Is_any_def errors_Is_sentinel)
qed

text \<open>The call that a request stands for.\<close>

fun auth_call_of :: "auth_request \<Rightarrow> auth_call" where
  "auth_call_of (RegisterRequest email pw) = CallRegister email pw"
| "auth_call_of (LoginRequest email pw) = CallLogin email pw"
| "auth_call_of (RefreshRequest tok) = CallRefresh tok"
| "auth_call_of (LogoutRequest tok) = CallLogout tok"

lemma bindE_ret_case_snd: "snd (bindE m (\<lambda>(a, b). ret (f a b)) s) = snd (m s)"
  by (cases "m s"; cases "fst (m s)") (auto simp: bindE_def attempt_def)

lemma auth_serve_exec: "snd (auth_serve is_status ad req s) = snd (auth_exec ad n wr (auth_call_of req) s)"
  by (cases req) (simp_all add: serve_snd bindE_ret_case_snd)

section \<open>HTTP\<close>

type_synonym ('w, 'b) auth_http = "('w, 'b, unit http_reply) auth_prog"

text \<open>The decoded body: email and password, or a refresh token.\<close>

definition with_credentials ::
  "(string \<Rightarrow> string \<Rightarrow> ('w, 'b) auth_http) \<Rightarrow> string + string \<times> string \<Rightarrow> ('w, 'b) auth_http" where
  "with_credentials f body =
     (case body of
        Inl _ \<Rightarrow> ret (json_error 400 ''invalid request body'')
      | Inr (email, pw) \<Rightarrow>
          if email = [] \<or> pw = [] then ret (json_error 400 ''email and password required'') else f email pw)"

definition with_refresh_token :: "(string \<Rightarrow> ('w, 'b) auth_http) \<Rightarrow> string + string \<Rightarrow> ('w, 'b) auth_http" where
  "with_refresh_token f body =
     (case body of
        Inl _ \<Rightarrow> ret (json_error 400 ''invalid request body'')
      | Inr tok \<Rightarrow> if tok = [] then ret (json_error 400 ''refresh token required'') else f tok)"

definition tokens_body :: "string \<Rightarrow> string \<Rightarrow> 'r http_body" where
  "tokens_body access refresh = MapBody [(''access_token'', access), (''refresh_token'', refresh)]"

definition http_Register :: "('w, 'b) auth_deps \<Rightarrow> string + string \<times> string \<Rightarrow> ('w, 'b) auth_http" where
  "http_Register ad = with_credentials (\<lambda>email pw.
     attempt (auth_Register ad email pw) (\<lambda>r. case r of
       Inl err \<Rightarrow> ret (json_error 400 (err_text auth_err_text err))
     | Inr userID \<Rightarrow> ret (reply 201 (MapBody [(''user_id'', userID)]))))"

definition http_Login :: "('w, 'b) auth_deps \<Rightarrow> string + string \<times> string \<Rightarrow> ('w, 'b) auth_http" where
  "http_Login ad = with_credentials (\<lambda>email pw.
     attempt (auth_Login ad email pw) (\<lambda>r. case r of
       Inl _ \<Rightarrow> ret (json_error 401 ''invalid credentials'')
     | Inr (access, refresh) \<Rightarrow> ret (reply 200 (tokens_body access refresh))))"

definition http_Refresh :: "('w, 'b) auth_deps \<Rightarrow> string + string \<Rightarrow> ('w, 'b) auth_http" where
  "http_Refresh ad = with_refresh_token (\<lambda>tok.
     attempt (auth_Refresh ad tok) (\<lambda>r. case r of
       Inl _ \<Rightarrow> ret (json_error 401 ''invalid refresh token'')
     | Inr (access, refresh) \<Rightarrow> ret (reply 200 (tokens_body access refresh))))"

definition http_Logout :: "('w, 'b) auth_deps \<Rightarrow> string + string \<Rightarrow> ('w, 'b) auth_http" where
  "http_Logout ad = with_refresh_token (\<lambda>tok. attempt (auth_Logout ad tok) (\<lambda>_. ret (reply 204 NoBody)))"

definition auth_Health :: "('w, 'b) auth_http" where
  "auth_Health = ret (reply 200 (TextBody ''ok''))"

definition auth_Ready :: "('w, 'b) auth_http" where
  "auth_Ready = attempt (query False (\<lambda>_. ())) (\<lambda>r. case r of
     Inl _ \<Rightarrow> ret (reply 503 NoBody) | Inr _ \<Rightarrow> ret (reply 200 (TextBody ''ready'')))"

text \<open>The routes, all of them \<open>POST\<close>.\<close>

datatype auth_http_request =
    PostRegister "string + string \<times> string"
  | PostLogin "string + string \<times> string"
  | PostRefresh "string + string"
  | PostLogout "string + string"

fun auth_route :: "('w, 'b) auth_deps \<Rightarrow> auth_http_request \<Rightarrow> ('w, 'b) auth_http" where
  "auth_route ad (PostRegister b) = http_Register ad b"
| "auth_route ad (PostLogin b) = http_Login ad b"
| "auth_route ad (PostRefresh b) = http_Refresh ad b"
| "auth_route ad (PostLogout b) = http_Logout ad b"

end
