(* ===== verification/AuthProps.thy ===== *)
theory AuthProps
  imports AuthGrpc
begin

text \<open>
  The properties of the auth service, with a concrete service to apply them to: a random source that
  counts, hashes that tag their input, a broker that keeps its log.
\<close>

record demo_world =
  dw_next :: nat
  dw_log :: "string kafka_msg list"

definition demo_text :: "nat \<Rightarrow> string" where
  "demo_text n = replicate n CHR ''i''"

definition demo_draw :: "'a demo_world_scheme \<Rightarrow> nat \<times> 'a demo_world_scheme" where
  "demo_draw w = (dw_next w, w\<lparr>dw_next := dw_next w + 1\<rparr>)"

definition demo_auth :: "(demo_world, string) auth_deps" where
  "demo_auth = \<lparr>
     ad_bcrypt = (\<lambda>pw w. (Inr (''$2a$'' @ pw), w)),
     ad_bcrypt_compare = (\<lambda>h pw. if h = ''$2a$'' @ pw then None else Some ''mismatch''),
     ad_sha256 = (\<lambda>t. ''h'' @ t),
     ad_rand = (\<lambda>n w. case demo_draw w of (k, w') \<Rightarrow> (Inr (demo_text k), w')),
     ad_uuid = (\<lambda>w. case demo_draw w of (k, w') \<Rightarrow> (CHR ''u'' # demo_text k, w')),
     ad_sign = (\<lambda>secret c. Inr (''0123456789'' @ jc_sub c)),
     ad_json = (\<lambda>kvs. Inr (concat (map snd kvs))),
     ad_cfg = \<lparr>cf_JWTSecret = ''s'', cf_JWTIssuer = ''i'', cf_JWTAudience = ''a'', cf_AccessTokenTTL = 900,
       cf_RefreshTokenTTL = 1000\<rparr>\<rparr>"

definition demo_writer :: "(demo_world, string) writer" where
  "demo_writer m w = (None, w\<lparr>dw_log := dw_log w @ [m]\<rparr>)"

definition demo_start :: demo_world where
  "demo_start = \<lparr>dw_next = 0, dw_log = []\<rparr>"

text \<open>Register, publish, log in, refresh with a failed statement on the way, log out.\<close>

definition demo_auth_calls :: "(auth_call \<times> outcome list \<times> int) list" where
  "demo_auth_calls = [
     (CallRegister ''ann@x'' ''pw'', [], 1),
     (CallRegister ''ann@x'' ''other'', [], 2),
     (CallAuthPublish, [], 3),
     (CallLogin ''ann@x'' ''pw'', [], 4),
     (CallLogin ''ann@x'' ''wrong'', [], 5),
     (CallRegister ''bob@x'' ''pw'', [Proceed, Proceed, Proceed, Lost], 6)]"

definition demo_auth_end :: "(auth_call \<times> auth_result) list \<times> (string auth_db \<times> demo_world)" where
  "demo_auth_end = auth_calls demo_auth 10 demo_writer demo_auth_calls (empty_auth_db, demo_start)"

lemma demo_auth_run:
  "auth_run demo_auth 10 demo_writer (=) (empty_auth_db, demo_start) (fst demo_auth_end)
     (fst (snd demo_auth_end), snd (snd demo_auth_end))"
  by (rule auth_calls_run) (simp_all add: demo_auth_end_def)

lemma auth_reach:
  assumes "auth_run ad n wr env st tr st'" and "auth_inv ad (fst st)"
  shows "auth_inv ad (fst st')" and "prefix (users (fst st)) (users (fst st'))"
proof -
  from auth_run_refines [OF assms(1) auth_closed_UNIV]
  have steps: "(auth_step ad (token_hashes ad UNIV))\<^sup>*\<^sup>* (fst st) (fst st')" by simp
  show "auth_inv ad (fst st')" by (rule auth_steps_inv [OF steps assms(2)])
  show "prefix (users (fst st)) (users (fst st'))" by (rule auth_steps_users [OF steps])
qed

section \<open>Accounts\<close>

text \<open>C9: Every state the auth service reaches, under any calls, interleaved halves of refreshes, polls and
  database failures, satisfies the invariant of its tables: ids and emails of accounts are unique, every
  refresh token belongs to an account, and the outbox holds exactly one \<open>USER_CREATED\<close> event per account, in
  the order of the accounts, with the account's id in its payload.\<close>

theorem auth_tables_invariant:
  assumes "auth_run ad n wr env (empty_auth_db, w0) tr (d, w)"
  shows "auth_inv ad d"
  using auth_reach(1) [OF assms] by (simp add: auth_inv_empty)

theorem auth_tables_invariant_witness:
  "auth_inv demo_auth (fst (snd demo_auth_end)) \<and> length (users (fst (snd demo_auth_end))) = 2"
proof -
  have "length (users (fst (snd demo_auth_end))) = 2" by code_simp
  with auth_tables_invariant [OF demo_auth_run] show ?thesis by simp
qed

text \<open>What the password hash promises: the password it was made from is accepted.\<close>

definition bcrypt_ok :: "('w, 'b) auth_deps \<Rightarrow> bool" where
  "bcrypt_ok ad \<longleftrightarrow> (\<forall>pw w h w'. ad_bcrypt ad pw w = (Inr h, w') \<longrightarrow> ad_bcrypt_compare ad h pw = None)"

text \<open>C18: A registered user can log in from then on: whatever other calls and failures come between, a login with the
  email issues tokens for exactly the registered id when the password is one the stored hash accepts, which the
  registered password is, and otherwise answers \<open>ErrInvalidCredentials\<close> and changes nothing.\<close>

theorem registered_user_logs_in:
  assumes "bcrypt_ok ad" and "auth_run ad n wr env (empty_auth_db, w0) tr0 (d0, w1)"
    and "auth_Register ad email pw (session d0 w1 script now) = (Inr uid, t)"
    and "auth_run ad n wr env (s_db t, s_world t) tr (d, w)"
  shows "\<exists>h. ad_bcrypt_compare ad h pw = None \<and>
    (\<forall>q s. s_db s = d \<longrightarrow> s_script s = [] \<longrightarrow>
       auth_Login ad email q s =
         (if ad_bcrypt_compare ad h q = None then issue_tokens ad uid s
          else (Inl (Domain ErrInvalidCredentials), s)))"
proof -
  from auth_Register_InrD [OF assms(3)] obtain r where
    r: "r \<in> set (users (s_db t))" "u_id r = uid" "u_email r = email"
      "\<exists>w w'. ad_bcrypt ad pw w = (Inr (u_password_hash r), w')" by blast
  have "auth_inv ad d0" using auth_reach(1) [OF assms(2)] by (simp add: auth_inv_empty)
  from auth_movesD(2) [OF auth_exec_refines [OF auth_closed_UNIV [of ad wr], of n "CallRegister email pw"],
      of "session d0 w1 script now" "Inr (AnsUser uid)" t] assms(3)
  have "(auth_step ad (token_hashes ad UNIV))\<^sup>*\<^sup>* d0 (s_db t)" by (simp add: answer_Inr_iff)
  from auth_steps_inv [OF this \<open>auth_inv ad d0\<close>] have "auth_inv ad (s_db t)" .
  with auth_reach [OF assms(4)] r(1) have d: "auth_inv ad d" "r \<in> set (users d)"
    by (auto simp: prefix_def)
  then have "find (\<lambda>x. u_email x = email) (users d) = Some r"
    using find_unique [of u_email "users d" r email] r(3) by (simp add: auth_inv_def)
  with auth_Login_cases r(2) have "auth_Login ad email q s =
      (if ad_bcrypt_compare ad (u_password_hash r) q = None then issue_tokens ad uid s
       else (Inl (Domain ErrInvalidCredentials), s))" if "s_db s = d" "s_script s = []" for q s
    using that by fastforce
  with r(4) assms(1) show ?thesis unfolding bcrypt_ok_def by blast
qed

theorem registered_user_logs_in_witness:
  "\<exists>tok s'. auth_Login demo_auth ''ann@x'' ''pw'' (session (fst (snd demo_auth_end)) (snd (snd demo_auth_end)) [] 9)
     = (Inr tok, s')"
proof -
  let ?reg = "auth_Register demo_auth ''ann@x'' ''pw'' (session empty_auth_db demo_start [] 1)"
  let ?st = "(s_db (snd ?reg), s_world (snd ?reg))"
  let ?rest = "auth_calls demo_auth 10 demo_writer (tl demo_auth_calls) ?st"
  have first: "?reg = (Inr ''u'', snd ?reg)" by (subst prod.collapse [symmetric], subst prod.inject) code_simp
  have start: "auth_run demo_auth 10 demo_writer (=) (empty_auth_db, demo_start) [] (empty_auth_db, demo_start)"
    by (rule arun_nil) simp
  have rest: "auth_run demo_auth 10 demo_writer (=) ?st (fst ?rest) (fst (snd ?rest), snd (snd ?rest))"
    by (rule auth_calls_run) simp_all
  have same: "snd ?rest = snd demo_auth_end" by code_simp
  have ok: "bcrypt_ok demo_auth" by (simp add: bcrypt_ok_def demo_auth_def)
  let ?s = "session (fst (snd ?rest)) (snd (snd ?rest)) [] 9"
  from registered_user_logs_in [OF ok start first rest] obtain h where
    h: "ad_bcrypt_compare demo_auth h ''pw'' = None"
      "auth_Login demo_auth ''ann@x'' ''pw'' ?s = issue_tokens demo_auth ''u'' ?s" by force
  have "fst (issue_tokens demo_auth ''u'' ?s) = Inr (''0123456789u'', ''aWlpaWk'')" unfolding same by code_simp
  then have "issue_tokens demo_auth ''u'' ?s = (Inr (''0123456789u'', ''aWlpaWk''), snd (issue_tokens demo_auth ''u'' ?s))"
    by (metis prod.collapse)
  with h(2) show ?thesis unfolding same by metis
qed

section \<open>Refresh tokens\<close>

lemma RevokeRefresh_any:
  fixes q :: "auth_err go_error + unit"
  assumes "RevokeRefresh h s = (q, t)"
  shows "s_now t = s_now s \<and> (s_db t = s_db s \<or> s_db t = sql_revoke (s_now s) h (s_db s))"
proof -
  have st: "stmt False (\<lambda>d. Inr (sql_revoke (s_now s) h d, ())) s = (q, t)"
    using assms by (simp add: RevokeRefresh_def bindE_def attempt_def)
  show ?thesis
  proof (cases q)
    case (Inl e)
    with stmt_InlD [OF st [unfolded Inl]] show ?thesis by simp
  next
    case (Inr u)
    with stmt_total_InrD [OF st [unfolded Inr]] show ?thesis by simp
  qed
qed

text \<open>C22: A refresh gives tokens only for a live token, and for its owner: if it succeeds, the presented token is stored,
  not revoked and not expired, the access token is signed for the owner of that token, and exactly one new live
  refresh token of the same owner was stored, on tables in which the old one was revoked or left as it was.\<close>

theorem refresh_serves_the_owner:
  assumes "auth_Refresh ad tok s = (Inr (access, new), t)"
  shows "\<exists>r \<in> set (refresh_tokens (s_db s)). live_token (auth_SHA256 ad tok) r \<and> s_now s \<le> t_expires_at r
    \<and> access_for ad (t_user r) (s_now s) access
    \<and> (\<exists>d. (d = s_db s \<or> d = sql_revoke (s_now s) (auth_SHA256 ad tok) (s_db s))
         \<and> token_added ad (t_user r) new (s_now s) d (s_db t))"
proof -
  from assms obtain uid s1 where chk: "refresh_check ad tok s = (Inr uid, s1)"
    and rot: "refresh_rotate ad tok uid s1 = (Inr (access, new), t)"
    by (auto simp: auth_Refresh_def bindE_Inr_iff)
  note c = refresh_check_InrD [OF chk]
  obtain q s2 where rv: "RevokeRefresh (auth_SHA256 ad tok) s1 = (q :: auth_err go_error + unit, s2)" by fastforce
  with rot have iss: "issue_tokens ad uid s2 = (Inr (access, new), t)" by (simp add: refresh_rotate_def)
  from RevokeRefresh_any [OF rv] c(2,4) have s2: "s_now s2 = s_now s"
    "s_db s2 = s_db s \<or> s_db s2 = sql_revoke (s_now s) (auth_SHA256 ad tok) (s_db s)" by simp_all
  from issue_tokens_InrD [OF iss] s2 c(1) show ?thesis by auto
qed

text \<open>A login, its refresh token used once, then used again.\<close>

definition demo_refreshed :: "(auth_err go_error + string \<times> string) \<times> (string auth_db, demo_world) sess" where
  "demo_refreshed = auth_Refresh demo_auth ''aWk'' (session (fst (snd demo_auth_end)) (snd (snd demo_auth_end)) [] 9)"

lemma demo_refreshed_eq: "demo_refreshed = (Inr (''0123456789u'', ''aWlpaWk''), snd demo_refreshed)"
  by (subst prod.collapse [symmetric], subst prod.inject) code_simp

theorem refresh_serves_the_owner_witness:
  "\<exists>r \<in> set (refresh_tokens (fst (snd demo_auth_end))). live_token (auth_SHA256 demo_auth ''aWk'') r \<and> t_user r = ''u''"
proof -
  from refresh_serves_the_owner [OF demo_refreshed_eq [unfolded demo_refreshed_def]]
  obtain r where r: "r \<in> set (refresh_tokens (fst (snd demo_auth_end)))" "live_token (auth_SHA256 demo_auth ''aWk'') r"
    "access_for demo_auth (t_user r) 9 ''0123456789u''"
    by auto
  from r(3) have "t_user r = ''u''" by (simp add: access_for_def demo_auth_def access_claims_def)
  with r show ?thesis by blast
qed

text \<open>C5: A refresh token is refused for good once it was logged out, or used by a refresh none of whose statements
  failed: whatever calls, interleaved refreshes and failures follow, no refresh with it succeeds, as long as the
  random source does not draw a token with the same hash.\<close>

theorem used_token_stays_refused:
  assumes "auth_Logout ad tok s = (Inr (), t) \<or> (s_script s = [] \<and> auth_Refresh ad tok s = (Inr (access, new), t))"
    and "s_world s \<in> W" and "auth_closed ad wr W" and "\<forall>w \<in> W. \<forall>w'. env w w' \<longrightarrow> w' \<in> W"
    and "auth_SHA256 ad tok \<notin> token_hashes ad W"
    and "auth_run ad n wr env (s_db t, s_world t) tr (d, w)" and "s_db s' = d"
  shows "\<exists>e. fst (auth_Refresh ad tok s') = Inl e"
proof -
  let ?h = "auth_SHA256 ad tok"
  have "s_world t \<in> W \<and> all_revoked ?h (s_db t)"
  using assms(1)
  proof
    assume "auth_Logout ad tok s = (Inr (), t)"
    with RevokeRefresh_InrD [of ?h s "()" t] assms(2) show ?thesis by (simp add: auth_Logout_def)
  next
    assume "s_script s = [] \<and> auth_Refresh ad tok s = (Inr (access, new), t)"
    then obtain uid s1 where calm: "s_script s = []" and chk: "refresh_check ad tok s = (Inr uid, s1)"
      and rot: "refresh_rotate ad tok uid s1 = (Inr (access, new), t)"
      by (auto simp: auth_Refresh_def bindE_Inr_iff)
    have s1: "s1 = s"
      using chk calm
      by (auto simp: refresh_check_def GetRefresh_def bindE_def attempt_def query_ok split: option.splits if_splits)
    have "RevokeRefresh ?h s = (Inr () :: auth_err go_error + unit, s\<lparr>s_db := sql_revoke (s_now s) ?h (s_db s)\<rparr>)"
      using calm by (simp add: RevokeRefresh_def bindE_def attempt_def stmt_ok)
    with rot s1 have "issue_tokens ad uid (s\<lparr>s_db := sql_revoke (s_now s) ?h (s_db s)\<rparr>) = (Inr (access, new), t)"
      by (simp add: refresh_rotate_def)
    from auth_movesD [OF issue_tokens_moves [OF assms(3)] _ this] assms(2)
    have w: "s_world t \<in> W"
      and steps: "(auth_step ad (token_hashes ad W))\<^sup>*\<^sup>* (sql_revoke (s_now s) ?h (s_db s)) (s_db t)" by simp_all
    from w auth_steps_revoked [OF steps assms(5) all_revoked_sql_revoke] show ?thesis by simp
  qed
  then have w: "s_world t \<in> W" and none: "all_revoked ?h (s_db t)" by simp_all
  have "snd (d, w) \<in> W \<and> (auth_step ad (token_hashes ad W))\<^sup>*\<^sup>* (fst (s_db t, s_world t)) (fst (d, w))"
    by (rule auth_run_refines [OF assms(6,3)]) (use assms(4) w in auto)
  then have "(auth_step ad (token_hashes ad W))\<^sup>*\<^sup>* (s_db t) d" by simp
  from auth_steps_revoked [OF this assms(5) none] have "all_revoked ?h d" .
  with auth_Refresh_revoked assms(7) show ?thesis by blast
qed

text \<open>The worlds in which the counter has passed the number of the token in use.\<close>

lemma demo_later_worlds:
  "auth_closed demo_auth demo_writer {w. 2 < dw_next w}"
  "auth_SHA256 demo_auth ''aWk'' \<notin> token_hashes demo_auth {w. 2 < dw_next w}"
proof -
  show "auth_closed demo_auth demo_writer {w. 2 < dw_next w}"
    by (simp add: auth_closed_def demo_auth_def demo_writer_def demo_draw_def)
  have two: "''aWk'' = base64_RawURL (demo_text 2)" by code_simp
  have "demo_text m = demo_text k \<longleftrightarrow> m = k" for m k by (simp add: demo_text_def)
  then show "auth_SHA256 demo_auth ''aWk'' \<notin> token_hashes demo_auth {w. 2 < dw_next w}"
    unfolding two token_hashes_def auth_SHA256_def
    by (auto simp: hex_EncodeToString_inject base64_RawURL_inject demo_auth_def demo_draw_def)
qed

theorem used_token_stays_refused_witness:
  "\<exists>e. fst (auth_Refresh demo_auth ''aWk'' (snd demo_refreshed)) = Inl e"
proof -
  let ?s = "session (fst (snd demo_auth_end)) (snd (snd demo_auth_end)) [] 9"
  have "2 < dw_next (snd (snd demo_auth_end))" by code_simp
  then have w: "s_world ?s \<in> {w. 2 < dw_next w}" by simp
  have run: "auth_run demo_auth 10 demo_writer (=) (s_db (snd demo_refreshed), s_world (snd demo_refreshed)) []
      (s_db (snd demo_refreshed), s_world (snd demo_refreshed))"
    by (rule arun_nil) simp
  have "s_script ?s = [] \<and> auth_Refresh demo_auth ''aWk'' ?s = (Inr (''0123456789u'', ''aWlpaWk''), snd demo_refreshed)"
    using demo_refreshed_eq unfolding demo_refreshed_def by simp
  from used_token_stays_refused [OF disjI2 [OF this] w demo_later_worlds(1) _ demo_later_worlds(2) run refl]
  show ?thesis by simp
qed

text \<open>
  Two requests with the same token: both pass the look-up before either revokes, and both get tokens. And when the
  revocation fails, its error is dropped and the token can be used again.
\<close>

theorem refresh_token_can_be_used_twice:
  "map snd (fst (auth_calls demo_auth 10 demo_writer
       [(CallRefreshCheck ''aWk'', [], 9), (CallRefreshCheck ''aWk'', [], 9),
        (CallRefreshRotate ''aWk'' ''u'', [], 9), (CallRefreshRotate ''aWk'' ''u'', [], 9)] (snd demo_auth_end)))
     = [Inr (AnsUser ''u''), Inr (AnsUser ''u''), Inr (AnsTokens ''0123456789u'' ''aWlpaWk''),
        Inr (AnsTokens ''0123456789u'' ''aWlpaWlpaQ'')]"
  "map snd (fst (auth_calls demo_auth 10 demo_writer
       [(CallRefresh ''aWk'', [Proceed, Fails ''pq: canceling statement''], 9), (CallRefresh ''aWk'', [], 10)]
       (snd demo_auth_end)))
     = [Inr (AnsTokens ''0123456789u'' ''aWlpaWk''), Inr (AnsTokens ''0123456789u'' ''aWlpaWlpaQ'')]"
  by code_simp+

section \<open>Errors\<close>

text \<open>C24: A failed login does not tell whether the account exists: with a healthy database, an unknown email and a wrong
  password are answered by the gRPC server with the same status and text, and neither changes anything.\<close>

theorem failed_login_reveals_nothing:
  assumes "status_ok is_status" and "s_script s = []"
    and "\<forall>r \<in> set (users (s_db s)). u_email r = email \<longrightarrow> ad_bcrypt_compare ad (u_password_hash r) pw \<noteq> None"
  shows "auth_serve is_status ad (LoginRequest email pw) s = (Inl (Status Unauthenticated ''invalid credentials''), s)"
proof -
  have "auth_Login ad email pw s = (Inl (Domain ErrInvalidCredentials), s)"
    using assms(3) unfolding auth_Login_cases [OF assms(2)] by (auto split: option.splits dest: find_SomeD)
  moreover have "auth_MapError is_status (Domain ErrInvalidCredentials) = Status Unauthenticated ''invalid credentials''"
    using assms(1) by (simp add: auth_MapError_table status_ok_def)
  ultimately show ?thesis by (simp add: bindE_def attempt_def mapping_errors_def)
qed

theorem failed_login_reveals_nothing_witness:
  "auth_serve wraps_status demo_auth (LoginRequest ''ann@x'' ''wrong'') (session (fst (snd demo_auth_end)) demo_start [] 9)
     = auth_serve wraps_status demo_auth (LoginRequest ''nobody@x'' ''pw'') (session (fst (snd demo_auth_end)) demo_start [] 9)"
proof -
  let ?s = "session (fst (snd demo_auth_end)) demo_start [] 9"
  have "list_all (\<lambda>r. u_email r = ''ann@x'' \<longrightarrow> ad_bcrypt_compare demo_auth (u_password_hash r) ''wrong'' \<noteq> None)
      (users (fst (snd demo_auth_end)))"
    "list_all (\<lambda>r. u_email r = ''nobody@x'' \<longrightarrow> ad_bcrypt_compare demo_auth (u_password_hash r) ''pw'' \<noteq> None)
      (users (fst (snd demo_auth_end)))" by code_simp+
  then have wrong: "\<forall>r \<in> set (users (s_db ?s)). u_email r = ''ann@x'' \<longrightarrow>
      ad_bcrypt_compare demo_auth (u_password_hash r) ''wrong'' \<noteq> None"
    and unknown: "\<forall>r \<in> set (users (s_db ?s)). u_email r = ''nobody@x'' \<longrightarrow>
      ad_bcrypt_compare demo_auth (u_password_hash r) ''pw'' \<noteq> None"
    by (simp_all only: list_all_iff session_fields)
  have ok: "status_ok wraps_status" by (simp add: status_ok_def)
  from failed_login_reveals_nothing [OF ok _ wrong] failed_login_reveals_nothing [OF ok _ unknown] show ?thesis by simp
qed

end
