(* ===== verification/ProfRepo.thy ===== *)
theory ProfRepo
  imports SqlTx RedisClient
begin

text \<open>
  The profile service's model types and sentinels (\<^verbatim>\<open>services/profile/internal/model\<close>), its tables
  (\<^verbatim>\<open>migrations\<close>), \<^verbatim>\<open>internal/repository\<close>, \<^verbatim>\<open>internal/cache\<close> and \<^verbatim>\<open>internal/outbox/outbox_repo.go\<close>.
  No statement of this service runs in a transaction: all are \<open>stmt False\<close>. Identifiers are columns of
  type UUID: \<open>pd_uuid_in\<close> is how PostgreSQL reads one (its canonical text, or an error).
\<close>

datatype prof_err = ErrProfileNotFound | ErrInvalidUpdate

fun prof_err_text :: "prof_err \<Rightarrow> string" where
  "prof_err_text ErrProfileNotFound = ''profile not found''"
| "prof_err_text ErrInvalidUpdate = ''invalid profile update''"

record Profile =
  f_UserID :: string
  f_Username :: string
  f_DisplayName :: string
  f_Bio :: string
  f_AvatarURL :: string
  f_CreatedAt :: int
  f_UpdatedAt :: int

record Contact =
  k_UserID :: string
  k_ContactID :: string
  k_CreatedAt :: int

section \<open>Tables\<close>

record prof_row =
  pr_user :: string
  pr_username :: string
  pr_display_name :: "string option"
  pr_bio :: "string option"
  pr_avatar_url :: "string option"
  pr_created_at :: int
  pr_updated_at :: int

record contact_row =
  ct_user :: string
  ct_contact :: string
  ct_created_at :: int

record block_row =
  bl_user :: string
  bl_blocked :: string
  bl_created_at :: int

record 'b prof_outbox_row =
  po_id :: string
  po_topic :: string
  po_key :: string
  po_payload :: 'b
  po_created_at :: int
  po_published_at :: "int option"

record 'b prof_db =
  profiles :: "prof_row list"
  contacts :: "contact_row list"
  blocks :: "block_row list"
  prof_outbox :: "'b prof_outbox_row list"

definition empty_prof_db :: "'b prof_db" where
  "empty_prof_db = \<lparr>profiles = [], contacts = [], blocks = [], prof_outbox = []\<rparr>"

type_synonym ('w, 'b, 'a) prof_prog = "('b prof_db, 'w, prof_err, 'a) prog"

record ('w, 'b) prof_deps =
  pd_uuid_in :: "string \<Rightarrow> string option"
  pd_jsonb :: "'b \<Rightarrow> 'b option"                \<comment> \<open>what a JSONB column keeps of a value\<close>
  pd_uuid :: "'w \<Rightarrow> string \<times> 'w"              \<comment> \<open>\<open>uuid.NewString\<close>\<close>
  pd_redis :: "('w, 'b) redis"
  pd_enc_profile :: "Profile \<Rightarrow> string + 'b"
  pd_dec_profile :: "'b \<Rightarrow> string + Profile"
  pd_enc_map :: "(string \<times> string) list \<Rightarrow> string + 'b"
  pd_dec_user :: "'b \<Rightarrow> string + string"      \<comment> \<open>the \<open>user_id\<close> of an event\<close>

abbreviation err_uuid :: string where
  "err_uuid \<equiv> ''pq: invalid input syntax for type uuid''"

abbreviation err_check :: string where
  "err_check \<equiv> ''pq: new row for relation violates check constraint''"

abbreviation err_json :: string where
  "err_json \<equiv> ''pq: invalid input syntax for type json''"

abbreviation err_pk :: string where
  "err_pk \<equiv> ''pq: duplicate key value violates unique constraint''"

text \<open>A parameter that the statement reads as a UUID.\<close>

definition as_uuid :: "('w, 'b) prof_deps \<Rightarrow> string \<Rightarrow> (string \<Rightarrow> string + 'r) \<Rightarrow> string + 'r" where
  "as_uuid pd i f = (case pd_uuid_in pd i of None \<Rightarrow> Inl err_uuid | Some u \<Rightarrow> f u)"

section \<open>Profiles\<close>

definition sql_create_profile :: "('w, 'b) prof_deps \<Rightarrow> int \<Rightarrow> string \<Rightarrow> 'b prof_db \<Rightarrow> string + 'b prof_db \<times> unit" where
  "sql_create_profile pd now i d =
     as_uuid pd i (\<lambda>u.
       if \<exists>r \<in> set (profiles d). pr_user r = u \<or> pr_username r = i then Inr (d, ())
       else Inr (d\<lparr>profiles := profiles d @ [\<lparr>pr_user = u, pr_username = i, pr_display_name = None, pr_bio = None,
              pr_avatar_url = None, pr_created_at = now, pr_updated_at = now\<rparr>]\<rparr>, ()))"

definition CreateIfNotExists :: "('w, 'b) prof_deps \<Rightarrow> string \<Rightarrow> ('w, 'b, unit) prof_prog" where
  "CreateIfNotExists pd i = bindE get_now (\<lambda>now. stmt False (sql_create_profile pd now i))"

text \<open>\<open>sql.NullString\<close> reads NULL as the empty string.\<close>

fun null_string :: "string option \<Rightarrow> string" where
  "null_string None = []"
| "null_string (Some t) = t"

definition profile_of_row :: "prof_row \<Rightarrow> Profile" where
  "profile_of_row r = \<lparr>f_UserID = pr_user r, f_Username = pr_username r,
     f_DisplayName = null_string (pr_display_name r), f_Bio = null_string (pr_bio r),
     f_AvatarURL = null_string (pr_avatar_url r), f_CreatedAt = pr_created_at r, f_UpdatedAt = pr_updated_at r\<rparr>"

definition repo_GetProfile :: "('w, 'b) prof_deps \<Rightarrow> string \<Rightarrow> ('w, 'b, Profile) prof_prog" where
  "repo_GetProfile pd i =
     attempt (stmt False (\<lambda>d. as_uuid pd i (\<lambda>u. Inr (d, find (\<lambda>r. pr_user r = u) (profiles d))))) (\<lambda>r. case r of
       Inl err \<Rightarrow> throw (Wrapf ''failed to fetch profile'' err)
     | Inr None \<Rightarrow> throw (Domain ErrProfileNotFound)
     | Inr (Some row) \<Rightarrow> ret (profile_of_row row))"

text \<open>\<open>user_id::text = ANY($1)\<close> compares texts; the driver sends the slice as an array.\<close>

definition repo_BatchGet :: "string list \<Rightarrow> ('w, 'b, Profile list) prof_prog" where
  "repo_BatchGet ids =
     (if ids = [] then ret []
      else bindE (wrap_err ''failed to batch fetch profiles''
                    (query False (\<lambda>d. filter (\<lambda>r. pr_user r \<in> set ids) (profiles d)))) (\<lambda>rows.
             ret (map profile_of_row rows)))"

definition set_profile :: "int \<Rightarrow> Profile \<Rightarrow> prof_row \<Rightarrow> prof_row" where
  "set_profile now p r = r\<lparr>pr_display_name := Some (f_DisplayName p), pr_bio := Some (f_Bio p),
     pr_avatar_url := Some (f_AvatarURL p), pr_updated_at := now\<rparr>"

definition sql_update_profile ::
  "('w, 'b) prof_deps \<Rightarrow> int \<Rightarrow> Profile \<Rightarrow> 'b prof_db \<Rightarrow> string + 'b prof_db \<times> nat" where
  "sql_update_profile pd now p d =
     as_uuid pd (f_UserID p) (\<lambda>u.
       Inr (d\<lparr>profiles := map (\<lambda>r. if pr_user r = u then set_profile now p r else r) (profiles d)\<rparr>,
            length (filter (\<lambda>r. pr_user r = u) (profiles d))))"

definition repo_UpdateProfile :: "('w, 'b) prof_deps \<Rightarrow> Profile \<Rightarrow> ('w, 'b, unit) prof_prog" where
  "repo_UpdateProfile pd p =
     bindE get_now (\<lambda>now.
     bindE (stmt False (sql_update_profile pd now p)) (\<lambda>rows.
       if rows = 0 then throw (Domain ErrProfileNotFound) else ret ()))"

section \<open>The cache\<close>

definition prof_key :: "string \<Rightarrow> string" where
  "prof_key i = ''profile:'' @ i"

definition ProfileCache_Get :: "('w, 'b) prof_deps \<Rightarrow> string \<Rightarrow> 'w \<Rightarrow> (prof_err go_error + Profile) \<times> 'w" where
  "ProfileCache_Get pd i w =
     (case rd_Get (pd_redis pd) (prof_key i) w of
        (Inl RedisNil, w') \<Rightarrow> (Inl (Plain ''redis: nil''), w')
      | (Inl (RedisErr t), w') \<Rightarrow> (Inl (Plain t), w')
      | (Inr b, w') \<Rightarrow> (case pd_dec_profile pd b of Inl t \<Rightarrow> (Inl (Plain t), w') | Inr p \<Rightarrow> (Inr p, w')))"

text \<open>The lifetime is one hour, in seconds.\<close>

definition ProfileCache_Set :: "('w, 'b) prof_deps \<Rightarrow> Profile \<Rightarrow> 'w \<Rightarrow> (prof_err go_error + unit) \<times> 'w" where
  "ProfileCache_Set pd p w =
     (case pd_enc_profile pd p of
        Inl t \<Rightarrow> (Inl (Plain t), w)
      | Inr b \<Rightarrow>
          (case rd_Set (pd_redis pd) (prof_key (f_UserID p)) b (60 * 60) w of
             (None, w') \<Rightarrow> (Inr (), w') | (Some t, w') \<Rightarrow> (Inl (Plain t), w')))"

definition ProfileCache_Delete :: "('w, 'b) prof_deps \<Rightarrow> string \<Rightarrow> 'w \<Rightarrow> (prof_err go_error + unit) \<times> 'w" where
  "ProfileCache_Delete pd i w =
     (case rd_Del (pd_redis pd) (prof_key i) w of (None, w') \<Rightarrow> (Inr (), w') | (Some t, w') \<Rightarrow> (Inl (Plain t), w'))"

section \<open>Contacts and blocks\<close>

definition sql_add_contact ::
  "('w, 'b) prof_deps \<Rightarrow> int \<Rightarrow> string \<Rightarrow> string \<Rightarrow> 'b prof_db \<Rightarrow> string + 'b prof_db \<times> unit" where
  "sql_add_contact pd now user contact d =
     as_uuid pd user (\<lambda>u. as_uuid pd contact (\<lambda>c.
       if u = c then Inl err_check
       else if \<exists>r \<in> set (contacts d). ct_user r = u \<and> ct_contact r = c then Inr (d, ())
       else Inr (d\<lparr>contacts := contacts d @ [\<lparr>ct_user = u, ct_contact = c, ct_created_at = now\<rparr>]\<rparr>, ())))"

definition ContactRepo_Add :: "('w, 'b) prof_deps \<Rightarrow> string \<Rightarrow> string \<Rightarrow> ('w, 'b, unit) prof_prog" where
  "ContactRepo_Add pd user contact = bindE get_now (\<lambda>now. stmt False (sql_add_contact pd now user contact))"

definition sql_remove_contact ::
  "('w, 'b) prof_deps \<Rightarrow> string \<Rightarrow> string \<Rightarrow> 'b prof_db \<Rightarrow> string + 'b prof_db \<times> unit" where
  "sql_remove_contact pd user contact d =
     as_uuid pd user (\<lambda>u. as_uuid pd contact (\<lambda>c.
       Inr (d\<lparr>contacts := filter (\<lambda>r. \<not> (ct_user r = u \<and> ct_contact r = c)) (contacts d)\<rparr>, ())))"

definition ContactRepo_Remove :: "('w, 'b) prof_deps \<Rightarrow> string \<Rightarrow> string \<Rightarrow> ('w, 'b, unit) prof_prog" where
  "ContactRepo_Remove pd user contact = stmt False (sql_remove_contact pd user contact)"

text \<open>\<open>ORDER BY created_at DESC LIMIT $2 OFFSET $3\<close>; both numbers are not negative.\<close>

definition ContactRepo_List :: "('w, 'b) prof_deps \<Rightarrow> string \<Rightarrow> nat \<Rightarrow> nat \<Rightarrow> ('w, 'b, Contact list) prof_prog" where
  "ContactRepo_List pd user limit offset =
     bindE (stmt False (\<lambda>d. as_uuid pd user (\<lambda>u.
       Inr (d, take limit (drop offset (sort_key (\<lambda>r. - ct_created_at r) (filter (\<lambda>r. ct_user r = u) (contacts d)))))))
       ) (\<lambda>rows. ret (map (\<lambda>r. \<lparr>k_UserID = user, k_ContactID = ct_contact r, k_CreatedAt = ct_created_at r\<rparr>) rows))"

definition sql_add_block ::
  "('w, 'b) prof_deps \<Rightarrow> int \<Rightarrow> string \<Rightarrow> string \<Rightarrow> 'b prof_db \<Rightarrow> string + 'b prof_db \<times> unit" where
  "sql_add_block pd now user blocked d =
     as_uuid pd user (\<lambda>u. as_uuid pd blocked (\<lambda>c.
       if u = c then Inl err_check
       else if \<exists>r \<in> set (blocks d). bl_user r = u \<and> bl_blocked r = c then Inr (d, ())
       else Inr (d\<lparr>blocks := blocks d @ [\<lparr>bl_user = u, bl_blocked = c, bl_created_at = now\<rparr>]\<rparr>, ())))"

definition BlockRepo_Add :: "('w, 'b) prof_deps \<Rightarrow> string \<Rightarrow> string \<Rightarrow> ('w, 'b, unit) prof_prog" where
  "BlockRepo_Add pd user blocked = bindE get_now (\<lambda>now. stmt False (sql_add_block pd now user blocked))"

definition BlockRepo_Remove :: "('w, 'b) prof_deps \<Rightarrow> string \<Rightarrow> string \<Rightarrow> ('w, 'b, unit) prof_prog" where
  "BlockRepo_Remove pd user blocked =
     stmt False (\<lambda>d. as_uuid pd user (\<lambda>u. as_uuid pd blocked (\<lambda>c.
       Inr (d\<lparr>blocks := filter (\<lambda>r. \<not> (bl_user r = u \<and> bl_blocked r = c)) (blocks d)\<rparr>, ()))))"

definition BlockRepo_Exists :: "('w, 'b) prof_deps \<Rightarrow> string \<Rightarrow> string \<Rightarrow> ('w, 'b, bool) prof_prog" where
  "BlockRepo_Exists pd user blocked =
     stmt False (\<lambda>d. as_uuid pd user (\<lambda>u. as_uuid pd blocked (\<lambda>c.
       Inr (d, \<exists>r \<in> set (blocks d). bl_user r = u \<and> bl_blocked r = c))))"

section \<open>Outbox\<close>

definition prof_uuid :: "('w, 'b) prof_deps \<Rightarrow> ('w, 'b, string) prof_prog" where
  "prof_uuid pd = on_world (\<lambda>w. case pd_uuid pd w of (u, w') \<Rightarrow> (Inr u, w'))"

definition sql_insert_prof_outbox ::
  "('w, 'b) prof_deps \<Rightarrow> int \<Rightarrow> string \<Rightarrow> string \<Rightarrow> string \<Rightarrow> 'b \<Rightarrow> 'b prof_db \<Rightarrow> string + 'b prof_db \<times> unit" where
  "sql_insert_prof_outbox pd now i topic k payload d =
     as_uuid pd i (\<lambda>u.
       case pd_jsonb pd payload of
         None \<Rightarrow> Inl err_json
       | Some stored \<Rightarrow>
           if \<exists>r \<in> set (prof_outbox d). po_id r = u then Inl err_pk
           else Inr (d\<lparr>prof_outbox := prof_outbox d @ [\<lparr>po_id = u, po_topic = topic, po_key = k, po_payload = stored,
                  po_created_at = now, po_published_at = None\<rparr>]\<rparr>, ()))"

definition Outbox_Add :: "('w, 'b) prof_deps \<Rightarrow> string \<Rightarrow> 'b \<Rightarrow> ('w, 'b, unit) prof_prog" where
  "Outbox_Add pd eventType payload =
     bindE (prof_uuid pd) (\<lambda>i.
     bindE (prof_uuid pd) (\<lambda>k.
     bindE get_now (\<lambda>now. stmt False (sql_insert_prof_outbox pd now i eventType k payload))))"

definition Outbox_Fetch :: "nat \<Rightarrow> ('w, 'b, 'b prof_outbox_row list) prof_prog" where
  "Outbox_Fetch limit =
     query False (\<lambda>d. take limit (sort_key po_created_at (filter (\<lambda>r. po_published_at r = None) (prof_outbox d))))"

definition sql_mark_published :: "int \<Rightarrow> string \<Rightarrow> 'b prof_db \<Rightarrow> 'b prof_db" where
  "sql_mark_published now i d =
     d\<lparr>prof_outbox := map (\<lambda>r. if po_id r = i then r\<lparr>po_published_at := Some now\<rparr> else r) (prof_outbox d)\<rparr>"

definition MarkPublished :: "string \<Rightarrow> ('w, 'b, unit) prof_prog" where
  "MarkPublished i = bindE get_now (\<lambda>now. stmt False (\<lambda>d. Inr (sql_mark_published now i d, ())))"

end
