(* ===== verification/ProfApp.thy ===== *)
theory ProfApp
  imports ProfRepo AuthWorker
begin

text \<open>
  \<^verbatim>\<open>services/profile/internal/service\<close>, \<^verbatim>\<open>internal/outbox/publisher.go\<close> and \<^verbatim>\<open>internal/kafka/kafka.go\<close>.
\<close>

section \<open>Profiles\<close>

definition prof_Get :: "('w, 'b) prof_deps \<Rightarrow> string \<Rightarrow> ('w, 'b, Profile) prof_prog" where
  "prof_Get pd i =
     attempt (on_world (ProfileCache_Get pd i)) (\<lambda>r. case r of
       Inr p \<Rightarrow> ret p
     | Inl _ \<Rightarrow>
         bindE (wrap_err ''failed to fetch profile'' (repo_GetProfile pd i)) (\<lambda>p.
         attempt (on_world (ProfileCache_Set pd p)) (\<lambda>_. ret p)))"

definition prof_BatchGet :: "string list \<Rightarrow> ('w, 'b, Profile list) prof_prog" where
  "prof_BatchGet ids = wrap_err ''failed to batch fetch profiles'' (repo_BatchGet ids)"

definition prof_Update :: "('w, 'b) prof_deps \<Rightarrow> Profile \<Rightarrow> ('w, 'b, unit) prof_prog" where
  "prof_Update pd p =
     bindE (wrap_err ''failed to update profile in repo'' (repo_UpdateProfile pd p)) (\<lambda>_.
     attempt (on_world (ProfileCache_Delete pd (f_UserID p))) (\<lambda>_.
     bindE (wrap_err ''failed to marshal profile'' (lift_res (pd_enc_profile pd p))) (\<lambda>payload.
       wrap_err ''failed to save outbox event'' (Outbox_Add pd ''profile.updated'' payload))))"

section \<open>Contacts and blocks\<close>

definition Block :: "('w, 'b) prof_deps \<Rightarrow> string \<Rightarrow> string \<Rightarrow> ('w, 'b, unit) prof_prog" where
  "Block pd user other =
     (if user = other then throw (Plain ''cannot block self'')
      else
        bindE (BlockRepo_Add pd user other) (\<lambda>_.
        bindE (ContactRepo_Remove pd user other) (\<lambda>_.
        bindE (lift_res (pd_enc_map pd [(''user_id'', user), (''blocked'', other)])) (\<lambda>b.
          Outbox_Add pd ''user.blocked'' b))))"

definition Unblock :: "('w, 'b) prof_deps \<Rightarrow> string \<Rightarrow> string \<Rightarrow> ('w, 'b, unit) prof_prog" where
  "Unblock pd user other =
     bindE (BlockRepo_Remove pd user other) (\<lambda>_.
     bindE (lift_res (pd_enc_map pd [(''user_id'', user), (''blocked'', other)])) (\<lambda>b.
       Outbox_Add pd ''user.unblocked'' b))"

definition Contact_Add :: "('w, 'b) prof_deps \<Rightarrow> string \<Rightarrow> string \<Rightarrow> ('w, 'b, unit) prof_prog" where
  "Contact_Add pd user contact =
     (if user = contact then throw (Plain ''cannot add self'')
      else
        bindE (BlockRepo_Exists pd user contact) (\<lambda>blocked.
        if blocked then throw (Plain ''blocked'')
        else
          bindE (ContactRepo_Add pd user contact) (\<lambda>_.
          bindE (lift_res (pd_enc_map pd [(''user_id'', user), (''contact_id'', contact)])) (\<lambda>b.
            Outbox_Add pd ''contact.added'' b))))"

definition Contact_Remove :: "('w, 'b) prof_deps \<Rightarrow> string \<Rightarrow> string \<Rightarrow> ('w, 'b, unit) prof_prog" where
  "Contact_Remove pd user contact =
     bindE (ContactRepo_Remove pd user contact) (\<lambda>_.
     bindE (lift_res (pd_enc_map pd [(''user_id'', user), (''contact_id'', contact)])) (\<lambda>b.
       Outbox_Add pd ''contact.removed'' b))"

definition Contact_List :: "('w, 'b) prof_deps \<Rightarrow> string \<Rightarrow> nat \<Rightarrow> nat \<Rightarrow> ('w, 'b, Contact list) prof_prog" where
  "Contact_List pd user limit offset = ContactRepo_List pd user limit offset"

section \<open>The publisher\<close>

definition prof_Publish ::
  "('w, 'b) writer \<Rightarrow> string \<Rightarrow> string \<Rightarrow> 'b \<Rightarrow> 'w \<Rightarrow> (prof_err go_error + unit) \<times> 'w" where
  "prof_Publish wr topic key v w =
     (case wr (topic_msg topic key v) w of (Some err, w') \<Rightarrow> (Inl (Plain err), w') | (None, w') \<Rightarrow> (Inr (), w'))"

text \<open>A row that cannot be published is left for the next tick; a mark that fails is only logged.\<close>

fun publish_rows :: "('w, 'b) writer \<Rightarrow> 'b prof_outbox_row list \<Rightarrow> ('w, 'b, unit) prof_prog" where
  "publish_rows wr [] = ret ()"
| "publish_rows wr (row # rows) =
     attempt (on_world (prof_Publish wr (po_topic row) (po_key row) (po_payload row))) (\<lambda>r. case r of
       Inl _ \<Rightarrow> publish_rows wr rows
     | Inr _ \<Rightarrow> attempt (MarkPublished (po_id row)) (\<lambda>_. publish_rows wr rows))"

definition publishBatch :: "('w, 'b) writer \<Rightarrow> ('w, 'b, unit) prof_prog" where
  "publishBatch wr =
     attempt (Outbox_Fetch 50) (\<lambda>r. case r of Inl _ \<Rightarrow> ret () | Inr rows \<Rightarrow> publish_rows wr rows)"

section \<open>The consumer of new accounts\<close>

text \<open>
  The results of \<open>ReadMessage\<close>, in order: an error ends the loop. A message is gone once it was read,
  whatever its handling did.
\<close>

fun StartUserCreatedConsumer ::
  "('w, 'b) prof_deps \<Rightarrow> (string + 'b kafka_msg) list \<Rightarrow> ('w, 'b, unit) prof_prog" where
  "StartUserCreatedConsumer pd [] = ret ()"
| "StartUserCreatedConsumer pd (Inl err # ms) = ret ()"
| "StartUserCreatedConsumer pd (Inr m # ms) =
     (case pd_dec_user pd (k_value m) of
        Inl _ \<Rightarrow> StartUserCreatedConsumer pd ms
      | Inr userID \<Rightarrow> attempt (CreateIfNotExists pd userID) (\<lambda>_. StartUserCreatedConsumer pd ms))"

end
