(* ===== verification/ProfGrpc.thy ===== *)
theory ProfGrpc
  imports ProfApp Grpc Http
begin

text \<open>
  The two servers of the profile service: gRPC (\<^verbatim>\<open>internal/transport/grpc\<close>), which trusts its callers,
  and HTTP (\<^verbatim>\<open>internal/handler\<close>, \<^verbatim>\<open>internal/middleware/jwt.go\<close>), which checks a token.
\<close>

definition prof_MapError :: "(prof_err go_error \<Rightarrow> bool) \<Rightarrow> prof_err go_error \<Rightarrow> prof_err go_error" where
  "prof_MapError is_status err =
     (if is_status err then err
      else if errors_Is err ErrProfileNotFound then Status NotFound (err_text prof_err_text err)
      else if errors_Is err ErrInvalidUpdate then Status InvalidArgument (err_text prof_err_text err)
      else Status Internal ''internal server error'')"

record pb_profile =
  pf_UserId :: string
  pf_DisplayName :: string
  pf_AvatarUrl :: string
  pf_Bio :: string
  pf_CreatedAt :: int
  pf_UpdatedAt :: int

definition prof_toProto :: "Profile \<Rightarrow> pb_profile" where
  "prof_toProto p = \<lparr>pf_UserId = f_UserID p, pf_DisplayName = f_DisplayName p, pf_AvatarUrl = f_AvatarURL p,
     pf_Bio = f_Bio p, pf_CreatedAt = f_CreatedAt p, pf_UpdatedAt = f_UpdatedAt p\<rparr>"

datatype prof_request =
    GetProfileRequest string
  | UpdateProfileRequest string "string option" "string option" "string option" \<comment> \<open>user, name, avatar, bio\<close>
  | BatchGetProfilesRequest "string list"

datatype prof_response =
    ProfileResponse pb_profile
  | BatchGetProfilesResponse "pb_profile list"

definition rpc_GetProfile where
  "rpc_GetProfile is_status pd userID =
     bindE (mapping_errors (prof_MapError is_status) (prof_Get pd userID)) (\<lambda>p. ret (ProfileResponse (prof_toProto p)))"

text \<open>The fields that the request names.\<close>

definition apply_update :: "string option \<Rightarrow> string option \<Rightarrow> string option \<Rightarrow> Profile \<Rightarrow> Profile" where
  "apply_update name avatar bio p =
     (let p1 = (case name of Some t \<Rightarrow> p\<lparr>f_DisplayName := t\<rparr> | None \<Rightarrow> p);
          p2 = (case avatar of Some t \<Rightarrow> p1\<lparr>f_AvatarURL := t\<rparr> | None \<Rightarrow> p1)
      in (case bio of Some t \<Rightarrow> p2\<lparr>f_Bio := t\<rparr> | None \<Rightarrow> p2))"

definition rpc_UpdateProfile where
  "rpc_UpdateProfile is_status pd userID name avatar bio =
     bindE (mapping_errors (prof_MapError is_status) (prof_Get pd userID)) (\<lambda>p0.
       let p = apply_update name avatar bio p0 in
       bindE (mapping_errors (prof_MapError is_status) (prof_Update pd p)) (\<lambda>_. ret (ProfileResponse (prof_toProto p))))"

definition rpc_BatchGetProfiles where
  "rpc_BatchGetProfiles is_status userIDs =
     bindE (mapping_errors (prof_MapError is_status) (prof_BatchGet userIDs)) (\<lambda>ps.
       ret (BatchGetProfilesResponse (map prof_toProto ps)))"

fun prof_serve ::
  "(prof_err go_error \<Rightarrow> bool) \<Rightarrow> ('w, 'b) prof_deps \<Rightarrow> prof_request \<Rightarrow> ('w, 'b, prof_response) prof_prog" where
  "prof_serve is_status pd (GetProfileRequest u) = rpc_GetProfile is_status pd u"
| "prof_serve is_status pd (UpdateProfileRequest u n a b) = rpc_UpdateProfile is_status pd u n a b"
| "prof_serve is_status pd (BatchGetProfilesRequest us) = rpc_BatchGetProfiles is_status us"

section \<open>HTTP\<close>

definition prof_JWT :: "jwt_parse \<Rightarrow> string \<Rightarrow> string \<Rightarrow> string \<Rightarrow> int \<Rightarrow> string \<Rightarrow> string jwt_outcome" where
  "prof_JWT parse secret iss aud now header =
     (if \<not> has_prefix header ''Bearer '' then Unauthorized []
      else (case parse secret (Some iss) (Some aud) now (drop 7 header) of
        Inl _ \<Rightarrow> Unauthorized []
      | Inr cl \<Rightarrow> (case claim_string cl ''sub'' of None \<Rightarrow> JwtPanic | Some uid \<Rightarrow> Authorized uid)))"

datatype prof_json = JsonProfile Profile | JsonContacts "Contact list"

type_synonym ('w, 'b) prof_http = "('w, 'b, prof_json http_reply) prof_prog"

definition http_GetProfile :: "('w, 'b) prof_deps \<Rightarrow> string \<Rightarrow> ('w, 'b) prof_http" where
  "http_GetProfile pd uid =
     attempt (prof_Get pd uid) (\<lambda>r. case r of
       Inl _ \<Rightarrow> ret (json_error 404 ''profile not found'')
     | Inr p \<Rightarrow> ret (reply 200 (RespBody (JsonProfile p))))"

text \<open>The decoded body has the three texts; fields that are missing in it are empty.\<close>

definition http_UpdateProfile ::
  "('w, 'b) prof_deps \<Rightarrow> string \<Rightarrow> string + string \<times> string \<times> string \<Rightarrow> ('w, 'b) prof_http" where
  "http_UpdateProfile pd uid body =
     (case body of
        Inl _ \<Rightarrow> ret (json_error 400 ''invalid request body'')
      | Inr (name, bio, avatar) \<Rightarrow>
          attempt (prof_Update pd \<lparr>f_UserID = uid, f_Username = [], f_DisplayName = name, f_Bio = bio,
                     f_AvatarURL = avatar, f_CreatedAt = 0, f_UpdatedAt = 0\<rparr>) (\<lambda>r. case r of
            Inl _ \<Rightarrow> ret (json_error 500 ''update failed'')
          | Inr _ \<Rightarrow> ret (reply 204 NoBody)))"

text \<open>The four operations on another user: its id must not be empty, an error becomes a 400.\<close>

definition http_on_other ::
  "(string \<Rightarrow> ('w, 'b, unit) prof_prog) \<Rightarrow> string + string \<Rightarrow> ('w, 'b) prof_http" where
  "http_on_other f body =
     (case body of
        Inl _ \<Rightarrow> ret (json_error 400 ''invalid request body'')
      | Inr other \<Rightarrow>
          if other = [] then ret (json_error 400 ''invalid request body'')
          else attempt (f other) (\<lambda>r. case r of
            Inl err \<Rightarrow> ret (json_error 400 (err_text prof_err_text err))
          | Inr _ \<Rightarrow> ret (reply 204 NoBody)))"

definition http_Block :: "('w, 'b) prof_deps \<Rightarrow> string \<Rightarrow> string + string \<Rightarrow> ('w, 'b) prof_http" where
  "http_Block pd uid = http_on_other (Block pd uid)"

definition http_Unblock :: "('w, 'b) prof_deps \<Rightarrow> string \<Rightarrow> string + string \<Rightarrow> ('w, 'b) prof_http" where
  "http_Unblock pd uid = http_on_other (Unblock pd uid)"

definition http_AddContact :: "('w, 'b) prof_deps \<Rightarrow> string \<Rightarrow> string + string \<Rightarrow> ('w, 'b) prof_http" where
  "http_AddContact pd uid = http_on_other (Contact_Add pd uid)"

definition http_RemoveContact :: "('w, 'b) prof_deps \<Rightarrow> string \<Rightarrow> string + string \<Rightarrow> ('w, 'b) prof_http" where
  "http_RemoveContact pd uid = http_on_other (Contact_Remove pd uid)"

definition contact_limit :: "string \<Rightarrow> nat" where
  "contact_limit v = (case strconv_Atoi v of Some n \<Rightarrow> if n > 0 \<and> n \<le> 100 then nat n else 20 | None \<Rightarrow> 20)"

definition contact_offset :: "string \<Rightarrow> nat" where
  "contact_offset v = (case strconv_Atoi v of Some n \<Rightarrow> if n \<ge> 0 then nat n else 0 | None \<Rightarrow> 0)"

text \<open>The two query parameters; an absent one is the empty string, which is no number.\<close>

definition http_ListContacts :: "('w, 'b) prof_deps \<Rightarrow> string \<Rightarrow> string \<Rightarrow> string \<Rightarrow> ('w, 'b) prof_http" where
  "http_ListContacts pd uid limit offset =
     attempt (Contact_List pd uid (contact_limit limit) (contact_offset offset)) (\<lambda>r. case r of
       Inl _ \<Rightarrow> ret (json_error 500 ''failed to list contacts'')
     | Inr cs \<Rightarrow> ret (reply 200 (RespBody (JsonContacts cs))))"

definition prof_Ready :: "('w, 'b) prof_http" where
  "prof_Ready = attempt (query False (\<lambda>_. ())) (\<lambda>r. case r of
     Inl _ \<Rightarrow> ret (reply 503 NoBody) | Inr _ \<Rightarrow> ret (reply 200 NoBody))"

section \<open>The router\<close>

datatype prof_http_request =
    GetMe
  | PutMe "string + string \<times> string \<times> string"
  | PostContact "string + string"
  | DeleteContact "string + string"
  | GetContacts string string
  | PostBlock "string + string"
  | DeleteBlock "string + string"
  | GetHealth
  | GetReady

fun prof_handle :: "('w, 'b) prof_deps \<Rightarrow> string \<Rightarrow> prof_http_request \<Rightarrow> ('w, 'b) prof_http" where
  "prof_handle pd uid GetMe = http_GetProfile pd uid"
| "prof_handle pd uid (PutMe b) = http_UpdateProfile pd uid b"
| "prof_handle pd uid (PostContact b) = http_AddContact pd uid b"
| "prof_handle pd uid (DeleteContact b) = http_RemoveContact pd uid b"
| "prof_handle pd uid (GetContacts l off) = http_ListContacts pd uid l off"
| "prof_handle pd uid (PostBlock b) = http_Block pd uid b"
| "prof_handle pd uid (DeleteBlock b) = http_Unblock pd uid b"
| "prof_handle pd uid GetHealth = ret (reply 200 NoBody)"
| "prof_handle pd uid GetReady = prof_Ready"

text \<open>
  All routes but the health checks are behind the token check. A panic closes the connection: there
  is no answer (\<open>None\<close>).
\<close>

definition prof_route ::
  "jwt_parse \<Rightarrow> string \<Rightarrow> string \<Rightarrow> string \<Rightarrow> ('w, 'b) prof_deps \<Rightarrow> string \<Rightarrow> prof_http_request
    \<Rightarrow> ('w, 'b, prof_json http_reply option) prof_prog" where
  "prof_route parse secret iss aud pd header req =
     (if req \<in> {GetHealth, GetReady} then answer Some (prof_handle pd [] req)
      else
        bindE get_now (\<lambda>now.
          case prof_JWT parse secret iss aud now header of
            Unauthorized _ \<Rightarrow> ret (Some (reply 401 NoBody))
          | JwtPanic \<Rightarrow> ret None
          | Authorized uid \<Rightarrow> answer Some (prof_handle pd uid req)))"

end
