(* ===== verification/ProfInv.thy ===== *)
theory ProfInv
  imports ProfGrpc Monotone
begin

text \<open>
  The profile service as a state machine, and the invariant of its tables: primary keys, unique
  usernames, usernames that are the text a profile was created with, no relation of a user to
  itself. Since no operation runs in a transaction, the invariant has to hold after every single
  statement, and it is proved statement by statement.
\<close>

definition prof_inv :: "('w, 'b) prof_deps \<Rightarrow> 'b prof_db \<Rightarrow> bool" where
  "prof_inv pd d \<longleftrightarrow>
     distinct (map pr_user (profiles d)) \<and> distinct (map pr_username (profiles d))
     \<and> (\<forall>r \<in> set (profiles d). pd_uuid_in pd (pr_username r) = Some (pr_user r))
     \<and> distinct (map (\<lambda>r. (ct_user r, ct_contact r)) (contacts d)) \<and> (\<forall>r \<in> set (contacts d). ct_user r \<noteq> ct_contact r)
     \<and> distinct (map (\<lambda>r. (bl_user r, bl_blocked r)) (blocks d)) \<and> (\<forall>r \<in> set (blocks d). bl_user r \<noteq> bl_blocked r)
     \<and> distinct (map po_id (prof_outbox d))"

lemma prof_inv_empty: "prof_inv pd empty_prof_db"
  by (simp add: prof_inv_def empty_prof_db_def)

lemma as_uuid_InrD: "as_uuid pd i f = Inr a \<Longrightarrow> \<exists>u. pd_uuid_in pd i = Some u \<and> f u = Inr a"
  by (auto simp: as_uuid_def split: option.splits)

section \<open>Statements\<close>

definition has_profile :: "string \<Rightarrow> string \<Rightarrow> 'b prof_db \<Rightarrow> bool" where
  "has_profile u i d \<longleftrightarrow> (\<exists>r \<in> set (profiles d). pr_user r = u \<or> pr_username r = i)"

definition new_profile :: "int \<Rightarrow> string \<Rightarrow> string \<Rightarrow> prof_row" where
  "new_profile now u i = \<lparr>pr_user = u, pr_username = i, pr_display_name = None, pr_bio = None, pr_avatar_url = None,
     pr_created_at = now, pr_updated_at = now\<rparr>"

lemma new_profile_fields [simp]: "pr_user (new_profile now u i) = u" "pr_username (new_profile now u i) = i"
  by (simp_all add: new_profile_def)

lemma sql_create_profile_eq:
  "sql_create_profile pd now i d =
     as_uuid pd i (\<lambda>u. if has_profile u i d then Inr (d, ())
       else Inr (d\<lparr>profiles := profiles d @ [new_profile now u i]\<rparr>, ()))"
  unfolding sql_create_profile_def has_profile_def new_profile_def ..

lemma sql_create_profile_inv:
  assumes "sql_create_profile pd now i d = Inr (d', a)" and inv: "prof_inv pd d"
  shows "prof_inv pd d'"
proof -
  from as_uuid_InrD [OF assms(1) [unfolded sql_create_profile_eq]] obtain u where u: "pd_uuid_in pd i = Some u"
    and d': "d' = (if has_profile u i d then d else d\<lparr>profiles := profiles d @ [new_profile now u i]\<rparr>)"
    by (auto split: if_splits)
  show ?thesis
  proof (cases "has_profile u i d")
    case False
    then have "u \<notin> pr_user ` set (profiles d)" "i \<notin> pr_username ` set (profiles d)" by (auto simp: has_profile_def)
    then show ?thesis using inv u False by (simp add: d' prof_inv_def)
  qed (use inv d' in simp)
qed

lemma set_profile_fields [simp]:
  "pr_user (set_profile now p r) = pr_user r" "pr_username (set_profile now p r) = pr_username r"
  by (simp_all add: set_profile_def)

lemma sql_update_profile_inv:
  assumes "sql_update_profile pd now p d = Inr (d', n)" and inv: "prof_inv pd d"
  shows "prof_inv pd d'"
proof -
  from as_uuid_InrD [OF assms(1) [unfolded sql_update_profile_def]] obtain u where
    d': "d' = d\<lparr>profiles := map (\<lambda>r. if pr_user r = u then set_profile now p r else r) (profiles d)\<rparr>" by auto
  have same: "map pr_user (profiles d') = map pr_user (profiles d)"
    "map pr_username (profiles d') = map pr_username (profiles d)" by (simp_all add: d')
  have "\<forall>r \<in> set (profiles d'). pd_uuid_in pd (pr_username r) = Some (pr_user r)"
    using inv by (auto simp: d' prof_inv_def)
  with inv show ?thesis unfolding prof_inv_def same by (simp add: d')
qed

lemma sql_add_contact_inv:
  assumes "sql_add_contact pd now user contact d = Inr (d', a)" and inv: "prof_inv pd d"
  shows "prof_inv pd d'"
  using assms
  by (auto simp: sql_add_contact_def prof_inv_def dest!: as_uuid_InrD split: if_splits; blast)

lemma sql_add_block_inv:
  assumes "sql_add_block pd now user blocked d = Inr (d', a)" and inv: "prof_inv pd d"
  shows "prof_inv pd d'"
  using assms
  by (auto simp: sql_add_block_def prof_inv_def dest!: as_uuid_InrD split: if_splits; blast)

lemma sql_remove_contact_inv:
  assumes "sql_remove_contact pd user contact d = Inr (d', a)" and "prof_inv pd d"
  shows "prof_inv pd d'"
  using assms by (auto simp: sql_remove_contact_def prof_inv_def distinct_map_filter_fst dest!: as_uuid_InrD)

lemma sql_insert_prof_outbox_inv:
  assumes "sql_insert_prof_outbox pd now i topic k b d = Inr (d', a)" and "prof_inv pd d"
  shows "prof_inv pd d'"
  using assms
  by (auto simp: sql_insert_prof_outbox_def prof_inv_def dest!: as_uuid_InrD split: option.splits if_splits; blast)

lemma sql_mark_published_inv: "prof_inv pd d \<Longrightarrow> prof_inv pd (sql_mark_published now i d)"
proof -
  assume inv: "prof_inv pd d"
  have ids: "map po_id (prof_outbox (sql_mark_published now i d)) = map po_id (prof_outbox d)"
    and rest: "profiles (sql_mark_published now i d) = profiles d" "contacts (sql_mark_published now i d) = contacts d"
      "blocks (sql_mark_published now i d) = blocks d"
    by (simp_all add: sql_mark_published_def)
  show ?thesis using inv unfolding prof_inv_def ids rest .
qed

section \<open>Operations\<close>

interpretation pi: db_order "\<lambda>d d'. prof_inv pd d \<longrightarrow> prof_inv pd d'" for pd :: "('w, 'b) prof_deps"
  by unfold_locales auto

abbreviation keeps_inv :: "('w, 'b) prof_deps \<Rightarrow> ('w, 'b, 'a) prof_prog \<Rightarrow> bool" where
  "keeps_inv pd \<equiv> db_rel (\<lambda>d d'. prof_inv pd d \<longrightarrow> prof_inv pd d')"

lemma prof_repo_keep:
  "keeps_inv pd (CreateIfNotExists pd i)" "keeps_inv pd (repo_UpdateProfile pd p)"
  "keeps_inv pd (ContactRepo_Add pd u c)" "keeps_inv pd (ContactRepo_Remove pd u c)"
  "keeps_inv pd (BlockRepo_Add pd u c)" "keeps_inv pd (Outbox_Add pd ty b)" "keeps_inv pd (MarkPublished i)"
  unfolding CreateIfNotExists_def repo_UpdateProfile_def ContactRepo_Add_def ContactRepo_Remove_def BlockRepo_Add_def
    Outbox_Add_def MarkPublished_def prof_uuid_def
  by (intro pi.bindE_rel pi.get_now_rel pi.on_world_rel pi.stmt_rel db_rel_if pi.throw_rel pi.ret_rel,
      auto intro: sql_create_profile_inv sql_update_profile_inv sql_add_contact_inv sql_remove_contact_inv
        sql_add_block_inv sql_insert_prof_outbox_inv sql_mark_published_inv)+

lemma BlockRepo_Remove_keep: "keeps_inv pd (BlockRepo_Remove pd u c)"
  unfolding BlockRepo_Remove_def
  by (rule pi.stmt_rel) (auto simp: prof_inv_def distinct_map_filter_fst dest!: as_uuid_InrD)

lemma prof_reads_keep:
  "keeps_inv pd (repo_GetProfile pd i)" "keeps_inv pd (BlockRepo_Exists pd u c)" "keeps_inv pd (ContactRepo_List pd u l off)"
proof -
  show "keeps_inv pd (repo_GetProfile pd i)"
    unfolding repo_GetProfile_def
    by (intro pi.attempt_rel db_rel_case_sum db_rel_case_option pi.throw_rel pi.ret_rel pi.stmt_rel)
      (auto dest!: as_uuid_InrD)
  show "keeps_inv pd (BlockRepo_Exists pd u c)"
    unfolding BlockRepo_Exists_def by (rule pi.stmt_rel) (auto dest!: as_uuid_InrD)
  show "keeps_inv pd (ContactRepo_List pd u l off)"
    unfolding ContactRepo_List_def
    by (intro pi.bindE_rel pi.ret_rel pi.stmt_rel) (auto dest!: as_uuid_InrD)
qed

lemma prof_app_keep:
  "keeps_inv pd (prof_Get pd i)" "keeps_inv pd (prof_BatchGet ids)" "keeps_inv pd (prof_Update pd p)"
  "keeps_inv pd (Block pd u c)" "keeps_inv pd (Unblock pd u c)" "keeps_inv pd (Contact_Add pd u c)"
  "keeps_inv pd (Contact_Remove pd u c)" "keeps_inv pd (Contact_List pd u l off)"
  unfolding prof_Get_def prof_BatchGet_def repo_BatchGet_def prof_Update_def Block_def Unblock_def Contact_Add_def
    Contact_Remove_def Contact_List_def
  by (intro pi.db_rules prof_repo_keep BlockRepo_Remove_keep prof_reads_keep)+

lemma publish_rows_keep: "keeps_inv pd (publish_rows wr rows)"
proof (induction rows)
  case (Cons row rows)
  show ?case unfolding publish_rows.simps by (intro pi.db_rules prof_repo_keep Cons.IH)
qed (simp only: publish_rows.simps pi.ret_rel)

lemma consumer_keep: "keeps_inv pd (StartUserCreatedConsumer pd ms)"
proof (induction ms)
  case (Cons m ms)
  show ?case
  proof (cases m)
    case (Inl e)
    show ?thesis unfolding Inl StartUserCreatedConsumer.simps by (rule pi.ret_rel)
  next
    case (Inr k)
    show ?thesis unfolding Inr StartUserCreatedConsumer.simps by (intro pi.db_rules prof_repo_keep Cons.IH)
  qed
qed (simp only: StartUserCreatedConsumer.simps pi.ret_rel)

section \<open>Runs\<close>

datatype 'b prof_call =
    PGet string
  | PBatchGet "string list"
  | PUpdate Profile
  | PBlock string string
  | PUnblock string string
  | PContactAdd string string
  | PContactRemove string string
  | PContactList string nat nat
  | PPublish
  | PConsume "(string + 'b kafka_msg) list"

datatype prof_answer = AnsProfile Profile | AnsProfiles "Profile list" | AnsContacts "Contact list" | AnsUnit

fun prof_exec ::
  "('w, 'b) prof_deps \<Rightarrow> ('w, 'b) writer \<Rightarrow> 'b prof_call \<Rightarrow> ('w, 'b, prof_answer) prof_prog" where
  "prof_exec pd wr (PGet i) = answer AnsProfile (prof_Get pd i)"
| "prof_exec pd wr (PBatchGet ids) = answer AnsProfiles (prof_BatchGet ids)"
| "prof_exec pd wr (PUpdate p) = answer (\<lambda>_. AnsUnit) (prof_Update pd p)"
| "prof_exec pd wr (PBlock u c) = answer (\<lambda>_. AnsUnit) (Block pd u c)"
| "prof_exec pd wr (PUnblock u c) = answer (\<lambda>_. AnsUnit) (Unblock pd u c)"
| "prof_exec pd wr (PContactAdd u c) = answer (\<lambda>_. AnsUnit) (Contact_Add pd u c)"
| "prof_exec pd wr (PContactRemove u c) = answer (\<lambda>_. AnsUnit) (Contact_Remove pd u c)"
| "prof_exec pd wr (PContactList u l off) = answer AnsContacts (Contact_List pd u l off)"
| "prof_exec pd wr PPublish = answer (\<lambda>_. AnsUnit) (publishBatch wr)"
| "prof_exec pd wr (PConsume ms) = answer (\<lambda>_. AnsUnit) (StartUserCreatedConsumer pd ms)"

text \<open>Between two calls the world may move freely.\<close>

inductive prof_run ::
  "('w, 'b) prof_deps \<Rightarrow> ('w, 'b) writer \<Rightarrow> 'b prof_db \<Rightarrow> ('b prof_call \<times> (prof_err go_error + prof_answer)) list
    \<Rightarrow> 'b prof_db \<Rightarrow> bool"
  for pd wr where
  prun_nil: "prof_run pd wr d [] d"
| prun_cons: "prof_exec pd wr call (session d w script now) = (r, t) \<Longrightarrow> prof_run pd wr (s_db t) tr d' \<Longrightarrow>
    prof_run pd wr d ((call, r) # tr) d'"

inductive_cases prof_run_nilE [elim!]: "prof_run pd wr d [] d'"
inductive_cases prof_run_consE: "prof_run pd wr d (e # tr) d'"

lemma answer_keep: "keeps_inv pd m \<Longrightarrow> keeps_inv pd (answer f m)"
  unfolding answer_def by (intro pi.bindE_rel pi.ret_rel)

lemma prof_exec_keep: "keeps_inv pd (prof_exec pd wr call)"
proof (cases call)
  case PPublish
  have "keeps_inv pd (publishBatch wr)"
    unfolding publishBatch_def Outbox_Fetch_def by (intro pi.db_rules publish_rows_keep)
  with PPublish show ?thesis by (simp add: answer_keep)
qed (simp_all add: answer_keep prof_app_keep consumer_keep)

lemma prof_run_inv: "prof_run pd wr d tr d' \<Longrightarrow> prof_inv pd d \<Longrightarrow> prof_inv pd d'"
proof (induction rule: prof_run.induct)
  case (prun_cons call d w script now r t tr d')
  from db_relD [OF prof_exec_keep prun_cons.hyps(1)] prun_cons show ?case by simp
qed

end
