(* ===== verification/ProfFacts.thy ===== *)
theory ProfFacts
  imports ProfInv
begin

text \<open>
  What the operations of the profile service achieve: an update of a profile, and a block, which lasts
  until it is taken back.
\<close>

section \<open>Updates\<close>

text \<open>The canonical text of a UUID is read as itself.\<close>

definition uuid_ok :: "('w, 'b) prof_deps \<Rightarrow> bool" where
  "uuid_ok pd \<longleftrightarrow> (\<forall>i u. pd_uuid_in pd i = Some u \<longrightarrow> pd_uuid_in pd u = Some u)"

text \<open>The cache entry for \<open>i\<close>, when it can be read, is the stored profile.\<close>

definition cache_true :: "('w, 'b) prof_deps \<Rightarrow> string \<Rightarrow> 'b prof_db \<Rightarrow> 'w \<Rightarrow> bool" where
  "cache_true pd i d w \<longleftrightarrow>
     (\<forall>p w'. ProfileCache_Get pd i w = (Inr p, w') \<longrightarrow>
        (\<exists>r \<in> set (profiles d). pd_uuid_in pd i = Some (pr_user r) \<and> p = profile_of_row r))"

lemma repo_GetProfile_InrD:
  fixes pd :: "('w, 'b) prof_deps"
  assumes "repo_GetProfile pd i s = (Inr p, t)"
  shows "\<exists>r \<in> set (profiles (s_db s)). pd_uuid_in pd i = Some (pr_user r) \<and> p = profile_of_row r"
    and "s_db t = s_db s" and "s_now t = s_now s"
proof -
  let ?q = "stmt False (\<lambda>d. as_uuid pd i (\<lambda>u. Inr (d, find (\<lambda>r. pr_user r = u) (profiles d)))) :: ('w, 'b, prof_row option) prof_prog"
  obtain q s1 where q: "?q s = (q, s1)" by fastforce
  with assms obtain row where row: "q = Inr (Some row)" "p = profile_of_row row" "t = s1"
    by (auto simp: repo_GetProfile_def attempt_def split: sum.splits option.splits)
  from stmt_InrD [OF q [unfolded row(1)]] row(3) show "s_db t = s_db s" "s_now t = s_now s"
    by (auto dest!: as_uuid_InrD)
  from stmt_InrD [OF q [unfolded row(1)]] obtain u where "pd_uuid_in pd i = Some u"
    "find (\<lambda>r. pr_user r = u) (profiles (s_db s)) = Some row"
    by (auto dest!: as_uuid_InrD)
  with row show "\<exists>r \<in> set (profiles (s_db s)). pd_uuid_in pd i = Some (pr_user r) \<and> p = profile_of_row r"
    by (auto dest: find_SomeD)
qed

lemma prof_Get_InrD:
  assumes "prof_Get pd i s = (Inr p, t)" and "cache_true pd i (s_db s) (s_world s)"
  shows "\<exists>r \<in> set (profiles (s_db s)). pd_uuid_in pd i = Some (pr_user r) \<and> p = profile_of_row r"
    and "s_db t = s_db s" and "s_now t = s_now s"
proof -
  obtain c s1 where c: "on_world (ProfileCache_Get pd i) s = (c, s1)" by fastforce
  then have s1: "s_db s1 = s_db s" "s_now s1 = s_now s" "ProfileCache_Get pd i (s_world s) = (c, s_world s1)"
    by (auto simp: on_world_def split: prod.splits)
  have "(\<exists>r \<in> set (profiles (s_db s)). pd_uuid_in pd i = Some (pr_user r) \<and> p = profile_of_row r)
      \<and> s_db t = s_db s \<and> s_now t = s_now s"
  proof (cases c)
    case (Inr p0)
    with assms(1) c have "p = p0" "t = s1" by (simp_all add: prof_Get_def)
    with assms(2) s1 Inr show ?thesis unfolding cache_true_def by simp
  next
    case (Inl e)
    with assms(1) c obtain s2 where g: "repo_GetProfile pd i s1 = (Inr p, s2)"
      and k: "s_db t = s_db s2" "s_now t = s_now s2"
      by (auto simp: prof_Get_def bindE_Inr_iff attempt_def on_world_def split: prod.splits)
    from repo_GetProfile_InrD [OF g] s1 k show ?thesis by simp
  qed
  then show "\<exists>r \<in> set (profiles (s_db s)). pd_uuid_in pd i = Some (pr_user r) \<and> p = profile_of_row r"
    "s_db t = s_db s" "s_now t = s_now s" by blast+
qed

text \<open>One more event of the given type and payload.\<close>

definition event_added :: "('w, 'b) prof_deps \<Rightarrow> string \<Rightarrow> 'b \<Rightarrow> 'b prof_db \<Rightarrow> 'b prof_db \<Rightarrow> bool" where
  "event_added pd ty payload d d' \<longleftrightarrow>
     (\<exists>row. d' = d\<lparr>prof_outbox := prof_outbox d @ [row]\<rparr> \<and> po_topic row = ty \<and> po_published_at row = None
        \<and> pd_jsonb pd payload = Some (po_payload row) \<and> po_id row \<notin> po_id ` set (prof_outbox d))"

lemma sql_insert_prof_outbox_added:
  assumes "sql_insert_prof_outbox pd now i ty k b d = Inr (d', x)"
  shows "event_added pd ty b d d'"
proof -
  from as_uuid_InrD [OF assms [unfolded sql_insert_prof_outbox_def]] obtain u where
    e: "(case pd_jsonb pd b of None \<Rightarrow> Inl err_json | Some stored \<Rightarrow>
         if \<exists>r \<in> set (prof_outbox d). po_id r = u then Inl err_pk
         else Inr (d\<lparr>prof_outbox := prof_outbox d @ [\<lparr>po_id = u, po_topic = ty, po_key = k, po_payload = stored,
                po_created_at = now, po_published_at = None\<rparr>]\<rparr>, ())) = Inr (d', x)" by blast
  then obtain stored where v: "pd_jsonb pd b = Some stored" by (cases "pd_jsonb pd b") simp_all
  with e have new: "u \<notin> po_id ` set (prof_outbox d)" by (auto split: if_splits)
  then have "\<not> (\<exists>r \<in> set (prof_outbox d). po_id r = u)" by blast
  with e v have "d' = d\<lparr>prof_outbox := prof_outbox d @ [\<lparr>po_id = u, po_topic = ty, po_key = k, po_payload = stored,
       po_created_at = now, po_published_at = None\<rparr>]\<rparr>" by simp
  with v new show ?thesis
    unfolding event_added_def
    by (intro exI [of _ "\<lparr>po_id = u, po_topic = ty, po_key = k, po_payload = stored, po_created_at = now,
        po_published_at = None\<rparr>"]) simp
qed

lemma Outbox_Add_InrD:
  assumes "Outbox_Add pd ty b s = (Inr x, t)"
  shows "event_added pd ty b (s_db s) (s_db t)"
  using assms
  by (auto simp: Outbox_Add_def prof_uuid_def on_world_def bindE_Inr_iff
      dest!: stmt_InrD sql_insert_prof_outbox_added split: prod.splits)

definition with_profile :: "string \<Rightarrow> int \<Rightarrow> Profile \<Rightarrow> 'b prof_db \<Rightarrow> 'b prof_db" where
  "with_profile u now p d = d\<lparr>profiles := map (\<lambda>r. if pr_user r = u then set_profile now p r else r) (profiles d)\<rparr>"

lemma sql_update_profile_Inr_iff:
  "sql_update_profile pd now p d = Inr (d', n) \<longleftrightarrow>
     (\<exists>u. pd_uuid_in pd (f_UserID p) = Some u \<and> n = length (filter (\<lambda>r. pr_user r = u) (profiles d))
        \<and> d' = with_profile u now p d)"
  by (auto simp: with_profile_def sql_update_profile_def as_uuid_def split: option.splits)

text \<open>A successful update has changed the row of the user and stored one event.\<close>

definition profile_updated :: "('w, 'b) prof_deps \<Rightarrow> int \<Rightarrow> Profile \<Rightarrow> 'b prof_db \<Rightarrow> 'b prof_db \<Rightarrow> bool" where
  "profile_updated pd now p d d' \<longleftrightarrow>
     (\<exists>u b. pd_uuid_in pd (f_UserID p) = Some u \<and> u \<in> pr_user ` set (profiles d) \<and> pd_enc_profile pd p = Inr b
        \<and> event_added pd ''profile.updated'' b (with_profile u now p d) d')"

lemma prof_Update_InrD:
  assumes "prof_Update pd p s = (Inr x, t)"
  shows "profile_updated pd (s_now s) p (s_db s) (s_db t)"
proof -
  from assms obtain s1 where up: "repo_UpdateProfile pd p s = (Inr (), s1)"
    and rest: "attempt (on_world (ProfileCache_Delete pd (f_UserID p)))
        (\<lambda>_. bindE (wrap_err ''failed to marshal profile'' (lift_res (pd_enc_profile pd p)))
          (\<lambda>payload. wrap_err ''failed to save outbox event'' (Outbox_Add pd ''profile.updated'' payload))) s1 = (Inr x, t)"
    by (auto simp: prof_Update_def bindE_Inr_iff simp del: attempt_eq)
  obtain c s2 where del: "on_world (ProfileCache_Delete pd (f_UserID p)) s1 = (c, s2)" by fastforce
  with rest obtain b where enc: "pd_enc_profile pd p = Inr b"
    and out: "Outbox_Add pd ''profile.updated'' b s2 = (Inr x, t)"
    by (auto simp: bindE_Inr_iff)
  from up obtain n where st: "sql_update_profile pd (s_now s) p (s_db s) = Inr (s_db s1, n)" and n: "n \<noteq> 0"
    by (auto simp: repo_UpdateProfile_def bindE_Inr_iff dest!: stmt_InrD split: if_splits)
  from del have "s_db s2 = s_db s1" by (auto simp: on_world_def split: prod.splits)
  with Outbox_Add_InrD [OF out] have ev: "event_added pd ''profile.updated'' b (s_db s1) (s_db t)" by simp
  from st obtain u where u: "pd_uuid_in pd (f_UserID p) = Some u"
    "n = length (filter (\<lambda>r. pr_user r = u) (profiles (s_db s)))"
    "s_db s1 = with_profile u (s_now s) p (s_db s)"
    unfolding sql_update_profile_Inr_iff by blast
  from u(2) n have "u \<in> pr_user ` set (profiles (s_db s))" by (auto simp: filter_empty_conv)
  with u(1,3) ev enc show ?thesis unfolding profile_updated_def by metis
qed

lemma apply_update_user [simp]: "f_UserID (apply_update n a b p) = f_UserID p"
  by (simp add: apply_update_def Let_def split: option.splits)

lemma mapping_errors_Inr_iff: "mapping_errors f m s = (Inr a, t) \<longleftrightarrow> m s = (Inr a, t)"
  by (cases "m s"; cases "fst (m s)") (auto simp: mapping_errors_def attempt_def)

lemma rpc_UpdateProfile_InrD:
  assumes "rpc_UpdateProfile is_status pd i n a b s = (Inr resp, t)"
  shows "\<exists>p0 s1. prof_Get pd i s = (Inr p0, s1) \<and> prof_Update pd (apply_update n a b p0) s1 = (Inr (), t)
    \<and> resp = ProfileResponse (prof_toProto (apply_update n a b p0))"
  using assms by (auto simp: rpc_UpdateProfile_def bindE_Inr_iff Let_def mapping_errors_Inr_iff)

section \<open>Blocks\<close>

definition in_force :: "string \<Rightarrow> string \<Rightarrow> 'b prof_db \<Rightarrow> bool" where
  "in_force u c d \<longleftrightarrow> (\<exists>r \<in> set (blocks d). bl_user r = u \<and> bl_blocked r = c)
     \<and> \<not> (\<exists>r \<in> set (contacts d). ct_user r = u \<and> ct_contact r = c)"

interpretation bk: db_order "\<lambda>d d'. in_force u c d \<longrightarrow> in_force u c d'" for u c :: string
  by unfold_locales auto

abbreviation keeps_block :: "string \<Rightarrow> string \<Rightarrow> ('w, 'b, 'a) prof_prog \<Rightarrow> bool" where
  "keeps_block u c \<equiv> db_rel (\<lambda>d d'. in_force u c d \<longrightarrow> in_force u c d')"

lemma in_force_cong: "blocks d' = blocks d \<Longrightarrow> contacts d' = contacts d \<Longrightarrow> in_force u c d' = in_force u c d"
  by (simp add: in_force_def)

lemma in_force_mono:
  "in_force u c d \<Longrightarrow> set (blocks d) \<subseteq> set (blocks d') \<Longrightarrow> set (contacts d') \<subseteq> set (contacts d) \<Longrightarrow> in_force u c d'"
  by (auto simp: in_force_def subset_iff)

lemma prof_statements_block:
  "sql_create_profile pd now i d = Inr (d', x1) \<Longrightarrow> in_force u c d' = in_force u c d"
  "sql_update_profile pd now p d = Inr (d', x2) \<Longrightarrow> in_force u c d' = in_force u c d"
  "sql_insert_prof_outbox pd now i ty k b d = Inr (d', x3) \<Longrightarrow> in_force u c d' = in_force u c d"
  "in_force u c (sql_mark_published now i d) = in_force u c d"
  "sql_remove_contact pd a b' d = Inr (d', x4) \<Longrightarrow> in_force u c d \<Longrightarrow> in_force u c d'"
  "sql_add_block pd now a b' d = Inr (d', x5) \<Longrightarrow> in_force u c d \<Longrightarrow> in_force u c d'"
proof -
  show "sql_create_profile pd now i d = Inr (d', x1) \<Longrightarrow> in_force u c d' = in_force u c d"
    by (rule in_force_cong) (auto simp: sql_create_profile_eq dest!: as_uuid_InrD split: if_splits)
  show "sql_update_profile pd now p d = Inr (d', x2) \<Longrightarrow> in_force u c d' = in_force u c d"
    by (rule in_force_cong) (auto simp: sql_update_profile_Inr_iff with_profile_def)
  show "sql_insert_prof_outbox pd now i ty k b d = Inr (d', x3) \<Longrightarrow> in_force u c d' = in_force u c d"
    by (rule in_force_cong)
      (auto simp: sql_insert_prof_outbox_def dest!: as_uuid_InrD split: if_splits option.splits)
  show "in_force u c (sql_mark_published now i d) = in_force u c d"
    by (rule in_force_cong) (simp_all add: sql_mark_published_def)
  show "sql_remove_contact pd a b' d = Inr (d', x4) \<Longrightarrow> in_force u c d \<Longrightarrow> in_force u c d'"
    by (erule in_force_mono) (auto simp: sql_remove_contact_def dest!: as_uuid_InrD)
  show "sql_add_block pd now a b' d = Inr (d', x5) \<Longrightarrow> in_force u c d \<Longrightarrow> in_force u c d'"
    by (erule in_force_mono) (auto simp: sql_add_block_def dest!: as_uuid_InrD split: if_splits)
qed

lemma prof_repo_block:
  "keeps_block u c (CreateIfNotExists pd i)" "keeps_block u c (repo_UpdateProfile pd p)"
  "keeps_block u c (ContactRepo_Remove pd a b)" "keeps_block u c (BlockRepo_Add pd a b)"
  "keeps_block u c (Outbox_Add pd ty v)" "keeps_block u c (MarkPublished i)"
  "keeps_block u c (repo_GetProfile pd i)" "keeps_block u c (BlockRepo_Exists pd a b)"
  "keeps_block u c (ContactRepo_List pd a l off)"
  unfolding CreateIfNotExists_def repo_UpdateProfile_def ContactRepo_Remove_def BlockRepo_Add_def Outbox_Add_def
    MarkPublished_def prof_uuid_def repo_GetProfile_def BlockRepo_Exists_def ContactRepo_List_def
  by (intro bk.db_rules bk.stmt_rel; auto simp: prof_statements_block dest!: as_uuid_InrD)+

text \<open>An addition looks for the block first.\<close>

lemma sql_add_contact_block:
  assumes "sql_add_contact pd now a b d = Inr (d', x)" and bl: "in_force u c d"
    and other: "pd_uuid_in pd a = Some u \<Longrightarrow> pd_uuid_in pd b \<noteq> Some c"
  shows "in_force u c d'"
proof -
  from assms(1) obtain u' c' where id: "pd_uuid_in pd a = Some u'" "pd_uuid_in pd b = Some c'"
    and d': "d' = d \<or> d' = d\<lparr>contacts := contacts d @ [\<lparr>ct_user = u', ct_contact = c', ct_created_at = now\<rparr>]\<rparr>"
    by (auto simp: sql_add_contact_def dest!: as_uuid_InrD split: if_splits)
  from id other have "(u', c') \<noteq> (u, c)" by auto
  with d' bl show ?thesis by (auto simp: in_force_def)
qed

lemma BlockRepo_Exists_InrD:
  assumes "BlockRepo_Exists pd a b s = (Inr False, s1)" and "pd_uuid_in pd a = Some u" and "pd_uuid_in pd b = Some c"
  shows "\<not> (\<exists>r \<in> set (blocks (s_db s)). bl_user r = u \<and> bl_blocked r = c)"
proof -
  from stmt_InrD [OF assms(1) [unfolded BlockRepo_Exists_def]] assms(2,3)
  have "Inr (s_db s, \<exists>r \<in> set (blocks (s_db s)). bl_user r = u \<and> bl_blocked r = c) = Inr (s_db s1, False)"
    by (simp add: as_uuid_def)
  then show ?thesis by simp
qed

lemma Contact_Add_block:
  fixes pd :: "('w, 'b) prof_deps"
  shows "keeps_block u c (Contact_Add pd a b)"
proof -
  have "in_force u c (s_db t)"
    if run: "Contact_Add pd a b s = (r, t)" and bl: "in_force u c (s_db s)" for s t :: "('b prof_db, 'w) sess" and r
  proof -
    let ?rest = "bindE (lift_res (pd_enc_map pd [(''user_id'', a), (''contact_id'', b)]))
        (\<lambda>v. Outbox_Add pd ''contact.added'' v)"
    have rest: "keeps_block u c ?rest" by (intro bk.db_rules prof_repo_block)
    obtain q s1 where ex: "BlockRepo_Exists pd a b s = (q, s1)" by fastforce
    from db_relD [OF prof_repo_block(8) ex] bl have bl1: "in_force u c (s_db s1)" by blast
    show ?thesis
    proof (cases "a = b \<or> q \<noteq> Inr False")
      case True
      with run ex have "t = s \<or> t = s1"
        by (cases "a = b"; cases q) (simp_all add: Contact_Add_def throw_def)
      with bl bl1 show ?thesis by blast
    next
      case False
      then have q: "q = Inr False" "a \<noteq> b" by auto
      from BlockRepo_Exists_InrD [OF ex [unfolded q(1)]] bl
      have other: "pd_uuid_in pd a = Some u \<Longrightarrow> pd_uuid_in pd b \<noteq> Some c" unfolding in_force_def by blast
      have add: "keeps_block u c (ContactRepo_Add pd a b)"
        unfolding ContactRepo_Add_def by (intro bk.db_rules bk.stmt_rel) (blast intro: sql_add_contact_block [OF _ _ other])
      from run q ex have "bindE (ContactRepo_Add pd a b) (\<lambda>_. ?rest) s1 = (r, t)" by (simp add: Contact_Add_def)
      from db_relD [OF bk.bindE_rel [OF add rest] this] bl1 show ?thesis by blast
    qed
  qed
  then show ?thesis unfolding db_rel_def by (metis prod.collapse)
qed

lemma BlockRepo_Remove_block:
  assumes "\<not> (pd_uuid_in pd a = Some u \<and> pd_uuid_in pd b = Some c)"
  shows "keeps_block u c (BlockRepo_Remove pd a b)"
proof -
  have "in_force u c d'"
    if "as_uuid pd a (\<lambda>u. as_uuid pd b (\<lambda>c. Inr (d\<lparr>blocks := filter (\<lambda>r. \<not> (bl_user r = u \<and> bl_blocked r = c)) (blocks d)\<rparr>, ())))
        = Inr (d', x)" and bl: "in_force u c d" for d d' x
  proof -
    from that(1) obtain u' c' where id: "pd_uuid_in pd a = Some u'" "pd_uuid_in pd b = Some c'"
      and d': "d' = d\<lparr>blocks := filter (\<lambda>r. \<not> (bl_user r = u' \<and> bl_blocked r = c')) (blocks d)\<rparr>"
      by (auto dest!: as_uuid_InrD)
    from id assms have "(u', c') \<noteq> (u, c)" by auto
    with bl show ?thesis unfolding in_force_def d' by auto
  qed
  then show ?thesis unfolding BlockRepo_Remove_def by (intro bk.stmt_rel) blast
qed

lemma publish_rows_block: "keeps_block u c (publish_rows wr rows)"
proof (induction rows)
  case (Cons row rows)
  show ?case unfolding publish_rows.simps by (intro bk.db_rules prof_repo_block Cons.IH)
qed (simp only: publish_rows.simps bk.ret_rel)

lemma consumer_block: "keeps_block u c (StartUserCreatedConsumer pd ms)"
proof (induction ms)
  case (Cons m ms)
  show ?case
  proof (cases m)
    case (Inl e)
    show ?thesis unfolding Inl StartUserCreatedConsumer.simps by (rule bk.ret_rel)
  next
    case (Inr k)
    show ?thesis unfolding Inr StartUserCreatedConsumer.simps by (intro bk.db_rules prof_repo_block Cons.IH)
  qed
qed (simp only: StartUserCreatedConsumer.simps bk.ret_rel)

text \<open>The one call that lifts a block of \<open>u\<close> on \<open>c\<close>.\<close>

definition lifts_block :: "('w, 'b) prof_deps \<Rightarrow> string \<Rightarrow> string \<Rightarrow> 'b prof_call \<Rightarrow> bool" where
  "lifts_block pd u c call \<longleftrightarrow>
     (\<exists>a b. call = PUnblock a b \<and> pd_uuid_in pd a = Some u \<and> pd_uuid_in pd b = Some c)"

lemma prof_exec_block:
  fixes pd :: "('w, 'b) prof_deps"
  assumes "\<not> lifts_block pd u c call"
  shows "keeps_block u c (prof_exec pd wr call)"
proof -
  have ans: "keeps_block u c (answer f m)" if "keeps_block u c m" for f :: "'x \<Rightarrow> prof_answer" and m :: "('w, 'b, 'x) prof_prog"
    using that unfolding answer_def by (intro bk.bindE_rel bk.ret_rel)
  show ?thesis
  proof (cases call)
    case (PUnblock a b)
    with assms have "\<not> (pd_uuid_in pd a = Some u \<and> pd_uuid_in pd b = Some c)" by (auto simp: lifts_block_def)
    from BlockRepo_Remove_block [OF this] have "keeps_block u c (Unblock pd a b)"
      unfolding Unblock_def by (intro bk.db_rules prof_repo_block)
    then show ?thesis unfolding PUnblock prof_exec.simps by (rule ans)
  next
    case (PContactAdd a b)
    show ?thesis unfolding PContactAdd prof_exec.simps by (intro ans Contact_Add_block)
  next
    case (PConsume ms)
    show ?thesis unfolding PConsume prof_exec.simps by (intro ans consumer_block)
  next
    case PPublish
    have "keeps_block u c (publishBatch wr)"
      unfolding publishBatch_def Outbox_Fetch_def by (intro bk.db_rules publish_rows_block)
    then show ?thesis unfolding PPublish prof_exec.simps by (rule ans)
  qed (hypsubst, unfold prof_exec.simps prof_Get_def prof_BatchGet_def repo_BatchGet_def prof_Update_def Block_def
      Contact_Remove_def Contact_List_def, intro ans bk.db_rules prof_repo_block)+
qed

lemma prof_run_block:
  "prof_run pd wr d tr d' \<Longrightarrow> \<forall>call \<in> fst ` set tr. \<not> lifts_block pd u c call \<Longrightarrow> in_force u c d \<Longrightarrow> in_force u c d'"
proof (induction rule: prof_run.induct)
  case (prun_cons call d w script now r t tr d')
  then have "\<not> lifts_block pd u c call" by simp
  from db_relD [OF prof_exec_block [OF this] prun_cons.hyps(1)] prun_cons show ?case by simp
qed

text \<open>What a successful block leaves.\<close>

lemma sql_add_block_InrD:
  assumes "sql_add_block pd now a b d = Inr (d', x)"
  shows "\<exists>u c. pd_uuid_in pd a = Some u \<and> pd_uuid_in pd b = Some c
    \<and> (\<exists>r \<in> set (blocks d'). bl_user r = u \<and> bl_blocked r = c)"
proof -
  from as_uuid_InrD [OF assms [unfolded sql_add_block_def]] obtain u where u: "pd_uuid_in pd a = Some u"
    and "as_uuid pd b (\<lambda>c. if u = c then Inl err_check
        else if \<exists>r \<in> set (blocks d). bl_user r = u \<and> bl_blocked r = c then Inr (d, ())
        else Inr (d\<lparr>blocks := blocks d @ [\<lparr>bl_user = u, bl_blocked = c, bl_created_at = now\<rparr>]\<rparr>, ())) = Inr (d', x)" by blast
  from as_uuid_InrD [OF this(2)] obtain c where c: "pd_uuid_in pd b = Some c"
    and d': "(if u = c then Inl err_check
        else if \<exists>r \<in> set (blocks d). bl_user r = u \<and> bl_blocked r = c then Inr (d, ())
        else Inr (d\<lparr>blocks := blocks d @ [\<lparr>bl_user = u, bl_blocked = c, bl_created_at = now\<rparr>]\<rparr>, ())) = Inr (d', x)"
    by blast
  from d' have "\<exists>r \<in> set (blocks d'). bl_user r = u \<and> bl_blocked r = c"
    by (cases "\<exists>r \<in> set (blocks d). bl_user r = u \<and> bl_blocked r = c") (auto split: if_splits)
  with u c show ?thesis by blast
qed

lemma Block_InrD:
  assumes "Block pd a b s = (Inr x, t)"
  shows "\<exists>u c. pd_uuid_in pd a = Some u \<and> pd_uuid_in pd b = Some c \<and> in_force u c (s_db t)"
proof -
  let ?rest = "bindE (lift_res (pd_enc_map pd [(''user_id'', a), (''blocked'', b)])) (\<lambda>v. Outbox_Add pd ''user.blocked'' v)"
  from assms obtain s1 s2 where add: "BlockRepo_Add pd a b s = (Inr (), s1)"
    and rem: "ContactRepo_Remove pd a b s1 = (Inr (), s2)" and rest: "?rest s2 = (Inr x, t)"
    by (auto simp: Block_def bindE_Inr_iff throw_def split: if_splits)
  from add have "sql_add_block pd (s_now s) a b (s_db s) = Inr (s_db s1, ())"
    by (auto simp: BlockRepo_Add_def bindE_Inr_iff dest!: stmt_InrD)
  from sql_add_block_InrD [OF this] obtain u c where id: "pd_uuid_in pd a = Some u" "pd_uuid_in pd b = Some c"
    and bl: "\<exists>r \<in> set (blocks (s_db s1)). bl_user r = u \<and> bl_blocked r = c" by blast
  from stmt_InrD [OF rem [unfolded ContactRepo_Remove_def]] id
  have "s_db s2 = (s_db s1)\<lparr>contacts := filter (\<lambda>r. \<not> (ct_user r = u \<and> ct_contact r = c)) (contacts (s_db s1))\<rparr>"
    by (simp add: sql_remove_contact_def as_uuid_def)
  with bl have "in_force u c (s_db s2)" by (simp add: in_force_def)
  moreover have "keeps_block u c ?rest" by (intro bk.db_rules prof_repo_block)
  ultimately have "in_force u c (s_db t)" using db_relD rest by blast
  with id show ?thesis by blast
qed

text \<open>With the block in force and nothing failing, an addition is refused.\<close>

lemma Contact_Add_refused:
  assumes "in_force u c (s_db s)" and "pd_uuid_in pd a = Some u" and "pd_uuid_in pd b = Some c" and "s_script s = []"
    and "a \<noteq> b"
  shows "Contact_Add pd a b s = (Inl (Plain ''blocked''), s)"
proof -
  have "BlockRepo_Exists pd a b s = (Inr True, s)"
    using assms by (simp add: BlockRepo_Exists_def stmt_ok as_uuid_def in_force_def)
  with assms(5) show ?thesis by (simp add: Contact_Add_def throw_def)
qed

end
