(* ===== verification/ProfProps.thy ===== *)
theory ProfProps
  imports ProfFacts AuthProps
begin

text \<open>
  The properties of the profile service, with a concrete service to apply them to: texts for JSON, a
  Redis that keeps what it is told except when it is out of order.
\<close>

record prof_world = demo_world +
  pw_cache :: "(string \<times> string) list"
  pw_down :: bool

definition demo_lines :: "string list \<Rightarrow> string" where
  "demo_lines ts = concat (map (\<lambda>t. t @ [CHR 0x0A]) ts)"

definition demo_enc :: "Profile \<Rightarrow> string" where
  "demo_enc p = demo_lines [f_UserID p, f_Username p, f_DisplayName p, f_Bio p, f_AvatarURL p]"

definition demo_dec :: "string \<Rightarrow> string + Profile" where
  "demo_dec t = (case strings_Split (CHR 0x0A) t of
     [u, n, dn, bio, avatar, _] \<Rightarrow> Inr \<lparr>f_UserID = u, f_Username = n, f_DisplayName = dn, f_Bio = bio,
       f_AvatarURL = avatar, f_CreatedAt = 0, f_UpdatedAt = 0\<rparr>
   | _ \<Rightarrow> Inl ''unexpected end of JSON input'')"

definition demo_prof :: "(prof_world, string) prof_deps" where
  "demo_prof = \<lparr>
     pd_uuid_in = (\<lambda>i. if i = [] then None else Some i),
     pd_jsonb = Some,
     pd_uuid = (\<lambda>w. case demo_draw w of (k, w') \<Rightarrow> (CHR ''p'' # demo_text k, w')),
     pd_redis = \<lparr>
       rd_Get = (\<lambda>k w. (if pw_down w then Inl (RedisErr ''dial tcp'')
          else (case map_of (pw_cache w) k of None \<Rightarrow> Inl RedisNil | Some v \<Rightarrow> Inr v), w)),
       rd_Set = (\<lambda>k v ttl w. if pw_down w then (Some ''dial tcp'', w) else (None, w\<lparr>pw_cache := (k, v) # pw_cache w\<rparr>)),
       rd_Del = (\<lambda>k w. if pw_down w then (Some ''dial tcp'', w)
          else (None, w\<lparr>pw_cache := filter (\<lambda>e. fst e \<noteq> k) (pw_cache w)\<rparr>))\<rparr>,
     pd_enc_profile = (\<lambda>p. Inr (demo_enc p)),
     pd_dec_profile = demo_dec,
     pd_enc_map = (\<lambda>kvs. Inr (demo_lines (map snd kvs))),
     pd_dec_user = Inr\<rparr>"

definition demo_prof_writer :: "(prof_world, string) writer" where
  "demo_prof_writer m w = (None, w)"

definition demo_profiles :: "prof_world" where
  "demo_profiles = \<lparr>dw_next = 0, dw_log = [], pw_cache = [], pw_down = False\<rparr>"

text \<open>Calls one after the other.\<close>

fun prof_calls ::
  "('w, 'b) prof_deps \<Rightarrow> ('w, 'b) writer \<Rightarrow> ('b prof_call \<times> outcome list \<times> int) list \<Rightarrow> 'b prof_db \<times> 'w
    \<Rightarrow> ('b prof_call \<times> (prof_err go_error + prof_answer)) list \<times> ('b prof_db \<times> 'w)" where
  "prof_calls pd wr [] st = ([], st)"
| "prof_calls pd wr ((call, script, now) # cs) st =
     (case prof_exec pd wr call (session (fst st) (snd st) script now) of (r, t) \<Rightarrow>
       (case prof_calls pd wr cs (s_db t, s_world t) of (tr, st') \<Rightarrow> ((call, r) # tr, st')))"

lemma prof_calls_run:
  "prof_calls pd wr cs st = (tr, st') \<Longrightarrow> prof_run pd wr (fst st) tr (fst st')"
proof (induction cs arbitrary: st tr)
  case (Cons c cs)
  obtain call script now where c: "c = (call, script, now)" by (cases c) auto
  obtain r t where ex: "prof_exec pd wr call (session (fst st) (snd st) script now) = (r, t)" by fastforce
  obtain tr1 where run: "prof_calls pd wr cs (s_db t, s_world t) = (tr1, st')" and tr: "tr = (call, r) # tr1"
    using Cons.prems by (auto simp: c ex split: prod.splits)
  from prun_cons [OF ex] Cons.IH [OF run] show ?case by (simp add: tr)
qed (auto intro: prun_nil)

abbreviation prof_msg :: "string \<Rightarrow> string + string kafka_msg" where
  "prof_msg u \<equiv> Inr (topic_msg ''auth.user.created'' u u)"

text \<open>Two accounts are announced, one of them twice; one adds the other as a contact and then blocks her.\<close>

definition demo_prof_calls :: "(string prof_call \<times> outcome list \<times> int) list" where
  "demo_prof_calls = [
     (PConsume [prof_msg ''ann'', prof_msg ''bob'', prof_msg ''ann''], [], 1),
     (PContactAdd ''ann'' ''bob'', [], 2),
     (PContactAdd ''ann'' ''ann'', [], 2),
     (PPublish, [], 3)]"

definition demo_prof_end :: "(string prof_call \<times> (prof_err go_error + prof_answer)) list \<times> (string prof_db \<times> prof_world)" where
  "demo_prof_end = prof_calls demo_prof demo_prof_writer demo_prof_calls (empty_prof_db, demo_profiles)"

lemma demo_prof_run: "prof_run demo_prof demo_prof_writer empty_prof_db (fst demo_prof_end) (fst (snd demo_prof_end))"
  using prof_calls_run [of demo_prof demo_prof_writer demo_prof_calls "(empty_prof_db, demo_profiles)"]
  unfolding demo_prof_end_def by (metis fst_conv prod.collapse)

section \<open>The tables\<close>

text \<open>C23: Every state the profile service reaches, whatever calls run and whatever statements, caches and broker
  calls fail, satisfies the invariant of its tables: user ids and usernames are unique and belong together,
  no contact or block is stored twice or of a user with itself, and event ids are unique.\<close>

theorem prof_tables_invariant:
  assumes "prof_run pd wr empty_prof_db tr d"
  shows "prof_inv pd d"
  using prof_run_inv [OF assms prof_inv_empty] .

theorem prof_tables_invariant_witness:
  "prof_inv demo_prof (fst (snd demo_prof_end)) \<and> map pr_user (profiles (fst (snd demo_prof_end))) = [''ann'', ''bob'']
    \<and> length (contacts (fst (snd demo_prof_end))) = 1"
proof -
  have "map pr_user (profiles (fst (snd demo_prof_end))) = [''ann'', ''bob'']"
    "length (contacts (fst (snd demo_prof_end))) = 1" by code_simp+
  with prof_tables_invariant [OF demo_prof_run] show ?thesis by simp
qed

section \<open>Updates\<close>






text \<open>
  A delete of the cache entry that fails is ignored. The next update starts from the stale entry and writes the old
  bio back, although both updates succeeded.
\<close>

theorem stale_cache_loses_an_update:
  "(let upd = (\<lambda>n b down st. case rpc_UpdateProfile wraps_status demo_prof ''ann'' n None b
           (session (fst st) ((snd st)\<lparr>pw_down := down\<rparr>) [] 9) of (r, t) \<Rightarrow> (r, (s_db t, s_world t)));
        st1 = (case prof_Get demo_prof ''ann'' (session (fst (snd demo_prof_end)) (snd (snd demo_prof_end)) [] 8) of
           (_, t) \<Rightarrow> (s_db t, s_world t));
        (r2, st2) = upd None (Some ''hello'') True st1;
        (r3, st3) = upd (Some ''Ann'') None False st2
    in (case r2 of Inr _ \<Rightarrow> True | _ \<Rightarrow> False, case r3 of Inr _ \<Rightarrow> True | _ \<Rightarrow> False,
        map (\<lambda>r. (pr_display_name r, pr_bio r)) (filter (\<lambda>r. pr_user r = ''ann'') (profiles (fst st3)))))
   = (True, True, [(Some ''Ann'', Some [])])"
  by code_simp

text \<open>The update and its event are two statements: when the second fails, the caller gets an error and the row is changed.\<close>

theorem failed_update_changes_the_row:
  "(case rpc_UpdateProfile wraps_status demo_prof ''ann'' (Some ''Ann'') None None
       (session (fst (snd demo_prof_end)) (snd (snd demo_prof_end)) [Proceed, Proceed, Lost] 9) of (r, t) \<Rightarrow>
     (r, map pr_display_name (profiles (s_db t)), prof_outbox (s_db t) = prof_outbox (fst (snd demo_prof_end))))
   = (Inl (Status Internal ''internal server error''), [Some ''Ann'', None], True)"
  by code_simp

section \<open>Blocks\<close>



text \<open>Its statements are not one transaction: a failure between them leaves a blocked contact.\<close>

theorem failed_block_leaves_the_contact:
  "(case Block demo_prof ''ann'' ''bob'' (session (fst (snd demo_prof_end)) (snd (snd demo_prof_end)) [Proceed, Lost] 9) of
      (r, t) \<Rightarrow> (case r of Inl _ \<Rightarrow> True | _ \<Rightarrow> False, map bl_blocked (blocks (s_db t)), map ct_contact (contacts (s_db t))))
   = (True, [''bob''], [''bob''])"
  by code_simp

section \<open>New accounts\<close>

text \<open>
  The message was read, the insert failed, the error is dropped: the account has no profile, and the
  message is not read again.
\<close>

theorem failed_insert_loses_the_account:
  "(case StartUserCreatedConsumer demo_prof [prof_msg ''ann'', prof_msg ''bob'']
       (session empty_prof_db demo_profiles [Fails ''pq: too many clients already''] 1) of
      (r, t) \<Rightarrow> (r, map pr_user (profiles (s_db t))))
   = (Inr (), [''bob''])"
  by code_simp

end
