(* ===== verification/AccountFlow.thy ===== *)
theory AccountFlow
  imports AuthProps ProfProps
begin

text \<open>
  From an account to its profile: the auth service announces every account through its outbox and the
  log of the broker, and the profile service creates a profile for every announcement it reads.
\<close>

section \<open>Announcements\<close>















section \<open>Reading the announcements\<close>




section \<open>From the account to the profile\<close>






end
