(* ===== verification/Gateway.thy ===== *)
theory Gateway
  imports ConvGrpc MsgGrpc AuthGrpc ProfGrpc Presence
begin

text \<open>
  The gateway (\<^verbatim>\<open>edge/gateway/internal\<close>): the middleware, the transport helpers and the handlers. The
  gRPC clients of the other services are parameters; a client gets the outgoing metadata, the request
  and the world, and answers a response or an error. The type of a response is the sum of all the
  responses of its service; a client answers a request with the response of its own method.
\<close>

type_synonym metadata = "(string \<times> string) list"

type_synonym ('q, 'r, 'w) client = "metadata \<Rightarrow> 'q \<Rightarrow> 'w \<Rightarrow> (unit go_error + 'r) \<times> 'w"

record 'w gateway =
  gw_auth :: "(auth_request, auth_response, 'w) client"
  gw_profile :: "(prof_request, prof_response, 'w) client"
  gw_conv :: "(conv_request, conv_response, 'w) client"
  gw_msg :: "(msg_request, msg_response, 'w) client"
  gw_presence :: "(string list, UserPresence list, 'w) client"
  gw_uuid :: "'w \<Rightarrow> string \<times> 'w"
  gw_from_status :: "unit go_error \<Rightarrow> (code \<times> string) option"  \<comment> \<open>\<open>status.FromError\<close>\<close>
  gw_parse :: jwt_parse
  gw_secret :: string
  gw_issuer :: string
  gw_audience :: string

datatype gw_json =
    GwAuth auth_response
  | GwProfile prof_response
  | GwConv conv_response
  | GwMsg msg_response
  | GwPresence "UserPresence list"

type_synonym gw_reply = "gw_json http_reply"

type_synonym 'w gw_handler = "'w \<Rightarrow> gw_reply \<times> 'w"

section \<open>Transport\<close>

definition WithUserID :: "metadata \<Rightarrow> string \<Rightarrow> metadata" where
  "WithUserID out userID = out @ [(HeaderUserID, userID)]"

definition WithRequestID :: "metadata \<Rightarrow> string \<Rightarrow> metadata" where
  "WithRequestID out reqID = (if reqID = [] then out else out @ [(HeaderRequestID, reqID)])"

definition WithMeta :: "metadata \<Rightarrow> string \<Rightarrow> string \<Rightarrow> metadata" where
  "WithMeta out userID reqID = WithRequestID (WithUserID out userID) reqID"

definition WriteError :: "nat \<Rightarrow> string \<Rightarrow> string \<Rightarrow> gw_reply" where
  "WriteError st code message = reply st (MapBody [(''error'', code), (''message'', message)])"

definition GRPCError :: "'w gateway \<Rightarrow> unit go_error \<Rightarrow> gw_reply" where
  "GRPCError gw err =
     (case gw_from_status gw err of
        None \<Rightarrow> WriteError 500 ''internal_error'' ''an unexpected error occurred''
      | Some (c, m) \<Rightarrow>
          (case c of
             NotFound \<Rightarrow> WriteError 404 ''not_found'' m
           | InvalidArgument \<Rightarrow> WriteError 400 ''invalid_argument'' m
           | Unauthenticated \<Rightarrow> WriteError 401 ''unauthorized'' ''authentication failed''
           | PermissionDenied \<Rightarrow> WriteError 403 ''forbidden'' ''access denied''
           | AlreadyExists \<Rightarrow> WriteError 409 ''already_exists'' m
           | Unavailable \<Rightarrow> WriteError 503 ''unavailable'' ''service temporarily unavailable''
           | DeadlineExceeded \<Rightarrow> WriteError 504 ''timeout'' ''request timed out''
           | _ \<Rightarrow> WriteError 500 ''internal_error'' ''an unexpected error occurred''))"

text \<open>\<open>resp, err := client.M(ctx, req); if err != nil { GRPCError; return }\<close> and then \<open>k\<close>.\<close>

definition call_then ::
  "'w gateway \<Rightarrow> (unit go_error + 'r) \<times> 'w \<Rightarrow> ('r \<Rightarrow> 'w \<Rightarrow> gw_reply \<times> 'w) \<Rightarrow> gw_reply \<times> 'w" where
  "call_then gw rw k = (case rw of (Inl err, w) \<Rightarrow> (GRPCError gw err, w) | (Inr resp, w) \<Rightarrow> k resp w)"

section \<open>Middleware\<close>

definition http_Error :: "string \<Rightarrow> nat \<Rightarrow> gw_reply" where
  "http_Error msg st = reply st (TextBody (msg @ [CHR 0x0A]))"

definition extractToken :: "string \<Rightarrow> string + string" where
  "extractToken header =
     (if header = [] then Inl ''missing token''
      else let parts = strings_Split (CHR '' '') header in
        if length parts \<noteq> 2 \<or> parts ! 0 \<noteq> ''Bearer'' then Inl ''invalid token format'' else Inr (parts ! 1))"

definition verifyToken :: "'w gateway \<Rightarrow> int \<Rightarrow> string \<Rightarrow> string + claims" where
  "verifyToken gw now tok =
     (case gw_parse gw (gw_secret gw) None None now tok of
        Inl _ \<Rightarrow> Inl ''invalid token''
      | Inr cl \<Rightarrow>
          if gw_issuer gw \<noteq> [] \<and> claim_string cl ''iss'' \<noteq> Some (gw_issuer gw) then Inl ''invalid token issuer''
          else if gw_audience gw \<noteq> [] \<and> claim_string cl ''aud'' \<noteq> Some (gw_audience gw)
          then Inl ''invalid token audience''
          else Inr cl)"

text \<open>The log line takes the first ten bytes of the token, and panics on a shorter one.\<close>

definition gw_JWT :: "'w gateway \<Rightarrow> int \<Rightarrow> string \<Rightarrow> string jwt_outcome" where
  "gw_JWT gw now header =
     (case extractToken header of
        Inl err \<Rightarrow> Unauthorized err
      | Inr tok \<Rightarrow>
          (case verifyToken gw now tok of
             Inl err \<Rightarrow> Unauthorized err
           | Inr cl \<Rightarrow>
               (case claim_string cl ''sub'' of
                  None \<Rightarrow> Unauthorized ''invalid token claims''
                | Some sub \<Rightarrow> if length tok < 10 then JwtPanic else Authorized sub)))"

definition RequestID :: "'w gateway \<Rightarrow> string \<Rightarrow> 'w \<Rightarrow> string \<times> 'w" where
  "RequestID gw header w = (if header = [] then gw_uuid gw w else (header, w))"

definition Recovery :: "gw_reply option \<Rightarrow> gw_reply" where
  "Recovery r = (case r of Some rep \<Rightarrow> rep | None \<Rightarrow> WriteError 500 ''internal_error'' ''internal server error'')"

section \<open>Accounts\<close>

abbreviation bad_body :: "string \<Rightarrow> gw_reply" where
  "bad_body msg \<equiv> WriteError 400 ''invalid_body'' msg"

definition gw_credentials ::
  "'w gateway \<Rightarrow> (string \<Rightarrow> string \<Rightarrow> auth_request) \<Rightarrow> nat \<Rightarrow> string \<Rightarrow> string + string \<times> string \<Rightarrow> 'w gw_handler" where
  "gw_credentials gw req st reqID body w =
     (case body of
        Inl _ \<Rightarrow> (bad_body ''invalid request body'', w)
      | Inr (email, pw) \<Rightarrow>
          if email = [] \<or> pw = [] then (WriteError 400 ''missing_fields'' ''email and password are required'', w)
          else call_then gw (gw_auth gw (WithRequestID [] reqID) (req email pw) w)
                 (\<lambda>resp w'. (reply st (RespBody (GwAuth resp)), w')))"

definition gw_Login :: "'w gateway \<Rightarrow> string \<Rightarrow> string + string \<times> string \<Rightarrow> 'w gw_handler" where
  "gw_Login gw = gw_credentials gw LoginRequest 200"

definition gw_Register :: "'w gateway \<Rightarrow> string \<Rightarrow> string + string \<times> string \<Rightarrow> 'w gw_handler" where
  "gw_Register gw = gw_credentials gw RegisterRequest 201"

definition gw_with_token ::
  "'w gateway \<Rightarrow> (string \<Rightarrow> 'w gw_handler) \<Rightarrow> string + string \<Rightarrow> 'w gw_handler" where
  "gw_with_token gw f body w =
     (case body of
        Inl _ \<Rightarrow> (bad_body ''invalid request body'', w)
      | Inr tok \<Rightarrow> if tok = [] then (WriteError 400 ''missing_fields'' ''refresh_token is required'', w) else f tok w)"

definition gw_Refresh :: "'w gateway \<Rightarrow> string \<Rightarrow> string + string \<Rightarrow> 'w gw_handler" where
  "gw_Refresh gw reqID = gw_with_token gw (\<lambda>tok w.
     call_then gw (gw_auth gw (WithRequestID [] reqID) (RefreshRequest tok) w)
       (\<lambda>resp w'. (reply 200 (RespBody (GwAuth resp)), w')))"

definition gw_Logout :: "'w gateway \<Rightarrow> string \<Rightarrow> string + string \<Rightarrow> 'w gw_handler" where
  "gw_Logout gw reqID = gw_with_token gw (\<lambda>tok w.
     call_then gw (gw_auth gw (WithRequestID [] reqID) (LogoutRequest tok) w) (\<lambda>_ w'. (reply 204 NoBody, w')))"

section \<open>Profiles and presence\<close>

definition gw_GetProfile :: "'w gateway \<Rightarrow> string \<Rightarrow> string \<Rightarrow> 'w gw_handler" where
  "gw_GetProfile gw userID reqID w =
     call_then gw (gw_profile gw (WithMeta [] userID reqID) (GetProfileRequest userID) w)
       (\<lambda>resp w'. (reply 200 (RespBody (GwProfile resp)), w'))"

text \<open>The decoded body: name, avatar and bio, each of which may be absent.\<close>

definition gw_UpdateProfile ::
  "'w gateway \<Rightarrow> string \<Rightarrow> string \<Rightarrow> string + string option \<times> string option \<times> string option \<Rightarrow> 'w gw_handler" where
  "gw_UpdateProfile gw userID reqID body w =
     (case body of
        Inl _ \<Rightarrow> (bad_body ''invalid request body'', w)
      | Inr (name, avatar, bio) \<Rightarrow>
          call_then gw (gw_profile gw (WithMeta [] userID reqID) (UpdateProfileRequest userID name avatar bio) w)
            (\<lambda>resp w'. (reply 200 (RespBody (GwProfile resp)), w')))"

definition gw_GetPresence :: "'w gateway \<Rightarrow> string \<Rightarrow> 'w gw_handler" where
  "gw_GetPresence gw userIDsStr w =
     (if userIDsStr = [] then (WriteError 400 ''missing_user_ids'' ''user_ids query parameter is required'', w)
      else call_then gw (gw_presence gw [] (strings_Split (CHR '','') userIDsStr) w)
             (\<lambda>resp w'. (reply 200 (RespBody (GwPresence resp)), w')))"

section \<open>Messages\<close>

record send_body =
  sb_ConversationID :: string
  sb_Content :: string
  sb_IdempotencyKey :: string
  sb_Type :: string

definition gw_SendMessage :: "'w gateway \<Rightarrow> string \<Rightarrow> string \<Rightarrow> string + send_body \<Rightarrow> 'w gw_handler" where
  "gw_SendMessage gw userID reqID body w =
     (case body of
        Inl _ \<Rightarrow> (bad_body ''invalid json'', w)
      | Inr req \<Rightarrow>
          if sb_ConversationID req = [] then (WriteError 400 ''missing_conv_id'' ''conversation_id is required'', w)
          else if sb_Content req = [] then (WriteError 400 ''missing_content'' ''content is required'', w)
          else
            let (key, w1) = (if sb_IdempotencyKey req = [] then gw_uuid gw w else (sb_IdempotencyKey req, w));
                msgType = (if sb_Type req = [] then ''text'' else sb_Type req)
            in call_then gw
                 (gw_msg gw (WithMeta [] userID reqID)
                    (SendMessageRequest (sb_ConversationID req) userID key msgType (sb_Content req) []) w1)
                 (\<lambda>resp w'. (reply 200 (RespBody (GwMsg resp)), w')))"

definition sync_limit :: "string \<Rightarrow> int" where
  "sync_limit val =
     (if val = [] then 50 else (case fmt_Sscanf_d 32 val of Some n \<Rightarrow> if n > 0 then n else 50 | None \<Rightarrow> 50))"

definition sync_after :: "string \<Rightarrow> int option" where
  "sync_after val = (if val = [] then Some 0 else fmt_Sscanf_d 64 val)"

definition gw_SyncMessages :: "'w gateway \<Rightarrow> string \<Rightarrow> string \<Rightarrow> string \<Rightarrow> string \<Rightarrow> string \<Rightarrow> 'w gw_handler" where
  "gw_SyncMessages gw userID reqID convID after limit w =
     (if convID = [] then (WriteError 400 ''missing_conv_id'' ''conversation_id query parameter is required'', w)
      else (case sync_after after of
        None \<Rightarrow> (WriteError 400 ''invalid_after'' ''after must be an integer'', w)
      | Some n \<Rightarrow>
          call_then gw (gw_msg gw (WithMeta [] userID reqID) (SyncMessagesRequest convID n (sync_limit limit)) w)
            (\<lambda>resp w'. (reply 200 (RespBody (GwMsg resp)), w'))))"

abbreviation status_ok_body :: gw_reply where
  "status_ok_body \<equiv> reply 200 (MapBody [(''status'', ''ok'')])"

text \<open>Bodies with two identifiers, both of which must be given.\<close>

definition gw_two_ids ::
  "string \<Rightarrow> string \<Rightarrow> (string \<Rightarrow> string \<Rightarrow> 'w gw_handler) \<Rightarrow> string + string \<times> string \<Rightarrow> 'w gw_handler" where
  "gw_two_ids invalid missing f body w =
     (case body of
        Inl _ \<Rightarrow> (bad_body invalid, w)
      | Inr (a, b) \<Rightarrow> if a = [] \<or> b = [] then (WriteError 400 ''missing_params'' missing, w) else f a b w)"

definition gw_DeleteMessage :: "'w gateway \<Rightarrow> string \<Rightarrow> string \<Rightarrow> string + string \<times> string \<Rightarrow> 'w gw_handler" where
  "gw_DeleteMessage gw userID reqID =
     gw_two_ids ''invalid json'' ''conversation_id and message_id are required'' (\<lambda>convID msgID w.
       call_then gw (gw_msg gw (WithMeta [] userID reqID) (DeleteMessageRequest convID msgID userID) w)
         (\<lambda>_ w'. (status_ok_body, w')))"

end
