(* ===== verification/GwConv.thy ===== *)
theory GwConv
  imports Gateway
begin

text \<open>
  \<^verbatim>\<open>edge/gateway/internal/handlers/conversation_handler.go\<close> and \<^verbatim>\<open>internal/router/router.go\<close>: the
  conversation handlers, which also put the profile of the other participant on direct conversations,
  and the route table behind the middleware.
\<close>

section \<open>Creating\<close>

record create_body =
  cb_ID :: string
  cb_Type :: string
  cb_DisplayName :: string
  cb_AvatarURL :: string
  cb_Participants :: "string list"

text \<open>The list of participants and the map of those seen, before and after one part of a text.\<close>

definition add_part :: "string \<Rightarrow> string list \<times> (string \<times> unit) list \<Rightarrow> string list \<times> (string \<times> unit) list" where
  "add_part part ps_seen =
     (case ps_seen of (participants, seen) \<Rightarrow>
       let trimmed = strings_TrimSpace part in
       if trimmed = [] then (participants, seen)
       else (case map_of seen trimmed of
               None \<Rightarrow> (participants @ [trimmed], map_put trimmed () seen)
             | Some _ \<Rightarrow> (participants, seen)))"

definition normalize_participants :: "string \<Rightarrow> string list \<Rightarrow> string list" where
  "normalize_participants userID ps =
     fst (fold (\<lambda>p. fold add_part (strings_Split (CHR '','') p)) ps ([userID], map_put userID () []))"

definition map_type :: "string \<Rightarrow> pb_conv_type" where
  "map_type t = (if strings_ToLower t = ''group'' then GROUP else DIRECT)"

section \<open>Names of direct conversations\<close>

definition collectOtherUserIDs :: "string \<Rightarrow> pb_conversation list \<Rightarrow> string list" where
  "collectOtherUserIDs currentUserID convs =
     map fst (fold (\<lambda>c m.
       if pc_Type c = DIRECT
       then fold (\<lambda>pid m. if pid \<noteq> currentUserID then map_put pid () m else m) (pc_ParticipantUserIds c) m
       else m) convs [])"

definition fetchProfiles :: "'w gateway \<Rightarrow> metadata \<Rightarrow> string list \<Rightarrow> 'w \<Rightarrow> (string \<times> pb_profile) list \<times> 'w" where
  "fetchProfiles gw out uids w =
     (case gw_profile gw out (BatchGetProfilesRequest uids) w of
        (Inr (BatchGetProfilesResponse ps), w') \<Rightarrow> (fold (\<lambda>p m. map_put (pf_UserId p) p m) ps [], w')
      | (_, w') \<Rightarrow> ([], w'))"

definition apply_profile :: "string \<Rightarrow> (string \<times> pb_profile) list \<Rightarrow> pb_conversation \<Rightarrow> pb_conversation" where
  "apply_profile currentUserID profileMap c =
     (if pc_Type c \<noteq> DIRECT then c
      else (case find (\<lambda>pid. pid \<noteq> currentUserID) (pc_ParticipantUserIds c) of
        None \<Rightarrow> c
      | Some pid \<Rightarrow>
          (case map_of profileMap pid of
             None \<Rightarrow> c
           | Some p \<Rightarrow> c\<lparr>pc_DisplayName := pf_DisplayName p, pc_AvatarUrl := pf_AvatarUrl p\<rparr>)))"

definition applyProfiles ::
  "string \<Rightarrow> pb_conversation list \<Rightarrow> (string \<times> pb_profile) list \<Rightarrow> pb_conversation list" where
  "applyProfiles currentUserID convs profileMap = map (apply_profile currentUserID profileMap) convs"

definition resolveConversations ::
  "'w gateway \<Rightarrow> metadata \<Rightarrow> string \<Rightarrow> pb_conversation list \<Rightarrow> 'w \<Rightarrow> pb_conversation list \<times> 'w" where
  "resolveConversations gw out currentUserID convs w =
     (let otherUserIDs = collectOtherUserIDs currentUserID convs in
      if otherUserIDs = [] then (convs, w)
      else (case fetchProfiles gw out otherUserIDs w of (profileMap, w') \<Rightarrow>
        if profileMap = [] then (convs, w') else (applyProfiles currentUserID convs profileMap, w')))"

definition resolveConversation ::
  "'w gateway \<Rightarrow> metadata \<Rightarrow> string \<Rightarrow> pb_conversation \<Rightarrow> 'w \<Rightarrow> pb_conversation \<times> 'w" where
  "resolveConversation gw out currentUserID c w =
     (case resolveConversations gw out currentUserID [c] w of (cs, w') \<Rightarrow> (hd cs, w'))"

section \<open>Handlers\<close>

text \<open>The answer of a conversation method, with the names resolved in it.\<close>

fun resolve_response ::
  "'w gateway \<Rightarrow> metadata \<Rightarrow> string \<Rightarrow> conv_response \<Rightarrow> 'w \<Rightarrow> conv_response \<times> 'w" where
  "resolve_response gw out u (CreateConversationResponse c) w =
     (case resolveConversation gw out u c w of (c', w') \<Rightarrow> (CreateConversationResponse c', w'))"
| "resolve_response gw out u (ListConversationsResponse cs) w =
     (case resolveConversations gw out u cs w of (cs', w') \<Rightarrow> (ListConversationsResponse cs', w'))"
| "resolve_response gw out u (GetConversationResponse r) w =
     (case resolveConversation gw out u (gr_Conversation r) w of (c', w') \<Rightarrow>
       (GetConversationResponse (r\<lparr>gr_Conversation := c'\<rparr>), w'))"
| "resolve_response gw out u resp w = (resp, w)"

definition conv_call ::
  "'w gateway \<Rightarrow> nat \<Rightarrow> string \<Rightarrow> string \<Rightarrow> conv_request \<Rightarrow> 'w gw_handler" where
  "conv_call gw st userID reqID req w =
     (let out = WithMeta [] userID reqID in
      call_then gw (gw_conv gw out req w) (\<lambda>resp w1.
        case resolve_response gw out userID resp w1 of (resp', w2) \<Rightarrow> (reply st (RespBody (GwConv resp')), w2)))"

definition gw_CreateConversation :: "'w gateway \<Rightarrow> string \<Rightarrow> string \<Rightarrow> string + create_body \<Rightarrow> 'w gw_handler" where
  "gw_CreateConversation gw userID reqID body w =
     (case body of
        Inl _ \<Rightarrow> (bad_body ''invalid json'', w)
      | Inr req \<Rightarrow>
          let (convID, w1) = (if cb_ID req = [] then gw_uuid gw w else (cb_ID req, w))
          in conv_call gw 201 userID reqID
               (CreateConversationRequest convID (map_type (cb_Type req)) (cb_DisplayName req) (cb_AvatarURL req)
                  (normalize_participants userID (cb_Participants req))) w1)"

definition gw_ListConversations :: "'w gateway \<Rightarrow> string \<Rightarrow> string \<Rightarrow> 'w gw_handler" where
  "gw_ListConversations gw userID reqID = conv_call gw 200 userID reqID (ListConversationsRequest userID)"

definition gw_GetConversation :: "'w gateway \<Rightarrow> string \<Rightarrow> string \<Rightarrow> string \<Rightarrow> string \<Rightarrow> 'w gw_handler" where
  "gw_GetConversation gw userID reqID pathID queryID w =
     (let convID = (if pathID = [] then queryID else pathID) in
      if convID = []
      then (WriteError 400 ''missing_conv_id'' ''id is required (as path param or query param)'', w)
      else conv_call gw 200 userID reqID (GetConversationRequest convID) w)"

text \<open>The calls whose answer is only a status.\<close>

definition conv_status_call :: "'w gateway \<Rightarrow> string \<Rightarrow> string \<Rightarrow> conv_request \<Rightarrow> 'w gw_handler" where
  "conv_status_call gw userID reqID req w =
     call_then gw (gw_conv gw (WithMeta [] userID reqID) req w) (\<lambda>_ w'. (status_ok_body, w'))"

definition gw_AddParticipant :: "'w gateway \<Rightarrow> string \<Rightarrow> string \<Rightarrow> string + string \<times> string \<Rightarrow> 'w gw_handler" where
  "gw_AddParticipant gw userID reqID =
     gw_two_ids ''invalid json'' ''conversation_id and user_id are required'' (\<lambda>convID target.
       conv_status_call gw userID reqID (AddParticipantRequest convID userID target))"

definition gw_RemoveParticipant :: "'w gateway \<Rightarrow> string \<Rightarrow> string \<Rightarrow> string + string \<times> string \<Rightarrow> 'w gw_handler" where
  "gw_RemoveParticipant gw userID reqID =
     gw_two_ids ''invalid json'' ''conversation_id and user_id are required'' (\<lambda>convID target.
       conv_status_call gw userID reqID (RemoveParticipantRequest convID userID target))"

definition gw_ReadReceipt :: "'w gateway \<Rightarrow> string \<Rightarrow> string \<Rightarrow> string + string \<times> int \<Rightarrow> 'w gw_handler" where
  "gw_ReadReceipt gw userID reqID body w =
     (case body of
        Inl _ \<Rightarrow> (bad_body ''invalid json'', w)
      | Inr (convID, sequence) \<Rightarrow>
          if convID = [] then (WriteError 400 ''missing_conv_id'' ''conversation_id is required'', w)
          else if sequence < 0 then (WriteError 400 ''invalid_sequence'' ''sequence must be >= 0'', w)
          else conv_status_call gw userID reqID (UpdateReadReceiptRequest convID userID sequence) w)"

section \<open>The router\<close>

datatype gw_request =
    ReqLogin "string + string \<times> string"
  | ReqRegister "string + string \<times> string"
  | ReqRefresh "string + string"
  | ReqLogout "string + string"
  | ReqGetProfile
  | ReqPatchProfile "string + string option \<times> string option \<times> string option"
  | ReqCreateConversation "string + create_body"
  | ReqListConversations
  | ReqGetConversation string string        \<comment> \<open>path, query\<close>
  | ReqSyncMessages string string string    \<comment> \<open>conversation, after, limit\<close>
  | ReqSendMessage "string + send_body"
  | ReqDeleteMessage "string + string \<times> string"
  | ReqAddParticipant "string + string \<times> string"
  | ReqRemoveParticipant "string + string \<times> string"
  | ReqReadReceipt "string + string \<times> int"
  | ReqGetPresence string

fun public_route :: "gw_request \<Rightarrow> bool" where
  "public_route (ReqLogin _) = True"
| "public_route (ReqRegister _) = True"
| "public_route (ReqRefresh _) = True"
| "public_route (ReqLogout _) = True"
| "public_route _ = False"

fun gw_handle :: "'w gateway \<Rightarrow> string \<Rightarrow> string \<Rightarrow> gw_request \<Rightarrow> 'w gw_handler" where
  "gw_handle gw u rid (ReqLogin b) = gw_Login gw rid b"
| "gw_handle gw u rid (ReqRegister b) = gw_Register gw rid b"
| "gw_handle gw u rid (ReqRefresh b) = gw_Refresh gw rid b"
| "gw_handle gw u rid (ReqLogout b) = gw_Logout gw rid b"
| "gw_handle gw u rid ReqGetProfile = gw_GetProfile gw u rid"
| "gw_handle gw u rid (ReqPatchProfile b) = gw_UpdateProfile gw u rid b"
| "gw_handle gw u rid (ReqCreateConversation b) = gw_CreateConversation gw u rid b"
| "gw_handle gw u rid ReqListConversations = gw_ListConversations gw u rid"
| "gw_handle gw u rid (ReqGetConversation p q) = gw_GetConversation gw u rid p q"
| "gw_handle gw u rid (ReqSyncMessages c a l) = gw_SyncMessages gw u rid c a l"
| "gw_handle gw u rid (ReqSendMessage b) = gw_SendMessage gw u rid b"
| "gw_handle gw u rid (ReqDeleteMessage b) = gw_DeleteMessage gw u rid b"
| "gw_handle gw u rid (ReqAddParticipant b) = gw_AddParticipant gw u rid b"
| "gw_handle gw u rid (ReqRemoveParticipant b) = gw_RemoveParticipant gw u rid b"
| "gw_handle gw u rid (ReqReadReceipt b) = gw_ReadReceipt gw u rid b"
| "gw_handle gw u rid (ReqGetPresence us) = gw_GetPresence gw us"

text \<open>
  The whole pipeline: the request id, the rate limiter (its decision is \<open>allowed\<close>), the token for the
  routes of the protected group, the handler, and recovery from a panic. The answer comes with the
  request id that goes into its header. The rate limiter of the library answers 429.
\<close>

definition NewRouter ::
  "'w gateway \<Rightarrow> bool \<Rightarrow> int \<Rightarrow> string \<Rightarrow> string \<Rightarrow> gw_request \<Rightarrow> 'w \<Rightarrow> (string \<times> gw_reply) \<times> 'w" where
  "NewRouter gw allowed now reqHeader authHeader req w =
     (case RequestID gw reqHeader w of (rid, w1) \<Rightarrow>
       if \<not> allowed then ((rid, http_Error ''Too Many Requests'' 429), w1)
       else if public_route req then (case gw_handle gw [] rid req w1 of (rep, w2) \<Rightarrow> ((rid, rep), w2))
       else (case gw_JWT gw now authHeader of
         Unauthorized msg \<Rightarrow> ((rid, http_Error msg 401), w1)
       | JwtPanic \<Rightarrow> ((rid, Recovery None), w1)
       | Authorized u \<Rightarrow>
           (case gw_handle gw u rid req w1 of (rep, w2) \<Rightarrow> ((rid, Recovery (Some rep)), w2))))"

end
