(* ===== verification/GwFacts.thy ===== *)
theory GwFacts
  imports GwConv
begin

text \<open>
  What the gateway does on behalf of whom. \<open>acts_as\<close> is the abstract machine of a caller with an
  identity: every step is a call whose metadata carries that identity alone and which, where the
  request names an acting user, names that one; \<open>S\<close> says whether it may post a message. Every handler behind the token check is a sequence of
  such steps for the subject of the token.
\<close>

section \<open>Outgoing identity\<close>

lemma header_user_WithMeta [simp]:
  "header_user (Some (md_get (WithMeta [] u rid))) = (if u = [] then None else Some u)"
  by (simp add: header_user_def WithMeta_def WithRequestID_def WithUserID_def md_get_def)

lemma md_get_WithMeta: "md_get (WithMeta [] u rid) HeaderUserID = [u]"
  by (simp add: WithMeta_def WithRequestID_def WithUserID_def md_get_def)

section \<open>The abstract machine\<close>

fun msg_actor :: "msg_request \<Rightarrow> string option" where
  "msg_actor (SendMessageRequest c u k ty ct me) = Some u"
| "msg_actor (DeleteMessageRequest c i u) = Some u"
| "msg_actor (SyncMessagesRequest c n ps) = None"

fun sends :: "msg_request \<Rightarrow> bool" where
  "sends (SendMessageRequest c u k ty ct me) = True"
| "sends _ = False"

fun prof_actor :: "prof_request \<Rightarrow> string option" where
  "prof_actor (GetProfileRequest u) = Some u"
| "prof_actor (UpdateProfileRequest u n a b) = Some u"
| "prof_actor (BatchGetProfilesRequest us) = None"

abbreviation acts_for :: "string \<Rightarrow> string option \<Rightarrow> bool" where
  "acts_for u actor \<equiv> actor = None \<or> actor = Some u"

inductive acts_as :: "'w gateway \<Rightarrow> string \<Rightarrow> bool \<Rightarrow> 'w \<Rightarrow> 'w \<Rightarrow> bool" for gw u S where
  aa_refl: "acts_as gw u S w w"
| aa_uuid: "gw_uuid gw w = (x, w1) \<Longrightarrow> acts_as gw u S w1 w2 \<Longrightarrow> acts_as gw u S w w2"
| aa_conv: "md_get out HeaderUserID = [u] \<Longrightarrow> acts_for u (acting_user q) \<Longrightarrow> gw_conv gw out q w = (r, w1) \<Longrightarrow>
    acts_as gw u S w1 w2 \<Longrightarrow> acts_as gw u S w w2"
| aa_msg: "md_get out HeaderUserID = [u] \<Longrightarrow> acts_for u (msg_actor mq) \<Longrightarrow> (sends mq \<Longrightarrow> S) \<Longrightarrow> gw_msg gw out mq w = (mr, w1) \<Longrightarrow>
    acts_as gw u S w1 w2 \<Longrightarrow> acts_as gw u S w w2"
| aa_profile: "md_get out HeaderUserID = [u] \<Longrightarrow> acts_for u (prof_actor pq) \<Longrightarrow> gw_profile gw out pq w = (pr, w1) \<Longrightarrow>
    acts_as gw u S w1 w2 \<Longrightarrow> acts_as gw u S w w2"
| aa_presence: "gw_presence gw out us w = (ur, w1) \<Longrightarrow> acts_as gw u S w1 w2 \<Longrightarrow> acts_as gw u S w w2"

text \<open>A handler that only acts for \<open>u\<close>.\<close>

definition acting :: "'w gateway \<Rightarrow> string \<Rightarrow> bool \<Rightarrow> ('w \<Rightarrow> 'a \<times> 'w) \<Rightarrow> bool" where
  "acting gw u S h \<longleftrightarrow> (\<forall>w a w'. h w = (a, w') \<longrightarrow> acts_as gw u S w w')"

lemma actingI: "(\<And>w a w'. h w = (a, w') \<Longrightarrow> acts_as gw u S w w') \<Longrightarrow> acting gw u S h"
  by (simp add: acting_def)

lemma actingD: "acting gw u S h \<Longrightarrow> h w = (a, w') \<Longrightarrow> acts_as gw u S w w'"
  by (simp add: acting_def)

lemma acts_as_trans: "acts_as gw u S w1 w2 \<Longrightarrow> acts_as gw u S w2 w3 \<Longrightarrow> acts_as gw u S w1 w3"
  by (induction rule: acts_as.induct) (auto intro: acts_as.intros)

lemma call_then_cases:
  assumes "call_then gw (f w) k = (a, w')"
  obtains r w1 where "f w = (r, w1)" and "w' = w1 \<or> (\<exists>resp. r = Inr resp \<and> k resp w1 = (a, w'))"
  using assms by (cases "f w") (auto simp: call_then_def split: sum.splits)

text \<open>Handlers that make one call and answer at once.\<close>

lemma acting_call:
  assumes "\<And>w r w1. f w = (r, w1) \<Longrightarrow> acts_as gw u S w w1"
  shows "acting gw u S (\<lambda>w. call_then gw (f w) (\<lambda>resp w'. (g resp, w')))"
proof (rule actingI)
  fix w a w' assume "call_then gw (f w) (\<lambda>resp w'. (g resp, w')) = (a, w')"
  then obtain r w1 where "f w = (r, w1)" "w' = w1" by (rule call_then_cases) auto
  with assms show "acts_as gw u S w w'" by blast
qed

lemma acts_as_conv:
  "acts_for u (acting_user q) \<Longrightarrow> gw_conv gw (WithMeta [] u rid) q w = (r, w1) \<Longrightarrow> acts_as gw u S w w1"
  by (rule aa_conv [OF md_get_WithMeta _ _ aa_refl])

lemma acts_as_msg:
  "acts_for u (msg_actor q) \<Longrightarrow> (sends q \<Longrightarrow> S) \<Longrightarrow> gw_msg gw (WithMeta [] u rid) q w = (r, w1)
    \<Longrightarrow> acts_as gw u S w w1"
  by (rule aa_msg [OF md_get_WithMeta _ _ _ aa_refl])

lemma acts_as_profile:
  "acts_for u (prof_actor q) \<Longrightarrow> gw_profile gw (WithMeta [] u rid) q w = (r, w1) \<Longrightarrow> acts_as gw u S w w1"
  by (rule aa_profile [OF md_get_WithMeta _ _ aa_refl])

lemma acting_const: "acting gw u S (\<lambda>w. (a, w))"
  by (simp add: acting_def aa_refl)

lemma acting_if: "acting gw u S f \<Longrightarrow> acting gw u S g \<Longrightarrow> acting gw u S (\<lambda>w. if c then f w else g w)"
  by (cases c) simp_all

lemma acting_sum:
  "(\<And>x. acting gw u S (f x)) \<Longrightarrow> (\<And>y. acting gw u S (g y)) \<Longrightarrow>
    acting gw u S (\<lambda>w. case s of Inl x \<Rightarrow> f x w | Inr y \<Rightarrow> g y w)"
  by (cases s) simp_all

lemma acting_option:
  "acting gw u S f \<Longrightarrow> (\<And>y. acting gw u S (g y)) \<Longrightarrow> acting gw u S (\<lambda>w. case s of None \<Rightarrow> f w | Some y \<Rightarrow> g y w)"
  by (cases s) simp_all

lemma acting_prod: "(\<And>x y. acting gw u S (f x y)) \<Longrightarrow> acting gw u S (\<lambda>w. case s of (x, y) \<Rightarrow> f x y w)"
  by (cases s) simp

text \<open>A fresh identifier first, when the request has none.\<close>

lemma acting_fresh:
  assumes "\<And>x. acting gw u S (h x)"
  shows "acting gw u S (\<lambda>w. let (x, w1) = (if c then gw_uuid gw w else (d, w)) in h x w1)"
proof (rule actingI)
  fix w a w' assume run: "(let (x, w1) = (if c then gw_uuid gw w else (d, w)) in h x w1) = (a, w')"
  obtain y w2 where y: "gw_uuid gw w = (y, w2)" by fastforce
  from run y assms show "acts_as gw u S w w'"
    by (cases c) (auto dest: actingD intro: aa_uuid)
qed

section \<open>The handlers\<close>

lemma fetchProfiles_acting: "acting gw u S (fetchProfiles gw (WithMeta [] u rid) uids)"
proof (rule actingI)
  fix w a w' assume run: "fetchProfiles gw (WithMeta [] u rid) uids w = (a, w')"
  obtain r w1 where call: "gw_profile gw (WithMeta [] u rid) (BatchGetProfilesRequest uids) w = (r, w1)" by fastforce
  with run have "w' = w1" by (auto simp: fetchProfiles_def split: sum.splits prof_response.splits)
  with acts_as_profile [OF _ call] show "acts_as gw u S w w'" by simp
qed

lemma resolveConversations_acting: "acting gw u S (resolveConversations gw (WithMeta [] u rid) v cs)"
proof (rule actingI)
  fix w a w' assume run: "resolveConversations gw (WithMeta [] u rid) v cs w = (a, w')"
  obtain pm w1 where "fetchProfiles gw (WithMeta [] u rid) (collectOtherUserIDs v cs) w = (pm, w1)" by fastforce
  with run actingD [OF fetchProfiles_acting this] show "acts_as gw u S w w'"
    by (auto simp: resolveConversations_def Let_def aa_refl split: if_splits)
qed

lemma resolve_response_acting: "acting gw u S (resolve_response gw (WithMeta [] u rid) v resp)"
proof (rule actingI)
  fix w a w' assume "resolve_response gw (WithMeta [] u rid) v resp w = (a, w')"
  then show "acts_as gw u S w w'"
    by (cases resp)
      (auto simp: resolveConversation_def aa_refl split: prod.splits
        dest!: actingD [OF resolveConversations_acting [of gw u S rid]])
qed

lemma conv_call_acting:
  assumes "acts_for u (acting_user q)"
  shows "acting gw u S (conv_call gw st u rid q)"
proof (rule actingI)
  fix w a w' assume run: "conv_call gw st u rid q w = (a, w')"
  obtain r w1 where call: "gw_conv gw (WithMeta [] u rid) q w = (r, w1)" by fastforce
  note first = acts_as_conv [OF assms call]
  show "acts_as gw u S w w'"
  proof (cases r)
    case (Inl e)
    with run call first show ?thesis by (simp add: conv_call_def call_then_def Let_def)
  next
    case (Inr resp)
    obtain resp' w2 where res: "resolve_response gw (WithMeta [] u rid) u resp w1 = (resp', w2)" by fastforce
    with run call Inr have "w' = w2" by (simp add: conv_call_def call_then_def Let_def)
    with first actingD [OF resolve_response_acting res] show ?thesis by (auto intro: acts_as_trans)
  qed
qed

lemma conv_status_call_acting:
  "acts_for u (acting_user q) \<Longrightarrow> acting gw u S (conv_status_call gw u rid q)"
  unfolding conv_status_call_def by (rule acting_call) (rule acts_as_conv)

lemma acting_two_ids:
  "(\<And>a b. acting gw u S (f a b)) \<Longrightarrow> acting gw u S (gw_two_ids m1 m2 f body)"
  unfolding gw_two_ids_def by (intro acting_sum acting_prod acting_if acting_const)

lemmas acting_rules = acting_const acting_if acting_sum acting_option acting_prod acting_fresh acting_two_ids

lemma normalize_participants_hd: "\<exists>ps. normalize_participants u parts = u # ps"
proof -
  have one: "\<exists>q. fst (add_part part st) = fst st @ q" for part st
    by (auto simp: add_part_def Let_def split: prod.splits option.splits)
  have parts: "\<exists>q. fst (fold add_part xs st) = fst st @ q" for xs st
    by (induction xs arbitrary: st) (simp, metis append.assoc fold_simps(2) one)
  have "\<exists>q. fst (fold (\<lambda>p. fold add_part (strings_Split (CHR '','') p)) xs st) = fst st @ q" for xs st
    by (induction xs arbitrary: st) (simp, metis append.assoc fold_simps(2) parts)
  then show ?thesis unfolding normalize_participants_def by (metis append_Cons append_Nil fst_conv)
qed

fun posting :: "gw_request \<Rightarrow> bool" where
  "posting (ReqSendMessage _) = True"
| "posting _ = False"

lemma gw_handle_acting:
  assumes "\<not> public_route req"
  shows "acting gw u (posting req) (gw_handle gw u rid req)"
proof (cases req)
  case (ReqCreateConversation body)
  have "acts_for u (acting_user (CreateConversationRequest i ty n a (normalize_participants u ps)))" for i ty n a ps
    using normalize_participants_hd [of u ps] by auto
  then show ?thesis
    unfolding ReqCreateConversation gw_handle.simps gw_CreateConversation_def
    by (intro acting_rules conv_call_acting)
next
  case (ReqGetConversation p q)
  then show ?thesis
    unfolding ReqGetConversation gw_handle.simps gw_GetConversation_def Let_def
    by (intro acting_rules conv_call_acting) simp
next
  case (ReqSendMessage body)
  show ?thesis
    unfolding ReqSendMessage gw_handle.simps gw_SendMessage_def Let_def [of "if sb_Type _ = _ then _ else _"]
    by (intro acting_rules acting_call) (erule acts_as_msg [rotated 2]; simp)
next
  case (ReqGetPresence us)
  then show ?thesis
    unfolding ReqGetPresence gw_handle.simps gw_GetPresence_def
    by (intro acting_rules acting_call) (auto intro: aa_presence aa_refl)
next
  case ReqGetProfile
  then show ?thesis
    unfolding ReqGetProfile gw_handle.simps gw_GetProfile_def
    by (intro acting_call) (erule acts_as_profile [rotated], simp)
next
  case (ReqPatchProfile body)
  then show ?thesis
    unfolding ReqPatchProfile gw_handle.simps gw_UpdateProfile_def
    by (intro acting_rules acting_call) (erule acts_as_profile [rotated], simp)
next
  case ReqListConversations
  then show ?thesis
    unfolding ReqListConversations gw_handle.simps gw_ListConversations_def
    by (intro conv_call_acting) simp
next
  case (ReqSyncMessages c a l)
  then show ?thesis
    unfolding ReqSyncMessages gw_handle.simps gw_SyncMessages_def
    by (intro acting_rules acting_call) (erule acts_as_msg [rotated 2]; simp)
next
  case (ReqDeleteMessage body)
  then show ?thesis
    unfolding ReqDeleteMessage gw_handle.simps gw_DeleteMessage_def
    by (intro acting_rules acting_call) (erule acts_as_msg [rotated 2]; simp)
next
  case (ReqAddParticipant body)
  then show ?thesis
    unfolding ReqAddParticipant gw_handle.simps gw_AddParticipant_def
    by (intro acting_rules conv_status_call_acting) simp
next
  case (ReqRemoveParticipant body)
  then show ?thesis
    unfolding ReqRemoveParticipant gw_handle.simps gw_RemoveParticipant_def
    by (intro acting_rules conv_status_call_acting) simp
next
  case (ReqReadReceipt body)
  then show ?thesis
    unfolding ReqReadReceipt gw_handle.simps gw_ReadReceipt_def
    by (intro acting_rules conv_status_call_acting) simp
qed (use assms in simp_all)

text \<open>What the pipeline does to the world: nothing but drawing a request id, or a handler for the token's subject.\<close>

lemma NewRouter_cases:
  assumes "NewRouter gw allowed now reqHeader authHeader req w = ((rid, rep), w')" and "\<not> public_route req"
  shows "(\<exists>u. gw_JWT gw now authHeader = Authorized u \<and> allowed \<and> acts_as gw u (posting req) w w')
    \<or> ((w' = w \<or> w' = snd (gw_uuid gw w)) \<and> h_status rep \<in> {401, 429, 500})"
proof -
  obtain r1 w1 where rid: "RequestID gw reqHeader w = (r1, w1)" by fastforce
  then have w1: "w1 = w \<or> w1 = snd (gw_uuid gw w)" "acts_as gw u S w w1" for u S
    by (auto simp: RequestID_def split: if_splits intro: aa_refl aa_uuid)
  show ?thesis
  proof (cases allowed)
    case False
    with assms(1) rid w1 show ?thesis by (auto simp: NewRouter_def http_Error_def)
  next
    case True
    show ?thesis
    proof (cases "gw_JWT gw now authHeader")
      case (Authorized u)
      obtain rep2 w2 where h: "gw_handle gw u r1 req w1 = (rep2, w2)" by fastforce
      with assms True rid Authorized have "w' = w2" by (simp add: NewRouter_def)
      with actingD [OF gw_handle_acting [OF assms(2)] h] w1(2) Authorized True show ?thesis
        by (blast intro: acts_as_trans)
    qed (use assms True rid w1 in \<open>auto simp: NewRouter_def http_Error_def Recovery_def WriteError_def\<close>)
  qed
qed

text \<open>Requests without a token reach the auth service only: what its calls and new identifiers keep, they keep.\<close>

lemma public_keeps:
  assumes auth: "\<And>out q w r w1. gw_auth gw out q w = (r, w1) \<Longrightarrow> f w1 = f w"
    and uuid: "\<And>w x w1. gw_uuid gw w = (x, w1) \<Longrightarrow> f w1 = f w"
    and "public_route req" and run: "NewRouter gw allowed now reqHeader authHeader req w = (a, w')"
  shows "f w' = f w"
proof -
  obtain r1 w1 where rid: "RequestID gw reqHeader w = (r1, w1)" by fastforce
  then have t1: "f w1 = f w" using uuid by (auto simp: RequestID_def split: if_splits)
  have call: "f (snd (call_then gw (gw_auth gw out aq w1) (\<lambda>resp. Pair (g resp)))) = f w1" for out aq g
    using auth [of out aq w1] by (cases "gw_auth gw out aq w1") (auto simp: call_then_def split: sum.splits)
  have "f (snd (gw_handle gw [] r1 req w1)) = f w1"
    using assms(3)
    by (cases req)
      (auto simp: call gw_Login_def gw_Register_def gw_Refresh_def gw_Logout_def gw_credentials_def gw_with_token_def
        split: sum.splits)
  then have "f w' = f w1"
    using run rid assms(3) by (auto simp: NewRouter_def split: if_splits prod.splits)
  with t1 show ?thesis by simp
qed

end
