(* ===== verification/Stack.thy ===== *)
theory Stack
  imports GwFacts MsgConv
begin

text \<open>
  The services behind the gateway, put together: every client of the gateway is the server of its
  service, on one world that holds the tables of all of them. The message service reaches the
  conversation service through its own client, as in \<open>MsgConv\<close>; what is left outside (\<open>'o\<close>) are the
  random source, the Redis cache of the profiles and the library of identifiers. \<open>'b\<close> are the messages in the
  format of Protobuf, \<open>'c\<close> the JSON of the auth and profile services. Each call of a
  service meets the failures and the clock that the feed of the world gives it.
\<close>

record ('o, 'j, 'b, 'c) services =
  sv_msg :: "('j, 'b) msg_db"
  sv_auth :: "'c auth_db"
  sv_prof :: "'c prof_db"
  sv_presence :: "'b Presence.redis"
  sv_out :: 'o

type_synonym ('cw, 'o, 'j, 'b, 'c) stack = "('cw, ('o, 'j, 'b, 'c) services, 'b) conv_backend"

record ('cw, 'o, 'j, 'b, 'c) wiring =
  wi_conv :: "('cw, 'b) conv_deps"
  wi_lib :: "('o, 'j) msg_lib"
  wi_codec :: "'b codec"
  wi_auth :: "('o, 'c) auth_deps"
  wi_prof :: "('o, 'c) prof_deps"
  wi_uuid :: "'o \<Rightarrow> string \<times> 'o"
  wi_conv_status :: "conv_err go_error \<Rightarrow> bool"
  wi_msg_status :: "msg_err go_error \<Rightarrow> bool"
  wi_auth_status :: "auth_err go_error \<Rightarrow> bool"
  wi_prof_status :: "prof_err go_error \<Rightarrow> bool"
  wi_from_status :: "unit go_error \<Rightarrow> (code \<times> string) option"
  wi_parse :: jwt_parse
  wi_secret :: string
  wi_issuer :: string
  wi_audience :: string

text \<open>An error of a handler as the client sees it: its status, or \<open>Unknown\<close>.\<close>

fun over_wire :: "('e \<Rightarrow> string) \<Rightarrow> 'e go_error + 'r \<Rightarrow> unit go_error + 'r" where
  "over_wire txt (Inr a) = Inr a"
| "over_wire txt (Inl (Status c m)) = Inl (Status c m)"
| "over_wire txt (Inl err) = Inl (Status (OtherCode 2) (err_text txt err))"

abbreviation stack_feed :: "('cw, 'o, 'j, 'b, 'c) stack \<Rightarrow> outcome list \<times> int" where
  "stack_feed w \<equiv> next_feed (bk_feed w)"

section \<open>The clients\<close>

definition conv_at_gateway ::
  "('cw, 'o, 'j, 'b, 'c) wiring \<Rightarrow> (conv_request, conv_response, ('cw, 'o, 'j, 'b, 'c) stack) client" where
  "conv_at_gateway wi out q w =
     (case stack_feed w of (script, now) \<Rightarrow>
       (case conv_serve (wi_conv_status wi) (wi_conv wi) False (Some (md_get out)) q
               (session (bk_db w) (bk_world w) script now) of
          (r, t) \<Rightarrow> (over_wire conv_err_text r, w\<lparr>bk_db := s_db t, bk_world := s_world t, bk_feed := tl (bk_feed w)\<rparr>)))"

text \<open>The context that the interceptor of the message service makes, which its own calls carry on.\<close>

definition served_ctx :: "metadata \<Rightarrow> grpc_ctx" where
  "served_ctx out = \<lparr>cx_user = header_user (Some (md_get out)),
     cx_request = (case md_get out HeaderRequestID of [] \<Rightarrow> None | rid # _ \<Rightarrow> if rid = [] then None else Some rid)\<rparr>"

definition msg_lib_at :: "('o, 'j) msg_lib \<Rightarrow> (('o, 'j, 'b, 'c) services, 'j) msg_lib" where
  "msg_lib_at lib = \<lparr>lib_uuid = (\<lambda>s. case lib_uuid lib (sv_out s) of (u, x) \<Rightarrow> (u, s\<lparr>sv_out := x\<rparr>)),
     lib_json_enc = lib_json_enc lib, lib_json_dec = lib_json_dec lib, lib_jsonb = lib_jsonb lib\<rparr>"

definition msg_deps_at ::
  "('cw, 'o, 'j, 'b, 'c) wiring \<Rightarrow> metadata \<Rightarrow> (('cw, 'o, 'j, 'b, 'c) stack, 'j, 'b) msg_deps" where
  "msg_deps_at wi out =
     backend_deps (wi_conv_status wi) (wi_conv wi) (served_ctx out) (wi_codec wi) (msg_lib_at (wi_lib wi))"

definition msg_at_gateway ::
  "('cw, 'o, 'j, 'b, 'c) wiring \<Rightarrow> (msg_request, msg_response, ('cw, 'o, 'j, 'b, 'c) stack) client" where
  "msg_at_gateway wi out q w =
     (case stack_feed w of (script, now) \<Rightarrow>
       (case msg_serve (wi_msg_status wi) (msg_deps_at wi out) False (Some (md_get out)) q
               (session (sv_msg (bk_rest w)) (w\<lparr>bk_feed := tl (bk_feed w)\<rparr>) script now) of
          (r, t) \<Rightarrow> (over_wire msg_err_text r, (s_world t)\<lparr>bk_rest := (bk_rest (s_world t))\<lparr>sv_msg := s_db t\<rparr>\<rparr>)))"

definition auth_at_gateway ::
  "('cw, 'o, 'j, 'b, 'c) wiring \<Rightarrow> (auth_request, auth_response, ('cw, 'o, 'j, 'b, 'c) stack) client" where
  "auth_at_gateway wi out q w =
     (case stack_feed w of (script, now) \<Rightarrow>
       (case auth_serve (wi_auth_status wi) (wi_auth wi) q
               (session (sv_auth (bk_rest w)) (sv_out (bk_rest w)) script now) of
          (r, t) \<Rightarrow> (over_wire auth_err_text r, w\<lparr>bk_feed := tl (bk_feed w),
             bk_rest := (bk_rest w)\<lparr>sv_auth := s_db t, sv_out := s_world t\<rparr>\<rparr>)))"

definition profile_at_gateway ::
  "('cw, 'o, 'j, 'b, 'c) wiring \<Rightarrow> (prof_request, prof_response, ('cw, 'o, 'j, 'b, 'c) stack) client" where
  "profile_at_gateway wi out q w =
     (case stack_feed w of (script, now) \<Rightarrow>
       (case prof_serve (wi_prof_status wi) (wi_prof wi) q
               (session (sv_prof (bk_rest w)) (sv_out (bk_rest w)) script now) of
          (r, t) \<Rightarrow> (over_wire prof_err_text r, w\<lparr>bk_feed := tl (bk_feed w),
             bk_rest := (bk_rest w)\<lparr>sv_prof := s_db t, sv_out := s_world t\<rparr>\<rparr>)))"

definition presence_at_gateway :: "(string list, UserPresence list, ('cw, 'o, 'j, 'b, 'c) stack) client" where
  "presence_at_gateway out us w =
     (case GetPresence (snd (stack_feed w)) us (sv_presence (bk_rest w)) of
        (ps, r) \<Rightarrow> (Inr ps, w\<lparr>bk_feed := tl (bk_feed w), bk_rest := (bk_rest w)\<lparr>sv_presence := r\<rparr>\<rparr>))"

definition stack_gateway :: "('cw, 'o, 'j, 'b, 'c) wiring \<Rightarrow> ('cw, 'o, 'j, 'b, 'c) stack gateway" where
  "stack_gateway wi = \<lparr>gw_auth = auth_at_gateway wi, gw_profile = profile_at_gateway wi,
     gw_conv = conv_at_gateway wi, gw_msg = msg_at_gateway wi, gw_presence = presence_at_gateway,
     gw_uuid = on_rest (\<lambda>s. case wi_uuid wi (sv_out s) of (u, x) \<Rightarrow> (u, s\<lparr>sv_out := x\<rparr>)),
     gw_from_status = wi_from_status wi, gw_parse = wi_parse wi, gw_secret = wi_secret wi,
     gw_issuer = wi_issuer wi, gw_audience = wi_audience wi\<rparr>"

section \<open>What the other services do to the conversations\<close>

definition conv_hop ::
  "(conv_err go_error \<Rightarrow> bool) \<Rightarrow> ('cw, 'b) conv_deps \<Rightarrow> (string \<Rightarrow> string list) option \<Rightarrow> conv_request
    \<Rightarrow> 'b conv_db \<Rightarrow> 'b conv_db \<Rightarrow> bool" where
  "conv_hop is_status dp md q d d' \<longleftrightarrow>
     (\<exists>idFirst cw script now. d' = s_db (snd (conv_serve is_status dp idFirst md q (session d cw script now))))"

text \<open>The calls that the message service makes.\<close>

inductive inner_hop :: "(conv_err go_error \<Rightarrow> bool) \<Rightarrow> ('cw, 'b) conv_deps \<Rightarrow> 'b conv_db \<Rightarrow> 'b conv_db \<Rightarrow> bool"
  for is_status dp where
  ih_get: "conv_hop is_status dp md (GetConversationRequest i) d d' \<Longrightarrow> inner_hop is_status dp d d'"
| ih_next: "conv_hop is_status dp md (NextSequenceRequest i) d d' \<Longrightarrow> inner_hop is_status dp d d'"

text \<open>
  What a gateway in front of the conversation service promises: its client of that service is the
  server of it, the client of the message service reaches it only through reads and new sequence
  numbers, and nothing else touches its tables.
\<close>

locale conversation_front =
  fixes gw :: "'w gateway"
    and tables :: "'w \<Rightarrow> 'b conv_db"
    and is_status :: "conv_err go_error \<Rightarrow> bool"
    and dp :: "('cw, 'b) conv_deps"
  assumes conv_law: "gw_conv gw out q w = (r, w1) \<Longrightarrow> conv_hop is_status dp (Some (md_get out)) q (tables w) (tables w1)"
    and msg_law: "gw_msg gw out mq w = (mr, w1) \<Longrightarrow> (inner_hop is_status dp)\<^sup>*\<^sup>* (tables w) (tables w1)"
    and auth_law: "gw_auth gw out aq w = (ar, w1) \<Longrightarrow> tables w1 = tables w"
    and profile_law: "gw_profile gw out pq w = (pr, w1) \<Longrightarrow> tables w1 = tables w"
    and presence_law: "gw_presence gw out us w = (ur, w1) \<Longrightarrow> tables w1 = tables w"
    and uuid_law: "gw_uuid gw w = (x, w1) \<Longrightarrow> tables w1 = tables w"

section \<open>Who changes members\<close>

text \<open>An admin of a group, and what a step on behalf of \<open>u\<close> keeps unless \<open>u\<close> is one.\<close>

definition group_admin :: "'b conv_db \<Rightarrow> string \<Rightarrow> string \<Rightarrow> bool" where
  "group_admin d i u \<longleftrightarrow> (\<exists>c. abs_conv d i = Some c \<and> c_Type c = ConversationGroup \<and> is_admin c u)"

lemma conv_hop_members:
  assumes hop: "conv_hop is_status dp md q d d'" and inv: "conv_inv d" and i: "i \<in> r_id ` set (conversations d)"
  shows "conv_inv d' \<and> prefix (conversations d) (conversations d')
    \<and> (scan_participants i d' = scan_participants i d
       \<or> (\<exists>u. header_user md = Some u \<and> group_admin d i u \<and> acting_user q \<noteq> None))"
proof -
  from hop obtain idFirst cw script now where
    d': "d' = s_db (snd (conv_serve is_status dp idFirst md q (session d cw script now)))"
    unfolding conv_hop_def by blast
  let ?s = "session d cw script now"
  let ?wk = "undefined :: conv_worker" and ?p = "undefined :: ('a, 'b) producer"
  from conv_serve_cases [of is_status dp idFirst md q ?s ?wk ?p] consider
      (refused) "d' = d"
    | (called) call where "call_of idFirst q call" "d' = s_db (snd (conv_exec dp ?wk ?p call ?s))"
        "acting_user q \<noteq> None \<longrightarrow> header_user md = acting_user q"
    using d' by (auto simp del: conv_exec.simps)
  then show ?thesis
  proof cases
    case refused
    with inv show ?thesis by simp
  next
    case called
    have "scan_participants i d' = scan_participants i d \<or> may_change_members d i call"
      using conv_exec_members [of ?s i dp ?wk ?p call] inv i called(2) by (auto simp del: conv_exec.simps)
    then have "scan_participants i d' = scan_participants i d
       \<or> (\<exists>u. header_user md = Some u \<and> group_admin d i u \<and> acting_user q \<noteq> None)"
      using called(1,3) by (cases q) (auto simp: may_change_members_def group_admin_def)
    with conv_exec_inv [of ?s dp ?wk ?p call] conv_exec_grows [of ?s dp ?wk ?p call] inv called(2)
    show ?thesis by (simp add: grows_def del: conv_exec.simps)
  qed
qed

text \<open>What is shown of a member list does not depend on later rows.\<close>

lemma group_admin_cong:
  assumes "prefix (conversations d) (conversations d')" and "scan_participants i d' = scan_participants i d"
    and "i \<in> r_id ` set (conversations d)"
  shows "group_admin d' i u = group_admin d i u"
proof -
  from assms(1) obtain rest where rest: "conversations d' = conversations d @ rest" by (auto simp: prefix_def)
  obtain r where r: "find (\<lambda>r. r_id r = i) (conversations d) = Some r"
    using assms(3) by (cases "find (\<lambda>r. r_id r = i) (conversations d)") (auto simp: find_None_conv)
  have "find p (xs @ ys) = Some x" if "find p xs = Some x" for p xs ys and x :: conv_row
    using that by (induction xs) (auto split: if_splits)
  from this [OF r] have "find (\<lambda>r. r_id r = i) (conversations d') = Some r" by (simp add: rest)
  with r assms(2) show ?thesis by (simp add: group_admin_def abs_conv_def)
qed

definition members_kept :: "string \<Rightarrow> string \<Rightarrow> 'b conv_db \<Rightarrow> 'b conv_db \<Rightarrow> bool" where
  "members_kept i u d d' \<longleftrightarrow> conv_inv d' \<and> prefix (conversations d) (conversations d')
     \<and> (scan_participants i d' = scan_participants i d \<or> group_admin d i u)"

lemma members_kept_step:
  assumes kept: "members_kept i u d d1" and i: "i \<in> r_id ` set (conversations d)"
    and hop: "conv_hop is_status dp md q d1 d2" and who: "acting_user q = None \<or> header_user md \<in> {None, Some u}"
  shows "members_kept i u d d2"
proof -
  from kept have d1: "conv_inv d1" "prefix (conversations d) (conversations d1)" by (simp_all add: members_kept_def)
  then have "i \<in> r_id ` set (conversations d1)" using i by (auto simp: prefix_def)
  from conv_hop_members [OF hop d1(1) this] who
  have d2: "conv_inv d2" "prefix (conversations d1) (conversations d2)"
    "scan_participants i d2 = scan_participants i d1 \<or> group_admin d1 i u" by auto
  with kept d1 group_admin_cong [OF d1(2) _ i] show ?thesis
    unfolding members_kept_def by (metis prefix_order.trans)
qed

lemma members_kept_inner:
  assumes "(inner_hop is_status dp)\<^sup>*\<^sup>* d1 d2" and "members_kept i u d d1" and "i \<in> r_id ` set (conversations d)"
  shows "members_kept i u d d2"
  using assms
proof (induction rule: rtranclp_induct)
  case (step y z)
  from step.hyps(2) show ?case
    by cases (rule members_kept_step [OF step.IH [OF step.prems] step.prems(2)], assumption, simp)+
qed

context conversation_front
begin

lemma acts_as_members:
  assumes "acts_as gw u S w w'" and "members_kept i u d (tables w)" and "i \<in> r_id ` set (conversations d)"
  shows "members_kept i u d (tables w')"
  using assms
proof (induction rule: acts_as.induct)
  case (aa_conv out q w r w1 w2)
  from aa_conv.hyps(1) have "header_user (Some (md_get out)) \<in> {None, Some u}" by (simp add: header_user_def)
  from aa_conv.IH [OF members_kept_step [OF aa_conv.prems conv_law [OF aa_conv.hyps(3)]]] this aa_conv.prems(2)
  show ?case by blast
next
  case (aa_msg out mq w mr w1 w2)
  from aa_msg.IH [OF members_kept_inner [OF msg_law [OF aa_msg.hyps(4)] aa_msg.prems] aa_msg.prems(2)] show ?case .
qed (use uuid_law profile_law presence_law in \<open>force+\<close>)

text \<open>A request changes the members of a conversation only with the token of an admin.\<close>

lemma request_members:
  assumes inv: "conv_inv (tables w)" and i: "i \<in> r_id ` set (conversations (tables w))"
    and run: "NewRouter gw allowed now reqHeader authHeader req w = (a, w')"
    and ch: "scan_participants i (tables w') \<noteq> scan_participants i (tables w)"
  shows "\<exists>u. gw_JWT gw now authHeader = Authorized u \<and> group_admin (tables w) i u"
proof -
  have start: "members_kept i u (tables w) (tables w)" for u using inv by (simp add: members_kept_def)
  show ?thesis
  proof (cases "public_route req")
    case True
    from public_keeps [where f = tables, OF auth_law uuid_law True run] ch show ?thesis by simp
  next
    case False
    obtain rid rep where a: "a = (rid, rep)" by fastforce
    from NewRouter_cases [OF run [unfolded a] False] ch uuid_law [of w "fst (gw_uuid gw w)" "snd (gw_uuid gw w)"]
    obtain u where u: "gw_JWT gw now authHeader = Authorized u" "acts_as gw u (posting req) w w'" by auto
    from acts_as_members [OF u(2) start i] ch u(1) show ?thesis by (auto simp: members_kept_def)
  qed
qed

end

section \<open>The stack keeps the promise\<close>

lemma conv_hop_serve:
  "conv_serve is_status dp idFirst md q (session d cw script now) = (r, t) \<Longrightarrow> conv_hop is_status dp md q d (s_db t)"
  unfolding conv_hop_def by (metis snd_conv)

lemma backend_call_hop:
  assumes "backend_call is_status dp ctx q w = (r, w')"
  shows "\<exists>md. conv_hop is_status dp md q (bk_db w) (bk_db w')"
  using assms
  by (auto simp: backend_call_def msg_ClientInterceptor_def Let_def split: prod.splits intro!: exI conv_hop_serve)

interpretation ih: msg_world "\<lambda>w w'. (inner_hop is_status dp)\<^sup>*\<^sup>* (bk_db w) (bk_db w')"
    "backend_deps is_status dp ctx cd lib" "backend_producer pr" "(=)"
  for is_status dp ctx cd lib pr
proof unfold_locales
  fix w w' i r
  assume "md_NextSequence (backend_deps is_status dp ctx cd lib) i w = (r, w')"
  then have "backend_next is_status dp ctx i w = (r, w')" by (simp add: backend_deps_def)
  from backend_next_call [OF this] backend_call_hop show "(inner_hop is_status dp)\<^sup>*\<^sup>* (bk_db w) (bk_db w')"
    by (blast intro: ih_next)
next
  fix w w' i q
  assume "md_GetConversation (backend_deps is_status dp ctx cd lib) i w = (q, w')"
  then have "backend_get is_status dp ctx i w = (q, w')" by (simp add: backend_deps_def)
  from backend_get_call [OF this] backend_call_hop show "(inner_hop is_status dp)\<^sup>*\<^sup>* (bk_db w) (bk_db w')"
    by (blast intro: ih_get)
qed (auto simp: backend_deps_def backend_producer_def dest: on_rest_db)

lemma msg_at_gateway_hops:
  fixes wi :: "('cw, 'o, 'j, 'b, 'c) wiring"
  assumes "msg_at_gateway wi out q w = (r, w1)"
  shows "(inner_hop (wi_conv_status wi) (wi_conv wi))\<^sup>*\<^sup>* (bk_db w) (bk_db w1)"
proof -
  obtain script now where f: "stack_feed w = (script, now)" by fastforce
  let ?md = "msg_deps_at wi out"
  let ?s = "session (sv_msg (bk_rest w)) (w\<lparr>bk_feed := tl (bk_feed w)\<rparr>) script now"
  let ?p = "backend_producer undefined :: (('cw, 'o, 'j, 'b, 'c) stack, 'b) producer"
  obtain mr t where run: "msg_serve (wi_msg_status wi) ?md False (Some (md_get out)) q ?s = (mr, t)" by fastforce
  with assms f have db: "bk_db w1 = bk_db (s_world t)" by (auto simp: msg_at_gateway_def)
  from msg_serve_cases [where hdrs = "Some (md_get out)" and is_status = "wi_msg_status wi" and md = ?md
      and seqFirst = False and req = q and s = ?s and n = 0 and p = ?p] run
  have "t = ?s \<or> (\<exists>call. t = snd (msg_exec ?md 0 ?p call ?s))"
    by (auto split: option.splits)
  then show ?thesis
  proof
    assume "t = ?s"
    with db show ?thesis by simp
  next
    assume "\<exists>call. t = snd (msg_exec ?md 0 ?p call ?s)"
    then obtain call where "msg_exec ?md 0 ?p call ?s = (fst (msg_exec ?md 0 ?p call ?s), t)" by (metis prod.collapse)
    from ih.exec_rel [OF this [unfolded msg_deps_at_def]] db show ?thesis by simp
  qed
qed

interpretation st: conversation_front "stack_gateway wi" bk_db "wi_conv_status wi" "wi_conv wi" for wi
proof unfold_locales
  fix out q w w1 r
  assume "gw_conv (stack_gateway wi) out q w = (r, w1)"
  then show "conv_hop (wi_conv_status wi) (wi_conv wi) (Some (md_get out)) q (bk_db w) (bk_db w1)"
    by (auto simp: stack_gateway_def conv_at_gateway_def split: prod.splits intro: conv_hop_serve)
next
  fix out mq w w1 mr
  assume "gw_msg (stack_gateway wi) out mq w = (mr, w1)"
  then show "(inner_hop (wi_conv_status wi) (wi_conv wi))\<^sup>*\<^sup>* (bk_db w) (bk_db w1)"
    by (simp add: stack_gateway_def msg_at_gateway_hops)
qed (auto simp: stack_gateway_def auth_at_gateway_def profile_at_gateway_def presence_at_gateway_def
    split: prod.splits dest: on_rest_db)

end
