(* ===== verification/GwDemo.thy ===== *)
theory GwDemo
  imports Stack AccountFlow ConvProps
begin

text \<open>
  A concrete stack to apply the properties of the gateway to: the demo services of the other theories,
  and tokens that carry their claims in hexadecimal.
\<close>

section \<open>Tokens\<close>

definition hex_value :: "char \<Rightarrow> nat" where
  "hex_value c = hd (filter (\<lambda>n. hex_alphabet ! n = c) [0..<16] @ [16])"

fun unhex :: "string \<Rightarrow> string" where
  "unhex (a # b # cs) = char_of (16 * hex_value a + hex_value b) # unhex cs"
| "unhex _ = []"

lemma hex_value_digit: "n < 16 \<Longrightarrow> hex_value (hex_alphabet ! n) = n"
proof -
  assume n: "n < 16"
  have "list_all (\<lambda>n. hex_value (hex_alphabet ! n) = n) [0..<16]" by code_simp
  with n show ?thesis by (simp add: list_all_iff)
qed

lemma unhex_hex [simp]: "unhex (hex_EncodeToString s) = s"
proof (induction s)
  case (Cons c s)
  have "hex_EncodeToString (c # s) = hex_alphabet ! (byte c div 16) # hex_alphabet ! (byte c mod 16) # hex_EncodeToString s"
    by (simp add: hex_EncodeToString_def)
  moreover have "byte c div 16 < 16" using byte_less [of c] by linarith
  ultimately show ?case using Cons by (simp add: hex_value_digit)
qed (simp add: hex_EncodeToString_def)

lemma hex_chars: "set (hex_EncodeToString s) \<subseteq> set hex_alphabet"
proof -
  have "byte c div 16 < 16" for c using byte_less [of c] by linarith
  moreover have "length hex_alphabet = 16" by (simp add: hex_alphabet_def)
  ultimately show ?thesis by (auto simp: hex_EncodeToString_def)
qed

lemma hex_plain: "CHR ''.'' \<notin> set (hex_EncodeToString s)" "CHR '' '' \<notin> set (hex_EncodeToString s)"
  using hex_chars [of s] by (auto simp: hex_alphabet_def)

definition demo_token :: "string \<Rightarrow> string list \<Rightarrow> string" where
  "demo_token secret ts = ''eyJhbGciOi'' @ concat (map (\<lambda>t. CHR ''.'' # hex_EncodeToString t) (secret # ts))"

definition demo_sign :: "string \<Rightarrow> jwt_claims \<Rightarrow> string + string" where
  "demo_sign secret c = Inr (demo_token secret [jc_sub c, jc_iss c, jc_aud c])"

definition demo_parse :: jwt_parse where
  "demo_parse secret iss aud now tok =
     (case map unhex (strings_Split (CHR ''.'') tok) of
        [_, key, sub, i, a] \<Rightarrow>
          if key = secret then Inr (claims_of \<lparr>jc_sub = sub, jc_iss = i, jc_aud = a, jc_iat = 0, jc_exp = 0\<rparr>)
          else Inl ''token signature is invalid''
      | _ \<Rightarrow> Inl ''token is malformed'')"

lemma demo_jwt_ok: "jwt_ok demo_sign demo_parse"
proof -
  have claims: "claims_of \<lparr>jc_sub = jc_sub c, jc_iss = jc_iss c, jc_aud = jc_aud c, jc_iat = 0, jc_exp = 0\<rparr> = claims_of c" for c
    by (simp add: claims_of_def)
  have "CHR ''.'' \<notin> set ''eyJhbGciOi''" by simp
  then show ?thesis
    unfolding jwt_ok_def demo_sign_def demo_parse_def demo_token_def
    by (auto simp: strings_Split_app strings_Split_plain hex_plain claims)
qed

section \<open>The stack\<close>

definition demo_accounts :: "(prof_world, string) auth_deps" where
  "demo_accounts = \<lparr>
     ad_bcrypt = (\<lambda>pw w. (Inr (''$2a$'' @ pw), w)),
     ad_bcrypt_compare = (\<lambda>h pw. if h = ''$2a$'' @ pw then None else Some ''mismatch''),
     ad_sha256 = (\<lambda>t. ''h'' @ t),
     ad_rand = (\<lambda>n w. case demo_draw w of (k, w') \<Rightarrow> (Inr (demo_text k), w')),
     ad_uuid = (\<lambda>w. case demo_draw w of (k, w') \<Rightarrow> (CHR ''u'' # demo_text k, w')),
     ad_sign = demo_sign,
     ad_json = (\<lambda>kvs. Inr (concat (map snd kvs))),
     ad_cfg = \<lparr>cf_JWTSecret = ''s'', cf_JWTIssuer = ''i'', cf_JWTAudience = ''a'', cf_AccessTokenTTL = 900,
       cf_RefreshTokenTTL = 3600\<rparr>\<rparr>"

definition demo_stack_lib :: "(prof_world, Message) msg_lib" where
  "demo_stack_lib = \<lparr>lib_uuid = (\<lambda>w. case demo_draw w of (k, w') \<Rightarrow> (CHR ''m'' # demo_text k, w')),
     lib_json_enc = Inr, lib_json_dec = Inr, lib_jsonb = Some\<rparr>"

fun demo_from_status :: "unit go_error \<Rightarrow> (code \<times> string) option" where
  "demo_from_status (Status c m) = Some (c, m)"
| "demo_from_status (Wrapf p err) = demo_from_status err"
| "demo_from_status _ = None"

definition demo_wiring :: "(wire kafka_msg list, prof_world, Message, wire, string) wiring" where
  "demo_wiring = \<lparr>wi_conv = demo_deps, wi_lib = demo_stack_lib, wi_codec = wire_codec, wi_auth = demo_accounts,
     wi_prof = demo_prof, wi_uuid = (\<lambda>w. case demo_draw w of (k, w') \<Rightarrow> (CHR ''r'' # demo_text k, w')),
     wi_conv_status = wraps_status, wi_msg_status = wraps_status, wi_auth_status = wraps_status,
     wi_prof_status = wraps_status, wi_from_status = demo_from_status, wi_parse = demo_parse,
     wi_secret = ''s'', wi_issuer = ''i'', wi_audience = ''a''\<rparr>"

abbreviation demo_gateway :: "(wire kafka_msg list, prof_world, Message, wire, string) stack gateway" where
  "demo_gateway \<equiv> stack_gateway demo_wiring"

text \<open>The profiles of two users, and their group and direct conversation.\<close>

definition demo_stack_start :: "(wire kafka_msg list, prof_world, Message, wire, string) stack" where
  "demo_stack_start = \<lparr>
     bk_db = s_db demo_before_add, bk_world = [], bk_feed = [],
     bk_rest = \<lparr>sv_msg = empty_msg_db, sv_auth = empty_auth_db,
       sv_prof = empty_prof_db\<lparr>profiles := [new_profile 1 ''ann'' ''ann'',
         (new_profile 1 ''bob'' ''bob'')\<lparr>pr_display_name := Some ''Bob''\<rparr>]\<rparr>,
       sv_presence = \<lparr>rd_strings = [], rd_sets = [], rd_published = [], rd_script = []\<rparr>,
       sv_out = demo_profiles\<rparr>\<rparr>"

text \<open>The header of a user's token.\<close>

definition demo_bearer :: "string \<Rightarrow> string" where
  "demo_bearer u = ''Bearer '' @ demo_token ''s'' [u, ''i'', ''a'']"

definition demo_request :: "string \<Rightarrow> gw_request \<Rightarrow> (string \<times> gw_reply) \<times> (wire kafka_msg list, prof_world, Message, wire, string) stack" where
  "demo_request u req = NewRouter demo_gateway True 5 ''r1'' (demo_bearer u) req demo_stack_start"

end
