(* ===== verification/Posting.thy ===== *)
theory Posting
  imports Stack MsgProps
begin

text \<open>
  A message that a request through the gateway adds: the services of the stack together make sure that
  it is from the subject of the token, who is a participant of the conversation.
\<close>

section \<open>Whom the message service asks\<close>

context msg_world
begin

lemma SendMessage_asks:
  assumes inv: "msg_inv md (s_db s)" and run: "SendMessage md seqFirst cmd s = (r, t)"
    and m: "m \<in> set (messages (s_db t))" "row_core m \<notin> row_core ` set (messages (s_db s))"
  shows "\<exists>w0 resp w1. R (s_world s) w0 \<and> md_GetConversation md (sm_ConversationID cmd) w0 = (Inr resp, w1)
    \<and> sm_UserID cmd \<in> set (gr_ParticipantUserIds resp)"
proof -
  have keeps: "\<forall>s1 q s2. R (s_world s) (s_world s1) \<longrightarrow> s_db s1 = s_db s \<longrightarrow> SendMessage_tx md seqFirst cmd s1 = (q, s2)
      \<longrightarrow> R (s_world s) (s_world s2)"
    using world_relD [OF SendMessage_tx_rel] rel_trans by blast
  have "s_db t \<noteq> s_db s" using m by auto
  with WithTx_joint [where J = "R (s_world s)" and d = "s_db s", OF keeps rel_refl refl
      run [unfolded SendMessage_def msg_WithTx_def]]
  obtain s1 a s2 where s1: "s_db s1 = s_db s" "R (s_world s) (s_world s1)"
    and tx: "SendMessage_tx md seqFirst cmd s1 = (Inr a, s2)" and t: "s_db t = s_db s2"
    by blast
  from inv s1 have "msg_inv md (s_db s1)" by simp
  from SendMessage_tx_cases [OF this tx] m s1(1) t obtain resp n w1 where
    calls: "world_conv_calls md seqFirst (sm_ConversationID cmd) (s_world s1) resp n w1"
    and mem: "sm_UserID cmd \<in> set (gr_ParticipantUserIds resp)" by auto
  from calls obtain w0 w2 where "R (s_world s1) w0" "md_GetConversation md (sm_ConversationID cmd) w0 = (Inr resp, w2)"
    by (auto simp: world_conv_calls_def split: if_splits intro: rel_refl next_rel)
  with mem s1(2) rel_trans show ?thesis by blast
qed

end

section \<open>What the conversation service answers\<close>

interpretation mp: db_order "\<lambda>d d'. conversation_participants d' = conversation_participants d"
  by unfold_locales auto

lemma NextSequence_participants:
  fixes s :: "('b conv_db, 'w) sess"
  shows "conversation_participants (s_db (snd (NextSequence i s))) = conversation_participants (s_db s)"
proof -
  have "db_rel (\<lambda>d d'. conversation_participants d' = conversation_participants d) (NextSequence i :: ('w, 'b, int) conv_prog)"
    unfolding NextSequence_def repo_NextSequence_def
    by (intro mp.WithTx_rel mp.wrap_err_rel mp.db_rules mp.stmt_rel) (auto split: option.splits if_splits)
  then show ?thesis by (simp add: db_rel_def)
qed

lemma inner_hop_participants:
  assumes "inner_hop is_status dp d d'"
  shows "conversation_participants d' = conversation_participants d"
proof -
  have keep: "conversation_participants d' = conversation_participants d"
    if "conv_hop is_status dp md q d d'" "q = GetConversationRequest i \<or> q = NextSequenceRequest i" for md q i
  proof -
    from that(1) obtain idFirst cw script now where
      d': "d' = s_db (snd (conv_serve is_status dp idFirst md q (session d cw script now)))"
      unfolding conv_hop_def by blast
    let ?wk = "undefined :: conv_worker" and ?p = "undefined :: ('a, 'b) producer"
    from conv_serve_cases [of is_status dp idFirst md q "session d cw script now" ?wk ?p] consider
        "d' = d" | call where "call_of idFirst q call" "d' = s_db (snd (conv_exec dp ?wk ?p call (session d cw script now)))"
      using d' by (auto simp del: conv_exec.simps)
    then show ?thesis
      using that(2) NextSequence_participants [of i "session d cw script now"]
        GetConversation_db [of dp i "session d cw script now"]
      by cases (auto simp: answer_snd)
  qed
  from assms keep show ?thesis by cases blast+
qed

lemma inner_hops_participants:
  "(inner_hop is_status dp)\<^sup>*\<^sup>* d d' \<Longrightarrow> conversation_participants d' = conversation_participants d"
  by (induction rule: rtranclp_induct) (auto dest: inner_hop_participants)

definition takes_part :: "string \<Rightarrow> string \<Rightarrow> 'b conv_db \<Rightarrow> bool" where
  "takes_part u i d \<longleftrightarrow> (\<exists>p \<in> set (conversation_participants d). m_conv p = i \<and> m_user p = u)"

lemma repo_GetConversation_InrD:
  assumes "repo_GetConversation dp tx i s = (Inr c, t)" and "dp_cache dp = None"
  shows "c_Participants c = scan_participants i (s_db s)"
  using assms
  by (auto simp: repo_GetConversation_def fetchConversation_def bindE_Inr_iff dest!: query_InrD split: option.splits)

lemma backend_get_participants:
  assumes "backend_get is_status dp ctx i w = (Inr resp, w')" and "dp_cache dp = None"
    and "u \<in> set (gr_ParticipantUserIds resp)"
  shows "takes_part u i (bk_db w)"
proof -
  from assms(1) have call: "backend_call is_status dp ctx (GetConversationRequest i) w = (Inr (GetConversationResponse resp), w')"
    by (auto simp: backend_get_def split: prod.splits sum.splits conv_response.splits)
  obtain script now where f: "next_feed (bk_feed w) = (script, now)" by fastforce
  let ?s = "session (bk_db w) (bk_world w) script now"
  from call f obtain hdr t where srv: "conv_serve is_status dp False hdr (GetConversationRequest i) ?s
      = (Inr (GetConversationResponse resp), t)"
    by (auto simp: backend_call_def msg_ClientInterceptor_def Let_def split: prod.splits)
  from Interceptor_cases [of hdr "rpc_method (GetConversationRequest i)"
      "rpc_handler is_status dp False (GetConversationRequest i)" ?s] srv
  have "rpc_GetConversation is_status dp i ?s = (Inr (GetConversationResponse resp), t)"
    unfolding conv_serve_def by auto
  then obtain c where c: "GetConversation dp i ?s = (Inr c, t)" and resp: "gr_ParticipantUserIds resp = map fst (c_Participants c)"
    by (cases "GetConversation dp i ?s"; cases "fst (GetConversation dp i ?s)")
      (auto simp: rpc_GetConversation_def bindE_Inr_iff mapping_errors_def Let_def toProtoConversation_def)
  from repo_GetConversation_InrD [OF c [unfolded GetConversation_def] assms(2)] resp assms(3)
  show ?thesis by (auto simp: takes_part_def scan_participants_def)
qed

section \<open>Through the gateway\<close>

text \<open>The invariant of the message tables does not depend on whose call it is.\<close>

definition stack_msg_inv :: "('cw, 'o, 'j, 'b, 'c) wiring \<Rightarrow> ('cw, 'o, 'j, 'b, 'c) stack \<Rightarrow> bool" where
  "stack_msg_inv wi w \<longleftrightarrow> msg_inv (msg_deps_at wi []) (sv_msg (bk_rest w))"

lemma msg_inv_deps: "md_json_dec md = md_json_dec md' \<Longrightarrow> msg_inv md d = msg_inv md' d"
  by (simp add: msg_inv_def idem_ok_def answers_def)

lemma stack_msg_inv_iff: "stack_msg_inv wi w \<longleftrightarrow> msg_inv (msg_deps_at wi out) (sv_msg (bk_rest w))"
  unfolding stack_msg_inv_def
  by (rule msg_inv_deps) (simp add: msg_deps_at_def backend_deps_def msg_lib_at_def)

lemma msg_json_deps: "msg_json_ok (msg_deps_at wi out) \<longleftrightarrow> msg_json_ok (msg_deps_at wi [])"
  by (simp add: msg_json_ok_def msg_deps_at_def backend_deps_def msg_lib_at_def)

abbreviation cores :: "('cw, 'o, 'j, 'b, 'c) stack \<Rightarrow> _" where
  "cores w \<equiv> row_core ` set (messages (sv_msg (bk_rest w)))"

lemma msg_at_gateway_run:
  assumes "msg_at_gateway wi out q w = (r, w1)"
  obtains script now mr t where "msg_serve (wi_msg_status wi) (msg_deps_at wi out) False (Some (md_get out)) q
      (session (sv_msg (bk_rest w)) (w\<lparr>bk_feed := tl (bk_feed w)\<rparr>) script now) = (mr, t)"
    and "sv_msg (bk_rest w1) = s_db t"
  using assms by (auto simp: msg_at_gateway_def split: prod.splits)

lemma msg_at_gateway_inv:
  assumes "msg_at_gateway wi out q w = (r, w1)" and "stack_msg_inv wi w" and "msg_json_ok (msg_deps_at wi [])"
  shows "stack_msg_inv wi w1"
proof -
  obtain script now mr t where run: "msg_serve (wi_msg_status wi) (msg_deps_at wi out) False (Some (md_get out)) q
      (session (sv_msg (bk_rest w)) (w\<lparr>bk_feed := tl (bk_feed w)\<rparr>) script now) = (mr, t)"
    and db: "sv_msg (bk_rest w1) = s_db t" by (rule msg_at_gateway_run [OF assms(1)])
  let ?s = "session (sv_msg (bk_rest w)) (w\<lparr>bk_feed := tl (bk_feed w)\<rparr>) script now"
  from msg_serve_cases [where hdrs = "Some (md_get out)" and is_status = "wi_msg_status wi" and md = "msg_deps_at wi out"
      and seqFirst = False and req = q and s = ?s and n = 0 and p = undefined] run
  have "t = ?s \<or> (\<exists>call. t = snd (msg_exec (msg_deps_at wi out) 0 undefined call ?s))" by (auto split: option.splits)
  with msg_exec_inv [of "msg_deps_at wi out" ?s 0 undefined] assms(2,3) msg_json_deps [of wi out] show ?thesis
    by (auto simp: stack_msg_inv_iff [of wi w out] stack_msg_inv_iff [of wi w1 out] db)
qed

lemma msg_at_gateway_posts:
  assumes run: "msg_at_gateway wi out q w = (r, w1)" and inv: "stack_msg_inv wi w" and "dp_cache (wi_conv wi) = None"
    and m: "m \<in> set (messages (sv_msg (bk_rest w1)))" "row_core m \<notin> cores w"
  shows "sends q \<and> header_user (Some (md_get out)) = Some (w_sender m) \<and> takes_part (w_sender m) (w_conv m) (bk_db w)"
proof -
  obtain script now mr t where srv: "msg_serve (wi_msg_status wi) (msg_deps_at wi out) False (Some (md_get out)) q
      (session (sv_msg (bk_rest w)) (w\<lparr>bk_feed := tl (bk_feed w)\<rparr>) script now) = (mr, t)"
    and db: "sv_msg (bk_rest w1) = s_db t" by (rule msg_at_gateway_run [OF run])
  let ?md = "msg_deps_at wi out"
  let ?s = "session (sv_msg (bk_rest w)) (w\<lparr>bk_feed := tl (bk_feed w)\<rparr>) script now"
  have inv': "msg_inv ?md (s_db ?s)" using inv by (simp add: stack_msg_inv_iff [of wi w out])
  from msg_serve_new_rows [OF inv' srv] m db obtain c k ty ct me where
    hu: "header_user (Some (md_get out)) = Some (w_sender m)"
    and q: "q = SendMessageRequest c (w_sender m) k ty ct me" "w_conv m = c" by auto
  let ?cmd = "\<lparr>sm_ConversationID = c, sm_UserID = w_sender m, sm_ClientMsgID = k, sm_Type = ty, sm_Content = ct, sm_Metadata = me\<rparr>"
  from msg_serve_cases [where hdrs = "Some (md_get out)" and is_status = "wi_msg_status wi" and md = ?md
      and seqFirst = False and req = q and s = ?s and n = 0 and p = undefined] srv hu q(1)
  have "t = snd (SendMessage ?md False ?cmd ?s)" by (simp add: answer_snd)
  then have send: "SendMessage ?md False ?cmd ?s = (fst (SendMessage ?md False ?cmd ?s), t)" by (metis prod.collapse)
  have m': "m \<in> set (messages (s_db t))" "row_core m \<notin> row_core ` set (messages (s_db ?s))" using m db by simp_all
  from ih.SendMessage_asks [OF inv' [unfolded msg_deps_at_def] send [unfolded msg_deps_at_def] m']
  obtain w0 resp w2 where hops: "(inner_hop (wi_conv_status wi) (wi_conv wi))\<^sup>*\<^sup>* (bk_db w) (bk_db w0)"
    and get: "md_GetConversation ?md c w0 = (Inr resp, w2)" and mem: "w_sender m \<in> set (gr_ParticipantUserIds resp)"
    unfolding msg_deps_at_def by auto
  from get have "backend_get (wi_conv_status wi) (wi_conv wi) (served_ctx out) c w0 = (Inr resp, w2)"
    by (simp add: msg_deps_at_def backend_deps_def)
  from backend_get_participants [OF this assms(3) mem] inner_hops_participants [OF hops]
  have "takes_part (w_sender m) c (bk_db w)" by (simp add: takes_part_def)
  with hu q show ?thesis by simp
qed

text \<open>The other clients leave the message tables alone.\<close>

lemma stack_others:
  "gw_conv (stack_gateway wi) out cq w = (cr, w1) \<Longrightarrow> sv_msg (bk_rest w1) = sv_msg (bk_rest w)"
  "gw_auth (stack_gateway wi) out aq w = (ar, w1) \<Longrightarrow> sv_msg (bk_rest w1) = sv_msg (bk_rest w)"
  "gw_profile (stack_gateway wi) out pq w = (pr, w1) \<Longrightarrow> sv_msg (bk_rest w1) = sv_msg (bk_rest w)"
  "gw_presence (stack_gateway wi) out us w = (ur, w1) \<Longrightarrow> sv_msg (bk_rest w1) = sv_msg (bk_rest w)"
  "gw_uuid (stack_gateway wi) w = (x, w1) \<Longrightarrow> sv_msg (bk_rest w1) = sv_msg (bk_rest w) \<and> bk_db w1 = bk_db w"
  by (auto simp: stack_gateway_def conv_at_gateway_def auth_at_gateway_def profile_at_gateway_def
      presence_at_gateway_def on_rest_def split: prod.splits)

lemma stack_msg_inv_cong: "sv_msg (bk_rest w1) = sv_msg (bk_rest w) \<Longrightarrow> stack_msg_inv wi w1 = stack_msg_inv wi w"
  by (simp add: stack_msg_inv_def)

text \<open>A caller who may not post adds nothing.\<close>

lemma acts_as_silent:
  assumes "acts_as (stack_gateway wi) u S w w'" and "\<not> S" and "stack_msg_inv wi w" and "msg_json_ok (msg_deps_at wi [])"
    and "dp_cache (wi_conv wi) = None"
  shows "cores w' \<subseteq> cores w"
  using assms
proof (induction rule: acts_as.induct)
  case (aa_msg out mq w mr w1 w2)
  from aa_msg.hyps(4) have call: "msg_at_gateway wi out mq w = (mr, w1)" by (simp add: stack_gateway_def)
  have "\<not> sends mq" using aa_msg by blast
  with msg_at_gateway_posts [OF call aa_msg.prems(2,4)] have "cores w1 \<subseteq> cores w" by blast
  with aa_msg.IH [OF aa_msg.prems(1) msg_at_gateway_inv [OF call aa_msg.prems(2,3)] aa_msg.prems(3,4)] show ?case by blast
next
  case (aa_uuid w x w1 w2)
  from stack_others(5) [OF aa_uuid.hyps(1)] aa_uuid stack_msg_inv_cong [of w1 w wi] show ?case by simp
next
  case (aa_conv out q w r w1 w2)
  from stack_others(1) [OF aa_conv.hyps(3)] aa_conv stack_msg_inv_cong [of w1 w wi] show ?case by simp
next
  case (aa_profile out pq w pr w1 w2)
  from stack_others(3) [OF aa_profile.hyps(3)] aa_profile stack_msg_inv_cong [of w1 w wi] show ?case by simp
next
  case (aa_presence out us w ur w1 w2)
  from stack_others(4) [OF aa_presence.hyps(1)] aa_presence stack_msg_inv_cong [of w1 w wi] show ?case by simp
qed simp

text \<open>A request to post does one call of the message service, after drawing identifiers.\<close>

lemma gw_SendMessage_call:
  assumes "gw_SendMessage gw u rid body w = (rep, w')" and uuid: "\<And>w x w1. gw_uuid gw w = (x, w1) \<Longrightarrow> f w1 = f w"
  shows "f w' = f w \<or> (\<exists>w1 q r. f w1 = f w \<and> gw_msg gw (WithMeta [] u rid) q w1 = (r, w'))"
proof (cases body)
  case (Inr b)
  let ?i = "if sb_IdempotencyKey b = [] then gw_uuid gw w else (sb_IdempotencyKey b, w)"
  have f1: "f (snd ?i) = f w" using uuid [of w "fst (gw_uuid gw w)" "snd (gw_uuid gw w)"] by simp
  let ?q = "SendMessageRequest (sb_ConversationID b) u (fst ?i) (if sb_Type b = [] then ''text'' else sb_Type b) (sb_Content b) []"
  obtain r w2 where call: "gw_msg gw (WithMeta [] u rid) ?q (snd ?i) = (r, w2)" by fastforce
  show ?thesis
  proof (cases "sb_ConversationID b = [] \<or> sb_Content b = []")
    case True
    with assms(1) Inr show ?thesis by (auto simp: gw_SendMessage_def split: if_splits)
  next
    case False
    with assms(1) Inr call have "w' = w2"
      by (simp add: gw_SendMessage_def Let_def call_then_def case_prod_beta split: sum.splits)
    with call f1 show ?thesis by blast
  qed
qed (use assms in \<open>auto simp: gw_SendMessage_def\<close>)

lemma posted_through_gateway:
  assumes run: "NewRouter (stack_gateway wi) allowed now reqHeader authHeader req w = (a, w')"
    and inv: "stack_msg_inv wi w" and json: "msg_json_ok (msg_deps_at wi [])" and cache: "dp_cache (wi_conv wi) = None"
    and m: "m \<in> set (messages (sv_msg (bk_rest w')))" "row_core m \<notin> cores w"
  shows "posting req \<and> gw_JWT (stack_gateway wi) now authHeader = Authorized (w_sender m)
    \<and> takes_part (w_sender m) (w_conv m) (bk_db w)"
proof -
  let ?gw = "stack_gateway wi"
  let ?f = "\<lambda>w. (sv_msg (bk_rest w), bk_db w)"
  have uuid: "?f w1 = ?f w" if "gw_uuid ?gw w = (x, w1)" for w x w1 using stack_others(5) [OF that] by simp
  have guarded: "\<not> public_route req"
  proof
    assume pub: "public_route req"
    have "sv_msg (bk_rest w') = sv_msg (bk_rest w)"
      by (rule public_keeps [where f = "\<lambda>w. sv_msg (bk_rest w)", OF _ _ pub run])
        (use stack_others(2,5) in blast)+
    with m show False by simp
  qed
  obtain rid rep where a: "a = (rid, rep)" by fastforce
  have posting: "posting req"
  proof (rule ccontr)
    assume no: "\<not> posting req"
    from NewRouter_cases [OF run [unfolded a] guarded] show False
    proof
      assume "\<exists>u. gw_JWT ?gw now authHeader = Authorized u \<and> allowed \<and> acts_as ?gw u (posting req) w w'"
      then obtain u where "acts_as ?gw u (posting req) w w'" by blast
      from acts_as_silent [OF this no inv json cache] m show False by blast
    next
      assume "(w' = w \<or> w' = snd (gw_uuid ?gw w)) \<and> h_status rep \<in> {401, 429, 500}"
      then have "sv_msg (bk_rest w') = sv_msg (bk_rest w)"
        using uuid [of w "fst (gw_uuid ?gw w)" "snd (gw_uuid ?gw w)"] by auto
      with m show False by simp
    qed
  qed
  then show ?thesis
  proof (cases req)
    case (ReqSendMessage body)
    obtain r1 w1 where rid: "RequestID ?gw reqHeader w = (r1, w1)" by fastforce
    then have f1: "?f w1 = ?f w" using uuid by (auto simp: RequestID_def split: if_splits)
    have "w' \<noteq> w1" using f1 m by auto
    with run rid ReqSendMessage a obtain u where jwt: "gw_JWT ?gw now authHeader = Authorized u"
      and h: "gw_SendMessage ?gw u r1 body w1 = (fst (gw_SendMessage ?gw u r1 body w1), w')"
      by (auto simp: NewRouter_def split: if_splits jwt_outcome.splits prod.splits)
    have changed: "?f w' \<noteq> ?f w1" using f1 m by auto
    have "?f w' = ?f w1 \<or> (\<exists>w2 q r. ?f w2 = ?f w1 \<and> gw_msg ?gw (WithMeta [] u r1) q w2 = (r, w'))"
      by (rule gw_SendMessage_call [OF h uuid])
    with changed obtain w2 q r where f2: "?f w2 = ?f w1" and "gw_msg ?gw (WithMeta [] u r1) q w2 = (r, w')" by blast
    then have call: "msg_at_gateway wi (WithMeta [] u r1) q w2 = (r, w')" by (simp add: stack_gateway_def)
    have "stack_msg_inv wi w2" using inv f1 f2 by (simp add: stack_msg_inv_def)
    from msg_at_gateway_posts [OF call this cache m(1)] m(2) f1 f2 jwt ReqSendMessage show ?thesis
      by (auto split: if_splits)
  qed simp_all
qed

end
