(* ===== verification/Config.thy ===== *)
theory Config
  imports AuthRepo Gateway "HOL-Library.Word"
begin

text \<open>
  The configuration that every service reads when it starts (\<^verbatim>\<open>internal/config/config.go\<close> of the six
  services and of the gateway). The environment is a map of variables; \<open>log.Fatalf\<close> ends the process,
  so that loading gives the variable it complains about or a configuration. The seven packages have
  their own copies of the helpers: the ones that are the same code are one definition here.
\<close>

type_synonym environment = "string \<Rightarrow> string option"

datatype config_err = MissingEnv string | InvalidInt string

definition Getenv :: "environment \<Rightarrow> string \<Rightarrow> string" where
  "Getenv env k = (case env k of None \<Rightarrow> [] | Some v \<Rightarrow> v)"

section \<open>Helpers\<close>

text \<open>Only the port of an address may be given; the delivery service tells it by the first character.\<close>

definition fixPort :: "string \<Rightarrow> string" where
  "fixPort port = (if port \<noteq> [] \<and> \<not> strings_Contains port '':'' then CHR '':'' # port else port)"

definition deliv_fixPort :: "string \<Rightarrow> string" where
  "deliv_fixPort port = (if port \<noteq> [] \<and> \<not> has_prefix port '':'' then CHR '':'' # port else port)"

definition mustEnv :: "environment \<Rightarrow> string \<Rightarrow> config_err + string" where
  "mustEnv env k = (if Getenv env k = [] then Inl (MissingEnv k) else Inr (Getenv env k))"

definition getEnv :: "environment \<Rightarrow> string \<Rightarrow> string \<Rightarrow> string" where
  "getEnv env k d = (if Getenv env k = [] then d else Getenv env k)"


definition getEnvBool :: "environment \<Rightarrow> string \<Rightarrow> bool \<Rightarrow> bool" where
  "getEnvBool env k d = (if Getenv env k = [] then d else Getenv env k = ''true'')"

definition auth_getEnvBool :: "environment \<Rightarrow> string \<Rightarrow> bool \<Rightarrow> bool" where
  "auth_getEnvBool env k d = (if Getenv env k = [] then d else strings_ToLower (Getenv env k) = ''true'')"

definition auth_getEnvInt :: "environment \<Rightarrow> string \<Rightarrow> int \<Rightarrow> config_err + int" where
  "auth_getEnvInt env k d =
     (if Getenv env k = [] then Inr d
      else (case strconv_Atoi (Getenv env k) of None \<Rightarrow> Inl (InvalidInt k) | Some i \<Rightarrow> Inr i))"

definition gw_getEnvInt :: "environment \<Rightarrow> string \<Rightarrow> int \<Rightarrow> int" where
  "gw_getEnvInt env k d =
     (if Getenv env k = [] then d else (case fmt_Sscanf_d 64 (Getenv env k) of Some i \<Rightarrow> i | None \<Rightarrow> d))"

text \<open>No slice (\<open>nil\<close>) is the default of the only call.\<close>

definition getEnvSlice :: "environment \<Rightarrow> string \<Rightarrow> string list \<Rightarrow> string list" where
  "getEnvSlice env k d = (if Getenv env k = [] then d else strings_Split (CHR '','') (Getenv env k))"

text \<open>\<open>time.Duration(n) * unit\<close> in nanoseconds: 64 bits that wrap around.\<close>

definition duration :: "int \<Rightarrow> int \<Rightarrow> int" where
  "duration n unit = sint (word_of_int n * word_of_int unit :: 64 word)"

abbreviation Minute :: int where "Minute \<equiv> 60000000000"
abbreviation Hour :: int where "Hour \<equiv> 3600000000000"

definition fatal_or :: "config_err + 'a \<Rightarrow> ('a \<Rightarrow> config_err + 'b) \<Rightarrow> config_err + 'b" where
  "fatal_or r k = (case r of Inl err \<Rightarrow> Inl err | Inr v \<Rightarrow> k v)"


section \<open>Auth service\<close>

record auth_config =
  ac_DatabaseURL :: string
  ac_RedisAddr :: string
  ac_KafkaBrokers :: "string list"
  ac_HTTPAddr :: string
  ac_GRPCAddr :: string
  ac_ObsHTTPAddr :: string
  ac_ServiceName :: string
  ac_LogLevel :: string
  ac_JWTSecret :: string
  ac_JWTIssuer :: string
  ac_JWTAudience :: string
  ac_AccessTokenTTL :: int       \<comment> \<open>nanoseconds\<close>
  ac_RefreshTokenTTL :: int
  ac_LoginRateLimitPerMin :: int
  ac_RefreshRateLimitPerMin :: int
  ac_MetricsEnabled :: bool
  ac_TracingEnabled :: bool
  ac_JaegerURL :: string

abbreviation jaeger :: string where "jaeger \<equiv> ''http://jaeger:14268/api/traces''"

definition auth_Load :: "environment \<Rightarrow> config_err + auth_config" where
  "auth_Load env =
     fatal_or (mustEnv env ''DATABASE_URL'') (\<lambda>db.
     fatal_or (mustEnv env ''REDIS_ADDR'') (\<lambda>redis.
     fatal_or (mustEnv env ''HTTP_ADDR'') (\<lambda>http.
     fatal_or (mustEnv env ''GRPC_ADDR'') (\<lambda>grpc.
     fatal_or (mustEnv env ''OBS_HTTP_ADDR'') (\<lambda>obs.
     fatal_or (mustEnv env ''SERVICE_NAME'') (\<lambda>name.
     fatal_or (mustEnv env ''JWT_SECRET'') (\<lambda>secret.
     fatal_or (auth_getEnvInt env ''ACCESS_TTL_MIN'' 60) (\<lambda>access.
     fatal_or (auth_getEnvInt env ''REFRESH_TTL_HOURS'' 24) (\<lambda>refresh.
     fatal_or (auth_getEnvInt env ''LOGIN_RATE_LIMIT'' 10) (\<lambda>login.
     fatal_or (auth_getEnvInt env ''REFRESH_RATE_LIMIT'' 20) (\<lambda>rr.
       Inr \<lparr>ac_DatabaseURL = db, ac_RedisAddr = redis, ac_KafkaBrokers = getEnvSlice env ''KAFKA_BROKERS'' [],
            ac_HTTPAddr = fixPort http, ac_GRPCAddr = fixPort grpc, ac_ObsHTTPAddr = fixPort obs,
            ac_ServiceName = name, ac_LogLevel = getEnv env ''LOG_LEVEL'' ''info'', ac_JWTSecret = secret,
            ac_JWTIssuer = getEnv env ''JWT_ISSUER'' ''realchat-auth'',
            ac_JWTAudience = getEnv env ''JWT_AUDIENCE'' ''realchat-clients'',
            ac_AccessTokenTTL = duration access Minute, ac_RefreshTokenTTL = duration refresh Hour,
            ac_LoginRateLimitPerMin = login, ac_RefreshRateLimitPerMin = rr,
            ac_MetricsEnabled = auth_getEnvBool env ''METRICS_ENABLED'' False,
            ac_TracingEnabled = auth_getEnvBool env ''TRACING_ENABLED'' False,
            ac_JaegerURL = getEnv env ''JAEGER_URL'' jaeger\<rparr>)))))))))))"

text \<open>What the service takes from it; \<open>exp\<close> of a token is cut to seconds.\<close>

definition auth_cfg_of :: "auth_config \<Rightarrow> auth_cfg" where
  "auth_cfg_of c = \<lparr>cf_JWTSecret = ac_JWTSecret c, cf_JWTIssuer = ac_JWTIssuer c, cf_JWTAudience = ac_JWTAudience c,
     cf_AccessTokenTTL = ac_AccessTokenTTL c div 1000000000, cf_RefreshTokenTTL = ac_RefreshTokenTTL c div 1000000000\<rparr>"

section \<open>Gateway\<close>

record gw_config =
  gc_Port :: string
  gc_JWTSecret :: string
  gc_AuthGRPCAddr :: string
  gc_ProfileGRPCAddr :: string
  gc_MessagingGRPCAddr :: string
  gc_ConversationGRPCAddr :: string
  gc_PresenceGRPCAddr :: string
  gc_ServiceName :: string
  gc_JWTIssuer :: string
  gc_JWTAudience :: string
  gc_MetricsEnabled :: bool
  gc_TracingEnabled :: bool
  gc_JaegerURL :: string
  gc_ObsHTTPAddr :: string
  gc_RateLimitRequests :: int
  gc_RateLimitWindow :: string

definition gw_Load :: "environment \<Rightarrow> config_err + gw_config" where
  "gw_Load env =
     fatal_or (mustEnv env ''PORT'') (\<lambda>port.
     fatal_or (mustEnv env ''JWT_SECRET'') (\<lambda>secret.
     fatal_or (mustEnv env ''AUTH_GRPC_ADDR'') (\<lambda>auth.
     fatal_or (mustEnv env ''PROFILE_GRPC_ADDR'') (\<lambda>prof.
     fatal_or (mustEnv env ''MSG_GRPC_ADDR'') (\<lambda>msg.
     fatal_or (mustEnv env ''CONV_GRPC_ADDR'') (\<lambda>conv.
     fatal_or (mustEnv env ''PRESENCE_GRPC_ADDR'') (\<lambda>pres.
     fatal_or (mustEnv env ''SERVICE_NAME'') (\<lambda>name.
     fatal_or (mustEnv env ''HTTP_ADDR'') (\<lambda>obs.
       Inr \<lparr>gc_Port = port, gc_JWTSecret = secret, gc_AuthGRPCAddr = auth, gc_ProfileGRPCAddr = prof,
            gc_MessagingGRPCAddr = msg, gc_ConversationGRPCAddr = conv, gc_PresenceGRPCAddr = pres,
            gc_ServiceName = name, gc_JWTIssuer = getEnv env ''JWT_ISSUER'' ''realchat-auth'',
            gc_JWTAudience = getEnv env ''JWT_AUDIENCE'' ''realchat-clients'',
            gc_MetricsEnabled = getEnvBool env ''METRICS_ENABLED'' False,
            gc_TracingEnabled = getEnvBool env ''TRACING_ENABLED'' False,
            gc_JaegerURL = getEnv env ''JAEGER_URL'' jaeger, gc_ObsHTTPAddr = fixPort obs,
            gc_RateLimitRequests = gw_getEnvInt env ''RATE_LIMIT_REQUESTS'' 100,
            gc_RateLimitWindow = getEnv env ''RATE_LIMIT_WINDOW'' ''1m''\<rparr>)))))))))"

text \<open>\<^verbatim>\<open>router.NewRouter\<close> gives the token check these three fields.\<close>

definition configured :: "gw_config \<Rightarrow> 'w gateway \<Rightarrow> 'w gateway" where
  "configured c gw = gw\<lparr>gw_secret := gc_JWTSecret c, gw_issuer := gc_JWTIssuer c, gw_audience := gc_JWTAudience c\<rparr>"

section \<open>Conversation and message services\<close>





section \<open>Delivery, presence and profile services\<close>







section \<open>What is required\<close>










text \<open>Times of life that fit into 64 bits of nanoseconds.\<close>

lemma duration_exact:
  assumes "- (2 ^ 63) \<le> n * unit" and "n * unit < 2 ^ 63"
  shows "duration n unit = n * unit"
proof -
  have "duration n unit = sint (word_of_int (n * unit) :: 64 word)" by (simp only: duration_def wi_hom_mult)
  also have "\<dots> = n * unit" using assms by (simp add: int_word_sint del: of_int_mult)
  finally show ?thesis .
qed

lemma minutes_exact: "\<bar>n\<bar> \<le> 153722867 \<Longrightarrow> duration n Minute = n * Minute"
  by (rule duration_exact) simp_all

section \<open>What is loaded\<close>

lemma fatal_or_InrD: "fatal_or r f = Inr c \<Longrightarrow> \<exists>v. r = Inr v \<and> f v = Inr c"
  by (cases r) (simp_all add: fatal_or_def)

lemma mustEnv_InrD: "mustEnv env k = Inr v \<Longrightarrow> v = Getenv env k"
  by (simp add: mustEnv_def split: if_splits)

lemma auth_Load_InrD:
  assumes "auth_Load env = Inr c"
  shows "ac_JWTSecret c = Getenv env ''JWT_SECRET''" "ac_JWTIssuer c = getEnv env ''JWT_ISSUER'' ''realchat-auth''"
    "ac_JWTAudience c = getEnv env ''JWT_AUDIENCE'' ''realchat-clients''"
    "\<exists>n. auth_getEnvInt env ''ACCESS_TTL_MIN'' 60 = Inr n \<and> ac_AccessTokenTTL c = duration n Minute"
  using assms unfolding auth_Load_def by (auto dest!: fatal_or_InrD mustEnv_InrD)

lemma gw_Load_InrD:
  assumes "gw_Load env = Inr c"
  shows "gc_JWTSecret c = Getenv env ''JWT_SECRET''" "gc_JWTIssuer c = getEnv env ''JWT_ISSUER'' ''realchat-auth''"
    "gc_JWTAudience c = getEnv env ''JWT_AUDIENCE'' ''realchat-clients''"
  using assms unfolding gw_Load_def by (auto dest!: fatal_or_InrD mustEnv_InrD)

lemma loaded_tokens:
  assumes "auth_Load env = Inr ac" and "gw_Load env' = Inr gc"
    and "\<forall>k \<in> {''JWT_SECRET'', ''JWT_ISSUER'', ''JWT_AUDIENCE''}. Getenv env' k = Getenv env k"
  shows "gc_JWTSecret gc = ac_JWTSecret ac" "gc_JWTIssuer gc = ac_JWTIssuer ac" "gc_JWTAudience gc = ac_JWTAudience ac"
  using assms(3) by (simp_all add: auth_Load_InrD [OF assms(1)] gw_Load_InrD [OF assms(2)] getEnv_def)

lemma loaded_lifetime:
  assumes "auth_Load env = Inr ac" and "auth_getEnvInt env ''ACCESS_TTL_MIN'' 60 = Inr n" and "\<bar>n\<bar> \<le> 153722867"
  shows "ac_AccessTokenTTL ac div 1000000000 = n * 60"
  using auth_Load_InrD(4) [OF assms(1)] assms(2) by (auto simp: minutes_exact [OF assms(3)])

section \<open>Starting\<close>


text \<open>
  The delivery service spoils an address with a host, which the others leave as it is. A life time of
  more than 153722867 minutes wraps around: its tokens have expired before they are issued.
\<close>

lemma fixPort_differs:
  "fixPort ''localhost:8080'' = ''localhost:8080''" "deliv_fixPort ''localhost:8080'' = '':localhost:8080''"
  by code_simp+

lemma lifetime_wraps: "duration 153722868 Minute < 0"
  by (simp add: duration_def)

end
