(* ===== verification/GwProps.thy ===== *)
theory GwProps
  imports GwDemo Posting Config
begin

text \<open>
  The properties of the gateway and of the stack of services behind it.
\<close>

section \<open>Who a request acts for\<close>




text \<open>C1: Through the whole stack, the members of an existing conversation change only by the token of an admin. If a
  request through the gateway, whatever it asks for, leaves another list of participants or roles, then its token
  was accepted and the subject of the token was an admin of that conversation, which is a group.\<close>

theorem only_admin_tokens_change_members:
  assumes "conv_run (wi_conv wi) wk p (empty_conv_db, w0) tr (bk_db w, bk_world w)"
    and "NewRouter (stack_gateway wi) allowed now reqHeader authHeader req w = (a, w')"
    and "i \<in> r_id ` set (conversations (bk_db w))"
    and "scan_participants i (bk_db w') \<noteq> scan_participants i (bk_db w)"
  shows "\<exists>u. gw_JWT (stack_gateway wi) now authHeader = Authorized u \<and> group_admin (bk_db w) i u"
  using st.request_members [OF conv_reach_inv [OF assms(1)] assms(3,2,4)] .

lemma demo_stack_reached:
  "\<exists>tr. conv_run (wi_conv demo_wiring) demo_worker demo_producer (empty_conv_db, []) tr
     (bk_db demo_stack_start, bk_world demo_stack_start)"
proof -
  let ?st = "run_calls demo_deps demo_worker demo_producer (take 2 demo_calls) (empty_conv_db, [])"
  have log: "snd (snd ?st) = []" by code_simp
  have "conv_run demo_deps demo_worker demo_producer (empty_conv_db, []) (fst ?st) (snd ?st)"
    by (rule run_calls_run) simp
  then have "conv_run demo_deps demo_worker demo_producer (empty_conv_db, []) (fst ?st) (fst (snd ?st), [])"
    using log by (metis prod.collapse)
  then show ?thesis by (auto simp: demo_wiring_def demo_stack_start_def demo_before_add_def)
qed

theorem only_admin_tokens_change_members_witness:
  "group_admin (bk_db demo_stack_start) ''g'' ''ann''
    \<and> scan_participants ''g'' (bk_db (snd (demo_request ''ann'' (ReqAddParticipant (Inr (''g'', ''cid''))))))
        \<noteq> scan_participants ''g'' (bk_db demo_stack_start)"
proof -
  let ?req = "ReqAddParticipant (Inr (''g'', ''cid''))"
  let ?w = "snd (demo_request ''ann'' ?req)"
  have run: "NewRouter demo_gateway True 5 ''r1'' (demo_bearer ''ann'') ?req demo_stack_start = (fst (demo_request ''ann'' ?req), ?w)"
    by (simp add: demo_request_def)
  obtain tr where reach: "conv_run (wi_conv demo_wiring) demo_worker demo_producer (empty_conv_db, []) tr
     (bk_db demo_stack_start, bk_world demo_stack_start)" using demo_stack_reached by blast
  have "map r_id (conversations (bk_db demo_stack_start)) = [''g'', ''d'']" by code_simp
  then have i: "''g'' \<in> r_id ` set (conversations (bk_db demo_stack_start))" by (metis list.set_intros(1) list.set_map)
  have "map fst (scan_participants ''g'' (bk_db ?w)) = [''ann'', ''bob'', ''cid'']"
    "map fst (scan_participants ''g'' (bk_db demo_stack_start)) = [''ann'', ''bob'']" by code_simp+
  then have ch: "scan_participants ''g'' (bk_db ?w) \<noteq> scan_participants ''g'' (bk_db demo_stack_start)" by auto
  have jwt: "gw_JWT demo_gateway 5 (demo_bearer ''ann'') = Authorized ''ann''" by code_simp
  from only_admin_tokens_change_members [OF reach run i ch] jwt ch show ?thesis by simp
qed




section \<open>Participants\<close>

text \<open>The list and the map of those seen hold the same names, each once.\<close>

definition parts_ok :: "string list \<times> (string \<times> unit) list \<Rightarrow> string list \<Rightarrow> bool" where
  "parts_ok st ts \<longleftrightarrow> distinct (fst st) \<and> fst ` set (snd st) = set (fst st) \<and> set (fst st) = set ts"

lemma add_part_ok:
  assumes "parts_ok st ts"
  shows "parts_ok (add_part part st) (ts @ filter (\<lambda>t. t \<noteq> []) [strings_TrimSpace part])"
proof -
  obtain ps seen where st: "st = (ps, seen)" by fastforce
  let ?t = "strings_TrimSpace part"
  have seen: "map_of seen ?t = None \<longleftrightarrow> ?t \<notin> set ps" using assms by (simp add: parts_ok_def st map_of_eq_None_iff)
  have keys: "fst ` set (map_put ?t () seen) = insert ?t (fst ` set seen)" using keys_map_put [of ?t "()" seen] by auto
  show ?thesis
  proof (cases "?t = []")
    case True
    with assms show ?thesis by (simp add: add_part_def st parts_ok_def)
  next
    case False
    then show ?thesis using assms seen keys
      by (cases "map_of seen ?t") (auto simp: add_part_def st parts_ok_def Let_def keys)
  qed
qed

lemma add_parts_ok:
  "parts_ok st ts \<Longrightarrow> parts_ok (fold add_part parts st) (ts @ filter (\<lambda>t. t \<noteq> []) (map strings_TrimSpace parts))"
proof (induction parts arbitrary: st ts)
  case (Cons part parts)
  from Cons.IH [OF add_part_ok [OF Cons.prems, of part]] show ?case by (simp split: if_splits)
qed simp

lemma normalize_ok:
  "parts_ok st ts \<Longrightarrow> parts_ok (fold (\<lambda>p. fold add_part (strings_Split (CHR '','') p)) ps st)
     (ts @ filter (\<lambda>t. t \<noteq> []) (map strings_TrimSpace (concat (map (strings_Split (CHR '','')) ps))))"
proof (induction ps arbitrary: st ts)
  case (Cons p ps)
  from Cons.IH [OF add_parts_ok [OF Cons.prems, of "strings_Split (CHR '','') p"]] show ?case by simp
qed simp

text \<open>The participants of a new conversation are the user of the token, first, and the names that the request lists,
  separated by commas and trimmed: each of them once, and no empty one.\<close>

theorem participants_normalised:
  "(\<exists>rest. normalize_participants userID ps = userID # rest) \<and> distinct (normalize_participants userID ps)
    \<and> set (normalize_participants userID ps)
       = insert userID ({strings_TrimSpace part | part. \<exists>p \<in> set ps. part \<in> set (strings_Split (CHR '','') p)} - {[]})"
proof -
  have "parts_ok ([userID], map_put userID () []) [userID]" by (simp add: parts_ok_def)
  from normalize_ok [OF this, of ps] show ?thesis
    using normalize_participants_hd [of userID ps] by (auto simp: normalize_participants_def parts_ok_def)
qed

section \<open>Tokens\<close>















end
