(* ===== verification/Cluster.thy ===== *)
theory Cluster
  imports DelivPresence WsHandler
begin

text \<open>
  All instances of the delivery service together: the loops around the handlers
  (\<^verbatim>\<open>internal/kafka/consumer.go\<close>, \<^verbatim>\<open>Router.Subscribe\<close> in \<^verbatim>\<open>internal/router/pubsub.go\<close>, \<^verbatim>\<open>Watcher.Start\<close> in
  \<^verbatim>\<open>internal/presencewatcher/watcher.go\<close>) on one Redis. The consumer starts a goroutine for each record it
  fetched: \<open>cl_todo\<close> holds the ones that have not run, which may run in any order. Every instance reads its
  own channel, and the one of the presence updates, in the order of publication; \<open>cl_read\<close> and \<open>cl_watch\<close>
  say how far its two subscriptions have come. A handler runs as one step.
\<close>

record 'b cluster =
  cl_at :: "string \<Rightarrow> 'b delivery"
  cl_todo :: "(string \<times> 'b) list"
  cl_read :: "string \<Rightarrow> nat"
  cl_watch :: "string \<Rightarrow> nat"
  cl_redis :: "'b redis"

section \<open>The loops\<close>

datatype fetch_error = FetchCanceled | FetchErr string

text \<open>
  One turn of the loop of the consumer, with the errors and the records of the poll; the answer is
  whether the loop goes on. A poll with an error is skipped, with the records it brought.
\<close>

definition Consumer_poll :: "string \<Rightarrow> fetch_error list \<Rightarrow> 'b list \<Rightarrow> 'b cluster \<Rightarrow> bool \<times> 'b cluster" where
  "Consumer_poll i errs records cl =
     (if errs \<noteq> [] then (FetchCanceled \<notin> set errs, cl)
      else (True, cl\<lparr>cl_todo := cl_todo cl @ map (Pair i) records\<rparr>))"

text \<open>The goroutine of one record.\<close>

definition Consumer_handle ::
  "(string \<Rightarrow> ('b redis, 'b) disp_deps) \<Rightarrow> nat \<Rightarrow> 'b cluster \<Rightarrow> 'b cluster" where
  "Consumer_handle dds k cl =
     (case cl_todo cl ! k of (i, record) \<Rightarrow>
       (case Handle (dds i) record (cl_at cl i, cl_redis cl) of (d, r) \<Rightarrow>
         cl\<lparr>cl_at := (cl_at cl)(i := d), cl_redis := r, cl_todo := take k (cl_todo cl) @ drop (Suc k) (cl_todo cl)\<rparr>))"

definition next_published :: "nat \<Rightarrow> 'b redis \<Rightarrow> (string \<times> 'b) option" where
  "next_published n r = (if n < length (rd_published r) then Some (rd_published r ! n) else None)"

text \<open>The next message of the channel of the instance goes to \<open>DeliverRemote\<close>, the handler that \<^verbatim>\<open>main.go\<close> passes.\<close>

definition Router_Subscribe :: "(string \<Rightarrow> ('b redis, 'b) disp_deps) \<Rightarrow> string \<Rightarrow> 'b cluster \<Rightarrow> 'b cluster" where
  "Router_Subscribe dds i cl =
     (case next_published (cl_read cl i) (cl_redis cl) of
        None \<Rightarrow> cl
      | Some (ch, payload) \<Rightarrow>
          let cl1 = cl\<lparr>cl_read := (cl_read cl)(i := cl_read cl i + 1)\<rparr> in
          if ch = channel (dd_instanceID (dds i))
          then (case DeliverRemote (dds i) payload (cl_at cl i, cl_redis cl) of (d, r) \<Rightarrow>
                  cl1\<lparr>cl_at := (cl_at cl)(i := d), cl_redis := r\<rparr>)
          else cl1)"

definition PresenceUpdateChannel :: string where
  "PresenceUpdateChannel = ''presence:updates''"

definition Watcher_Start :: "'b codec \<Rightarrow> string \<Rightarrow> 'b cluster \<Rightarrow> 'b cluster" where
  "Watcher_Start cd i cl =
     (case next_published (cl_watch cl i) (cl_redis cl) of
        None \<Rightarrow> cl
      | Some (ch, payload) \<Rightarrow>
          let cl1 = cl\<lparr>cl_watch := (cl_watch cl)(i := cl_watch cl i + 1)\<rparr> in
          if ch \<noteq> PresenceUpdateChannel then cl1
          else (case dec_presence cd payload of
                  Inl _ \<Rightarrow> cl1
                | Inr (userID, status, occurredAt) \<Rightarrow>
                    cl1\<lparr>cl_at := (cl_at cl)(i := handlePresenceUpdate cd userID status occurredAt (cl_at cl i))\<rparr>))"

section \<open>Runs\<close>

text \<open>The records that were handed to goroutines are the label of a run.\<close>

inductive cluster_run ::
  "(string \<Rightarrow> ('b redis, 'b) disp_deps) \<Rightarrow> 'b codec \<Rightarrow> string set \<Rightarrow> 'b cluster \<Rightarrow> 'b list \<Rightarrow> 'b cluster \<Rightarrow> bool"
  for dds :: "string \<Rightarrow> ('b redis, 'b) disp_deps" and cd :: "'b codec" and ids :: "string set" where
  cluster_start: "cluster_run dds cd ids cl [] cl"
| cluster_poll: "cluster_run dds cd ids cl rs cl1 \<Longrightarrow> i \<in> ids \<Longrightarrow> Consumer_poll i errs records cl1 = (go, cl2)
    \<Longrightarrow> cluster_run dds cd ids cl (rs @ (if errs = [] then records else [])) cl2"
| cluster_handle: "cluster_run dds cd ids cl rs cl1 \<Longrightarrow> k < length (cl_todo cl1)
    \<Longrightarrow> cluster_run dds cd ids cl rs (Consumer_handle dds k cl1)"
| cluster_relay: "cluster_run dds cd ids cl rs cl1 \<Longrightarrow> i \<in> ids \<Longrightarrow> cluster_run dds cd ids cl rs (Router_Subscribe dds i cl1)"
| cluster_watch: "cluster_run dds cd ids cl rs cl1 \<Longrightarrow> i \<in> ids \<Longrightarrow> cluster_run dds cd ids cl rs (Watcher_Start cd i cl1)"

text \<open>Nothing is left to do: all goroutines have run and all relayed events are read.\<close>

definition settled :: "string set \<Rightarrow> 'b cluster \<Rightarrow> bool" where
  "settled ids cl \<longleftrightarrow> cl_todo cl = [] \<and> (\<forall>i \<in> ids. cl_read cl i = length (rd_published (cl_redis cl)))"

section \<open>What a record does to an instance\<close>

text \<open>For whom a record is, when the conversation service answers \<open>convs\<close>, and what it does to a session.\<close>

definition meant_for :: "'b codec \<Rightarrow> (string \<Rightarrow> string + string list) \<Rightarrow> string \<Rightarrow> 'b \<Rightarrow> bool" where
  "meant_for cd convs u record =
     (case dec_env cd record of
        Inl _ \<Rightarrow> False
      | Inr env \<Rightarrow>
          (case getConversationID cd env of
             Inl _ \<Rightarrow> False
           | Inr c \<Rightarrow> (case convs c of Inl _ \<Rightarrow> False | Inr us \<Rightarrow> u \<in> set us)))"

definition offer_record :: "'b codec \<Rightarrow> 'b \<Rightarrow> 'b Session \<Rightarrow> 'b Session" where
  "offer_record cd record s = (case dec_env cd record of Inl _ \<Rightarrow> s | Inr env \<Rightarrow> offer env record s)"

definition plain_record :: "'b codec \<Rightarrow> 'b \<Rightarrow> bool" where
  "plain_record cd record = (case dec_env cd record of Inl _ \<Rightarrow> True | Inr env \<Rightarrow> plain_event (EventType env))"

text \<open>The cached members are the members.\<close>

definition cache_agrees :: "(string \<Rightarrow> string + string list) \<Rightarrow> Cache \<Rightarrow> bool" where
  "cache_agrees convs m \<longleftrightarrow>
     (\<forall>c. Cache_Members c m \<noteq> [] \<longrightarrow>
        distinct (Cache_Members c m) \<and> (\<exists>us. convs c = Inr us \<and> set (Cache_Members c m) = set us))"

definition delivered ::
  "'b codec \<Rightarrow> (string \<Rightarrow> string + string list) \<Rightarrow> 'b \<Rightarrow> 'b delivery \<Rightarrow> 'b delivery \<Rightarrow> bool" where
  "delivered cd convs record d d' \<longleftrightarrow>
     dv_reg d' = dv_reg d \<and> reg_ok d' \<and> cache_agrees convs (dv_members d')
     \<and> (\<forall>sid. map_of (dv_heap d') sid =
          (if \<exists>u dev. meant_for cd convs u record \<and> lookup_session u dev d = Some sid
           then map_option (offer_record cd record) (map_of (dv_heap d) sid) else map_of (dv_heap d) sid))"

text \<open>A steady cluster: the presence service knows exactly the registered devices.\<close>

definition steady ::
  "string set \<Rightarrow> (string \<Rightarrow> string + string list) \<Rightarrow> (string \<Rightarrow> (string \<times> string) list) \<Rightarrow> 'b cluster \<Rightarrow> bool" where
  "steady ids convs devs cl \<longleftrightarrow>
     (\<forall>i \<in> ids. reg_ok (cl_at cl i) \<and> cache_agrees convs (dv_members (cl_at cl i))
        \<and> (\<forall>u dev. (dev, i) \<in> set (devs u) \<longleftrightarrow> lookup_session u dev (cl_at cl i) \<noteq> None))"

end
