(* ===== verification/ClusterInv.thy ===== *)
theory ClusterInv
  imports Cluster
begin

text \<open>
  Each record does to an instance what \<open>delivered\<close> says, whether the instance read it from the log or
  got it relayed; and the account that a run keeps: what every session was offered, and what is still on
  its way to it.
\<close>

section \<open>One record\<close>

lemma redis_deps_fields [simp]:
  "dd_instanceID (redis_deps cd now i convs) = i" "dd_codec (redis_deps cd now i convs) = cd"
  by (simp_all add: redis_deps_def)

text \<open>The members, from the cache or from the conversation service; Redis is not asked.\<close>

lemma resolveMembers_convs:
  assumes "cache_agrees convs (dv_members d)" and "\<forall>c us. convs c = Inr us \<longrightarrow> distinct us"
  shows "(\<exists>err. convs c = Inl err \<and> resolveMembers (redis_deps cd now i convs) c (d, r) = (Inl err, (d, r)))
    \<or> (\<exists>us ms m'. convs c = Inr us \<and> set ms = set us \<and> distinct ms \<and> cache_agrees convs m'
         \<and> resolveMembers (redis_deps cd now i convs) c (d, r) = (Inr ms, (d\<lparr>dv_members := m'\<rparr>, r)))"
proof (cases "Cache_Members c (dv_members d) = []")
  case False
  with assms(1) obtain us where "convs c = Inr us" "set (Cache_Members c (dv_members d)) = set us"
    "distinct (Cache_Members c (dv_members d))" unfolding cache_agrees_def by blast
  moreover have "resolveMembers (redis_deps cd now i convs) c (d, r)
      = (Inr (Cache_Members c (dv_members d)), (d\<lparr>dv_members := dv_members d\<rparr>, r))"
    using False by (simp add: resolveMembers_def)
  ultimately show ?thesis using assms(1) by blast
next
  case True
  show ?thesis
  proof (cases "convs c")
    case (Inr us)
    with assms have "distinct us" "cache_agrees convs (Cache_SetMembers c us (dv_members d))"
      by (auto simp: cache_agrees_def)
    with Inr True show ?thesis by (simp add: resolveMembers_def redis_deps_def) blast
  qed (use True in \<open>simp add: resolveMembers_def redis_deps_def\<close>)
qed

lemma delivered_nothing:
  assumes "reg_ok d" and "cache_agrees convs (dv_members d)" and "\<And>u. \<not> meant_for cd convs u rec"
  shows "delivered cd convs rec d d"
  using assms by (simp add: delivered_def)

text \<open>From an update of the sessions of the members.\<close>

lemma delivered_upd:
  assumes upd: "sessions_upd (user_sessions ms d) (offer env rec) (d\<lparr>dv_members := m'\<rparr>) d'" and ok: "reg_ok d"
    and "cache_agrees convs m'" and "dec_env cd rec = Inr env" and "getConversationID cd env = Inr c"
    and "convs c = Inr us" and "set ms = set us"
  shows "delivered cd convs rec d d'"
proof -
  have "reg_ok (d\<lparr>dv_members := m'\<rparr>)" using ok by (simp add: same_registry(2) [of "d\<lparr>dv_members := m'\<rparr>" d])
  from sessions_upd_reg_ok [OF upd offer_keeps_device this] have "reg_ok d'" .
  moreover have "meant_for cd convs u rec \<longleftrightarrow> u \<in> set us" for u using assms(4-6) by (simp add: meant_for_def)
  then have "(\<exists>u dev. meant_for cd convs u rec \<and> lookup_session u dev d = Some sid) \<longleftrightarrow> sid \<in> user_sessions ms d" for sid
    using assms(7) by (auto simp: user_sessions_def)
  moreover have "offer_record cd rec = offer env rec" using assms(4) by (auto simp: offer_record_def)
  ultimately show ?thesis using upd assms(3) by (simp add: delivered_def sessions_upd_def)
qed

lemma DeliverRemote_delivered:
  assumes ok: "reg_ok d" and agrees: "cache_agrees convs (dv_members d)" and dist: "\<forall>c us. convs c = Inr us \<longrightarrow> distinct us"
  shows "\<exists>d'. DeliverRemote (redis_deps cd now i convs) rec (d, r) = (d', r) \<and> delivered cd convs rec d d'"
proof -
  let ?dd = "redis_deps cd now i convs"
  note none = delivered_nothing [OF ok agrees, of cd rec]
  show ?thesis
  proof (cases "dec_env cd rec")
    case (Inl e)
    then show ?thesis using none by (simp add: DeliverRemote_def meant_for_def)
  next
    case env: (Inr env)
    show ?thesis
    proof (cases "getConversationID cd env")
      case (Inl e)
      then show ?thesis using none env by (simp add: DeliverRemote_def meant_for_def)
    next
      case c: (Inr c)
      from resolveMembers_convs [OF agrees dist, of c cd now i r] show ?thesis
      proof (elim disjE exE conjE)
        fix err assume "convs c = Inl err" "resolveMembers ?dd c (d, r) = (Inl err, (d, r))"
        then show ?thesis using none env c by (simp add: DeliverRemote_def meant_for_def)
      next
        fix us ms m' assume ms: "convs c = Inr us" "set ms = set us" "distinct ms" "cache_agrees convs m'"
          "resolveMembers ?dd c (d, r) = (Inr ms, (d\<lparr>dv_members := m'\<rparr>, r))"
        from DeliverRemote_sessions [OF ok _ _ ms(5,3), of rec env] env c obtain d' where
          "DeliverRemote ?dd rec (d, r) = (d', r)" "sessions_upd (user_sessions ms d) (offer env rec) (d\<lparr>dv_members := m'\<rparr>) d'"
          by auto
        with delivered_upd [OF _ ok ms(4) env c ms(1,2)] show ?thesis by blast
      qed
    qed
  qed
qed

text \<open>With a steady presence, the known devices on an instance are its sessions.\<close>

lemma member_sessions_steady:
  assumes "\<forall>u dev. (dev, i) \<in> set (devs u) \<longleftrightarrow> lookup_session u dev d \<noteq> None"
  shows "member_sessions i devs ms d = user_sessions ms d"
  using assms by (auto simp: member_sessions_def user_sessions_def device_sessions_def local_devices_def)

definition relayed ::
  "'b codec \<Rightarrow> (string \<Rightarrow> string + string list) \<Rightarrow> (string \<Rightarrow> (string \<times> string) list) \<Rightarrow> string \<Rightarrow> 'b \<Rightarrow> string list \<Rightarrow> bool" where
  "relayed cd convs devs i rec remote \<longleftrightarrow>
     distinct remote \<and> set remote = {j. j \<noteq> i \<and> (\<exists>u. meant_for cd convs u rec \<and> (\<exists>dev. (dev, j) \<in> set (devs u)))}"

lemma member_instances_iff: "member_instances i devs ms = {j. j \<noteq> i \<and> (\<exists>u \<in> set ms. \<exists>dev. (dev, j) \<in> set (devs u))}"
proof -
  have "snd ` A = {j. \<exists>dev. (dev, j) \<in> A}" for A :: "(string \<times> string) set" by force
  then show ?thesis unfolding member_instances_def other_instances_def by auto
qed

lemma relayed_nothing: "(\<And>u. \<not> meant_for cd convs u rec) \<Longrightarrow> relayed cd convs devs i rec []"
  by (simp add: relayed_def)

lemma Handle_delivered:
  fixes r :: "'b redis"
  assumes calm: "redis_calm now devs r" and ok: "reg_ok d" and agrees: "cache_agrees convs (dv_members d)"
    and dist: "\<forall>c us. convs c = Inr us \<longrightarrow> distinct us"
    and known: "\<forall>u dev. (dev, i) \<in> set (devs u) \<longleftrightarrow> lookup_session u dev d \<noteq> None" and plain: "plain_record cd rec"
  shows "\<exists>d' r' remote. Handle (redis_deps cd now i convs) rec (d, r) = (d', r') \<and> delivered cd convs rec d d'
    \<and> redis_calm now devs r' \<and> rd_published r' = rd_published r @ map (\<lambda>j. (channel j, rec)) remote
    \<and> relayed cd convs devs i rec remote"
proof -
  let ?dd = "redis_deps cd now i convs"
  have none: ?thesis if "\<And>u. \<not> meant_for cd convs u rec" and "Handle ?dd rec (d, r) = (d, r)"
    using delivered_nothing [OF ok agrees that(1)] relayed_nothing [OF that(1)] calm that(2)
    by (metis append_Nil2 list.simps(8))
  show ?thesis
  proof (cases "dec_env cd rec")
    case (Inl e)
    then show ?thesis by (intro none) (simp_all add: Handle_def meant_for_def)
  next
    case env: (Inr env)
    with plain have pl: "plain_event (EventType env)" by (simp add: plain_record_def)
    have run: "Handle ?dd rec (d, r) = handleEvent ?dd env rec (d, r)" "EventType env \<noteq> EVENT_TYPE_CONVERSATION_CREATED"
      "EventType env \<noteq> EVENT_TYPE_MEMBERSHIP_CHANGED"
      using pl by (cases rule: plain_event_cases; simp add: Handle_def env)+
    show ?thesis
    proof (cases "getConversationID cd env")
      case (Inl e)
      then show ?thesis by (intro none) (simp_all add: meant_for_def env run handleEvent_def)
    next
      case c: (Inr c)
      from resolveMembers_convs [OF agrees dist, of c cd now i r] show ?thesis
      proof (elim disjE exE conjE)
        fix err assume "convs c = Inl err" "resolveMembers ?dd c (d, r) = (Inl err, (d, r))"
        then show ?thesis by (intro none) (simp_all add: meant_for_def env c run handleEvent_def)
      next
        fix us ms m' assume ms: "convs c = Inr us" "set ms = set us" "distinct ms" "cache_agrees convs m'"
          "resolveMembers ?dd c (d, r) = (Inr ms, (d\<lparr>dv_members := m'\<rparr>, r))"
        from rp.Handle_plain [OF calm ok _ pl _ ms(5,3), of rec] env c obtain d' r' remote where
            h: "Handle ?dd rec (d, r) = (d', r')"
          and upd: "sessions_upd (member_sessions i devs ms d) (offer env rec) (d\<lparr>dv_members := m'\<rparr>) d'"
          and rem: "distinct remote" "set remote = member_instances i devs ms"
            "rd_published r' = rd_published r @ map (\<lambda>j. (channel j, rec)) remote" "redis_calm now devs r'" by auto
        have "delivered cd convs rec d d'"
          by (rule delivered_upd [OF upd [unfolded member_sessions_steady [OF known]] ok ms(4) env c ms(1,2)])
        moreover have "relayed cd convs devs i rec remote"
          using rem(1,2) ms(1,2) env c
          by (simp add: relayed_def meant_for_def member_instances_iff Bex_def)
        ultimately show ?thesis using h rem(3,4) by blast
      qed
    qed
  qed
qed

section \<open>The account\<close>

lemma channel_inject [simp]: "channel i = channel j \<longleftrightarrow> i = j"
  by (simp add: channel_def)

lemma channel_presence [simp]: "channel i \<noteq> PresenceUpdateChannel"
  by (simp add: channel_def PresenceUpdateChannel_def)

text \<open>What was read from the log, or relayed, but did not reach the user's sessions on an instance yet.\<close>

definition relays :: "string \<Rightarrow> 'b cluster \<Rightarrow> 'b list" where
  "relays i cl = map snd (filter (\<lambda>m. fst m = channel i) (drop (cl_read cl i) (rd_published (cl_redis cl))))"

definition on_way :: "('b \<Rightarrow> bool) \<Rightarrow> string \<Rightarrow> 'b cluster \<Rightarrow> 'b multiset" where
  "on_way P i cl = filter_mset P (mset (map snd (cl_todo cl)) + mset (relays i cl))"

definition registered :: "string \<Rightarrow> 'b Session \<Rightarrow> 'b delivery \<Rightarrow> bool" where
  "registered sid s d \<longleftrightarrow> lookup_session (ss_UserID s) (ss_DeviceID s) d = Some sid"

text \<open>The events a session was offered, together with those on the way to it, are those meant for its user.\<close>

definition accounted ::
  "'b codec \<Rightarrow> (string \<Rightarrow> string + string list) \<Rightarrow> string \<Rightarrow> 'b list \<Rightarrow> 'b cluster \<Rightarrow> string \<Rightarrow> 'b Session \<Rightarrow> bool" where
  "accounted cd convs i rs cl sid s \<longleftrightarrow>
     (\<exists>es. map_of (dv_heap (cl_at cl i)) sid = Some (fold (offer_record cd) es s)
        \<and> (if registered sid s (cl_at cl i)
           then mset es + on_way (meant_for cd convs (ss_UserID s)) i cl = filter_mset (meant_for cd convs (ss_UserID s)) (mset rs)
           else es = []))"

lemma same_lookup: "dv_reg d' = dv_reg d \<Longrightarrow> lookup_session u dev d' = lookup_session u dev d"
  by (simp add: lookup_session_def reg_devices_def)

lemma same_registered:
  assumes "dv_reg d' = dv_reg d"
  shows "registered sid s d' = registered sid s d"
  unfolding registered_def same_lookup [OF assms] ..

lemma offer_fields [simp]:
  "ss_UserID (offer env payload s) = ss_UserID s" "ss_DeviceID (offer env payload s) = ss_DeviceID s"
  using offer_keeps_device [of env payload] by (simp_all add: keeps_device_def)

lemma offer_record_fields [simp]:
  "ss_UserID (offer_record cd rec s) = ss_UserID s" "ss_DeviceID (offer_record cd rec s) = ss_DeviceID s"
  by (simp_all add: offer_record_def split: sum.split)

lemma fold_offer_fields:
  "ss_UserID (fold (offer_record cd) es s) = ss_UserID s" "ss_DeviceID (fold (offer_record cd) es s) = ss_DeviceID s"
  by (induction es arbitrary: s) simp_all

text \<open>What a delivered record does to one session.\<close>

lemma delivered_registered:
  assumes "delivered cd convs rec d d'" and "reg_ok d" and "registered sid s d"
  shows "map_of (dv_heap d') sid = (if meant_for cd convs (ss_UserID s) rec
    then map_option (offer_record cd rec) (map_of (dv_heap d) sid) else map_of (dv_heap d) sid)"
proof -
  have "(\<exists>u dev. meant_for cd convs u rec \<and> lookup_session u dev d = Some sid) \<longleftrightarrow> meant_for cd convs (ss_UserID s) rec"
    using assms(3) lookup_inj [OF assms(2)] unfolding registered_def by metis
  with assms(1) show ?thesis by (simp add: delivered_def)
qed

lemma delivered_unregistered:
  assumes "delivered cd convs rec d d'" and "reg_ok d" and "map_of (dv_heap d) sid = Some (fold (offer_record cd) es s)"
    and "\<not> registered sid s d"
  shows "map_of (dv_heap d') sid = map_of (dv_heap d) sid"
proof -
  have "lookup_session u dev d \<noteq> Some sid" for u dev
  proof
    assume l: "lookup_session u dev d = Some sid"
    from reg_okD [OF assms(2) l] assms(3) have "ss_UserID s = u" "ss_DeviceID s = dev"
      by (metis fold_offer_fields option.inject)+
    with l assms(4) show False by (simp add: registered_def)
  qed
  with assms(1) show ?thesis by (simp add: delivered_def)
qed

lemma accounted_delivered:
  assumes acc: "accounted cd convs i rs cl sid s" and del: "delivered cd convs rec (cl_at cl i) (cl_at cl' i)"
    and ok: "reg_ok (cl_at cl i)"
    and way: "registered sid s (cl_at cl i) \<Longrightarrow> on_way (meant_for cd convs (ss_UserID s)) i cl
      = (if meant_for cd convs (ss_UserID s) rec then {#rec#} else {#}) + on_way (meant_for cd convs (ss_UserID s)) i cl'"
  shows "accounted cd convs i rs cl' sid s"
proof -
  from acc obtain es where es: "map_of (dv_heap (cl_at cl i)) sid = Some (fold (offer_record cd) es s)"
    "if registered sid s (cl_at cl i)
     then mset es + on_way (meant_for cd convs (ss_UserID s)) i cl = filter_mset (meant_for cd convs (ss_UserID s)) (mset rs)
     else es = []" unfolding accounted_def by blast
  from del have "dv_reg (cl_at cl' i) = dv_reg (cl_at cl i)" by (simp add: delivered_def)
  note reg = same_registered [OF this, of sid s]
  show ?thesis
  proof (cases "registered sid s (cl_at cl i)")
    case True
    let ?es = "if meant_for cd convs (ss_UserID s) rec then es @ [rec] else es"
    have "map_of (dv_heap (cl_at cl' i)) sid = Some (fold (offer_record cd) ?es s)"
      using delivered_registered [OF del ok True] es(1) by simp
    moreover have "mset ?es + on_way (meant_for cd convs (ss_UserID s)) i cl' = filter_mset (meant_for cd convs (ss_UserID s)) (mset rs)"
      using es(2) way [OF True] True by (simp add: ac_simps split: if_splits)
    ultimately show ?thesis unfolding accounted_def using True reg by (intro exI [of _ ?es]) simp
  next
    case False
    with es delivered_unregistered [OF del ok es(1) False] reg show ?thesis unfolding accounted_def by auto
  qed
qed

text \<open>A step that does not touch the instance.\<close>

lemma accounted_elsewhere:
  assumes "accounted cd convs i rs cl sid s" and "cl_at cl' i = cl_at cl i"
    and "registered sid s (cl_at cl i) \<Longrightarrow> mset rs' = mset rs + fresh
      \<and> on_way (meant_for cd convs (ss_UserID s)) i cl'
        = on_way (meant_for cd convs (ss_UserID s)) i cl + filter_mset (meant_for cd convs (ss_UserID s)) fresh"
  shows "accounted cd convs i rs' cl' sid s"
proof -
  from assms(1) obtain es where es: "map_of (dv_heap (cl_at cl i)) sid = Some (fold (offer_record cd) es s)"
    "if registered sid s (cl_at cl i)
     then mset es + on_way (meant_for cd convs (ss_UserID s)) i cl = filter_mset (meant_for cd convs (ss_UserID s)) (mset rs)
     else es = []" unfolding accounted_def by blast
  with assms(2,3) show ?thesis
    unfolding accounted_def by (intro exI [of _ es]) (simp add: add.assoc [symmetric] split: if_splits)
qed

end
