(* ===== verification/ClusterRun.thy ===== *)
theory ClusterRun
  imports ClusterInv
begin

text \<open>
  Every step of a steady cluster keeps the account of every session.
\<close>

abbreviation instances :: "'b codec \<Rightarrow> int \<Rightarrow> (string \<Rightarrow> string + string list) \<Rightarrow> string \<Rightarrow> ('b redis, 'b) disp_deps" where
  "instances cd now convs \<equiv> \<lambda>i. redis_deps cd now i convs"

definition cluster_ok ::
  "string set \<Rightarrow> 'b codec \<Rightarrow> (string \<Rightarrow> string + string list) \<Rightarrow> int \<Rightarrow> (string \<Rightarrow> (string \<times> string) list) \<Rightarrow> 'b cluster
    \<Rightarrow> 'b list \<Rightarrow> 'b cluster \<Rightarrow> bool" where
  "cluster_ok ids cd convs now devs cl0 rs cl \<longleftrightarrow>
     redis_calm now devs (cl_redis cl) \<and> steady ids convs devs cl
     \<and> (\<forall>p \<in> set (cl_todo cl). fst p \<in> ids \<and> plain_record cd (snd p))
     \<and> (\<forall>i \<in> ids. cl_read cl i \<le> length (rd_published (cl_redis cl))
          \<and> (\<forall>m \<in> set (drop (cl_watch cl i) (rd_published (cl_redis cl))). fst m \<noteq> PresenceUpdateChannel)
          \<and> dv_reg (cl_at cl i) = dv_reg (cl_at cl0 i)
          \<and> (\<forall>sid s. map_of (dv_heap (cl_at cl0 i)) sid = Some s \<longrightarrow> accounted cd convs i rs cl sid s))"

lemma cluster_okD:
  assumes "cluster_ok ids cd convs now devs cl0 rs cl"
  shows "redis_calm now devs (cl_redis cl)" "p \<in> set (cl_todo cl) \<Longrightarrow> fst p \<in> ids \<and> plain_record cd (snd p)"
    and "i \<in> ids \<Longrightarrow> reg_ok (cl_at cl i)" "i \<in> ids \<Longrightarrow> cache_agrees convs (dv_members (cl_at cl i))"
    and "i \<in> ids \<Longrightarrow> (dev, i) \<in> set (devs u) \<longleftrightarrow> lookup_session u dev (cl_at cl i) \<noteq> None"
    and "i \<in> ids \<Longrightarrow> cl_read cl i \<le> length (rd_published (cl_redis cl))"
    and "i \<in> ids \<Longrightarrow> m \<in> set (drop (cl_watch cl i) (rd_published (cl_redis cl))) \<Longrightarrow> fst m \<noteq> PresenceUpdateChannel"
    and "i \<in> ids \<Longrightarrow> dv_reg (cl_at cl i) = dv_reg (cl_at cl0 i)"
    and "i \<in> ids \<Longrightarrow> map_of (dv_heap (cl_at cl0 i)) sid = Some s \<Longrightarrow> accounted cd convs i rs cl sid s"
  using assms unfolding cluster_ok_def steady_def by blast+

lemma cluster_okI:
  assumes "redis_calm now devs (cl_redis cl)" and "steady ids convs devs cl"
    and "\<And>p. p \<in> set (cl_todo cl) \<Longrightarrow> fst p \<in> ids \<and> plain_record cd (snd p)"
    and "\<And>i. i \<in> ids \<Longrightarrow> cl_read cl i \<le> length (rd_published (cl_redis cl))"
    and "\<And>i m. i \<in> ids \<Longrightarrow> m \<in> set (drop (cl_watch cl i) (rd_published (cl_redis cl))) \<Longrightarrow> fst m \<noteq> PresenceUpdateChannel"
    and "\<And>i. i \<in> ids \<Longrightarrow> dv_reg (cl_at cl i) = dv_reg (cl_at cl0 i)"
    and "\<And>i sid s. i \<in> ids \<Longrightarrow> map_of (dv_heap (cl_at cl0 i)) sid = Some s \<Longrightarrow> accounted cd convs i rs cl sid s"
  shows "cluster_ok ids cd convs now devs cl0 rs cl"
  using assms unfolding cluster_ok_def by blast

lemma steady_upd:
  assumes "steady ids convs devs cl" and "\<And>i. i \<in> ids \<Longrightarrow> cl_at cl' i = cl_at cl i \<or> delivered cd convs rec (cl_at cl i) (cl_at cl' i)"
  shows "steady ids convs devs cl'"
  unfolding steady_def
proof
  fix i assume i: "i \<in> ids"
  have s: "reg_ok (cl_at cl i)" "cache_agrees convs (dv_members (cl_at cl i))"
    "\<forall>u dev. (dev, i) \<in> set (devs u) \<longleftrightarrow> lookup_session u dev (cl_at cl i) \<noteq> None"
    using assms(1) i unfolding steady_def by blast+
  from assms(2) [OF i] show "reg_ok (cl_at cl' i) \<and> cache_agrees convs (dv_members (cl_at cl' i))
      \<and> (\<forall>u dev. (dev, i) \<in> set (devs u) \<longleftrightarrow> lookup_session u dev (cl_at cl' i) \<noteq> None)"
  proof
    assume del: "delivered cd convs rec (cl_at cl i) (cl_at cl' i)"
    then have reg: "dv_reg (cl_at cl' i) = dv_reg (cl_at cl i)" by (simp add: delivered_def)
    from del s(3) show ?thesis unfolding same_lookup [OF reg] by (simp add: delivered_def)
  qed (use s in simp)
qed

section \<open>Reading the log\<close>

lemma poll_ok:
  assumes ok: "cluster_ok ids cd convs now devs cl0 rs cl" and "i \<in> ids" and "\<forall>rec \<in> set records. plain_record cd rec"
  shows "cluster_ok ids cd convs now devs cl0 (rs @ records) (cl\<lparr>cl_todo := cl_todo cl @ map (Pair i) records\<rparr>)"
proof -
  let ?cl = "cl\<lparr>cl_todo := cl_todo cl @ map (Pair i) records\<rparr>"
  have st: "steady ids convs devs ?cl"
    using ok by (simp add: cluster_ok_def steady_def)
  have "accounted cd convs j (rs @ records) ?cl sid s"
    if "j \<in> ids" "map_of (dv_heap (cl_at cl0 j)) sid = Some s" for j sid s
  proof (rule accounted_elsewhere [OF cluster_okD(9) [OF ok that], of _ _ "mset records"])
    have "map snd (map (Pair i) records) = records" by (induction records) simp_all
    then show "mset (rs @ records) = mset rs + mset records \<and> on_way (meant_for cd convs (ss_UserID s)) j ?cl
        = on_way (meant_for cd convs (ss_UserID s)) j cl + filter_mset (meant_for cd convs (ss_UserID s)) (mset records)"
      by (simp add: on_way_def relays_def del: map_map)
  qed simp
  note acc = this
  show ?thesis
  proof (rule cluster_okI [OF _ st _ _ _ _ acc])
    fix p assume "p \<in> set (cl_todo ?cl)"
    then show "fst p \<in> ids \<and> plain_record cd (snd p)" using cluster_okD(2) [OF ok, of p] assms(2,3) by auto
  qed (use cluster_okD [OF ok] in simp_all)
qed

section \<open>Handling a record\<close>

lemma relays_published:
  assumes "cl_read cl i \<le> length (rd_published (cl_redis cl))" and "distinct remote"
    and "rd_published r = rd_published (cl_redis cl) @ map (\<lambda>j. (channel j, rec)) remote"
    and "cl_read cl' = cl_read cl" and "cl_redis cl' = r"
  shows "relays i cl' = relays i cl @ (if i \<in> set remote then [rec] else [])"
proof -
  have "map snd (filter (\<lambda>m. fst m = channel i) (map (\<lambda>j. (channel j, rec)) remote)) = (if i \<in> set remote then [rec] else [])"
    using assms(2) by (induction remote) auto
  with assms show ?thesis by (simp add: relays_def)
qed

lemma mset_take_out: "k < length xs \<Longrightarrow> mset xs = add_mset (xs ! k) (mset (take k xs @ drop (Suc k) xs))"
  by (metis add_mset_add_single append_take_drop_id Cons_nth_drop_Suc mset.simps(2) mset_append union_mset_add_mset_right)

lemma on_way_handled:
  assumes "k < length (cl_todo cl)" and "cl_todo cl ! k = (j, rec)" and "cl_todo cl' = take k (cl_todo cl) @ drop (Suc k) (cl_todo cl)"
    and "relays i cl' = relays i cl @ (if i \<in> set remote then [rec] else [])"
  shows "on_way P i cl + (if P rec \<and> i \<in> set remote then {#rec#} else {#}) = (if P rec then {#rec#} else {#}) + on_way P i cl'"
proof -
  have "mset (map snd (cl_todo cl)) = add_mset rec (mset (map snd (cl_todo cl')))"
    using mset_take_out [OF assms(1)] assms(2,3) by (metis image_mset_add_mset mset_map snd_conv)
  with assms(4) show ?thesis by (simp add: on_way_def)
qed

lemma handle_ok:
  assumes ok: "cluster_ok ids cd convs now devs cl0 rs cl" and k: "k < length (cl_todo cl)"
    and dist: "\<forall>c us. convs c = Inr us \<longrightarrow> distinct us"
  shows "cluster_ok ids cd convs now devs cl0 rs (Consumer_handle (instances cd now convs) k cl)"
proof -
  obtain j rec where todo: "cl_todo cl ! k = (j, rec)" by fastforce
  with k cluster_okD(2) [OF ok, of "(j, rec)"] have j: "j \<in> ids" and plain: "plain_record cd rec"
    by (metis fst_conv nth_mem snd_conv)+
  have known: "\<forall>u dev. (dev, j) \<in> set (devs u) \<longleftrightarrow> lookup_session u dev (cl_at cl j) \<noteq> None"
    using cluster_okD(5) [OF ok j] by blast
  from Handle_delivered [OF cluster_okD(1,3,4) [OF ok] dist known plain] j obtain d r remote where
      h: "Handle (redis_deps cd now j convs) rec (cl_at cl j, cl_redis cl) = (d, r)"
    and del: "delivered cd convs rec (cl_at cl j) d" and calm: "redis_calm now devs r"
    and pub: "rd_published r = rd_published (cl_redis cl) @ map (\<lambda>j. (channel j, rec)) remote"
    and rel: "relayed cd convs devs j rec remote" by blast
  let ?cl = "cl\<lparr>cl_at := (cl_at cl)(j := d), cl_redis := r, cl_todo := take k (cl_todo cl) @ drop (Suc k) (cl_todo cl)\<rparr>"
  have step: "Consumer_handle (instances cd now convs) k cl = ?cl" by (simp add: Consumer_handle_def todo h)
  have at: "cl_at ?cl i = cl_at cl i \<or> delivered cd convs rec (cl_at cl i) (cl_at ?cl i)" for i using del by simp
  have st: "steady ids convs devs ?cl" by (rule steady_upd [of ids convs devs cl, OF _ at]) (use ok in \<open>simp add: cluster_ok_def\<close>)
  have acc: "accounted cd convs i rs ?cl sid s"
    if i: "i \<in> ids" and s: "map_of (dv_heap (cl_at cl0 i)) sid = Some s" for i sid s
  proof -
    have rel': "relays i ?cl = relays i cl @ (if i \<in> set remote then [rec] else [])"
      by (rule relays_published [OF cluster_okD(6) [OF ok i] _ pub]) (use rel in \<open>simp_all add: relayed_def\<close>)
    note way = on_way_handled [where cl' = ?cl, OF k todo _ rel']
    show ?thesis
    proof (cases "i = j")
      case True
      then have "i \<notin> set remote" using rel by (simp add: relayed_def)
      with way have w: "on_way P i cl = (if P rec then {#rec#} else {#}) + on_way P i ?cl" for P by simp
      from del True have "delivered cd convs rec (cl_at cl i) (cl_at ?cl i)" by simp
      from accounted_delivered [OF cluster_okD(9) [OF ok i s] this cluster_okD(3) [OF ok i] w] show ?thesis .
    next
      case False
      show ?thesis
      proof (rule accounted_elsewhere [OF cluster_okD(9) [OF ok i s], of _ _ "{#}"])
        assume "registered sid s (cl_at cl i)"
        then have "meant_for cd convs (ss_UserID s) rec \<Longrightarrow> i \<in> set remote"
          using rel False cluster_okD(5) [OF ok i, of "ss_DeviceID s" "ss_UserID s"] by (auto simp: relayed_def registered_def)
        with way [of "meant_for cd convs (ss_UserID s)"]
        show "mset rs = mset rs + {#} \<and> on_way (meant_for cd convs (ss_UserID s)) i ?cl
            = on_way (meant_for cd convs (ss_UserID s)) i cl + filter_mset (meant_for cd convs (ss_UserID s)) {#}"
          by (cases "meant_for cd convs (ss_UserID s) rec") simp_all
      qed (simp add: False)
    qed
  qed
  show ?thesis unfolding step
  proof (rule cluster_okI [OF _ st _ _ _ _ acc])
    show "redis_calm now devs (cl_redis ?cl)" using calm by simp
    fix p assume "p \<in> set (cl_todo ?cl)"
    then have "p \<in> set (cl_todo cl)" by (auto dest: in_set_takeD in_set_dropD)
    then show "fst p \<in> ids \<and> plain_record cd (snd p)" by (rule cluster_okD(2) [OF ok])
  next
    fix i assume i: "i \<in> ids"
    show "cl_read ?cl i \<le> length (rd_published (cl_redis ?cl))" using cluster_okD(6) [OF ok i] by (simp add: pub)
    show "dv_reg (cl_at ?cl i) = dv_reg (cl_at cl0 i)" using cluster_okD(8) [OF ok i] at [of i] by (auto simp: delivered_def)
    fix m assume "m \<in> set (drop (cl_watch ?cl i) (rd_published (cl_redis ?cl)))"
    then have "m \<in> set (drop (cl_watch cl i) (rd_published (cl_redis cl))) \<or> (\<exists>j. fst m = channel j)"
      by (auto simp: pub dest!: in_set_dropD [of m "cl_watch cl i - length (rd_published (cl_redis cl))"])
    then show "fst m \<noteq> PresenceUpdateChannel" using cluster_okD(7) [OF ok i, of m] by (elim disjE exE) simp_all
  qed
qed

section \<open>Relayed records and presence updates\<close>

lemma next_publishedD:
  assumes "next_published n r = Some m"
  shows "n < length (rd_published r)" "drop n (rd_published r) = m # drop (Suc n) (rd_published r)"
  using assms by (auto simp: next_published_def Cons_nth_drop_Suc split: if_splits)

lemma relay_ok:
  assumes ok: "cluster_ok ids cd convs now devs cl0 rs cl" and j: "j \<in> ids"
    and dist: "\<forall>c us. convs c = Inr us \<longrightarrow> distinct us"
  shows "cluster_ok ids cd convs now devs cl0 rs (Router_Subscribe (instances cd now convs) j cl)"
proof (cases "next_published (cl_read cl j) (cl_redis cl)")
  case None
  then show ?thesis using ok by (simp add: Router_Subscribe_def)
next
  case (Some m)
  obtain ch rec where m: "m = (ch, rec)" by fastforce
  note n = next_publishedD [OF Some]
  from DeliverRemote_delivered [OF cluster_okD(3,4) [OF ok] dist] j obtain d where
      d: "DeliverRemote (redis_deps cd now j convs) rec (cl_at cl j, cl_redis cl) = (d, cl_redis cl)"
    and del: "delivered cd convs rec (cl_at cl j) d" by blast
  let ?at = "if ch = channel j then (cl_at cl)(j := d) else cl_at cl"
  let ?cl = "cl\<lparr>cl_at := ?at, cl_read := (cl_read cl)(j := cl_read cl j + 1)\<rparr>"
  have step: "Router_Subscribe (instances cd now convs) j cl = ?cl"
    by (simp add: Router_Subscribe_def Some m d)
  have at: "cl_at ?cl i = cl_at cl i \<or> delivered cd convs rec (cl_at cl i) (cl_at ?cl i)" for i using del by simp
  have st: "steady ids convs devs ?cl" by (rule steady_upd [of ids convs devs cl, OF _ at]) (use ok in \<open>simp add: cluster_ok_def\<close>)
  have acc: "accounted cd convs i rs ?cl sid s"
    if i: "i \<in> ids" and s: "map_of (dv_heap (cl_at cl0 i)) sid = Some s" for i sid s
  proof (cases "i = j \<and> ch = channel j")
    case True
    with n(2) m have "relays i cl = rec # relays i ?cl" by (simp add: relays_def)
    then have w: "on_way P i cl = (if P rec then {#rec#} else {#}) + on_way P i ?cl" for P by (simp add: on_way_def)
    from del True have "delivered cd convs rec (cl_at cl i) (cl_at ?cl i)" by simp
    from accounted_delivered [OF cluster_okD(9) [OF ok i s] this cluster_okD(3) [OF ok i] w] show ?thesis .
  next
    case False
    with n(2) m have "relays i ?cl = relays i cl" by (auto simp: relays_def)
    then have w: "on_way P i ?cl = on_way P i cl" for P by (simp add: on_way_def)
    show ?thesis
    proof (rule accounted_elsewhere [OF cluster_okD(9) [OF ok i s], of _ _ "{#}"])
      show "cl_at ?cl i = cl_at cl i" using False by auto
    qed (simp only: w filter_empty_mset add_0_right)
  qed
  show ?thesis unfolding step
  proof (rule cluster_okI [OF _ st _ _ _ _ acc])
    fix i assume i: "i \<in> ids"
    show "cl_read ?cl i \<le> length (rd_published (cl_redis ?cl))" using cluster_okD(6) [OF ok i] n(1) by simp
    show "dv_reg (cl_at ?cl i) = dv_reg (cl_at cl0 i)" using cluster_okD(8) [OF ok i] at [of i] by (auto simp: delivered_def)
  qed (use cluster_okD(1,2,7) [OF ok] in simp_all)
qed

lemma relay_effect:
  assumes ok: "cluster_ok ids cd convs now devs cl0 rs cl" and j: "j \<in> ids"
    and dist: "\<forall>c us. convs c = Inr us \<longrightarrow> distinct us" and n: "cl_read cl j < length (rd_published (cl_redis cl))"
  shows "cl_redis (Router_Subscribe (instances cd now convs) j cl) = cl_redis cl"
    and "cl_todo (Router_Subscribe (instances cd now convs) j cl) = cl_todo cl"
    and "cl_read (Router_Subscribe (instances cd now convs) j cl) = (cl_read cl)(j := Suc (cl_read cl j))"
proof -
  obtain ch rec where m: "next_published (cl_read cl j) (cl_redis cl) = Some (ch, rec)"
    using n by (cases "rd_published (cl_redis cl) ! cl_read cl j") (simp add: next_published_def)
  from DeliverRemote_delivered [OF cluster_okD(3,4) [OF ok] dist] j obtain d where
      "DeliverRemote (redis_deps cd now j convs) rec (cl_at cl j, cl_redis cl) = (d, cl_redis cl)" by blast
  with m show "cl_redis (Router_Subscribe (instances cd now convs) j cl) = cl_redis cl"
    "cl_todo (Router_Subscribe (instances cd now convs) j cl) = cl_todo cl"
    "cl_read (Router_Subscribe (instances cd now convs) j cl) = (cl_read cl)(j := Suc (cl_read cl j))"
    by (simp_all add: Router_Subscribe_def Let_def)
qed

lemma watch_ok:
  assumes ok: "cluster_ok ids cd convs now devs cl0 rs cl" and j: "j \<in> ids"
  shows "cluster_ok ids cd convs now devs cl0 rs (Watcher_Start cd j cl)"
proof (cases "next_published (cl_watch cl j) (cl_redis cl)")
  case None
  then show ?thesis using ok by (simp add: Watcher_Start_def)
next
  case (Some m)
  note n = next_publishedD [OF Some]
  let ?cl = "cl\<lparr>cl_watch := (cl_watch cl)(j := cl_watch cl j + 1)\<rparr>"
  have "fst m \<noteq> PresenceUpdateChannel" by (rule cluster_okD(7) [OF ok j]) (simp add: n(2))
  with Some have step: "Watcher_Start cd j cl = ?cl" by (cases m) (simp add: Watcher_Start_def)
  have st: "steady ids convs devs ?cl" using ok by (simp add: cluster_ok_def steady_def)
  have way: "on_way P i ?cl = on_way P i cl" for P i by (simp add: on_way_def relays_def)
  have acc: "accounted cd convs i rs ?cl sid s" if "i \<in> ids" "map_of (dv_heap (cl_at cl0 i)) sid = Some s" for i sid s
    by (rule accounted_elsewhere [OF cluster_okD(9) [OF ok that], of _ _ "{#}"]) (simp, simp only: way filter_empty_mset add_0_right)
  show ?thesis unfolding step
  proof (rule cluster_okI [OF _ st _ _ _ _ acc])
    fix i m' assume i: "i \<in> ids" and m': "m' \<in> set (drop (cl_watch ?cl i) (rd_published (cl_redis ?cl)))"
    have "m' \<in> set (drop (cl_watch cl i) (rd_published (cl_redis cl)))"
      using m' n(2) by (cases "i = j") simp_all
    then show "fst m' \<noteq> PresenceUpdateChannel" by (rule cluster_okD(7) [OF ok i])
  qed (use cluster_okD(1,2,6,8) [OF ok] in simp_all)
qed

section \<open>Runs\<close>

lemma cluster_run_ok:
  assumes "cluster_run (instances cd now convs) cd ids cl0 rs cl" and "cluster_ok ids cd convs now devs cl0 [] cl0"
    and "\<forall>rec \<in> set rs. plain_record cd rec" and dist: "\<forall>c us. convs c = Inr us \<longrightarrow> distinct us"
  shows "cluster_ok ids cd convs now devs cl0 rs cl"
  using assms(1-3)
proof (induction rule: cluster_run.induct)
  case (cluster_poll cl0 rs cl1 i errs records go cl2)
  show ?case
  proof (cases "errs = []")
    case True
    with cluster_poll poll_ok [of ids cd convs now devs cl0 rs cl1 i records] show ?thesis by (simp add: Consumer_poll_def)
  qed (use cluster_poll in \<open>simp add: Consumer_poll_def\<close>)
qed (simp_all add: handle_ok [OF _ _ dist] relay_ok [OF _ _ dist] watch_ok)

text \<open>A steady cluster that has nothing to do.\<close>

lemma cluster_ok_start:
  assumes "redis_calm now devs (cl_redis cl)" and "steady ids convs devs cl" and "settled ids cl"
    and "\<forall>i \<in> ids. \<forall>m \<in> set (drop (cl_watch cl i) (rd_published (cl_redis cl))). fst m \<noteq> PresenceUpdateChannel"
  shows "cluster_ok ids cd convs now devs cl [] cl"
proof (rule cluster_okI [OF assms(1,2)])
  fix i sid s assume "i \<in> ids" and s: "map_of (dv_heap (cl_at cl i)) sid = Some s"
  with assms(3) have "on_way P i cl = {#}" for P by (simp add: on_way_def relays_def settled_def)
  with s show "accounted cd convs i [] cl sid s" unfolding accounted_def by (intro exI [of _ "[]"]) simp
qed (use assms(3,4) in \<open>auto simp: settled_def\<close>)

end
