(* ===== verification/ClusterProps.thy ===== *)
theory ClusterProps
  imports ClusterRun DelivProps
begin




text \<open>Two instances: \<open>ann\<close> is on the first, \<open>bob\<close> on the second; both are in the conversation \<open>g\<close>.\<close>

definition demo_hub2 :: "wire delivery" where
  "demo_hub2 = fst (conn_exec idle_deps (Connect ''s2'' ''bob'' ''web'') (\<lparr>dv_heap = [], dv_reg = [], dv_members = Cache_New\<rparr>, ()))"

definition demo_cluster :: "wire cluster" where
  "demo_cluster = \<lparr>cl_at = (\<lambda>i. if i = ''i1'' then demo_hub else demo_hub2), cl_todo = [], cl_read = (\<lambda>_. 2), cl_watch = (\<lambda>_. 2),
     cl_redis = demo_redis\<rparr>"

definition demo_convs :: "string \<Rightarrow> string + string list" where
  "demo_convs c = (if c = ''g'' then Inr [''ann'', ''bob''] else Inl ''not found'')"

definition demo_deleted :: "string \<Rightarrow> wire" where
  "demo_deleted m = WEnv (EventEnvelope EVENT_TYPE_MESSAGE_DELETED 1 0 (WEvent (MessageDeletedEvent ''g'' m)))"

text \<open>The first instance reads two records, whose goroutines run in the other order, and the second gets both.\<close>

definition demo_cluster_end :: "wire cluster" where
  "demo_cluster_end =
     (let dds = instances wire_codec 1 demo_convs;
          cl1 = snd (Consumer_poll ''i1'' [] [demo_deleted ''m1'', demo_deleted ''m2''] demo_cluster);
          cl2 = Consumer_handle dds 0 (Consumer_handle dds 1 cl1)
      in fold (Router_Subscribe dds) [''i1'', ''i2'', ''i1'', ''i2''] cl2)"












text \<open>
  The order of the log is not kept: the second event of a conversation can reach a session before the
  first. And a poll that brings an error for one partition throws away the records of the others.
\<close>

theorem log_order_is_not_kept:
  "map_option (map be_payload \<circ> ss_resumeBuffer) (map_of (dv_heap (cl_at demo_cluster_end ''i2'')) ''s2'')
     = Some [demo_deleted ''m2'', demo_deleted ''m1'']"
  by code_simp

theorem fetch_error_drops_records:
  "Consumer_poll i [FetchErr t] records cl = (True, cl)"
  by (simp add: Consumer_poll_def)

text \<open>Every run can be completed.\<close>

lemma drain_todo:
  assumes "cluster_run (instances cd now convs) cd ids cl0 rs cl" and "cluster_ok ids cd convs now devs cl0 rs cl"
    and dist: "\<forall>c us. convs c = Inr us \<longrightarrow> distinct us"
  shows "\<exists>cl'. cluster_run (instances cd now convs) cd ids cl0 rs cl' \<and> cluster_ok ids cd convs now devs cl0 rs cl' \<and> cl_todo cl' = []"
  using assms(1,2)
proof (induction "length (cl_todo cl)" arbitrary: cl)
  case (Suc n)
  let ?cl = "Consumer_handle (instances cd now convs) 0 cl"
  have "cl_todo ?cl = drop 1 (cl_todo cl)" by (simp add: Consumer_handle_def split: prod.split)
  with Suc.hyps(2) have "n = length (cl_todo ?cl)" by simp
  moreover have "0 < length (cl_todo cl)" using Suc.hyps(2) by (metis zero_less_Suc)
  ultimately show ?case using Suc.hyps(1) cluster_handle [OF Suc.prems(1)] handle_ok [OF Suc.prems(2) _ dist] by blast
qed auto

lemma read_relays:
  assumes "cluster_run (instances cd now convs) cd ids cl0 rs cl" and "cluster_ok ids cd convs now devs cl0 rs cl"
    and dist: "\<forall>c us. convs c = Inr us \<longrightarrow> distinct us" and j: "j \<in> ids"
  shows "\<exists>cl'. cluster_run (instances cd now convs) cd ids cl0 rs cl' \<and> cluster_ok ids cd convs now devs cl0 rs cl'
    \<and> cl_todo cl' = cl_todo cl \<and> cl_redis cl' = cl_redis cl
    \<and> cl_read cl' = (cl_read cl)(j := length (rd_published (cl_redis cl)))"
  using assms(1,2)
proof (induction "length (rd_published (cl_redis cl)) - cl_read cl j" arbitrary: cl)
  case 0
  with cluster_okD(6) [OF 0(3) j] have "cl_read cl j = length (rd_published (cl_redis cl))" by simp
  with 0 show ?case by (intro exI [of _ cl]) auto
next
  case (Suc n)
  let ?cl = "Router_Subscribe (instances cd now convs) j cl"
  from Suc.hyps(2) have "cl_read cl j < length (rd_published (cl_redis cl))" by simp
  note e = relay_effect [OF Suc.prems(2) j dist this]
  with Suc.hyps(2) have "n = length (rd_published (cl_redis ?cl)) - cl_read ?cl j" by simp
  from Suc.hyps(1) [OF this cluster_relay [OF Suc.prems(1) j] relay_ok [OF Suc.prems(2) j dist]] e show ?case by auto
qed

theorem every_run_settles:
  assumes "cluster_run (instances cd now convs) cd ids cl0 rs cl" and "cluster_ok ids cd convs now devs cl0 rs cl"
    and dist: "\<forall>c us. convs c = Inr us \<longrightarrow> distinct us" and "finite ids"
  shows "\<exists>cl'. cluster_run (instances cd now convs) cd ids cl0 rs cl' \<and> settled ids cl'"
proof -
  have "\<exists>cl'. cluster_run (instances cd now convs) cd ids cl0 rs cl' \<and> cluster_ok ids cd convs now devs cl0 rs cl'
      \<and> cl_todo cl' = [] \<and> (\<forall>i \<in> A. cl_read cl' i = length (rd_published (cl_redis cl')))"
    if "A \<subseteq> ids" for A
    using finite_subset [OF that assms(4)] that
  proof (induction rule: finite_induct)
    case empty
    then show ?case using drain_todo [OF assms(1,2) dist] by auto
  next
    case (insert j A)
    then obtain cl1 where "cluster_run (instances cd now convs) cd ids cl0 rs cl1" "cluster_ok ids cd convs now devs cl0 rs cl1"
      "cl_todo cl1 = []" "\<forall>i \<in> A. cl_read cl1 i = length (rd_published (cl_redis cl1))" by auto
    with read_relays [OF this(1,2) dist, of j] insert show ?case by (metis fun_upd_apply insert_iff insert_subset)
  qed
  from this [OF subset_refl] show ?thesis unfolding settled_def by blast
qed

end
