(* ===== verification/Flow.thy ===== *)
theory Flow
  imports MsgProps ClusterProps
begin

text \<open>
  From the message service to the clients: a stored message has an event in the outbox, the worker
  publishes it to the log, the consumers of the delivery service read the log, and the event ends with
  the sessions of the members.
\<close>

section \<open>Every stored message is announced\<close>











section \<open>What a session does with an event\<close>







section \<open>From a message to the sessions of the members\<close>









end
