(* ===== verification/Spec2Isabelle.thy ===== *)
theory Spec2Isabelle
  imports ConvProps MsgProps DelivProps AuthProps ProfProps AccountFlow GwProps ClusterProps Flow
begin

text \<open>
  RealChat: a verification of the Go services under \<^verbatim>\<open>src/services\<close> and \<^verbatim>\<open>src/edge\<close>.

  RealChat is a chat system of six services and a gateway. The gateway answers HTTP requests, checks the
  access token and calls the services over gRPC. The auth service keeps accounts and sessions, the
  profile service names, contacts and blocks, the conversation service conversations and their
  members, the message service the messages. These four write what happened to an outbox table in the
  transaction of the change (the profile service: in a statement of its own); a worker publishes the
  outbox to Kafka. The delivery service reads Kafka and sends the events to the WebSocket sessions of
  the members, on its own instance or, through a Redis channel, on another one; the presence service
  keeps in Redis which device is connected to which instance.

  Every service is modelled as the functions of its source on explicit state, with the names of the
  source, and the services are composed as the program composes them: the message service calls the
  conversation service (\<open>MsgConv\<close>), the gateway calls all of them (\<open>Stack\<close>), the profile service
  consumes the log that the auth service wrote (\<open>AccountFlow\<close>), and the instances of the delivery
  service share a Redis with the presence service (\<open>Cluster\<close>).
\<close>

section \<open>Which theory models which part\<close>

text \<open>
  Shared parts.
  \<^item> \<open>Prelude\<close>: Go errors with wrapping and \<^verbatim>\<open>errors.Is\<close>, maps in insertion order, lists by index.
  \<^item> \<open>Contracts\<close>: the events of \<^verbatim>\<open>contracts/\<close> and the codec that stands for Protobuf (\<open>codec_ok\<close>: what is
    marshalled unmarshals to itself).
  \<^item> \<open>SqlTx\<close>: database sessions with scripted failures and the transaction managers
    (\<^verbatim>\<open>internal/tx/manager.go\<close>); \<open>Monotone\<close> and \<open>TxJoint\<close>: what every run of a transaction respects (locales
    \<open>db_order\<close>, \<open>world_order\<close>, \<open>transactor\<close>).
  \<^item> \<open>Kafka\<close>, \<open>RedisClient\<close>, \<open>Grpc\<close>, \<open>Http\<close>: producer, cache client, interceptors and error mapping,
    handlers and tokens; \<open>GoText\<close>, \<open>Encoding\<close>: the string routines, hexadecimal and base 64.

  Conversation service (\<^verbatim>\<open>services/conversation\<close>).
  \<^item> \<open>ConvDomain\<close>, \<open>ConvRepo\<close>, \<open>ConvApp\<close>, \<open>ConvWorker\<close>, \<open>ConvGrpc\<close>: \<^verbatim>\<open>internal/domain\<close>,
    \<^verbatim>\<open>internal/repository/postgres\<close> with the constraints of \<^verbatim>\<open>migrations\<close> and \<^verbatim>\<open>internal/cache\<close>, \<^verbatim>\<open>internal/application\<close>,
    \<^verbatim>\<open>internal/outbox\<close> with \<^verbatim>\<open>internal/kafka\<close>, \<^verbatim>\<open>internal/transport/grpc\<close>.
  \<^item> \<open>ConvInv\<close>, \<open>ConvOps\<close>: the invariant of the tables and that every operation keeps it; \<open>ConvExec\<close>: the
    service as a state machine (\<open>conv_run\<close>) that refines an abstract one; \<open>ConvLog\<close>: outbox, broker and dead
    letters; \<open>ConvMembers\<close>, \<open>ConvCreate\<close>, \<open>ConvSeq\<close>: membership, creation, sequence numbers and listing;
    \<open>ConvProps\<close>: the properties.

  Message service (\<^verbatim>\<open>services/message\<close>).
  \<^item> \<open>MsgDomain\<close>, \<open>MsgRepo\<close>, \<open>MsgApp\<close>, \<open>MsgWorker\<close>, \<open>MsgGrpc\<close>: the same layers.
  \<^item> \<open>MsgInv\<close>, \<open>MsgOps\<close>: the invariant (\<open>msg_inv\<close>) and its preservation; \<open>MsgExec\<close>: the state machine
    (\<open>msg_run\<close>); \<open>MsgClient\<close>: what the service relies on (locales \<open>conv_client\<close>, \<open>msg_world\<close>);
    \<open>MsgConv\<close>: the conversation service behind it, which discharges \<open>conv_client\<close>; \<open>MsgSync\<close>: pages and polls;
    \<open>MsgProps\<close>: the properties.

  Delivery and presence (\<^verbatim>\<open>services/delivery\<close>, \<^verbatim>\<open>services/presence\<close>).
  \<^item> \<open>WsSession\<close>: \<^verbatim>\<open>websocket/session.go\<close>; \<open>Membership\<close>: \<^verbatim>\<open>membership/cache.go\<close>; \<open>Dispatcher\<close>:
    \<^verbatim>\<open>websocket/registry.go\<close>, \<^verbatim>\<open>internal/router\<close>, \<^verbatim>\<open>dispatcher\<close>; \<open>WsHandler\<close>: \<^verbatim>\<open>websocket/handler.go\<close>,
    \<^verbatim>\<open>heartbeat.go\<close>, \<^verbatim>\<open>presencewatcher\<close>; \<open>Presence\<close>: the presence service on a Redis with expiry and failures;
    \<open>Cluster\<close>: the consumer and subscription loops, and all instances on one Redis.
  \<^item> \<open>DelivLemmas\<close>, \<open>DelivDispatch\<close>, \<open>DelivSync\<close>, \<open>DelivPresence\<close>: what an event does to the sessions (locale
    \<open>directory\<close>: what the dispatcher needs of the presence service), catching up (locale \<open>paged_source\<close>: what
    the handler needs of the message service, interpreted on its model), the presence service behind the
    dispatcher; \<open>PresenceRun\<close>: leases; \<open>ClusterInv\<close>, \<open>ClusterRun\<close>: each step of a cluster, and its runs;
    \<open>DelivProps\<close>, \<open>ClusterProps\<close>: the properties.

  Auth and profile (\<^verbatim>\<open>services/auth\<close>, \<^verbatim>\<open>services/profile\<close>).
  \<^item> \<open>AuthRepo\<close>, \<open>AuthApp\<close>, \<open>AuthWorker\<close>, \<open>AuthGrpc\<close>: repository and security, service, outbox worker, the gRPC
    and HTTP servers; \<open>AuthExec\<close>, \<open>AuthInv\<close>: the state machine (\<open>auth_run\<close>), where a refresh is also two half
    steps so that runs interleave refreshes, and its invariant; \<open>AuthProps\<close>: the properties.
  \<^item> \<open>ProfRepo\<close>, \<open>ProfApp\<close>, \<open>ProfGrpc\<close>, \<open>ProfInv\<close>, \<open>ProfFacts\<close>, \<open>ProfProps\<close>: likewise; no operation of the
    profile service runs in a transaction, so its invariant holds after every single statement.
  \<^item> \<open>AccountFlow\<close>: every announced account gets its profile.

  Gateway (\<^verbatim>\<open>edge/gateway\<close>) and configuration.
  \<^item> \<open>Gateway\<close>, \<open>GwConv\<close>: router, middleware and handlers over the clients of the services; \<open>GwFacts\<close>: on whose behalf
    a request acts; \<open>Stack\<close>: every client is the server of its service (locale \<open>conversation_front\<close>);
    \<open>Posting\<close>, \<open>GwDemo\<close>, \<open>GwProps\<close>: where messages come from, a concrete stack, the properties.
  \<^item> \<open>Config\<close>: every \<^verbatim>\<open>internal/config/config.go\<close>.
  \<^item> \<open>Flow\<close>: a message on its way from the message service through its outbox and the log to the sessions.
\<close>

section \<open>What the theorems show\<close>

text \<open>
  \<^item> Whole program: membership changes only by a request that carries the token of an admin of that
    conversation; every stored message comes from the subject of a verified token who was a participant;
    a client that logs in gets a token which the gateway accepts for it; an event that a cluster reads
    reaches every registered session of every member once; every stored message ends with the sessions
    of the members once the outbox is empty and the log is read.
  \<^item> Tables: the invariants of the four databases hold in every reachable state, under every pattern of
    driver failures, retries and concurrent steps, because each service is a transition system whose
    runs quantify over the scripts; transactions are all or nothing.
  \<^item> Outbox: a row is marked only after the broker acknowledged it; polls empty the outbox; rows that
    keep failing go to the dead letters; accounts become profiles whatever the order of the records.
  \<^item> Delivery: frames reach the wire in the order they were accepted and within the bounds of the queue; a
    client that resumes is sent what it missed, and the paging loop ends; presence implements leases.
  \<^item> Security: a used refresh token stays refused, a refresh answers its owner, a failed login does not say
    why, a block lasts until it is lifted.
  \<^item> Refinement: the conversation operations implement operations on sets of members, the membership cache a
    relation, the presence service a map with leases.
\<close>

section \<open>How the model reads the code\<close>

text \<open>
  \<^item> An SQL statement is a function on the tables, with the constraints of the migrations. A session takes
    the outcome of each \<^verbatim>\<open>BeginTx\<close>, statement and \<^verbatim>\<open>Commit\<close> from a script (\<open>Proceed\<close>, \<open>Fails\<close>, \<open>Lost\<close>), so theorems
    over all scripts are theorems over all failures. A serializable transaction runs as one step; a
    statement outside a transaction takes effect on its own. After an error PostgreSQL refuses the rest
    of a block. Serial numbers taken by a rolled back transaction are given again, which no one can see.
  \<^item> Errors are values; the text of an error is kept where the code looks at it (the unique violation is
    recognised by the prefix of its message). A panic of the JWT code is an outcome that the recovery
    middleware answers with 500.
  \<^item> Strings are lists of bytes. \<^verbatim>\<open>int64\<close> values are \<open>int\<close> where the code only compares and adds one; the
    largest one is \<open>max_bigint\<close>, where the column of a sequence number overflows. Durations of the
    configuration are nanoseconds that wrap at 64 bits (\<open>Config\<close>); times elsewhere are in seconds.
  \<^item> Iteration over a Go map is the order of insertion; \<open>sort.Slice\<close> is a parameter that sorts
    (\<open>sort_slice_ok\<close>).
  \<^item> Code outside the repository is a parameter with named hypotheses: Protobuf (\<open>codec_ok\<close>), the JSON of
    stored answers (\<open>msg_json_ok\<close>), the broker (\<open>broker_ok\<close>, \<open>broker_acks\<close>, \<open>log_kept\<close>, \<open>log_apart\<close>,
    \<open>writer_ok\<close>, \<open>publishes\<close>), the caches (\<open>cache_quiet\<close>, \<open>cache_true\<close>), gRPC status codes (\<open>status_ok\<close>), bcrypt,
    the JWT library and identifiers (\<open>bcrypt_ok\<close>, \<open>jwt_ok\<close>, \<open>uuid_ok\<close>), the answers of other services
    (\<open>tells_members\<close>). Each property that uses one is applied to a concrete instance.
  \<^item> Redis means what its documentation says of the commands used; publishing to a channel reaches a
    subscription once and in order.
  \<^item> Goroutines: methods under a lock are single steps. The workers of a parallel call run in the order of
    its list. The goroutines the consumer starts per record run in any order (\<open>cl_todo\<close>), each as one
    step. Runs of a service interleave its operations and polls with moves of the other services.
  \<^item> Bounds and fuel: \<open>syncConversation\<close> gets fuel one more than a hundredth of the messages, which
    \<open>DelivSync\<close> proves enough; \<open>WithTx\<close> retries as often as the source does; the send queue has the capacity
    of the source. The trimming of white space (\<open>GoText\<close>) runs on the length of its string.
  \<^item> The property about where messages come from takes the conversation service without its Redis cache of
    memberships, since a stale entry admits a removed member for its time to live.
\<close>

section \<open>Not modelled\<close>

text \<open>
  The \<^verbatim>\<open>main.go\<close> files (their wiring is what \<open>Stack\<close> and \<open>Cluster\<close> compose), listening and shutdown, logging,
  metrics and tracing, health checks, timeouts of requests, the decision of the rate limiter (an
  argument of the handler), the Protobuf wire format and generated accessors, read deadlines and pongs of a
  WebSocket, and the deployment files. \<^verbatim>\<open>Repository.InsertTx\<close> of the profile service is not called.
\<close>

end
